(* ===== verification/NFS_Prelude.thy ===== *)
theory NFS_Prelude
  imports Main "HOL-Library.Word"
begin

text \<open>
  Shared vocabulary of the development: the machine integers of the Rust sources, the
  outcome type of a fallible Rust function, the byte buffers of the wire codec with their
  primitive reads and writes, and the generic lemmas on big-endian byte sequences that the
  components use.

  \<^item> \<open>u8\<close>, \<open>u16\<close>, \<open>u32\<close>, \<open>u64\<close> are words of that width; \<open>i32\<close> and
    \<open>i64\<close> are the same bit patterns, read with \<open>sint\<close> where the sign matters.
  \<^item> \<open>usize\<close> is \<open>nat\<close>: lengths of objects in memory, on a 64-bit target;
    \<open>usize_max\<close> is its largest value.
  \<^item> A \<open>Bytes\<close>/\<open>BytesMut\<close> buffer is the list of the bytes it holds. Reads take from the
    front and writes append at the end; a read past the end panics, which is the value
    \<open>Panic\<close> here.
  \<^item> A Rust \<open>String\<close> is a \<open>string\<close> whose characters are its UTF-8 bytes.
\<close>

unbundle bit_operations_syntax

subsection \<open>Machine types\<close>

type_synonym u8 = "8 word"
type_synonym u16 = "16 word"
type_synonym u32 = "32 word"
type_synonym u64 = "64 word"
type_synonym i32 = "32 word"
type_synonym i64 = "64 word"
type_synonym bytes = "u8 list"

definition u32_max :: nat where
  "u32_max = 2 ^ 32 - 1"

definition usize_max :: nat where
  "usize_max = 2 ^ 64 - 1"

subsection \<open>Outcomes of a Rust function\<close>

text \<open>
  \<open>Ok\<close> and \<open>Err\<close> are the two variants of Rust's \<open>Result\<close>; \<open>Panic\<close> is a call that
  unwinds instead of returning.
\<close>

datatype ('a, 'e) result = Ok 'a | Err 'e | Panic

text \<open>The operator \<open>?\<close> on a result, followed by the rest of the function.\<close>

fun and_then :: "('a, 'e) result \<Rightarrow> ('a \<Rightarrow> ('b, 'e) result) \<Rightarrow> ('b, 'e) result" where
  "and_then (Ok x) f = f x"
| "and_then (Err e) f = Err e"
| "and_then Panic f = Panic"

fun map_ok :: "('a \<Rightarrow> 'b) \<Rightarrow> ('a, 'e) result \<Rightarrow> ('b, 'e) result" where
  "map_ok f (Ok x) = Ok (f x)"
| "map_ok f (Err e) = Err e"
| "map_ok f Panic = Panic"

text \<open>The conversion of the error that \<open>?\<close> performs through \<open>From\<close>.\<close>

fun map_err :: "('e \<Rightarrow> 'f) \<Rightarrow> ('a, 'e) result \<Rightarrow> ('a, 'f) result" where
  "map_err f (Ok x) = Ok x"
| "map_err f (Err e) = Err (f e)"
| "map_err f Panic = Panic"

fun is_ok :: "('a, 'e) result \<Rightarrow> bool" where
  "is_ok (Ok _) = True"
| "is_ok (Err _) = False"
| "is_ok Panic = False"

definition ok_or :: "'a option \<Rightarrow> 'e \<Rightarrow> ('a, 'e) result" where
  "ok_or opt e = (case opt of Some x \<Rightarrow> Ok x | None \<Rightarrow> Err e)"

lemma and_then_eq_Ok [simp]:
  "and_then r f = Ok y \<longleftrightarrow> (\<exists>x. r = Ok x \<and> f x = Ok y)"
  by (cases r) auto

lemma and_then_eq_Err [simp]:
  "and_then r f = Err e \<longleftrightarrow> r = Err e \<or> (\<exists>x. r = Ok x \<and> f x = Err e)"
  by (cases r) auto

lemma and_then_eq_Panic [simp]:
  "and_then r f = Panic \<longleftrightarrow> r = Panic \<or> (\<exists>x. r = Ok x \<and> f x = Panic)"
  by (cases r) auto

lemma map_ok_eq_iff [simp]:
  "map_ok f r = Ok y \<longleftrightarrow> (\<exists>x. r = Ok x \<and> y = f x)"
  "map_ok f r = Err e \<longleftrightarrow> r = Err e"
  "map_ok f r = Panic \<longleftrightarrow> r = Panic"
  by (cases r; auto)+

lemma map_err_eq_iff [simp]:
  "map_err f r = Ok y \<longleftrightarrow> r = Ok y"
  "map_err f r = Err d \<longleftrightarrow> (\<exists>e. r = Err e \<and> d = f e)"
  "map_err f r = Panic \<longleftrightarrow> r = Panic"
  by (cases r; auto)+

lemma Ok_eq_map_err [simp]:
  "Ok y = map_err f r \<longleftrightarrow> r = Ok y" "Panic = map_err f r \<longleftrightarrow> r = Panic"
  by (cases r; auto)+

lemma and_then_map_ok [simp]: "and_then (map_ok f r) g = and_then r (\<lambda>x. g (f x))"
  by (cases r) auto

lemma map_ok_and_then: "map_ok f (and_then r g) = and_then r (\<lambda>x. map_ok f (g x))"
  by (cases r) auto

lemma and_then_assoc: "and_then (and_then r f) g = and_then r (\<lambda>x. and_then (f x) g)"
  by (cases r) auto

lemma map_ok_comp [simp]: "map_ok f (map_ok g r) = map_ok (\<lambda>x. f (g x)) r"
  by (cases r) auto

lemma map_ok_id [simp]: "map_ok (\<lambda>x. x) r = r"
  by (cases r) auto

subsection \<open>Operations on a state\<close>

text \<open>
  A stateful fallible function: from a state, the outcome and the state left behind, also
  when the outcome is an error. The whole value is \<open>None\<close> when the function is still
  waiting for an answer of its environment.
\<close>

type_synonym ('s, 'e, 'a) op = "'s \<Rightarrow> (('a, 'e) result \<times> 's) option"

definition op_lift :: "('a, 'e) result \<Rightarrow> ('s, 'e, 'a) op" where
  "op_lift r s = Some (r, s)"

definition op_bind :: "('s, 'e, 'a) op \<Rightarrow> ('a \<Rightarrow> ('s, 'e, 'b) op) \<Rightarrow> ('s, 'e, 'b) op" where
  "op_bind m f s =
     (case m s of
        None \<Rightarrow> None
      | Some (Ok x, s') \<Rightarrow> f x s'
      | Some (Err e, s') \<Rightarrow> Some (Err e, s')
      | Some (Panic, s') \<Rightarrow> Some (Panic, s'))"

text \<open>The operation with its value dropped.\<close>

definition op_void :: "('s, 'e, 'a) op \<Rightarrow> ('s, 'e, unit) op" where
  "op_void m = op_bind m (\<lambda>_. op_lift (Ok ()))"

definition op_map_err :: "('e \<Rightarrow> 'f) \<Rightarrow> ('s, 'e, 'a) op \<Rightarrow> ('s, 'f, 'a) op" where
  "op_map_err f m s = map_option (\<lambda>(r, s'). (map_err f r, s')) (m s)"

text \<open>\<open>match m { Ok(x) => f(x), Err(e) => g(e) }\<close>\<close>

definition op_match ::
  "('s, 'e, 'a) op \<Rightarrow> ('a \<Rightarrow> ('s, 'f, 'b) op) \<Rightarrow> ('e \<Rightarrow> ('b, 'f) result) \<Rightarrow> ('s, 'f, 'b) op" where
  "op_match m f g s =
     (case m s of
        None \<Rightarrow> None
      | Some (Ok x, s') \<Rightarrow> f x s'
      | Some (Err e, s') \<Rightarrow> Some (g e, s')
      | Some (Panic, s') \<Rightarrow> Some (Panic, s'))"

lemma op_match_eq:
  "op_match m f g s = Some (r, s'') \<longleftrightarrow>
     (\<exists>x s'. m s = Some (Ok x, s') \<and> f x s' = Some (r, s'')) \<or>
     (\<exists>e. m s = Some (Err e, s'') \<and> r = g e) \<or> (m s = Some (Panic, s'') \<and> r = Panic)"
  by (auto simp: op_match_def split: option.splits prod.splits result.splits)

lemma op_bind_simps [simp]:
  "m s = None \<Longrightarrow> op_bind m f s = None"
  "m s = Some (Ok x, s') \<Longrightarrow> op_bind m f s = f x s'"
  "m s = Some (Err e, s') \<Longrightarrow> op_bind m f s = Some (Err e, s')"
  "m s = Some (Panic, s') \<Longrightarrow> op_bind m f s = Some (Panic, s')"
  by (simp_all add: op_bind_def)

lemma op_lift_bind [simp]: "op_bind (op_lift (Ok x)) f = f x"
  by (rule ext) (simp add: op_bind_def op_lift_def)

lemma op_bind_eq:
  "op_bind m f s = Some (r, s'') \<longleftrightarrow>
     (\<exists>x s'. m s = Some (Ok x, s') \<and> f x s' = Some (r, s'')) \<or>
     (\<exists>e. m s = Some (Err e, s'') \<and> r = Err e) \<or> (m s = Some (Panic, s'') \<and> r = Panic)"
  by (auto simp: op_bind_def split: option.splits prod.splits result.splits)

lemma op_map_err_eq:
  "op_map_err f m s = Some (r, s') \<longleftrightarrow> (\<exists>r0. m s = Some (r0, s') \<and> r = map_err f r0)"
  by (auto simp: op_map_err_def)

lemma op_map_err_simps [simp]:
  "m s = None \<Longrightarrow> op_map_err f m s = None"
  "m s = Some (Ok x, s') \<Longrightarrow> op_map_err f m s = Some (Ok x, s')"
  "m s = Some (Err e, s') \<Longrightarrow> op_map_err f m s = Some (Err (f e), s')"
  "m s = Some (Panic, s') \<Longrightarrow> op_map_err f m s = Some (Panic, s')"
  by (simp_all add: op_map_err_def)

subsection \<open>Conversations\<close>

text \<open>
  \<open>conversation ask s c s'\<close>: from \<open>s\<close> to \<open>s'\<close> the questions of \<open>c\<close> were asked one after the other and got the
  answers of \<open>c\<close>.
\<close>

inductive conversation :: "('q \<Rightarrow> ('s, 'e, 'a) op) \<Rightarrow> 's \<Rightarrow> ('q \<times> 'a) list \<Rightarrow> 's \<Rightarrow> bool" for ask where
  silence: "conversation ask s [] s"
| turn: "ask q s = Some (Ok x, s1) \<Longrightarrow> conversation ask s1 c s' \<Longrightarrow> conversation ask s ((q, x) # c) s'"

inductive_cases conversation_ConsE: "conversation ask s ((q, x) # c) s'"

text \<open>When the answers are a view of other answers, so is the conversation.\<close>

lemma conversation_view:
  assumes "conversation (\<lambda>q. op_bind (m q) (\<lambda>y. op_lift (Ok (g y)))) s c s'"
  shows "\<exists>c'. conversation m s c' s' \<and> c = map (\<lambda>(q, y). (q, g y)) c'"
  using assms
proof induction
  case (turn q s x s1 c s')
  then obtain c' where "conversation m s1 c' s'" "c = map (\<lambda>(q, y). (q, g y)) c'" by blast
  moreover obtain y where "m q s = Some (Ok y, s1)" "x = g y"
    using turn.hyps(1) by (auto simp: op_bind_eq op_lift_def)
  ultimately show ?case by (intro exI [of _ "(q, y) # c'"]) (simp add: conversation.turn)
qed (auto intro: conversation.silence)

subsection \<open>Operations that keep an invariant\<close>

text \<open>
  \<open>op_safe I m\<close>: from a state that satisfies \<open>I\<close>, whatever \<open>m\<close> returns is not a panic
  and the state it leaves satisfies \<open>I\<close> again.
\<close>

definition op_safe :: "('s \<Rightarrow> bool) \<Rightarrow> ('s, 'e, 'a) op \<Rightarrow> bool" where
  "op_safe I m \<longleftrightarrow> (\<forall>s r s'. I s \<longrightarrow> m s = Some (r, s') \<longrightarrow> I s' \<and> r \<noteq> Panic)"

named_theorems op_safe \<open>operations that keep the invariant\<close>

lemma op_safe_lift [op_safe]: "r \<noteq> Panic \<Longrightarrow> op_safe I (op_lift r)"
  by (auto simp: op_safe_def op_lift_def)

lemma op_safe_bind [op_safe]:
  "op_safe I m \<Longrightarrow> (\<And>x. op_safe I (f x)) \<Longrightarrow> op_safe I (op_bind m f)"
  unfolding op_safe_def op_bind_eq by blast

lemma op_safe_map_err [op_safe]: "op_safe I m \<Longrightarrow> op_safe I (op_map_err f m)"
  by (fastforce simp: op_safe_def op_map_err_eq)

lemma op_safe_if [op_safe]: "op_safe I a \<Longrightarrow> op_safe I b \<Longrightarrow> op_safe I (if c then a else b)"
  by simp

lemma op_safe_option [op_safe]:
  "op_safe I a \<Longrightarrow> (\<And>x. op_safe I (f x)) \<Longrightarrow> op_safe I (case opt of None \<Rightarrow> a | Some x \<Rightarrow> f x)"
  by (cases opt) simp_all

lemma op_safe_match [op_safe]:
  "op_safe I m \<Longrightarrow> (\<And>x. op_safe I (f x)) \<Longrightarrow> (\<And>e. g e \<noteq> Panic) \<Longrightarrow> op_safe I (op_match m f g)"
  unfolding op_safe_def op_match_eq by (intro allI impI, elim disjE exE conjE) (blast, metis+)

lemma op_safeD: "op_safe I m \<Longrightarrow> I s \<Longrightarrow> m s = Some (r, s') \<Longrightarrow> I s' \<and> r \<noteq> Panic"
  by (auto simp: op_safe_def)

text \<open>A constructor that never panics and whose value satisfies \<open>Q\<close>.\<close>

definition op_makes :: "('a \<Rightarrow> bool) \<Rightarrow> ('s, 'e, 'a) op \<Rightarrow> bool" where
  "op_makes Q m \<longleftrightarrow> (\<forall>s r s'. m s = Some (r, s') \<longrightarrow> r \<noteq> Panic \<and> (\<forall>v. r = Ok v \<longrightarrow> Q v))"

lemma op_makes_bind:
  "op_makes P m \<Longrightarrow> (\<And>x. P x \<Longrightarrow> op_makes Q (f x)) \<Longrightarrow> op_makes Q (op_bind m f)"
  unfolding op_makes_def op_bind_eq by blast

lemma op_makes_map_err: "op_makes Q m \<Longrightarrow> op_makes Q (op_map_err f m)"
  by (fastforce simp: op_makes_def op_map_err_eq)

lemma op_makes_lift: "r \<noteq> Panic \<Longrightarrow> (\<And>v. r = Ok v \<Longrightarrow> Q v) \<Longrightarrow> op_makes Q (op_lift r)"
  by (simp add: op_makes_def op_lift_def)

subsection \<open>Prefixes\<close>

lemma ex_prefix_drop: "\<exists>pre. xs = pre @ drop n xs"
  by (metis append_take_drop_id)

subsection \<open>Big-endian bytes\<close>

text \<open>
  \<open>be_bytes n w\<close> is the \<open>n\<close> low bytes of \<open>w\<close>, most significant first (Rust's
  \<open>to_be_bytes\<close> at \<open>n = 4\<close> and \<open>n = 8\<close>); \<open>from_be\<close> is \<open>from_be_bytes\<close>.
\<close>

fun be_bytes :: "nat \<Rightarrow> 'a::len word \<Rightarrow> bytes" where
  "be_bytes 0 w = []"
| "be_bytes (Suc n) w = ucast (drop_bit (8 * n) w) # be_bytes n w"

definition from_be :: "bytes \<Rightarrow> 'a::len word" where
  "from_be bs = foldl (\<lambda>acc b. push_bit 8 acc OR ucast b) 0 bs"

lemma length_be_bytes [simp]: "length (be_bytes n w) = n"
  by (induction n) auto

lemma be_bytes_eval [simp]:
  "be_bytes 4 w = [ucast (drop_bit 24 w), ucast (drop_bit 16 w), ucast (drop_bit 8 w), ucast w]"
  by (simp add: numeral_eq_Suc)

declare be_bytes_eval [simp del]

lemma foldl_be_bytes:
  fixes w acc :: "'a::len word"
  shows "foldl (\<lambda>acc b. push_bit 8 acc OR ucast b) acc (be_bytes n w)
    = push_bit (8 * n) acc OR take_bit (8 * n) w"
proof (induction n arbitrary: acc)
  case 0
  then show ?case by simp
next
  case (Suc n)
  have "push_bit (8 * n) (push_bit 8 acc OR ucast (ucast (drop_bit (8 * n) w) :: u8))
      OR take_bit (8 * n) w = push_bit (8 * Suc n) acc OR take_bit (8 * Suc n) w"
    by (rule bit_word_eqI) (auto simp: bit_simps algebra_simps)
  with Suc show ?case by simp
qed

lemma from_be_be_bytes:
  "from_be (be_bytes n w) = take_bit (8 * n) (w :: 'a::len word)"
  by (simp add: from_be_def foldl_be_bytes)

lemma from_be_be_bytes_full [simp]:
  fixes w :: "'a::len word"
  assumes "LENGTH('a) \<le> 8 * n"
  shows "from_be (be_bytes n w) = w"
proof -
  have "take_bit (8 * n) w = w"
    by (rule bit_word_eqI) (use assms in \<open>auto simp: bit_simps\<close>)
  then show ?thesis by (simp add: from_be_be_bytes)
qed

subsection \<open>Numbers in decimal\<close>

text \<open>The \<open>{}\<close> of \<open>format!\<close> on an unsigned integer.\<close>

fun show_nat :: "nat \<Rightarrow> string" where
  "show_nat n = (if n < 10 then [char_of (48 + n)] else show_nat (n div 10) @ [char_of (48 + n mod 10)])"

declare show_nat.simps [simp del]

end
