(* ===== verification/XDR_Codec.thy ===== *)
theory XDR_Codec
  imports NFS_Prelude
begin

text \<open>
  The XDR codec of the crate \<open>nfs-xdr\<close>: its errors (\<open>error.rs\<close>), the low-level
  functions on padding, lengths and opaque data (\<open>codec.rs\<close>) and the encoders and
  decoders of the primitive types and containers (\<open>impls.rs\<close>).

  A decoder takes the buffer and returns the value with the rest of the buffer; what is
  left in a buffer after an error is never read by the callers, which all drop it, so it is
  not part of the outcome. An encoder appends to a buffer. The contract every decoder and
  encoder of the crate obeys is stated as the locales \<open>xdr_decoder\<close>, \<open>xdr_encoder\<close> and
  \<open>xdr_codec\<close>.
\<close>

subsection \<open>Errors (error.rs)\<close>

datatype XdrError =
    Truncated (needed: nat) (had: nat)
  | LimitExceeded nat nat
  | LengthOverflow nat
  | InvalidBool u32
  | InvalidEnum i32
  | InvalidUnion u32
  | InvalidUtf8
  | TrailingData nat

type_synonym 'a decoder = "bytes \<Rightarrow> ('a \<times> bytes, XdrError) result"
type_synonym encoding = "bytes \<Rightarrow> (bytes, XdrError) result"
type_synonym 'a encoder = "'a \<Rightarrow> encoding"

subsection \<open>Sequencing of decoders and encoders\<close>

definition dec_return :: "'a \<Rightarrow> 'a decoder" where
  "dec_return x buf = Ok (x, buf)"

definition dec_fail :: "XdrError \<Rightarrow> 'a decoder" where
  "dec_fail e buf = Err e"

definition dec_bind :: "'a decoder \<Rightarrow> ('a \<Rightarrow> 'b decoder) \<Rightarrow> 'b decoder" where
  "dec_bind d k buf = and_then (d buf) (\<lambda>(x, rest). k x rest)"

definition enc_done :: encoding where
  "enc_done buf = Ok buf"

definition enc_fail :: "XdrError \<Rightarrow> encoding" where
  "enc_fail e buf = Err e"

definition enc_seq :: "encoding \<Rightarrow> encoding \<Rightarrow> encoding" where
  "enc_seq a b buf = and_then (a buf) b"

subsection \<open>Buffer primitives\<close>

definition put_word :: "nat \<Rightarrow> 'a::len word \<Rightarrow> bytes \<Rightarrow> bytes" where
  "put_word n w buf = buf @ be_bytes n w"

definition put_slice :: "bytes \<Rightarrow> bytes \<Rightarrow> bytes" where
  "put_slice data buf = buf @ data"

definition put_bytes :: "u8 \<Rightarrow> nat \<Rightarrow> bytes \<Rightarrow> bytes" where
  "put_bytes b n buf = buf @ replicate n b"

definition get_word :: "nat \<Rightarrow> 'a::len word decoder" where
  "get_word n buf =
     (if length buf < n then Panic else Ok (from_be (take n buf), drop n buf))"

definition split_to :: "nat \<Rightarrow> bytes decoder" where
  "split_to n buf = (if length buf < n then Panic else Ok (take n buf, drop n buf))"

definition advance :: "nat \<Rightarrow> unit decoder" where
  "advance n buf = (if length buf < n then Panic else Ok ((), drop n buf))"

subsection \<open>Low-level functions (codec.rs)\<close>

definition padding :: "nat \<Rightarrow> nat" where
  "padding len = (4 - len mod 4) mod 4"

definition ensure :: "nat \<Rightarrow> unit decoder" where
  "ensure n buf =
     (let h = length buf in if h < n then Err (Truncated n h) else Ok ((), buf))"

definition decode_u32 :: "u32 decoder" where
  "decode_u32 = dec_bind (ensure 4) (\<lambda>_. get_word 4)"

definition encode_opaque :: "bytes \<Rightarrow> nat \<Rightarrow> encoding" where
  "encode_opaque data limit buf =
     (if length data > limit then Err (LimitExceeded (length data) limit)
      else if length data > u32_max then Err (LengthOverflow (length data))
      else Ok (put_bytes 0 (padding (length data))
                 (put_slice data (put_word 4 (of_nat (length data) :: u32) buf))))"

definition decode_opaque :: "nat \<Rightarrow> bytes decoder" where
  "decode_opaque limit =
     dec_bind decode_u32 (\<lambda>w.
       let len = unat w in
       if len > limit then dec_fail (LimitExceeded len limit)
       else let pad = padding len in
         dec_bind (ensure (len + pad)) (\<lambda>_.
         dec_bind (split_to len) (\<lambda>data.
         dec_bind (advance pad) (\<lambda>_. dec_return data))))"

definition to_bytes :: "'a encoder \<Rightarrow> 'a \<Rightarrow> (bytes, XdrError) result" where
  "to_bytes enc v = enc v []"

definition from_bytes :: "'a decoder \<Rightarrow> bytes \<Rightarrow> ('a, XdrError) result" where
  "from_bytes dec buf =
     and_then (dec buf) (\<lambda>(v, rest).
       if rest \<noteq> [] then Err (TrailingData (length rest)) else Ok v)"

subsection \<open>Integers and reals (impls.rs, prim!)\<close>

definition encode_i32 :: "i32 encoder" where
  "encode_i32 w buf = Ok (put_word 4 w buf)"

definition decode_i32 :: "i32 decoder" where
  "decode_i32 = dec_bind (ensure 4) (\<lambda>_. get_word 4)"

definition encode_u32 :: "u32 encoder" where
  "encode_u32 w buf = Ok (put_word 4 w buf)"

definition encode_i64 :: "i64 encoder" where
  "encode_i64 w buf = Ok (put_word 8 w buf)"

definition decode_i64 :: "i64 decoder" where
  "decode_i64 = dec_bind (ensure 8) (\<lambda>_. get_word 8)"

definition encode_u64 :: "u64 encoder" where
  "encode_u64 w buf = Ok (put_word 8 w buf)"

definition decode_u64 :: "u64 decoder" where
  "decode_u64 = dec_bind (ensure 8) (\<lambda>_. get_word 8)"

text \<open>
  A float is its bit pattern, which \<open>put_f32\<close> writes and \<open>get_f32\<close> reads unchanged, NaNs included.
\<close>

type_synonym f32 = "32 word"
type_synonym f64 = "64 word"

definition encode_f32 :: "f32 encoder" where
  "encode_f32 w buf = Ok (put_word 4 w buf)"

definition decode_f32 :: "f32 decoder" where
  "decode_f32 = dec_bind (ensure 4) (\<lambda>_. get_word 4)"

definition encode_f64 :: "f64 encoder" where
  "encode_f64 w buf = Ok (put_word 8 w buf)"

definition decode_f64 :: "f64 decoder" where
  "decode_f64 = dec_bind (ensure 8) (\<lambda>_. get_word 8)"

subsection \<open>bool and void\<close>

definition encode_bool :: "bool encoder" where
  "encode_bool b buf = Ok (put_word 4 (of_bool b :: u32) buf)"

definition decode_bool :: "bool decoder" where
  "decode_bool = dec_bind decode_u32 (\<lambda>w.
     if w = 0 then dec_return False
     else if w = 1 then dec_return True
     else dec_fail (InvalidBool w))"

definition encode_unit :: "unit encoder" where
  "encode_unit _ buf = Ok buf"

definition decode_unit :: "unit decoder" where
  "decode_unit buf = Ok ((), buf)"

subsection \<open>string, opaque and fixed opaque\<close>

text \<open>
  \<open>core::str::from_utf8\<close>: well-formed UTF-8 byte sequences, by the first byte and the
  range it allows for the second one.
\<close>

definition utf8_cont :: "u8 \<Rightarrow> bool" where
  "utf8_cont b \<longleftrightarrow> 0x80 \<le> b \<and> b \<le> 0xBF"

definition utf8_second3 :: "u8 \<Rightarrow> u8 \<Rightarrow> bool" where
  "utf8_second3 a b \<longleftrightarrow>
     (if a = 0xE0 then 0xA0 \<le> b \<and> b \<le> 0xBF
      else if a = 0xED then 0x80 \<le> b \<and> b \<le> 0x9F
      else utf8_cont b)"

definition utf8_second4 :: "u8 \<Rightarrow> u8 \<Rightarrow> bool" where
  "utf8_second4 a b \<longleftrightarrow>
     (if a = 0xF0 then 0x90 \<le> b \<and> b \<le> 0xBF
      else if a = 0xF4 then 0x80 \<le> b \<and> b \<le> 0x8F
      else utf8_cont b)"

fun utf8_valid :: "bytes \<Rightarrow> bool" where
  "utf8_valid [] \<longleftrightarrow> True"
| "utf8_valid (a # bs) \<longleftrightarrow>
     (if a < 0x80 then utf8_valid bs
      else if 0xC2 \<le> a \<and> a \<le> 0xDF then
        (case bs of b # r \<Rightarrow> utf8_cont b \<and> utf8_valid r | _ \<Rightarrow> False)
      else if 0xE0 \<le> a \<and> a \<le> 0xEF then
        (case bs of b # c # r \<Rightarrow> utf8_second3 a b \<and> utf8_cont c \<and> utf8_valid r
         | _ \<Rightarrow> False)
      else if 0xF0 \<le> a \<and> a \<le> 0xF4 then
        (case bs of b # c # d # r \<Rightarrow>
           utf8_second4 a b \<and> utf8_cont c \<and> utf8_cont d \<and> utf8_valid r
         | _ \<Rightarrow> False)
      else False)"

definition as_bytes :: "string \<Rightarrow> bytes" where
  "as_bytes s = map of_char s"

definition from_utf8 :: "bytes \<Rightarrow> (string, XdrError) result" where
  "from_utf8 raw = (if utf8_valid raw then Ok (map (\<lambda>b. char_of (unat b)) raw) else Err InvalidUtf8)"

definition valid_string :: "string \<Rightarrow> bool" where
  "valid_string s \<longleftrightarrow> utf8_valid (as_bytes s)"

definition encode_str :: "string encoder" where
  "encode_str s = encode_opaque (as_bytes s) usize_max"

definition encode_String :: "string encoder" where
  "encode_String s = encode_opaque (as_bytes s) usize_max"

definition decode_String :: "string decoder" where
  "decode_String = dec_bind (decode_opaque usize_max) (\<lambda>raw buf.
     map_ok (\<lambda>s. (s, buf)) (from_utf8 raw))"

definition encode_Bytes :: "bytes encoder" where
  "encode_Bytes data = encode_opaque data usize_max"

definition decode_Bytes :: "bytes decoder" where
  "decode_Bytes = decode_opaque usize_max"

definition encode_fixed :: "bytes encoder" where
  "encode_fixed arr buf = Ok (put_bytes 0 (padding (length arr)) (put_slice arr buf))"

definition decode_fixed :: "nat \<Rightarrow> bytes decoder" where
  "decode_fixed n =
     (let pad = padding n in
      dec_bind (ensure (n + pad)) (\<lambda>_.
      dec_bind (split_to n) (\<lambda>arr.
      dec_bind (advance pad) (\<lambda>_. dec_return arr))))"

subsection \<open>Vec and Option\<close>

fun encode_items :: "'a encoder \<Rightarrow> 'a list encoder" where
  "encode_items enc [] buf = Ok buf"
| "encode_items enc (x # xs) buf = and_then (enc x buf) (encode_items enc xs)"

definition encode_Vec :: "'a encoder \<Rightarrow> 'a list encoder" where
  "encode_Vec enc xs buf =
     (if length xs > u32_max then Err (LengthOverflow (length xs))
      else encode_items enc xs (put_word 4 (of_nat (length xs) :: u32) buf))"

fun decode_items :: "nat \<Rightarrow> 'a decoder \<Rightarrow> 'a list decoder" where
  "decode_items 0 dec = dec_return []"
| "decode_items (Suc n) dec =
     dec_bind dec (\<lambda>x. dec_bind (decode_items n dec) (\<lambda>xs. dec_return (x # xs)))"

definition vec_capacity :: "nat \<Rightarrow> nat \<Rightarrow> nat" where
  "vec_capacity count remaining = min count (remaining div 4 + 1)"

definition decode_Vec :: "'a decoder \<Rightarrow> 'a list decoder" where
  "decode_Vec dec = dec_bind decode_u32 (\<lambda>w buf.
     let count = unat w in
     if count > length buf then Err (Truncated count (length buf))
     else decode_items count dec buf)"

definition encode_Option :: "'a encoder \<Rightarrow> 'a option encoder" where
  "encode_Option enc opt buf =
     (case opt of
        Some v \<Rightarrow> enc v (put_word 4 (1 :: u32) buf)
      | None \<Rightarrow> Ok (put_word 4 (0 :: u32) buf))"

definition decode_Option :: "'a decoder \<Rightarrow> 'a option decoder" where
  "decode_Option dec = dec_bind decode_u32 (\<lambda>w.
     if w = 0 then dec_return None
     else if w = 1 then dec_bind dec (\<lambda>v. dec_return (Some v))
     else dec_fail (InvalidBool w))"

text \<open>
  The XDR linked lists of the protocols, \<open>while bool::decode(buf)? { .. }\<close>: a \<open>true\<close> and
  an element, until a \<open>false\<close>. The first argument bounds the number of rounds; the loop
  is entered with more rounds than the buffer has bytes, and lemma
  \<open>decode_while_unfold\<close> shows that this is the loop of the source for every decoder
  of the crate.
\<close>

fun decode_rounds :: "nat \<Rightarrow> 'a decoder \<Rightarrow> 'a list decoder" where
  "decode_rounds 0 dec buf = Panic"
| "decode_rounds (Suc n) dec buf =
     dec_bind decode_bool (\<lambda>present.
       if present then
         dec_bind dec (\<lambda>x. dec_bind (decode_rounds n dec) (\<lambda>xs. dec_return (x # xs)))
       else dec_return []) buf"

definition decode_while :: "'a decoder \<Rightarrow> 'a list decoder" where
  "decode_while dec buf = decode_rounds (Suc (length buf)) dec buf"

subsection \<open>The contract of decoders and encoders\<close>

text \<open>
  A decoder never panics, consumes a prefix of its buffer, gives the same value whatever
  follows that prefix, reports an error that later bytes do not change unless the error is
  a truncation, and reports a truncation only when bytes are missing.
\<close>

locale xdr_decoder =
  fixes dec :: "'a decoder"
  assumes no_panic: "dec buf \<noteq> Panic"
    and consumes: "dec buf = Ok (v, rest) \<Longrightarrow> \<exists>pre. buf = pre @ rest"
    and extends: "dec buf = Ok (v, rest) \<Longrightarrow> dec (buf @ more) = Ok (v, rest @ more)"
    and err_extends: "dec buf = Err e \<Longrightarrow> (\<And>n h. e \<noteq> Truncated n h) \<Longrightarrow>
      dec (buf @ more) = Err e"
    and truncated: "dec buf = Err (Truncated n h) \<Longrightarrow> h < n"
begin

lemma rest_le: "dec buf = Ok (v, rest) \<Longrightarrow> length rest \<le> length buf"
  using consumes by fastforce

text \<open>A buffer cut short anywhere inside a value is reported as truncated.\<close>

lemma prefix_truncated:
  assumes "dec (pre @ suf) = Ok (v, [])" and "suf \<noteq> []"
  shows "\<exists>n h. dec pre = Err (Truncated n h) \<and> h < n"
proof (cases "dec pre")
  case (Ok p)
  with assms extends [of pre "fst p" "snd p" suf] show ?thesis by simp
next
  case (Err e)
  with assms(1) err_extends [OF Err, of suf] obtain n h where "e = Truncated n h" by fastforce
  with Err truncated show ?thesis by blast
next
  case Panic
  then show ?thesis using no_panic by simp
qed

end

text \<open>An encoding appends whole four-byte units to the buffer and never panics.\<close>

locale xdr_encoder =
  fixes enc :: encoding
  assumes enc_no_panic: "enc buf \<noteq> Panic"
    and appends: "enc buf = map_ok (append buf) (enc [])"
    and aligned: "enc [] = Ok bs \<Longrightarrow> 4 dvd length bs"

text \<open>Decoding what was encoded gives the value back and stops right after it.\<close>

definition wire_rt :: "encoding \<Rightarrow> 'a decoder \<Rightarrow> 'a \<Rightarrow> bool" where
  "wire_rt enc dec v \<longleftrightarrow>
     (\<forall>bs rest. enc [] = Ok bs \<longrightarrow> dec (bs @ rest) = Ok (v, rest))"

locale xdr_codec = xdr_decoder dec
  for dec :: "'a decoder" +
  fixes enc :: "'a encoder" and ok :: "'a \<Rightarrow> bool"
  assumes encoder: "xdr_encoder (enc v)"
    and roundtrip: "ok v \<Longrightarrow> wire_rt (enc v) dec v"
begin

lemma from_to_bytes:
  assumes "ok v" and "to_bytes enc v = Ok bs"
  shows "from_bytes dec bs = Ok v"
proof -
  have "dec (bs @ []) = Ok (v, [])"
    using roundtrip [OF assms(1)] assms(2) unfolding wire_rt_def to_bytes_def by blast
  then show ?thesis by (simp add: from_bytes_def)
qed

text \<open>The wire format is self-delimiting: no encoding is a proper prefix of another.\<close>

lemma self_delimiting:
  assumes "ok v" "ok w" "to_bytes enc v = Ok bs" "to_bytes enc w = Ok cs"
    and "bs @ xs = cs @ ys"
  shows "v = w \<and> xs = ys"
proof -
  have "dec (bs @ xs) = Ok (v, xs)" and "dec (cs @ ys) = Ok (w, ys)"
    using roundtrip assms(1-4) unfolding wire_rt_def to_bytes_def by blast+
  with assms(5) show ?thesis by simp
qed

end

subsection \<open>Composition rules\<close>

named_theorems xdr_dec \<open>decoders that satisfy the contract\<close>
named_theorems xdr_enc \<open>encodings that satisfy the contract\<close>
named_theorems xdr_rt \<open>round trips\<close>

lemma dec_bind_eq:
  "dec_bind d k buf = Ok (y, rest) \<longleftrightarrow> (\<exists>x mid. d buf = Ok (x, mid) \<and> k x mid = Ok (y, rest))"
  "dec_bind d k buf = Err e \<longleftrightarrow> d buf = Err e \<or> (\<exists>x mid. d buf = Ok (x, mid) \<and> k x mid = Err e)"
  "dec_bind d k buf = Panic \<longleftrightarrow> d buf = Panic \<or> (\<exists>x mid. d buf = Ok (x, mid) \<and> k x mid = Panic)"
  unfolding dec_bind_def by auto

lemma dec_bind_cong:
  "d buf = d' buf' \<Longrightarrow> (\<And>x mid. d' buf' = Ok (x, mid) \<Longrightarrow> k x mid = k' x mid) \<Longrightarrow>
    dec_bind d k buf = dec_bind d' k' buf'"
  by (cases "d' buf'") (auto simp: dec_bind_def)

lemma dec_bind_Ok: "d buf = Ok (x, mid) \<Longrightarrow> dec_bind d k buf = k x mid"
  by (simp add: dec_bind_def)

lemma dec_bind_Err: "d buf = Err e \<Longrightarrow> dec_bind d k buf = Err e"
  by (simp add: dec_bind_def)

lemma xdr_decoder_return [xdr_dec]: "xdr_decoder (dec_return x)"
  by unfold_locales (auto simp: dec_return_def)

lemma xdr_decoder_fail:
  "(\<And>n h. e = Truncated n h \<Longrightarrow> h < n) \<Longrightarrow> xdr_decoder (dec_fail e)"
  by unfold_locales (auto simp: dec_fail_def)

lemma xdr_decoder_fails [xdr_dec]:
  "xdr_decoder (dec_fail (LimitExceeded n l))"
  "xdr_decoder (dec_fail (InvalidBool w))"
  "xdr_decoder (dec_fail (InvalidEnum w))"
  "xdr_decoder (dec_fail (InvalidUnion w))"
  "xdr_decoder (dec_fail InvalidUtf8)"
  by (rule xdr_decoder_fail; simp)+

lemma xdr_decoder_bind [xdr_dec]:
  assumes d: "xdr_decoder d" and k: "\<And>x. xdr_decoder (k x)"
  shows "xdr_decoder (dec_bind d k)"
proof
  note D = xdr_decoder.no_panic [OF d] xdr_decoder.no_panic [OF k]
  fix buf more v rest e n h
  show "dec_bind d k buf \<noteq> Panic" using D by (simp add: dec_bind_eq)
  show "dec_bind d k buf = Ok (v, rest) \<Longrightarrow> \<exists>pre. buf = pre @ rest"
    using xdr_decoder.consumes [OF d] xdr_decoder.consumes [OF k]
    by (fastforce simp: dec_bind_eq)
  show "dec_bind d k buf = Ok (v, rest) \<Longrightarrow> dec_bind d k (buf @ more) = Ok (v, rest @ more)"
    using xdr_decoder.extends [OF d] xdr_decoder.extends [OF k]
    by (fastforce simp: dec_bind_eq)
  show "dec_bind d k (buf @ more) = Err e"
    if "dec_bind d k buf = Err e" "\<And>n h. e \<noteq> Truncated n h"
    using that xdr_decoder.err_extends [OF d] xdr_decoder.err_extends [OF k]
      xdr_decoder.extends [OF d] by (fastforce simp: dec_bind_eq)
  show "dec_bind d k buf = Err (Truncated n h) \<Longrightarrow> h < n"
    using xdr_decoder.truncated [OF d] xdr_decoder.truncated [OF k]
    by (fastforce simp: dec_bind_eq)
qed

lemma xdr_decoder_if [xdr_dec]:
  "(b \<Longrightarrow> xdr_decoder d1) \<Longrightarrow> (\<not> b \<Longrightarrow> xdr_decoder d2) \<Longrightarrow> xdr_decoder (if b then d1 else d2)"
  by simp

lemma xdr_encoder_done [xdr_enc]: "xdr_encoder enc_done"
  by unfold_locales (auto simp: enc_done_def)

lemma xdr_encoder_fail [xdr_enc]: "xdr_encoder (enc_fail e)"
  by unfold_locales (auto simp: enc_fail_def)

lemma enc_seq_appends:
  assumes "xdr_encoder a" and "xdr_encoder b"
  shows "enc_seq a b buf = map_ok (append buf) (enc_seq a b [])"
proof (cases "a []")
  case (Ok as)
  have "a buf = Ok (buf @ as)"
    using xdr_encoder.appends [OF assms(1), of buf] Ok by simp
  moreover have "b (buf @ as) = map_ok (append buf) (b as)"
    using xdr_encoder.appends [OF assms(2), of "buf @ as"] xdr_encoder.appends [OF assms(2), of as]
    by (cases "b []") simp_all
  ultimately show ?thesis using Ok by (simp add: enc_seq_def)
qed (use xdr_encoder.appends [OF assms(1), of buf] in \<open>simp_all add: enc_seq_def\<close>)

lemma enc_seq_Ok_iff:
  assumes "xdr_encoder b"
  shows "enc_seq a b [] = Ok bs \<longleftrightarrow> (\<exists>as cs. a [] = Ok as \<and> b [] = Ok cs \<and> bs = as @ cs)"
proof (cases "a []")
  case (Ok as)
  have "b as = map_ok (append as) (b [])"
    by (rule xdr_encoder.appends [OF assms])
  with Ok show ?thesis by (auto simp: enc_seq_def)
qed (simp_all add: enc_seq_def)

lemma xdr_encoder_seq [xdr_enc]:
  assumes "xdr_encoder a" and "xdr_encoder b"
  shows "xdr_encoder (enc_seq a b)"
proof
  fix buf bs
  show "enc_seq a b buf \<noteq> Panic"
    using xdr_encoder.enc_no_panic assms by (auto simp: enc_seq_def)
  show "enc_seq a b buf = map_ok (append buf) (enc_seq a b [])"
    by (rule enc_seq_appends [OF assms])
  show "enc_seq a b [] = Ok bs \<Longrightarrow> 4 dvd length bs"
    using xdr_encoder.aligned assms by (auto simp: enc_seq_Ok_iff [OF assms(2)])
qed

lemma xdr_encoder_if [xdr_enc]:
  "(b \<Longrightarrow> xdr_encoder e1) \<Longrightarrow> (\<not> b \<Longrightarrow> xdr_encoder e2) \<Longrightarrow> xdr_encoder (if b then e1 else e2)"
  by simp

lemma wire_rt_done [xdr_rt]: "v = w \<Longrightarrow> wire_rt enc_done (dec_return v) w"
  by (simp add: wire_rt_def enc_done_def dec_return_def)

lemma wire_rt_seq [xdr_rt]:
  assumes "wire_rt a d x" and "xdr_encoder b" and "wire_rt b (k x) v"
  shows "wire_rt (enc_seq a b) (dec_bind d k) v"
  using assms by (auto simp: wire_rt_def enc_seq_Ok_iff dec_bind_def)

lemma wire_rt_map:
  assumes "wire_rt a d x" and "f x = v"
  shows "wire_rt a (dec_bind d (\<lambda>y. dec_return (f y))) v"
  using assms by (auto simp: wire_rt_def dec_bind_def dec_return_def)

lemma wire_rt_fail: "wire_rt (enc_fail e) d v"
  by (simp add: wire_rt_def enc_fail_def)

subsection \<open>Leaves\<close>

lemma padding_lt: "padding n < 4"
  by (simp add: padding_def)

lemma padding_aligns: "4 dvd n + padding n"
proof -
  have "n mod 4 = 0 \<or> n mod 4 = 1 \<or> n mod 4 = 2 \<or> n mod 4 = 3" by linarith
  then show ?thesis unfolding padding_def by (elim disjE) (simp; presburger)+
qed

lemma xdr_decoder_ensure_get: "xdr_decoder (dec_bind (ensure n) (\<lambda>_. get_word n))"
  by unfold_locales
    (auto simp: dec_bind_def ensure_def get_word_def Let_def split: if_splits
      intro: ex_prefix_drop)

lemma xdr_decoder_words [xdr_dec]:
  "xdr_decoder decode_u32" "xdr_decoder decode_i32"
  "xdr_decoder decode_i64" "xdr_decoder decode_u64"
  unfolding decode_u32_def decode_i32_def decode_i64_def decode_u64_def
  by (rule xdr_decoder_ensure_get)+

lemma ensure_split: "dec_bind (ensure (n + p)) (\<lambda>_. dec_bind (split_to n) (\<lambda>d.
    dec_bind (advance p) (\<lambda>_. dec_return d))) buf =
  (if length buf < n + p then Err (Truncated (n + p) (length buf))
   else Ok (take n buf, drop (n + p) buf))"
  by (auto simp: dec_bind_def ensure_def split_to_def advance_def dec_return_def Let_def add.commute)

lemma xdr_decoder_ensure_split [xdr_dec]:
  "xdr_decoder (dec_bind (ensure (n + p)) (\<lambda>_. dec_bind (split_to n) (\<lambda>d.
    dec_bind (advance p) (\<lambda>_. dec_return d))))"
  by unfold_locales
    (auto simp: ensure_split split: if_splits intro: ex_prefix_drop)

lemma xdr_decoder_bool [xdr_dec]: "xdr_decoder decode_bool"
  unfolding decode_bool_def by (intro xdr_dec)

lemma xdr_decoder_unit [xdr_dec]: "xdr_decoder decode_unit"
  by unfold_locales (auto simp: decode_unit_def)

lemma xdr_decoder_opaque [xdr_dec]: "xdr_decoder (decode_opaque limit)"
  unfolding decode_opaque_def Let_def by (intro xdr_dec)

lemma xdr_decoder_Bytes [xdr_dec]: "xdr_decoder decode_Bytes"
  unfolding decode_Bytes_def by (intro xdr_dec)

lemma xdr_decoder_fixed [xdr_dec]: "xdr_decoder (decode_fixed n)"
  unfolding decode_fixed_def Let_def by (intro xdr_dec)

lemma xdr_decoder_lift [xdr_dec]:
  "xdr_decoder (\<lambda>buf. map_ok (\<lambda>s. (s, buf)) (from_utf8 raw))"
  by unfold_locales (auto simp: from_utf8_def split: if_splits)

lemma xdr_decoder_String [xdr_dec]: "xdr_decoder decode_String"
  unfolding decode_String_def by (intro xdr_dec)

lemma xdr_decoder_items [xdr_dec]: "xdr_decoder dec \<Longrightarrow> xdr_decoder (decode_items n dec)"
  by (induction n) (auto intro: xdr_dec)

lemma xdr_decoder_Option [xdr_dec]: "xdr_decoder dec \<Longrightarrow> xdr_decoder (decode_Option dec)"
  unfolding decode_Option_def by (intro xdr_dec)

lemma xdr_decoder_guard [xdr_dec]:
  assumes "xdr_decoder d"
  shows "xdr_decoder (\<lambda>buf. if length buf < n then Err (Truncated n (length buf)) else d buf)"
  using xdr_decoder.no_panic [OF assms] xdr_decoder.consumes [OF assms]
    xdr_decoder.extends [OF assms] xdr_decoder.err_extends [OF assms]
    xdr_decoder.truncated [OF assms]
  by unfold_locales (auto split: if_splits)

lemma xdr_decoder_Vec [xdr_dec]: "xdr_decoder dec \<Longrightarrow> xdr_decoder (decode_Vec dec)"
  unfolding decode_Vec_def Let_def by (intro xdr_dec)

lemma decode_bool_shrinks: "decode_bool buf = Ok (b, rest) \<Longrightarrow> length rest < length buf"
  by (auto simp: decode_bool_def decode_u32_def dec_bind_def dec_return_def dec_fail_def
      ensure_def get_word_def Let_def split: if_splits)

lemma decode_rounds_enough:
  assumes "xdr_decoder dec"
  shows "length buf < n \<Longrightarrow> length buf < m \<Longrightarrow> decode_rounds n dec buf = decode_rounds m dec buf"
proof (induction n arbitrary: m buf)
  case (Suc n)
  then obtain m' where m: "m = Suc m'" by (cases m) auto
  have "decode_rounds n dec rest = decode_rounds m' dec rest"
    if "decode_bool buf = Ok (True, mid)" "dec mid = Ok (x, rest)" for mid x rest
    using decode_bool_shrinks [OF that(1)] xdr_decoder.rest_le [OF assms that(2)] Suc m by simp
  then show ?case
    unfolding m decode_rounds.simps
    by (intro dec_bind_cong [OF refl]) (auto intro!: dec_bind_cong [OF refl] dec_bind_cong)
qed simp

lemma decode_while_unfold:
  assumes "xdr_decoder dec"
  shows "decode_while dec = dec_bind decode_bool (\<lambda>present.
    if present then dec_bind dec (\<lambda>x. dec_bind (decode_while dec) (\<lambda>xs. dec_return (x # xs)))
    else dec_return [])"
proof
  fix buf
  have "decode_rounds (length buf) dec rest = decode_while dec rest"
    if "decode_bool buf = Ok (True, mid)" "dec mid = Ok (x, rest)" for mid x rest
    using decode_bool_shrinks [OF that(1)] xdr_decoder.rest_le [OF assms that(2)]
    unfolding decode_while_def by (intro decode_rounds_enough [OF assms]) auto
  then show "decode_while dec buf = dec_bind decode_bool (\<lambda>present.
    if present then dec_bind dec (\<lambda>x. dec_bind (decode_while dec) (\<lambda>xs. dec_return (x # xs)))
    else dec_return []) buf"
    unfolding decode_while_def [of dec buf] decode_rounds.simps
    by (intro dec_bind_cong [OF refl]) (auto intro!: dec_bind_cong [OF refl] dec_bind_cong)
qed

lemma decode_while_induct:
  assumes "xdr_decoder dec"
    and step: "\<And>buf. (\<And>mid x rest. decode_bool buf = Ok (True, mid) \<Longrightarrow> dec mid = Ok (x, rest) \<Longrightarrow> P rest) \<Longrightarrow> P buf"
  shows "P buf"
proof (induction "length buf" arbitrary: buf rule: less_induct)
  case less
  show ?case
  proof (rule step)
    fix mid x rest
    assume a: "decode_bool buf = Ok (True, mid)" and b: "dec mid = Ok (x, rest)"
    show "P rest"
      using decode_bool_shrinks [OF a] xdr_decoder.rest_le [OF assms(1) b] by (intro less) simp
  qed
qed

lemma decode_while_eq:
  assumes "xdr_decoder dec"
  shows "decode_while dec buf = Ok (v, rest) \<longleftrightarrow>
      (v = [] \<and> decode_bool buf = Ok (False, rest)) \<or>
      (\<exists>mid x r xs. decode_bool buf = Ok (True, mid) \<and> dec mid = Ok (x, r) \<and>
        decode_while dec r = Ok (xs, rest) \<and> v = x # xs)" (is ?ok)
    and "decode_while dec buf = Err e \<longleftrightarrow> decode_bool buf = Err e \<or>
      (\<exists>mid. decode_bool buf = Ok (True, mid) \<and> (dec mid = Err e \<or>
        (\<exists>x r. dec mid = Ok (x, r) \<and> decode_while dec r = Err e)))" (is ?err)
    and "decode_while dec buf = Panic \<longleftrightarrow> decode_bool buf = Panic \<or>
      (\<exists>mid. decode_bool buf = Ok (True, mid) \<and> (dec mid = Panic \<or>
        (\<exists>x r. dec mid = Ok (x, r) \<and> decode_while dec r = Panic)))" (is ?panic)
proof -
  have U: "decode_while dec buf = dec_bind decode_bool (\<lambda>present.
    if present then dec_bind dec (\<lambda>x. dec_bind (decode_while dec) (\<lambda>xs. dec_return (x # xs)))
    else dec_return []) buf"
    by (rule fun_cong [OF decode_while_unfold [OF assms]])
  consider (T) mid where "decode_bool buf = Ok (True, mid)"
    | (F) mid where "decode_bool buf = Ok (False, mid)"
    | (E) d where "decode_bool buf = Err d" | (P) "decode_bool buf = Panic"
    by (cases "decode_bool buf") auto
  then have "?ok \<and> ?err \<and> ?panic"
    by cases (auto simp: U dec_bind_Ok dec_bind_eq dec_return_def)
  then show ?ok ?err ?panic by blast+
qed

lemma xdr_decoder_while [xdr_dec]:
  assumes "xdr_decoder dec"
  shows "xdr_decoder (decode_while dec)"
proof
  note eqs = decode_while_eq [OF assms]
  note d = xdr_decoder.no_panic [OF assms] xdr_decoder.truncated [OF assms]
    xdr_decoder.no_panic [OF xdr_decoder_bool] xdr_decoder.truncated [OF xdr_decoder_bool]
  note ext = xdr_decoder.extends [OF assms] xdr_decoder.extends [OF xdr_decoder_bool]
  fix buf more v rest e n h
  show "decode_while dec buf \<noteq> Panic"
    by (induction buf rule: decode_while_induct [OF assms]) (subst eqs, use d in blast)
  show "decode_while dec buf = Ok (v, rest) \<Longrightarrow> \<exists>pre. buf = pre @ rest"
  proof (induction buf arbitrary: v rule: decode_while_induct [OF assms])
    case (1 buf)
    then show ?case
      using xdr_decoder.consumes [OF assms] xdr_decoder.consumes [OF xdr_decoder_bool]
      by (subst (asm) (2) eqs) (metis append.assoc)
  qed
  show "decode_while dec buf = Ok (v, rest) \<Longrightarrow> decode_while dec (buf @ more) = Ok (v, rest @ more)"
  proof (induction buf arbitrary: v rule: decode_while_induct [OF assms])
    case (1 buf)
    from 1(2) show ?case
      by (subst eqs, subst (asm) eqs) (use ext 1(1) in blast)
  qed
  show "decode_while dec (buf @ more) = Err e"
    if "decode_while dec buf = Err e" "\<And>n h. e \<noteq> Truncated n h"
    using that(1)
  proof (induction buf rule: decode_while_induct [OF assms])
    case (1 buf)
    from 1(2) show ?case
      by (subst eqs, subst (asm) eqs)
        (use ext 1(1) xdr_decoder.err_extends [OF assms _ that(2)]
          xdr_decoder.err_extends [OF xdr_decoder_bool _ that(2)] in blast)
  qed
  show "decode_while dec buf = Err (Truncated n h) \<Longrightarrow> h < n"
  proof (induction buf rule: decode_while_induct [OF assms])
    case (1 buf)
    from 1(2) show ?case by (subst (asm) eqs) (use d 1(1) in blast)
  qed
qed

subsection \<open>Encodings of the leaves\<close>

lemma xdr_encoder_put:
  "(\<And>buf. enc buf = Ok (buf @ bs)) \<Longrightarrow> 4 dvd length bs \<Longrightarrow> xdr_encoder enc"
  by unfold_locales auto

lemma xdr_encoder_words [xdr_enc]:
  "xdr_encoder (encode_u32 w)" "xdr_encoder (encode_i32 w)"
  "xdr_encoder (encode_u64 x)" "xdr_encoder (encode_i64 x)" "xdr_encoder (encode_bool b)"
  by (auto simp: xdr_encoder_def encode_u32_def encode_i32_def encode_u64_def encode_i64_def
      encode_bool_def put_word_def)

lemma xdr_encoder_unit [xdr_enc]: "xdr_encoder (encode_unit u)"
  by (rule xdr_encoder_put [of _ "[]"]) (simp_all add: encode_unit_def)

lemma encode_opaque_eq:
  "encode_opaque data limit buf =
     (if limit < length data then Err (LimitExceeded (length data) limit)
      else if u32_max < length data then Err (LengthOverflow (length data))
      else Ok (buf @ be_bytes 4 (of_nat (length data) :: u32) @ data
                 @ replicate (padding (length data)) 0))"
  by (simp add: encode_opaque_def put_word_def put_slice_def put_bytes_def)

lemma xdr_encoder_opaque [xdr_enc]: "xdr_encoder (encode_opaque data limit)"
proof -
  have "4 dvd 4 + (length data + padding (length data))"
    by (rule dvd_add [OF dvd_refl padding_aligns])
  then show ?thesis
    by unfold_locales (auto simp: encode_opaque_eq split: if_splits)
qed

lemma xdr_encoder_opaques [xdr_enc]:
  "xdr_encoder (encode_String s)" "xdr_encoder (encode_Bytes data)"
  unfolding encode_String_def encode_Bytes_def by (intro xdr_enc)+

lemma xdr_encoder_fixed [xdr_enc]: "xdr_encoder (encode_fixed arr)"
  by (rule xdr_encoder_put [of _ "arr @ replicate (padding (length arr)) 0"])
    (simp_all add: encode_fixed_def put_bytes_def put_slice_def padding_aligns)

lemma xdr_encoder_items [xdr_enc]:
  assumes "\<And>x. xdr_encoder (enc x)"
  shows "xdr_encoder (encode_items enc xs)"
proof (induction xs)
  case Nil
  have "encode_items enc [] = enc_done" by (auto simp: enc_done_def)
  then show ?case by (simp add: xdr_enc)
next
  case (Cons x xs)
  have "encode_items enc (x # xs) = enc_seq (enc x) (encode_items enc xs)"
    by (auto simp: enc_seq_def)
  with Cons assms show ?case by (simp add: xdr_enc)
qed

lemma xdr_encoder_Vec [xdr_enc]:
  assumes "\<And>x. xdr_encoder (enc x)"
  shows "xdr_encoder (encode_Vec enc xs)"
proof -
  have "encode_Vec enc xs = (if length xs > u32_max then enc_fail (LengthOverflow (length xs))
      else enc_seq (encode_u32 (of_nat (length xs))) (encode_items enc xs))"
    by (auto simp: encode_Vec_def enc_fail_def enc_seq_def encode_u32_def)
  then show ?thesis using assms by (simp add: xdr_enc)
qed

lemma encode_Option_eq:
  "encode_Option enc (Some v) = enc_seq (encode_u32 1) (enc v)"
  "encode_Option enc None = encode_u32 0"
  by (auto simp: encode_Option_def enc_seq_def encode_u32_def)

lemma xdr_encoder_Option [xdr_enc]:
  assumes "\<And>x. xdr_encoder (enc x)"
  shows "xdr_encoder (encode_Option enc opt)"
  using assms by (cases opt) (simp_all add: encode_Option_eq xdr_enc)

subsection \<open>Round trips of the leaves\<close>

lemma decode_words_be [simp]:
  "decode_u32 (be_bytes 4 (w :: u32) @ rest) = Ok (w, rest)"
  "decode_i32 (be_bytes 4 (w :: u32) @ rest) = Ok (w, rest)"
  "decode_u64 (be_bytes 8 (x :: u64) @ rest) = Ok (x, rest)"
  "decode_i64 (be_bytes 8 (x :: u64) @ rest) = Ok (x, rest)"
  by (simp_all add: decode_u32_def decode_i32_def decode_u64_def decode_i64_def dec_bind_def
      ensure_def get_word_def Let_def)

lemma encode_words_Nil [simp]:
  "encode_u32 w [] = Ok (be_bytes 4 w)" "encode_i32 w [] = Ok (be_bytes 4 w)"
  "encode_u64 x [] = Ok (be_bytes 8 x)" "encode_i64 x [] = Ok (be_bytes 8 x)"
  "encode_bool b [] = Ok (be_bytes 4 (of_bool b :: u32))" "encode_unit u [] = Ok []"
  by (simp_all add: encode_u32_def encode_i32_def encode_u64_def encode_i64_def encode_bool_def
      encode_unit_def put_word_def)

lemma wire_rt_words [xdr_rt]:
  "wire_rt (encode_u32 w) decode_u32 w" "wire_rt (encode_i32 w) decode_i32 w"
  "wire_rt (encode_u64 x) decode_u64 x" "wire_rt (encode_i64 x) decode_i64 x"
  "wire_rt (encode_bool b) decode_bool b" "wire_rt (encode_unit u) decode_unit u"
  by (auto simp: wire_rt_def decode_bool_def dec_bind_def dec_return_def decode_unit_def)

lemma float_codecs [xdr_dec]: "xdr_decoder decode_f32" "xdr_decoder decode_f64"
  unfolding decode_f32_def decode_f64_def by (rule xdr_decoder_ensure_get)+

lemma float_encoders [xdr_enc]: "xdr_encoder (encode_f32 w)" "xdr_encoder (encode_f64 x)"
  by (auto simp: xdr_encoder_def encode_f32_def encode_f64_def put_word_def)

lemma wire_rt_floats [xdr_rt]: "wire_rt (encode_f32 w) decode_f32 w" "wire_rt (encode_f64 x) decode_f64 x"
  by (simp_all add: wire_rt_def encode_f32_def encode_f64_def decode_f32_def decode_f64_def put_word_def
      dec_bind_def ensure_def get_word_def Let_def)

lemma u32_len [simp]: "n \<le> u32_max \<Longrightarrow> unat (of_nat n :: u32) = n"
  by (simp add: u32_max_def unat_of_nat)

lemma decode_opaque_eq:
  "decode_opaque limit buf =
     (if length buf < 4 then Err (Truncated 4 (length buf))
      else let len = unat (from_be (take 4 buf) :: u32) in
        if limit < len then Err (LimitExceeded len limit)
        else if length buf - 4 < len + padding len
          then Err (Truncated (len + padding len) (length buf - 4))
        else Ok (take len (drop 4 buf), drop (4 + len + padding len) buf))"
  unfolding decode_opaque_def decode_u32_def Let_def
  by (auto simp: dec_bind_def ensure_def get_word_def split_to_def advance_def dec_return_def
      dec_fail_def Let_def ac_simps)

lemma decode_opaque_limit: "decode_opaque limit buf = Ok (data, rest) \<Longrightarrow> length data \<le> limit"
  by (auto simp: decode_opaque_eq Let_def split: if_splits)

lemma wire_rt_opaque [xdr_rt]:
  "length data \<le> limit \<or> limit' \<le> limit \<Longrightarrow>
    wire_rt (encode_opaque data limit') (decode_opaque limit) data"
  by (auto simp: wire_rt_def encode_opaque_eq decode_opaque_eq Let_def split: if_splits)

lemma wire_rt_Bytes [xdr_rt]: "wire_rt (encode_Bytes data) decode_Bytes data"
  unfolding encode_Bytes_def decode_Bytes_def by (intro xdr_rt) simp

lemma of_char_char_of_unat [simp]: "of_char (char_of (unat b)) = (b :: u8)"
proof -
  have "unat b < 256" using unsigned_less [where 'a = nat, of b] by simp
  then have "(of_nat (of_char (char_of (unat b)) :: nat) :: u8) = b" by simp
  then show ?thesis by (simp only: of_nat_of_char)
qed

lemma char_of_unat_of_char [simp]: "char_of (unat (of_char c :: u8)) = c"
proof -
  have "(of_char c :: nat) < 256" by simp
  then have "unat (of_nat (of_char c :: nat) :: u8) = of_char c" by (simp add: unat_of_nat)
  then have "unat (of_char c :: u8) = of_char c" by (simp only: of_nat_of_char)
  then show ?thesis by simp
qed

lemma from_utf8_as_bytes: "valid_string s \<Longrightarrow> from_utf8 (as_bytes s) = Ok s"
  by (simp add: from_utf8_def valid_string_def as_bytes_def comp_def)

lemma from_utf8_Ok: "from_utf8 raw = Ok s \<Longrightarrow> valid_string s \<and> as_bytes s = raw"
  by (auto simp: from_utf8_def valid_string_def as_bytes_def comp_def split: if_splits)

lemma wire_rt_String [xdr_rt]:
  assumes "valid_string s"
  shows "wire_rt (encode_String s) decode_String s"
proof -
  have "wire_rt (encode_opaque (as_bytes s) usize_max) (decode_opaque usize_max) (as_bytes s)"
    by (intro xdr_rt) simp
  then show ?thesis using from_utf8_as_bytes [OF assms]
    by (auto simp: wire_rt_def encode_String_def decode_String_def dec_bind_def)
qed

lemma decode_fixed_eq:
  "decode_fixed n buf =
     (if length buf < n + padding n then Err (Truncated (n + padding n) (length buf))
      else Ok (take n buf, drop (n + padding n) buf))"
  unfolding decode_fixed_def Let_def by (rule ensure_split)

lemma wire_rt_fixed [xdr_rt]: "length arr = n \<Longrightarrow> wire_rt (encode_fixed arr) (decode_fixed n) arr"
  by (auto simp: wire_rt_def encode_fixed_def put_bytes_def put_slice_def decode_fixed_eq)

lemma wire_rt_Option [xdr_rt]:
  assumes "\<And>x. xdr_encoder (enc x)" and "\<And>x. opt = Some x \<Longrightarrow> wire_rt (enc x) dec x"
  shows "wire_rt (encode_Option enc opt) (decode_Option dec) opt"
proof (cases opt)
  case None
  then show ?thesis
    by (simp add: encode_Option_eq decode_Option_def wire_rt_def dec_bind_def dec_return_def)
next
  case (Some v)
  have "wire_rt (enc_seq (encode_u32 1) (enc v)) (decode_Option dec) (Some v)"
    unfolding decode_Option_def
    by (rule wire_rt_seq [OF wire_rt_words(1) assms(1)])
      (simp add: wire_rt_map [OF assms(2) [OF Some]])
  with Some show ?thesis by (simp add: encode_Option_eq)
qed

lemma wire_rt_items:
  assumes "\<And>x. xdr_encoder (enc x)" and "\<And>x. x \<in> set xs \<Longrightarrow> wire_rt (enc x) dec x"
  shows "wire_rt (encode_items enc xs) (decode_items (length xs) dec) xs"
  using assms(2)
proof (induction xs)
  case Nil
  show ?case by (simp add: wire_rt_def dec_return_def)
next
  case (Cons x xs)
  have e: "encode_items enc (x # xs) = enc_seq (enc x) (encode_items enc xs)"
    by (auto simp: enc_seq_def)
  show ?case unfolding e length_Cons decode_items.simps
    by (rule wire_rt_seq [OF Cons.prems xdr_encoder_items [OF assms(1)]])
      (auto intro!: wire_rt_map Cons)
qed

lemma encode_items_length:
  assumes "\<And>x. xdr_encoder (enc x)" and "\<And>x bs. enc x [] = Ok bs \<Longrightarrow> bs \<noteq> []"
  shows "encode_items enc xs [] = Ok bs \<Longrightarrow> length xs \<le> length bs"
proof (induction xs arbitrary: bs)
  case (Cons x xs)
  have "encode_items enc (x # xs) = enc_seq (enc x) (encode_items enc xs)"
    by (auto simp: enc_seq_def)
  with Cons.prems obtain as cs where *: "enc x [] = Ok as" "encode_items enc xs [] = Ok cs" "bs = as @ cs"
    by (auto simp only: enc_seq_Ok_iff [OF xdr_encoder_items [OF assms(1)]])
  then have "as \<noteq> []" and "length xs \<le> length cs" using assms(2) Cons.IH by auto
  with * show ?case by (cases as) auto
qed simp

lemma wire_rt_Vec [xdr_rt]:
  assumes "\<And>x. xdr_encoder (enc x)" and "\<And>x bs. enc x [] = Ok bs \<Longrightarrow> bs \<noteq> []"
    and "\<And>x. x \<in> set xs \<Longrightarrow> wire_rt (enc x) dec x"
  shows "wire_rt (encode_Vec enc xs) (decode_Vec dec) xs"
proof (unfold wire_rt_def, intro allI impI)
  fix bs rest
  assume a: "encode_Vec enc xs [] = Ok bs"
  then have n: "length xs \<le> u32_max"
    by (auto simp: encode_Vec_def split: if_splits)
  have "xdr_encoder (encode_items enc xs)" by (rule xdr_encoder_items [OF assms(1)])
  from xdr_encoder.appends [OF this, of "be_bytes 4 (of_nat (length xs) :: u32)"] a n
  obtain cs where cs: "encode_items enc xs [] = Ok cs"
    and bs: "bs = be_bytes 4 (of_nat (length xs) :: u32) @ cs"
    by (auto simp: encode_Vec_def put_word_def split: if_splits)
  have "decode_items (length xs) dec (cs @ rest) = Ok (xs, rest)"
    using wire_rt_items [OF assms(1,3)] cs by (simp add: wire_rt_def)
  moreover have "length xs \<le> length cs" by (rule encode_items_length [OF assms(1,2) cs])
  ultimately show "decode_Vec dec (bs @ rest) = Ok (xs, rest)"
    unfolding decode_Vec_def bs using n by (simp add: dec_bind_def Let_def)
qed

subsection \<open>The codecs of the crate\<close>

lemma xdr_codecI:
  "xdr_decoder dec \<Longrightarrow> (\<And>v. xdr_encoder (enc v)) \<Longrightarrow> (\<And>v. ok v \<Longrightarrow> wire_rt (enc v) dec v) \<Longrightarrow>
    xdr_codec dec enc ok"
  by (simp add: xdr_codec_def xdr_codec_axioms_def)

interpretation u32_codec: xdr_codec decode_u32 encode_u32 "\<lambda>_. True"
  by (rule xdr_codecI; intro xdr_dec xdr_enc xdr_rt)

interpretation i32_codec: xdr_codec decode_i32 encode_i32 "\<lambda>_. True"
  by (rule xdr_codecI; intro xdr_dec xdr_enc xdr_rt)

interpretation u64_codec: xdr_codec decode_u64 encode_u64 "\<lambda>_. True"
  by (rule xdr_codecI; intro xdr_dec xdr_enc xdr_rt)

interpretation i64_codec: xdr_codec decode_i64 encode_i64 "\<lambda>_. True"
  by (rule xdr_codecI; intro xdr_dec xdr_enc xdr_rt)

interpretation bool_codec: xdr_codec decode_bool encode_bool "\<lambda>_. True"
  by (rule xdr_codecI; intro xdr_dec xdr_enc xdr_rt)

interpretation String_codec: xdr_codec decode_String encode_String valid_string
  by (rule xdr_codecI; intro xdr_dec xdr_enc xdr_rt)

interpretation Bytes_codec: xdr_codec decode_Bytes encode_Bytes "\<lambda>_. True"
  by (rule xdr_codecI; intro xdr_dec xdr_enc xdr_rt)

interpretation fixed_codec: xdr_codec "decode_fixed n" encode_fixed "\<lambda>arr. length arr = n" for n
  by (rule xdr_codecI; intro xdr_dec xdr_enc xdr_rt)

lemma xdr_codec_Option:
  assumes "xdr_codec dec enc ok"
  shows "xdr_codec (decode_Option dec) (encode_Option enc) (pred_option ok)"
proof -
  have "xdr_decoder dec" and "xdr_encoder (enc v)" and "ok v \<Longrightarrow> wire_rt (enc v) dec v" for v
    using assms by (auto simp: xdr_codec_def xdr_codec_axioms_def)
  then show ?thesis by (intro xdr_codecI xdr_dec xdr_enc xdr_rt) auto
qed

lemma xdr_codec_Vec:
  assumes "xdr_codec dec enc ok" and "\<And>x bs. enc x [] = Ok bs \<Longrightarrow> bs \<noteq> []"
  shows "xdr_codec (decode_Vec dec) (encode_Vec enc) (list_all ok)"
proof -
  have "xdr_decoder dec" and "xdr_encoder (enc v)" and "ok v \<Longrightarrow> wire_rt (enc v) dec v" for v
    using assms by (auto simp: xdr_codec_def xdr_codec_axioms_def)
  then show ?thesis using assms(2)
    by (intro xdr_codecI xdr_dec xdr_enc xdr_rt) (auto simp: list_all_iff)
qed

subsection \<open>Properties of the codec\<close>

lemma decode_bool_consumes: "decode_bool buf = Ok (b, rest) \<Longrightarrow> length buf = 4 + length rest"
  by (auto simp: decode_bool_def decode_u32_def dec_bind_def dec_return_def dec_fail_def
      ensure_def get_word_def Let_def split: if_splits)

text \<open>
  Variable-length opaque data. Encoding succeeds only within the limit, appends a
  multiple of four bytes, and decoding under the same limit gives the data back and stops
  right after the padding.
\<close>

theorem opaque_roundtrip:
  assumes "encode_opaque data limit buf = Ok buf'"
  shows "length data \<le> limit \<and> (\<exists>bs. buf' = buf @ bs \<and> 4 dvd length bs \<and>
    decode_opaque limit (bs @ rest) = Ok (data, rest))"
proof (intro conjI)
  show "length data \<le> limit" using assms by (auto simp: encode_opaque_eq split: if_splits)
  have e: "xdr_encoder (encode_opaque data limit)" by (rule xdr_enc)
  have "map_ok (append buf) (encode_opaque data limit []) = Ok buf'"
    by (simp only: assms xdr_encoder.appends [OF e, symmetric])
  then obtain bs where bs: "encode_opaque data limit [] = Ok bs" "buf' = buf @ bs" by auto
  moreover have "decode_opaque limit (bs @ rest) = Ok (data, rest)"
    using wire_rt_opaque [of data limit limit] bs(1) by (auto simp: wire_rt_def)
  ultimately show "\<exists>bs. buf' = buf @ bs \<and> 4 dvd length bs \<and> decode_opaque limit (bs @ rest) = Ok (data, rest)"
    using xdr_encoder.aligned [OF e bs(1)] by blast
qed

theorem opaque_roundtrip_example:
  "\<exists>bs. [9] @ bs = [9, 0, 0, 0, 3, 1, 2, 3, 0] \<and> decode_opaque 64 (bs @ [7]) = Ok ([1, 2, 3], [7])"
proof -
  have "encode_opaque [1, 2, 3] 64 [9] = Ok [9, 0, 0, 0, 3, 1, 2, 3, 0]"
    by (simp add: encode_opaque_eq u32_max_def padding_def be_bytes_eval)
  from opaque_roundtrip [OF this, of "[7]"] show ?thesis by auto
qed

text \<open>
  A string sent is the string received, and a message cut short anywhere inside
  it is reported as truncated, never decoded to something else.
\<close>

theorem string_roundtrip:
  assumes "valid_string s" "to_bytes encode_String s = Ok bs"
  shows "from_bytes decode_String bs = Ok s \<and>
    (\<forall>pre suf. bs = pre @ suf \<and> suf \<noteq> [] \<longrightarrow> (\<exists>n h. decode_String pre = Err (Truncated n h) \<and> h < n))"
proof
  show "from_bytes decode_String bs = Ok s" by (rule String_codec.from_to_bytes [OF assms])
  have "decode_String (bs @ []) = Ok (s, [])"
    using wire_rt_String [OF assms(1)] assms(2) unfolding wire_rt_def to_bytes_def by blast
  then show "\<forall>pre suf. bs = pre @ suf \<and> suf \<noteq> [] \<longrightarrow> (\<exists>n h. decode_String pre = Err (Truncated n h) \<and> h < n)"
    using String_codec.prefix_truncated by auto
qed

theorem string_roundtrip_example:
  "from_bytes decode_String [0, 0, 0, 3, 104, 105, 33, 0] = Ok ''hi!''"
proof -
  have "valid_string ''hi!''" "to_bytes encode_String ''hi!'' = Ok [0, 0, 0, 3, 104, 105, 33, 0]"
    by (code_simp, simp add: to_bytes_def encode_String_def encode_opaque_eq usize_max_def u32_max_def
        padding_def be_bytes_eval as_bytes_def)
  from string_roundtrip [OF this] show ?thesis by blast
qed

text \<open>
  C32: the linked lists of the protocols. Whatever bytes arrive, the loop ends without a
  panic, and a list of \<open>n\<close> entries needs at least four bytes per entry and four for its end.
\<close>

theorem linked_list_bounded:
  assumes "xdr_decoder dec"
  shows "decode_while dec buf \<noteq> Panic \<and> (\<forall>xs rest. decode_while dec buf = Ok (xs, rest) \<longrightarrow>
    4 * (length xs + 1) + length rest \<le> length buf)"
proof
  show "decode_while dec buf \<noteq> Panic"
    using xdr_decoder.no_panic [OF xdr_decoder_while [OF assms]] .
  have "decode_while dec buf = Ok (xs, rest) \<Longrightarrow> 4 * (length xs + 1) + length rest \<le> length buf" for xs rest
  proof (induction buf arbitrary: xs rule: decode_while_induct [OF assms, case_names step])
    case (step buf)
    from iffD1 [OF decode_while_eq(1) [OF assms] step.prems] show ?case
    proof (elim disjE exE conjE)
      fix mid x r ys
      assume a: "decode_bool buf = Ok (True, mid)" "dec mid = Ok (x, r)"
        "decode_while dec r = Ok (ys, rest)" "xs = x # ys"
      from step.IH [OF a(1-3)] decode_bool_consumes [OF a(1)] xdr_decoder.rest_le [OF assms a(2)] a(4)
      show ?thesis by simp
    qed (auto dest: decode_bool_consumes)
  qed
  then show "\<forall>xs rest. decode_while dec buf = Ok (xs, rest) \<longrightarrow>
    4 * (length xs + 1) + length rest \<le> length buf" by blast
qed

theorem linked_list_bounded_example:
  "decode_while decode_u32 [0, 0, 0, 1, 0, 0, 0, 5, 0, 0, 0, 0, 9] = Ok ([5], [9]) \<and>
    4 * (length [5 :: u32] + 1) + length [9 :: u8] \<le> length [0, 0, 0, 1, 0, 0, 0, 5, 0, 0, 0, 0, 9 :: u8]"
proof -
  have "decode_while decode_u32 [0, 0, 0, 1, 0, 0, 0, 5, 0, 0, 0, 0, 9] = Ok ([5], [9])" by code_simp
  with linked_list_bounded [OF xdr_decoder_words(1), of "[0, 0, 0, 1, 0, 0, 0, 5, 0, 0, 0, 0, 9]"]
  show ?thesis by blast
qed

text \<open>
  The element count of a \<open>Vec\<close> is not trusted. A count larger than the bytes that
  follow is refused before any element is read, so what is reserved is bounded by the message;
  the price is that a vector of empty elements does not survive its own encoding.
\<close>

theorem vec_count_guard:
  "(length rest < unat count \<longrightarrow> decode_Vec dec (be_bytes 4 (count :: u32) @ rest) = Err (Truncated (unat count) (length rest)))
    \<and> vec_capacity (unat count) (length rest) \<le> length rest div 4 + 1
    \<and> to_bytes (encode_Vec encode_unit) [()] = Ok [0, 0, 0, 1]
    \<and> from_bytes (decode_Vec decode_unit) [0, 0, 0, 1] = Err (Truncated 1 0)"
proof (intro conjI impI)
  assume "length rest < unat count"
  then show "decode_Vec dec (be_bytes 4 count @ rest) = Err (Truncated (unat count) (length rest))"
    by (simp add: decode_Vec_def dec_bind_def Let_def)
next
  show "vec_capacity (unat count) (length rest) \<le> length rest div 4 + 1" by (simp add: vec_capacity_def)
  show "to_bytes (encode_Vec encode_unit) [()] = Ok [0, 0, 0, 1]"
    by (simp add: to_bytes_def encode_Vec_def u32_max_def put_word_def encode_unit_def be_bytes_eval)
  show "from_bytes (decode_Vec decode_unit) [0, 0, 0, 1] = Err (Truncated 1 0)" by code_simp
qed

theorem vec_count_guard_example:
  "decode_Vec decode_u32 (be_bytes 4 (0xFFFFFFFF :: u32) @ [1, 2]) = Err (Truncated 4294967295 2)"
  using vec_count_guard [of "[1, 2]" "0xFFFFFFFF" decode_u32] by simp

end
