(* ===== verification/XDR_Derive.thy ===== *)
theory XDR_Derive
  imports XDR_Codec
begin

text \<open>
  The code that \<open>#[derive(XdrEncode, XdrDecode)]\<close> generates (crate
  \<open>nfs-xdr-derive\<close>), as combinators over the encoders and decoders of the fields: the
  limit check of a field (\<open>encode_access\<close>, \<open>decode_value\<close>), a structure
  (\<open>struct_encode\<close>; a structure is decoded by binding its fields in order, as
  \<open>construct\<close> does), an enum of unit variants (\<open>enum32_encode\<close>, \<open>enum32_decode\<close>) and a
  discriminated union (\<open>union_encode\<close>, \<open>union_decode\<close>). A derived type of the protocols applies the
  combinators with the limits and cases its attributes name; how the macros get there from
  a declaration is the subject of \<open>XDR_Expand\<close>.
\<close>

subsection \<open>Generated code\<close>

definition decode_value :: "'a decoder \<Rightarrow> ('a \<Rightarrow> nat) \<Rightarrow> nat option \<Rightarrow> 'a decoder" where
  "decode_value dec xdr_len limit =
     (case limit of
        None \<Rightarrow> dec
      | Some n \<Rightarrow> dec_bind dec (\<lambda>v.
          let len = xdr_len v in
          if len > n then dec_fail (LimitExceeded len n) else dec_return v))"

definition encode_access :: "'a encoder \<Rightarrow> ('a \<Rightarrow> nat) \<Rightarrow> nat option \<Rightarrow> 'a encoder" where
  "encode_access enc xdr_len limit v =
     (case limit of
        None \<Rightarrow> enc v
      | Some n \<Rightarrow>
          (let len = xdr_len v in
           if len > n then enc_fail (LimitExceeded len n) else enc v))"

fun struct_encode :: "encoding list \<Rightarrow> encoding" where
  "struct_encode [] = enc_done"
| "struct_encode (field # fields) = enc_seq field (struct_encode fields)"

definition enum32_encode :: "('v \<times> i32) list \<Rightarrow> 'v encoder" where
  "enum32_encode variants v buf =
     (case map_of variants v of Some d \<Rightarrow> encode_i32 d buf | None \<Rightarrow> Panic)"

definition enum32_decode :: "('v \<times> i32) list \<Rightarrow> 'v decoder" where
  "enum32_decode variants = dec_bind decode_i32 (\<lambda>d.
     case map_of (map (\<lambda>(v, c). (c, v)) variants) d of
       Some v \<Rightarrow> dec_return v
     | None \<Rightarrow> dec_fail (InvalidEnum d))"

definition union_encode :: "i32 \<Rightarrow> encoding list \<Rightarrow> encoding" where
  "union_encode case_lit fields = enc_seq (encode_i32 case_lit) (struct_encode fields)"

definition union_decode :: "(i32 \<times> 'a decoder) list \<Rightarrow> 'a decoder" where
  "union_decode arms = dec_bind decode_i32 (\<lambda>d.
     case map_of arms d of Some dec \<Rightarrow> dec | None \<Rightarrow> dec_fail (InvalidUnion d))"

subsection \<open>The generated code keeps the contract\<close>

lemma xdr_decoder_value [xdr_dec]: "xdr_decoder dec \<Longrightarrow> xdr_decoder (decode_value dec l limit)"
  unfolding decode_value_def Let_def by (cases limit) (auto intro!: xdr_dec)

lemma xdr_encoder_access [xdr_enc]:
  "(\<And>v. xdr_encoder (enc v)) \<Longrightarrow> xdr_encoder (encode_access enc l limit v)"
  unfolding encode_access_def Let_def by (cases limit) (auto intro!: xdr_enc)

lemma xdr_encoder_struct [xdr_enc]:
  "xdr_encoder (struct_encode [])"
  "xdr_encoder f \<Longrightarrow> xdr_encoder (struct_encode fs) \<Longrightarrow> xdr_encoder (struct_encode (f # fs))"
  by (simp_all add: xdr_enc)

lemma xdr_decoder_enum32 [xdr_dec]: "xdr_decoder (enum32_decode variants)"
  unfolding enum32_decode_def by (intro xdr_dec) (auto intro: xdr_dec split: option.splits)

lemma xdr_encoder_union [xdr_enc]:
  "xdr_encoder (struct_encode fs) \<Longrightarrow> xdr_encoder (union_encode c fs)"
  unfolding union_encode_def by (intro xdr_enc)

lemma xdr_decoder_union [xdr_dec]:
  assumes "list_all xdr_decoder (map snd arms)"
  shows "xdr_decoder (union_decode arms)"
proof -
  have "map_of arms d = Some dec \<Longrightarrow> xdr_decoder dec" for d dec
    using assms by (auto simp: list_all_iff dest!: map_of_SomeD)
  then show ?thesis
    unfolding union_decode_def by (intro xdr_dec) (auto intro: xdr_dec split: option.splits)
qed

lemma wire_rt_value [xdr_rt]:
  "wire_rt (enc v) dec v \<Longrightarrow>
    wire_rt (encode_access enc l limit v) (decode_value dec l limit) v"
  by (cases limit) (auto simp: encode_access_def decode_value_def wire_rt_def dec_bind_def
      dec_return_def enc_fail_def Let_def split: if_splits)

lemma wire_rt_struct [xdr_rt]:
  "v = w \<Longrightarrow> wire_rt (struct_encode []) (dec_return v) w"
  "wire_rt f d x \<Longrightarrow> xdr_encoder (struct_encode fs) \<Longrightarrow> wire_rt (struct_encode fs) (k x) w \<Longrightarrow>
    wire_rt (struct_encode (f # fs)) (dec_bind d k) w"
  by (simp_all add: xdr_rt)

lemma wire_rt_union [xdr_rt]:
  "map_of arms c = Some dec \<Longrightarrow> xdr_encoder (struct_encode fs) \<Longrightarrow>
    wire_rt (struct_encode fs) dec v \<Longrightarrow> wire_rt (union_encode c fs) (union_decode arms) v"
  unfolding union_encode_def union_decode_def by (rule wire_rt_seq [OF wire_rt_words(2)]) auto

lemma enum32_roundtrip:
  assumes "distinct (map snd variants)" and "map_of variants v = Some d"
  shows "enum32_encode variants v buf = Ok (buf @ be_bytes 4 d)
    \<and> enum32_decode variants (be_bytes 4 d @ rest) = Ok (v, rest)"
proof -
  have "map_of (map (\<lambda>(v, c). (c, v)) variants) d = Some v"
    using assms by (intro map_of_is_SomeI) (force simp: comp_def case_prod_beta dest: map_of_SomeD)+
  with assms(2) show ?thesis
    by (simp add: enum32_encode_def enum32_decode_def dec_bind_def dec_return_def encode_i32_def
        put_word_def)
qed

text \<open>A field with a limit is never longer than it, on either side of the wire.\<close>

lemma decode_value_limit: "decode_value dec l (Some n) buf = Ok (v, rest) \<Longrightarrow> l v \<le> n"
  by (auto simp: decode_value_def dec_bind_eq dec_return_def dec_fail_def Let_def split: if_splits)

lemma encode_access_limit: "encode_access enc l (Some n) v buf = Ok buf' \<Longrightarrow> l v \<le> n"
  by (auto simp: encode_access_def enc_fail_def Let_def split: if_splits)

end
