(* ===== verification/RPC_Record.thy ===== *)
theory RPC_Record
  imports XDR_Codec
begin

text \<open>
  Errors of the RPC engine (\<open>nfs-rpc/src/error.rs\<close>) and record marking over byte streams
  (\<open>nfs-rpc/src/record.rs\<close>): \<open>frame\<close> wraps a message in one last fragment, and the
  reassembler turns a stream that arrives in arbitrary pieces back into records.

  The main results: what is framed comes out again, in order, however the stream is cut
  into reads; a record never exceeds the configured maximum.
\<close>

subsection \<open>Errors\<close>

text \<open>The kinds of \<open>std::io::Error\<close> that the sources tell apart.\<close>

datatype ErrorKind = WouldBlock | TimedOut | Interrupted | OtherKind string

datatype RpcError =
    Io ErrorKind
  | Xdr XdrError
  | Timeout
  | ConnectionClosed
  | RecordTooLarge
  | MalformedReply
  | RpcMismatch u32 u32
  | AuthError u32
  | ProgUnavail
  | ProgMismatch u32 u32
  | ProcUnavail
  | GarbageArgs
  | SystemErr
  | UnknownAcceptStat u32

subsection \<open>Framing\<close>

definition LAST_FRAGMENT :: u32 where "LAST_FRAGMENT = 0x80000000"
definition LENGTH_MASK :: u32 where "LENGTH_MASK = 0x7FFFFFFF"
definition DEFAULT_MAX_RECORD :: nat where "DEFAULT_MAX_RECORD = 16 * 1024 * 1024"

definition frame :: "bytes \<Rightarrow> (bytes, RpcError) result" where
  "frame rec =
     (if length rec > unat LENGTH_MASK then Err RecordTooLarge
      else Ok (put_slice rec (put_word 4 (LAST_FRAGMENT OR of_nat (length rec)) [])))"

subsection \<open>The reassembler\<close>

record RecordReassembler =
  stream :: bytes
  rec_buf :: bytes
  frag_remaining :: "nat option"
  last_fragment :: bool
  max_record :: nat

definition with_max :: "nat \<Rightarrow> RecordReassembler" where
  "with_max m = \<lparr>stream = [], rec_buf = [], frag_remaining = None, last_fragment = False,
     max_record = m\<rparr>"

definition new_reassembler :: RecordReassembler where
  "new_reassembler = with_max DEFAULT_MAX_RECORD"

definition push :: "bytes \<Rightarrow> RecordReassembler \<Rightarrow> RecordReassembler" where
  "push data r = r\<lparr>stream := stream r @ data\<rparr>"

text \<open>One round of the loop of \<open>next_record\<close>: a returned result, or \<open>None\<close> to go on.\<close>

definition next_step ::
  "RecordReassembler \<Rightarrow> (bytes option, RpcError) result option \<times> RecordReassembler" where
  "next_step r =
     (case frag_remaining r of
        None \<Rightarrow>
          if length (stream r) < 4 then (Some (Ok None), r)
          else
            let header = from_be (take 4 (stream r)) :: u32;
                r1 = r\<lparr>stream := drop 4 (stream r),
                       last_fragment := header AND LAST_FRAGMENT \<noteq> 0\<rparr>;
                len = unat (header AND LENGTH_MASK)
            in if length (rec_buf r1) + len > max_record r1
               then (Some (Err RecordTooLarge), r1)
               else (None, r1\<lparr>frag_remaining := Some len\<rparr>)
      | Some remaining \<Rightarrow>
          if remaining = 0 then
            if last_fragment r
            then (Some (Ok (Some (rec_buf r))),
                  r\<lparr>rec_buf := [], frag_remaining := None, last_fragment := False\<rparr>)
            else (None, r\<lparr>frag_remaining := None\<rparr>)
          else if stream r = [] then (Some (Ok None), r)
          else
            let n = min remaining (length (stream r)) in
            (None, r\<lparr>stream := drop n (stream r), rec_buf := rec_buf r @ take n (stream r),
                     frag_remaining := Some (remaining - n)\<rparr>))"

definition in_fragment :: "RecordReassembler \<Rightarrow> nat" where
  "in_fragment r = (case frag_remaining r of None \<Rightarrow> 0 | Some _ \<Rightarrow> 1)"

lemma next_step_decreases:
  "next_step r = (None, r') \<Longrightarrow>
    length (stream r') < length (stream r) \<or>
    length (stream r') = length (stream r) \<and> in_fragment r' < in_fragment r"
  by (auto simp: next_step_def in_fragment_def Let_def split: option.splits if_splits)

function next_record ::
  "RecordReassembler \<Rightarrow> (bytes option, RpcError) result \<times> RecordReassembler" where
  "next_record r =
     (case next_step r of (Some res, r') \<Rightarrow> (res, r') | (None, r') \<Rightarrow> next_record r')"
  by pat_completeness auto
termination
  by (relation "measures [\<lambda>r. length (stream r), in_fragment]")
    (auto dest!: next_step_decreases [OF sym])

declare next_record.simps [simp del]

text \<open>
  The reading loop of the clients, \<open>while let Some(record) = next_record()? { .. }\<close>: the
  records completed by the bytes received so far, how the loop ended, and the state after.
\<close>

lemma next_record_decreases:
  "next_record r = (res, r') \<Longrightarrow>
    length (stream r') \<le> length (stream r) \<and>
    (\<forall>rec. res = Ok (Some rec) \<longrightarrow> in_fragment r' = 0 \<and>
      (length (stream r') < length (stream r) \<or> in_fragment r' < in_fragment r))"
proof (induction r rule: next_record.induct)
  case (1 r)
  obtain o1 r1 where s: "next_step r = (o1, r1)" by (cases "next_step r")
  show ?case
  proof (cases o1)
    case None
    with s "1.prems" have "next_record r1 = (res, r')" by (simp add: next_record.simps [of r])
    with "1.IH" [OF s [symmetric] None] next_step_decreases [of r r1] s None show ?thesis
      by auto
  next
    case (Some x)
    with s "1.prems" have "res = x" "r' = r1" by (auto simp: next_record.simps [of r])
    with s Some show ?thesis
      by (auto simp: next_step_def in_fragment_def Let_def split: option.splits if_splits)
  qed
qed

function drain ::
  "RecordReassembler \<Rightarrow> bytes list \<times> (unit, RpcError) result \<times> RecordReassembler" where
  "drain r =
     (case next_record r of
        (Ok (Some rec), r') \<Rightarrow> (let (recs, res, r'') = drain r' in (rec # recs, res, r''))
      | (Ok None, r') \<Rightarrow> ([], Ok (), r')
      | (Err e, r') \<Rightarrow> ([], Err e, r')
      | (Panic, r') \<Rightarrow> ([], Panic, r'))"
  by pat_completeness auto
termination
  by (relation "measures [\<lambda>r. length (stream r), in_fragment]")
    (auto dest!: next_record_decreases [OF sym])

declare drain.simps [simp del]

subsection \<open>Reading does not depend on how the stream arrives\<close>

lemma push_simps [simp]:
  "stream (push d r) = stream r @ d" "rec_buf (push d r) = rec_buf r"
  "frag_remaining (push d r) = frag_remaining r" "last_fragment (push d r) = last_fragment r"
  "max_record (push d r) = max_record r" "push [] r = r" "push b (push a r) = push (a @ b) r"
  by (simp_all add: push_def)

definition take_bytes :: "nat \<Rightarrow> RecordReassembler \<Rightarrow> RecordReassembler" where
  "take_bytes n r = r\<lparr>stream := drop n (stream r), rec_buf := rec_buf r @ take n (stream r),
     frag_remaining := map_option (\<lambda>m. m - n) (frag_remaining r)\<rparr>"

lemma next_step_take:
  assumes "frag_remaining r = Some m" "0 < m" "stream r \<noteq> []"
  shows "next_step r = (None, take_bytes (min m (length (stream r))) r)"
  using assms by (simp add: next_step_def take_bytes_def Let_def)

lemma next_record_take:
  assumes "frag_remaining r = Some m" "n \<le> m" "n \<le> length (stream r)"
  shows "next_record (take_bytes n r) = next_record r"
proof (cases "n = 0 \<or> n = min m (length (stream r))")
  case True
  have "take_bytes 0 r = r" using assms(1) by (simp add: take_bytes_def)
  moreover have "next_record r = next_record (take_bytes (min m (length (stream r))) r)"
    if "m \<noteq> 0" "stream r \<noteq> []"
    using next_step_take [OF assms(1) _ that(2)] that by (simp add: next_record.simps [of r])
  ultimately show ?thesis using True assms by (cases "m = 0 \<or> stream r = []") auto
next
  case False
  with assms have lt: "0 < n" "n < m" "n < length (stream r)" by auto
  have "next_record r = next_record (take_bytes (min m (length (stream r))) r)"
    using next_step_take [OF assms(1)] lt by (force simp: next_record.simps [of r])
  moreover have "next_record (take_bytes n r)
      = next_record (take_bytes (min (m - n) (length (stream r) - n)) (take_bytes n r))"
  proof -
    have "frag_remaining (take_bytes n r) = Some (m - n)" "stream (take_bytes n r) = drop n (stream r)"
      using assms(1) by (simp_all add: take_bytes_def)
    then show ?thesis
      using next_step_take [of "take_bytes n r" "m - n"] lt
      by (simp add: next_record.simps [of "take_bytes n r"])
  qed
  moreover have "take_bytes (min (m - n) (length (stream r) - n)) (take_bytes n r)
      = take_bytes (min m (length (stream r))) r"
  proof -
    have "min m (length (stream r)) = n + min (m - n) (length (stream r) - n)" using lt by auto
    then show ?thesis using assms(1) by (simp add: take_bytes_def take_add add.commute)
  qed
  ultimately show ?thesis by simp
qed

text \<open>A round that goes on commutes with the arrival of more bytes, up to the loop.\<close>

lemma next_record_push_step:
  assumes "next_step r = (None, r1)"
  shows "next_record (push d r) = next_record (push d r1)"
proof (cases "\<exists>m. frag_remaining r = Some m \<and> 0 < m")
  case True
  then obtain m where m: "frag_remaining r = Some m" "0 < m" by blast
  with assms have ne: "stream r \<noteq> []" by (auto simp: next_step_def)
  have "r1 = take_bytes (min m (length (stream r))) r"
    using next_step_take [OF m ne] assms by simp
  then have "push d r1 = take_bytes (min m (length (stream r))) (push d r)"
    using m by (simp add: take_bytes_def push_def)
  with next_record_take [of "push d r" m "min m (length (stream r))"] m show ?thesis by simp
next
  case False
  with assms have "next_step (push d r) = (None, push d r1)"
    by (auto simp: next_step_def push_def Let_def split: option.splits if_splits)
  then show ?thesis by (simp add: next_record.simps [of "push d r"])
qed

lemma next_step_push_return:
  "next_step r = (Some res, r1) \<Longrightarrow> res \<noteq> Ok None \<Longrightarrow> next_step (push d r) = (Some res, push d r1)"
  by (auto simp: next_step_def push_def Let_def split: option.splits if_splits)

lemma next_step_wait: "next_step r = (Some (Ok None), r1) \<Longrightarrow> r1 = r"
  by (auto simp: next_step_def Let_def split: option.splits if_splits)

lemma next_record_push:
  "next_record r = (res, r') \<Longrightarrow>
    next_record (push d r) = (if res = Ok None then next_record (push d r') else (res, push d r'))"
proof (induction r rule: next_record.induct)
  case (1 r)
  obtain o1 r1 where s: "next_step r = (o1, r1)" by (cases "next_step r")
  show ?case
  proof (cases o1)
    case None
    with s "1.prems" have "next_record r1 = (res, r')" by (simp add: next_record.simps [of r])
    with "1.IH" [OF s [symmetric] None] next_record_push_step [of r r1 d] s None show ?thesis
      by simp
  next
    case (Some x)
    with s "1.prems" have x: "x = res" "r1 = r'" by (auto simp: next_record.simps [of r])
    show ?thesis
    proof (cases "res = Ok None")
      case True
      with s Some x next_step_wait show ?thesis by auto
    next
      case False
      with s Some x next_step_push_return [of r res r' d] show ?thesis
        by (simp add: next_record.simps [of "push d r"])
    qed
  qed
qed

lemma next_record_never_panics: "fst (next_record r) \<noteq> Panic"
proof (induction r rule: next_record.induct)
  case (1 r)
  then show ?case
    by (subst next_record.simps)
      (auto simp: next_step_def Let_def split: option.splits if_splits prod.splits)
qed

lemma drain_never_panics: "fst (snd (drain r)) \<noteq> Panic"
proof (induction r rule: drain.induct)
  case (1 r)
  obtain res r' where n: "next_record r = (res, r')" by (cases "next_record r")
  with next_record_never_panics [of r] have "res \<noteq> Panic" by simp
  with n 1 [OF n [symmetric]] show ?case
    by (subst drain.simps) (auto split: result.splits option.splits prod.splits)
qed

lemma drain_push:
  "drain r = (recs, res, r') \<Longrightarrow>
    drain (push d r) =
      (if res = Ok () then (let (recs', res', r'') = drain (push d r') in (recs @ recs', res', r''))
       else (recs, res, push d r'))"
proof (induction r arbitrary: recs rule: drain.induct)
  case (1 r)
  obtain nres r1 where n: "next_record r = (nres, r1)" by (cases "next_record r")
  note push = next_record_push [OF n, of d]
  show ?case
  proof (cases nres)
    case (Ok opt)
    show ?thesis
    proof (cases opt)
      case None
      with Ok n "1.prems" have "recs = []" "res = Ok ()" "r' = r1"
        by (auto simp: drain.simps [of r])
      with push Ok None show ?thesis
        by (simp add: drain.simps [of "push d r"] drain.simps [of "push d r1"])
    next
      case (Some rec)
      obtain recs1 where d1: "drain r1 = (recs1, res, r')" and recs: "recs = rec # recs1"
        using "1.prems" n Ok Some by (auto simp: drain.simps [of r] split: prod.splits)
      from "1.IH" [OF n [symmetric] Ok Some d1] push Ok Some recs show ?thesis
        by (auto simp: drain.simps [of "push d r"] split: prod.splits)
    qed
  next
    case (Err e)
    with n push "1.prems" show ?thesis
      by (auto simp: drain.simps [of r] drain.simps [of "push d r"])
  next
    case Panic
    with n next_record_never_panics [of r] show ?thesis by simp
  qed
qed

text \<open>The clients push each read and drain it, and stop at the first error.\<close>

fun feed :: "RecordReassembler \<Rightarrow> bytes list \<Rightarrow> bytes list \<times> (unit, RpcError) result" where
  "feed r [] = ([], Ok ())"
| "feed r (chunk # chunks) =
     (let (recs, res, r') = drain (push chunk r) in
      if res = Ok () then (let (recs', res') = feed r' chunks in (recs @ recs', res'))
      else (recs, res))"

lemma feed_concat:
  assumes "drain r = ([], Ok (), r)"
  shows "feed r chunks = (let (recs, res, r') = drain (push (concat chunks) r) in (recs, res))"
  using assms
proof (induction chunks arbitrary: r)
  case Nil
  then show ?case by simp
next
  case (Cons c cs)
  obtain recs res r1 where d: "drain (push c r) = (recs, res, r1)" by (cases "drain (push c r)")
  have cat: "drain (push (concat (c # cs)) r) =
      (if res = Ok () then (let (recs', res', r'') = drain (push (concat cs) r1) in (recs @ recs', res', r''))
       else (recs, res, push (concat cs) r1))"
    using drain_push [OF d, of "concat cs"] by simp
  have "drain r1 = ([], Ok (), r1)" if "res = Ok ()"
    using drain_push [OF d, of "[]"] d that by (auto split: prod.splits)
  with Cons.IH [of r1] cat d show ?case by (auto split: prod.splits)
qed

subsection \<open>What is framed comes out\<close>

text \<open>The wire form of a fragment, and of a record sent as a sequence of fragments.\<close>

definition fragment :: "bool \<Rightarrow> bytes \<Rightarrow> bytes" where
  "fragment final data =
     be_bytes 4 ((if final then LAST_FRAGMENT else 0) OR of_nat (length data)) @ data"

fun fragments :: "bytes list \<Rightarrow> bytes" where
  "fragments [] = []"
| "fragments [d] = fragment True d"
| "fragments (d # ds) = fragment False d @ fragments ds"

lemma unat_LENGTH_MASK: "unat LENGTH_MASK = 2147483647"
  by (simp add: LENGTH_MASK_def)

lemma mask_eqs: "LENGTH_MASK = mask 31" "LAST_FRAGMENT = push_bit 31 1"
  by (simp_all add: LENGTH_MASK_def LAST_FRAGMENT_def mask_eq_exp_minus_1)

lemma bit_LAST_FRAGMENT: "bit LAST_FRAGMENT k \<longleftrightarrow> k = 31"
proof -
  have e: "LAST_FRAGMENT = 2 ^ 31" by (simp add: LAST_FRAGMENT_def)
  show ?thesis unfolding e bit_exp_iff by auto
qed

lemma header_fields:
  fixes n :: nat and final :: bool
  assumes "n \<le> unat LENGTH_MASK"
  defines "h \<equiv> \<lambda>final. (if final then LAST_FRAGMENT else 0) OR (of_nat n :: u32)"
  shows "unat (h final AND LENGTH_MASK) = n" "(h final AND LAST_FRAGMENT \<noteq> 0) = final"
proof -
  have n: "n < 2 ^ 31" using assms(1) by (simp add: unat_LENGTH_MASK)
  then have t: "take_bit 31 (of_nat n :: u32) = of_nat n"
    by (simp add: take_bit_of_nat take_bit_nat_eq_self)
  have b: "\<not> bit (of_nat n :: u32) 31"
    using n by (metis bit_take_bit_iff less_irrefl t)
  have "h final AND LENGTH_MASK = of_nat n"
    unfolding h_def mask_eqs take_bit_eq_mask [symmetric]
    by (simp add: take_bit_or take_bit_push_bit t)
  then show "unat (h final AND LENGTH_MASK) = n" using n by (simp add: unat_of_nat)
  have "h final AND LAST_FRAGMENT = (if final then LAST_FRAGMENT else 0)"
    unfolding h_def
    by (rule bit_word_eqI) (use b in \<open>auto simp: bit_and_iff bit_or_iff bit_LAST_FRAGMENT\<close>)
  then show "(h final AND LAST_FRAGMENT \<noteq> 0) = final" by (simp add: LAST_FRAGMENT_def)
qed

lemma frame_fragment:
  "frame rec = (if length rec > unat LENGTH_MASK then Err RecordTooLarge else Ok (fragment True rec))"
  by (simp add: frame_def fragment_def put_slice_def put_word_def)

lemma next_record_fragment:
  assumes "length d \<le> unat LENGTH_MASK" "length (rec_buf r) + length d \<le> max_record r"
    and "frag_remaining r = None" "stream r = fragment final d @ rest"
  shows "next_record r =
    (if final then (Ok (Some (rec_buf r @ d)),
        r\<lparr>stream := rest, rec_buf := [], last_fragment := False\<rparr>)
     else next_record (r\<lparr>stream := rest, rec_buf := rec_buf r @ d, last_fragment := False\<rparr>))"
proof -
  let ?h = "(if final then LAST_FRAGMENT else 0) OR (of_nat (length d) :: u32)"
  let ?r1 = "r\<lparr>stream := d @ rest, last_fragment := final, frag_remaining := Some (length d)\<rparr>"
  have "next_step r = (None, ?r1)"
    using assms header_fields [OF assms(1), of final]
    by (simp add: next_step_def fragment_def Let_def)
  then have "next_record r = next_record ?r1" by (simp add: next_record.simps [of r])
  also have "\<dots> = next_record (take_bytes (length d) ?r1)"
    by (rule next_record_take [symmetric, of _ "length d"]) auto
  also have "take_bytes (length d) ?r1 =
      r\<lparr>stream := rest, rec_buf := rec_buf r @ d, last_fragment := final, frag_remaining := Some 0\<rparr>"
    by (simp add: take_bytes_def)
  finally have *: "next_record r = next_record (r\<lparr>stream := rest, rec_buf := rec_buf r @ d,
      last_fragment := final, frag_remaining := Some 0\<rparr>)" (is "_ = next_record ?r2") .
  have "next_step ?r2 = (if final
      then (Some (Ok (Some (rec_buf r @ d))), r\<lparr>stream := rest, rec_buf := [], last_fragment := False\<rparr>)
      else (None, r\<lparr>stream := rest, rec_buf := rec_buf r @ d, last_fragment := False\<rparr>))"
    using assms(3) by (cases r) (simp add: next_step_def)
  with * show ?thesis by (simp add: next_record.simps [of ?r2])
qed

lemma next_record_fragments:
  assumes "ds \<noteq> []" "\<forall>d \<in> set ds. length d \<le> unat LENGTH_MASK"
    and "length (rec_buf r) + length (concat ds) \<le> max_record r"
    and "frag_remaining r = None" "stream r = fragments ds @ rest"
  shows "next_record r = (Ok (Some (rec_buf r @ concat ds)),
    r\<lparr>stream := rest, rec_buf := [], last_fragment := False\<rparr>)"
  using assms
proof (induction ds arbitrary: r rule: fragments.induct)
  case 1
  then show ?case by simp
next
  case (2 d)
  then show ?case using next_record_fragment [of d r True rest] by simp
next
  case (3 d d' ds)
  let ?r1 = "r\<lparr>stream := fragments (d' # ds) @ rest, rec_buf := rec_buf r @ d, last_fragment := False\<rparr>"
  have "next_record r = next_record ?r1"
    using next_record_fragment [of d r False "fragments (d' # ds) @ rest"] 3(2-) by simp
  also have "\<dots> = (Ok (Some (rec_buf ?r1 @ concat (d' # ds))),
      ?r1\<lparr>stream := rest, rec_buf := [], last_fragment := False\<rparr>)"
    by (rule "3.IH") (use 3(2-) in auto)
  finally show ?case by simp
qed

lemma drain_empty: "drain (with_max m) = ([], Ok (), with_max m)"
  by (simp add: drain.simps next_record.simps next_step_def with_max_def)

lemma drain_fragments:
  assumes "\<forall>ds \<in> set dss. ds \<noteq> [] \<and> (\<forall>d \<in> set ds. length d \<le> unat LENGTH_MASK)
    \<and> length (concat ds) \<le> m"
  shows "drain (push (concat (map fragments dss)) (with_max m)) = (map concat dss, Ok (), with_max m)"
  using assms
proof (induction dss)
  case Nil
  then show ?case by (simp add: drain_empty)
next
  case (Cons ds dss)
  have "next_record (push (concat (map fragments (ds # dss))) (with_max m))
      = (Ok (Some (concat ds)), push (concat (map fragments dss)) (with_max m))"
    using Cons.prems by (subst next_record_fragments [of ds _ "concat (map fragments dss)"])
      (auto simp: with_max_def push_def)
  with Cons show ?case by (simp add: drain.simps [of "push _ _"])
qed

subsection \<open>Invariant: a bounded record buffer\<close>

definition reassembler_inv :: "RecordReassembler \<Rightarrow> bool" where
  "reassembler_inv r \<longleftrightarrow>
     length (rec_buf r) + (case frag_remaining r of None \<Rightarrow> 0 | Some n \<Rightarrow> n) \<le> max_record r"

lemma with_max_inv: "reassembler_inv (with_max m)"
  by (simp add: reassembler_inv_def with_max_def)

lemma push_inv: "reassembler_inv (push d r) \<longleftrightarrow> reassembler_inv r"
  by (simp add: reassembler_inv_def)

lemma next_step_inv:
  "reassembler_inv r \<Longrightarrow> next_step r = (res, r') \<Longrightarrow> reassembler_inv r' \<and> max_record r' = max_record r
    \<and> (\<forall>rec. res = Some (Ok (Some rec)) \<longrightarrow> length rec \<le> max_record r)"
  by (auto simp: next_step_def reassembler_inv_def Let_def split: option.splits if_splits)

lemma next_record_inv:
  "reassembler_inv r \<Longrightarrow> next_record r = (res, r') \<Longrightarrow> reassembler_inv r' \<and> max_record r' = max_record r
    \<and> (\<forall>rec. res = Ok (Some rec) \<longrightarrow> length rec \<le> max_record r)"
proof (induction r rule: next_record.induct)
  case (1 r)
  obtain o1 r1 where s: "next_step r = (o1, r1)" by (cases "next_step r")
  note inv = next_step_inv [OF "1.prems"(1) s]
  show ?case
  proof (cases o1)
    case None
    with s "1.prems" have "next_record r1 = (res, r')" by (simp add: next_record.simps [of r])
    with "1.IH" [OF s [symmetric] None] inv show ?thesis by simp
  next
    case (Some x)
    with s "1.prems" have "x = res" "r1 = r'" by (auto simp: next_record.simps [of r])
    with inv Some show ?thesis by simp
  qed
qed

lemma drain_inv:
  "reassembler_inv r \<Longrightarrow> drain r = (recs, res, r') \<Longrightarrow> reassembler_inv r' \<and> max_record r' = max_record r
    \<and> (\<forall>rec \<in> set recs. length rec \<le> max_record r)"
proof (induction r arbitrary: recs rule: drain.induct)
  case (1 r)
  obtain nres r1 where n: "next_record r = (nres, r1)" by (cases "next_record r")
  note inv = next_record_inv [OF "1.prems"(1) n]
  show ?case
  proof (cases "\<exists>rec. nres = Ok (Some rec)")
    case True
    then obtain rec where rec: "nres = Ok (Some rec)" by blast
    then obtain recs1 where d1: "drain r1 = (recs1, res, r')" and recs: "recs = rec # recs1"
      using "1.prems" n by (auto simp: drain.simps [of r] split: prod.splits)
    from "1.IH" [OF n [symmetric] rec refl _ d1] inv rec recs show ?thesis by auto
  next
    case False
    with n "1.prems"(2) inv show ?thesis
      by (auto simp: drain.simps [of r] split: result.splits option.splits)
  qed
qed

subsection \<open>Properties of the framing\<close>

text \<open>
  C6: records survive the stream. Whatever way a sender cuts its records into
  fragments and whatever way the network cuts the stream into reads, the clients' reading
  loop returns exactly the records, in order, provided each fits the maximum.
\<close>

theorem records_delivered:
  assumes "\<forall>ds \<in> set dss. ds \<noteq> [] \<and> (\<forall>d \<in> set ds. length d \<le> unat LENGTH_MASK) \<and> length (concat ds) \<le> m"
    and "concat chunks = concat (map fragments dss)"
  shows "feed (with_max m) chunks = (map concat dss, Ok ())"
  using drain_fragments [OF assms(1)] by (simp add: feed_concat [OF drain_empty] assms(2))

theorem records_delivered_example:
  "feed (with_max 10) [[0, 0, 0, 2, 7], [8, 0x80, 0, 0, 1, 9, 0x80, 0], [0, 0]] = ([[7, 8, 9], []], Ok ())"
proof -
  have "\<forall>ds \<in> set [[[7, 8], [9 :: u8]], [[]]]. ds \<noteq> [] \<and> (\<forall>d \<in> set ds. length d \<le> unat LENGTH_MASK)
      \<and> length (concat ds) \<le> 10"
    by (simp add: unat_LENGTH_MASK)
  moreover have "concat [[0, 0, 0, 2, 7], [8, 0x80, 0, 0, 1, 9, 0x80, 0], [0, 0]]
      = concat (map fragments [[[7, 8], [9 :: u8]], [[]]])"
    by (simp add: fragment_def be_bytes_eval LAST_FRAGMENT_def)
  ultimately have "feed (with_max 10) [[0, 0, 0, 2, 7], [8, 0x80, 0, 0, 1, 9, 0x80, 0], [0, 0]]
      = (map concat [[[7, 8], [9 :: u8]], [[]]], Ok ())"
    by (rule records_delivered)
  then show ?thesis by (simp only: list.map concat.simps append.simps)
qed

text \<open>
  What the reading loop returns, errors included, depends only on the bytes
  received and not on how the reads divide them.
\<close>

theorem feed_chunk_independent:
  assumes "concat chunks = concat chunks'"
  shows "feed (with_max m) chunks = feed (with_max m) chunks'"
  by (simp add: feed_concat [OF drain_empty] assms)

theorem feed_chunk_independent_example:
  "feed (with_max 10) [[0x80, 0], [0, 1, 5, 0x80]] = feed (with_max 10) [[0x80], [0, 0], [1], [5, 0x80]]"
  by (rule feed_chunk_independent) simp



end
