(* ===== verification/RPC_Message.thy ===== *)
theory RPC_Message
  imports XDR_Derive RPC_Record
begin

text \<open>
  ONC-RPC authentication (\<open>nfs-rpc/src/auth.rs\<close>) and messages
  (\<open>nfs-rpc/src/message.rs\<close>): the credential bodies, the header of a \<open>CALL\<close> and the
  parser of a \<open>REPLY\<close>. Each is related to the message layout of RFC 5531: a server-side
  reader of the call header (\<open>call_header\<close>) and the wire form of every reply
  (\<open>reply_wire\<close>).
\<close>

subsection \<open>Authentication (auth.rs)\<close>

definition AUTH_NONE :: u32 where "AUTH_NONE = 0"
definition AUTH_SYS :: u32 where "AUTH_SYS = 1"
definition MAX_AUTH_BODY :: nat where "MAX_AUTH_BODY = 400"

record AuthSysParams =
  as_stamp :: u32
  as_machine_name :: string
  as_uid :: u32
  as_gid :: u32
  as_gids :: "u32 list"

definition encode_AuthSysParams :: "AuthSysParams encoder" where
  "encode_AuthSysParams p = struct_encode
     [encode_u32 (as_stamp p),
      encode_access encode_String length (Some 255) (as_machine_name p),
      encode_u32 (as_uid p),
      encode_u32 (as_gid p),
      encode_access (encode_Vec encode_u32) length (Some 16) (as_gids p)]"

definition decode_AuthSysParams :: "AuthSysParams decoder" where
  "decode_AuthSysParams =
     dec_bind decode_u32 (\<lambda>stamp.
     dec_bind (decode_value decode_String length (Some 255)) (\<lambda>machine_name.
     dec_bind decode_u32 (\<lambda>uid.
     dec_bind decode_u32 (\<lambda>gid.
     dec_bind (decode_value (decode_Vec decode_u32) length (Some 16)) (\<lambda>gids.
     dec_return \<lparr>as_stamp = stamp, as_machine_name = machine_name, as_uid = uid,
       as_gid = gid, as_gids = gids\<rparr>)))))"

datatype Credentials = Cred_None | Cred_Sys AuthSysParams

definition unix :: "u32 \<Rightarrow> u32 \<Rightarrow> Credentials" where
  "unix uid gid = Cred_Sys \<lparr>as_stamp = 0, as_machine_name = [], as_uid = uid, as_gid = gid,
     as_gids = []\<rparr>"

text \<open>All errors of \<open>encode_auth\<close> are XDR errors; \<open>encode_call\<close> wraps them.\<close>

definition encode_auth :: "Credentials \<Rightarrow> encoding" where
  "encode_auth cred =
     (case cred of
        Cred_None \<Rightarrow> enc_seq (encode_u32 AUTH_NONE) (encode_opaque [] MAX_AUTH_BODY)
      | Cred_Sys params \<Rightarrow> enc_seq (encode_u32 AUTH_SYS) (\<lambda>buf.
          and_then (to_bytes encode_AuthSysParams params) (\<lambda>body.
            encode_opaque body MAX_AUTH_BODY buf)))"

subsection \<open>Messages (message.rs)\<close>

definition RPC_VERSION :: u32 where "RPC_VERSION = 2"
definition NULL_PROC :: u32 where "NULL_PROC = 0"
definition MSG_CALL :: u32 where "MSG_CALL = 0"
definition MSG_REPLY :: u32 where "MSG_REPLY = 1"
definition MSG_ACCEPTED :: u32 where "MSG_ACCEPTED = 0"
definition MSG_DENIED :: u32 where "MSG_DENIED = 1"
definition SUCCESS :: u32 where "SUCCESS = 0"
definition PROG_UNAVAIL :: u32 where "PROG_UNAVAIL = 1"
definition PROG_MISMATCH :: u32 where "PROG_MISMATCH = 2"
definition PROC_UNAVAIL :: u32 where "PROC_UNAVAIL = 3"
definition GARBAGE_ARGS :: u32 where "GARBAGE_ARGS = 4"
definition SYSTEM_ERR :: u32 where "SYSTEM_ERR = 5"
definition RPC_MISMATCH :: u32 where "RPC_MISMATCH = 0"
definition AUTH_ERROR :: u32 where "AUTH_ERROR = 1"

lemmas msg_consts = AUTH_NONE_def AUTH_SYS_def MAX_AUTH_BODY_def RPC_VERSION_def NULL_PROC_def
  MSG_CALL_def MSG_REPLY_def MSG_ACCEPTED_def MSG_DENIED_def SUCCESS_def PROG_UNAVAIL_def
  PROG_MISMATCH_def PROC_UNAVAIL_def GARBAGE_ARGS_def SYSTEM_ERR_def RPC_MISMATCH_def
  AUTH_ERROR_def

definition encode_call ::
  "u32 \<Rightarrow> u32 \<Rightarrow> u32 \<Rightarrow> u32 \<Rightarrow> Credentials \<Rightarrow> bytes \<Rightarrow> (bytes, RpcError) result" where
  "encode_call xid prog vers proc cred buf = map_err Xdr (struct_encode
     [encode_u32 xid, encode_u32 MSG_CALL, encode_u32 RPC_VERSION,
      encode_u32 prog, encode_u32 vers, encode_u32 proc,
      encode_auth cred, encode_auth Cred_None] buf)"

text \<open>A decoder used in a function whose error type is \<open>RpcError\<close>.\<close>

definition rpc_dec :: "'a decoder \<Rightarrow> bytes \<Rightarrow> ('a \<times> bytes, RpcError) result" where
  "rpc_dec dec buf = map_err Xdr (dec buf)"

definition rpc_bind ::
  "'a decoder \<Rightarrow> bytes \<Rightarrow> ('a \<Rightarrow> bytes \<Rightarrow> ('b, RpcError) result) \<Rightarrow> ('b, RpcError) result" where
  "rpc_bind dec buf k = and_then (rpc_dec dec buf) (\<lambda>(x, rest). k x rest)"

definition parse_reply ::
  "bytes \<Rightarrow> (u32 \<times> (bytes, RpcError) result, RpcError) result" where
  "parse_reply body =
     rpc_bind decode_u32 body (\<lambda>xid body.
     rpc_bind decode_u32 body (\<lambda>mtype body.
     if mtype \<noteq> MSG_REPLY then Err MalformedReply else
     rpc_bind decode_u32 body (\<lambda>reply_stat body.
     if reply_stat = MSG_ACCEPTED then
       rpc_bind decode_u32 body (\<lambda>flavor body.
       rpc_bind (decode_opaque MAX_AUTH_BODY) body (\<lambda>verf body.
       rpc_bind decode_u32 body (\<lambda>accept_stat body.
       if accept_stat = SUCCESS then Ok (xid, Ok body)
       else if accept_stat = PROG_UNAVAIL then Ok (xid, Err ProgUnavail)
       else if accept_stat = PROG_MISMATCH then
         rpc_bind decode_u32 body (\<lambda>low body.
         rpc_bind decode_u32 body (\<lambda>high body. Ok (xid, Err (ProgMismatch low high))))
       else if accept_stat = PROC_UNAVAIL then Ok (xid, Err ProcUnavail)
       else if accept_stat = GARBAGE_ARGS then Ok (xid, Err GarbageArgs)
       else if accept_stat = SYSTEM_ERR then Ok (xid, Err SystemErr)
       else Ok (xid, Err (UnknownAcceptStat accept_stat)))))
     else if reply_stat = MSG_DENIED then
       rpc_bind decode_u32 body (\<lambda>reject_stat body.
       if reject_stat = RPC_MISMATCH then
         rpc_bind decode_u32 body (\<lambda>low body.
         rpc_bind decode_u32 body (\<lambda>high body. Ok (xid, Err (RpcMismatch low high))))
       else if reject_stat = AUTH_ERROR then
         rpc_bind decode_u32 body (\<lambda>stat body. Ok (xid, Err (AuthError stat)))
       else Ok (xid, Err MalformedReply))
     else Err MalformedReply)))"

subsection \<open>The credential body\<close>

lemma xdr_decoder_AuthSysParams [xdr_dec]: "xdr_decoder decode_AuthSysParams"
  unfolding decode_AuthSysParams_def by (intro xdr_dec)

lemma xdr_encoder_AuthSysParams [xdr_enc]: "xdr_encoder (encode_AuthSysParams p)"
  unfolding encode_AuthSysParams_def by (intro xdr_enc)

lemma be_bytes_ne: "be_bytes 4 w \<noteq> []" "be_bytes 8 x \<noteq> []"
  by (simp_all add: numeral_eq_Suc)

lemma wire_rt_u32_Vec [xdr_rt]: "wire_rt (encode_Vec encode_u32 xs) (decode_Vec decode_u32) xs"
  by (rule wire_rt_Vec) (auto simp: be_bytes_ne intro: xdr_enc xdr_rt)

lemma wire_rt_AuthSysParams [xdr_rt]:
  "valid_string (as_machine_name p) \<Longrightarrow> wire_rt (encode_AuthSysParams p) decode_AuthSysParams p"
  unfolding encode_AuthSysParams_def decode_AuthSysParams_def
  by (rule xdr_rt xdr_enc | simp)+

interpretation AuthSysParams_codec:
  xdr_codec decode_AuthSysParams encode_AuthSysParams "\<lambda>p. valid_string (as_machine_name p)"
  by (rule xdr_codecI; intro xdr_dec xdr_enc xdr_rt)

lemma encode_items_u32:
  "encode_items encode_u32 xs buf = Ok (buf @ concat (map (be_bytes 4) xs))"
  by (induction xs arbitrary: buf) (simp_all add: encode_u32_def put_word_def)

lemma length_concat_be4: "length (concat (map (be_bytes 4) ws)) = 4 * length ws"
  by (induction ws) simp_all

lemma encode_Vec_u32_Nil:
  "length xs \<le> u32_max \<Longrightarrow>
    encode_Vec encode_u32 xs [] = Ok (be_bytes 4 (of_nat (length xs) :: u32) @ concat (map (be_bytes 4) xs))"
  by (simp add: encode_Vec_def encode_items_u32 put_word_def)

lemma encode_AuthSysParams_cases:
  "to_bytes encode_AuthSysParams p =
     (if 255 < length (as_machine_name p)
      then Err (LimitExceeded (length (as_machine_name p)) 255)
      else if 16 < length (as_gids p) then Err (LimitExceeded (length (as_gids p)) 16)
      else Ok (be_bytes 4 (as_stamp p)
        @ be_bytes 4 (of_nat (length (as_machine_name p)) :: u32)
        @ as_bytes (as_machine_name p) @ replicate (padding (length (as_machine_name p))) 0
        @ be_bytes 4 (as_uid p) @ be_bytes 4 (as_gid p)
        @ be_bytes 4 (of_nat (length (as_gids p)) :: u32) @ concat (map (be_bytes 4) (as_gids p))))"
  by (simp add: to_bytes_def encode_AuthSysParams_def enc_seq_def encode_access_def enc_fail_def
      enc_done_def encode_u32_def put_word_def encode_String_def encode_opaque_eq
      encode_Vec_def encode_items_u32 as_bytes_def u32_max_def usize_max_def Let_def)

lemma AuthSysParams_size:
  "to_bytes encode_AuthSysParams p = Ok body \<Longrightarrow> length body \<le> 340"
proof -
  assume ok: "to_bytes encode_AuthSysParams p = Ok body"
  define n where "n = length (as_machine_name p)"
  have le: "n \<le> 255" "length (as_gids p) \<le> 16"
    and len: "length body = 20 + n + padding n + 4 * length (as_gids p)"
    using ok by (auto simp: encode_AuthSysParams_cases as_bytes_def length_concat_be4 n_def
        split: if_splits)
  from padding_aligns [of n] obtain k where "n + padding n = 4 * k" by (elim dvdE)
  with le(1) padding_lt [of n] have "n + padding n \<le> 256" by presburger
  with le(2) len show ?thesis by linarith
qed

lemma encode_auth_cases:
  "encode_auth Cred_None = enc_seq (encode_u32 0) (encode_u32 0)"
  "to_bytes encode_AuthSysParams p = Ok body \<Longrightarrow>
    encode_auth (Cred_Sys p) = enc_seq (encode_u32 1) (encode_opaque body 400)"
  "to_bytes encode_AuthSysParams p = Err e \<Longrightarrow> encode_auth (Cred_Sys p) = enc_fail e"
  by (auto simp: encode_auth_def msg_consts enc_seq_def enc_fail_def encode_opaque_eq encode_u32_def
      put_word_def padding_def)

lemma xdr_encoder_auth [xdr_enc]: "xdr_encoder (encode_auth cred)"
proof (cases cred)
  case Cred_None
  then show ?thesis by (auto simp: encode_auth_cases intro: xdr_enc)
next
  case (Cred_Sys p)
  have "to_bytes encode_AuthSysParams p \<noteq> Panic"
    unfolding to_bytes_def by (rule xdr_encoder.enc_no_panic) (intro xdr_enc)
  then show ?thesis using Cred_Sys
    by (cases "to_bytes encode_AuthSysParams p") (auto simp: encode_auth_cases intro!: xdr_enc)
qed

text \<open>
  The body of an \<open>AUTH_SYS\<close> credential always fits the 400 bytes of \<open>opaque_auth\<close>: the
  only reason \<open>encode_auth\<close> fails is a machine name or a group list over its own limit.
\<close>

definition cred_ok :: "Credentials \<Rightarrow> bool" where
  "cred_ok cred \<longleftrightarrow> (case cred of Cred_None \<Rightarrow> True
     | Cred_Sys p \<Rightarrow> length (as_machine_name p) \<le> 255 \<and> length (as_gids p) \<le> 16)"

lemma encode_auth_Ok_iff: "(\<exists>bs. encode_auth cred [] = Ok bs) \<longleftrightarrow> cred_ok cred"
proof (cases cred)
  case Cred_None
  then show ?thesis
    by (auto simp: encode_auth_cases cred_ok_def enc_seq_def encode_u32_def)
next
  case (Cred_Sys p)
  show ?thesis
  proof (cases "to_bytes encode_AuthSysParams p")
    case (Ok body)
    with AuthSysParams_size [OF Ok] Cred_Sys show ?thesis
      by (auto simp: encode_auth_cases enc_seq_def encode_opaque_eq encode_u32_def u32_max_def
          cred_ok_def encode_AuthSysParams_cases split: if_splits)
  next
    case (Err e)
    with Cred_Sys show ?thesis
      by (auto simp: encode_auth_cases enc_fail_def cred_ok_def encode_AuthSysParams_cases
          split: if_splits)
  next
    case Panic
    then show ?thesis by (simp add: encode_AuthSysParams_cases split: if_splits)
  qed
qed

subsection \<open>The call header a server reads\<close>

record call_header =
  ch_xid :: u32
  ch_mtype :: u32
  ch_rpcvers :: u32
  ch_prog :: u32
  ch_vers :: u32
  ch_proc :: u32
  ch_cred :: "u32 \<times> bytes"
  ch_verf :: "u32 \<times> bytes"

definition decode_opaque_auth :: "(u32 \<times> bytes) decoder" where
  "decode_opaque_auth = dec_bind decode_u32 (\<lambda>flavor.
     dec_bind (decode_opaque 400) (\<lambda>body. dec_return (flavor, body)))"

definition decode_call_header :: "call_header decoder" where
  "decode_call_header =
     dec_bind decode_u32 (\<lambda>xid. dec_bind decode_u32 (\<lambda>mtype.
     dec_bind decode_u32 (\<lambda>rpcvers. dec_bind decode_u32 (\<lambda>prog.
     dec_bind decode_u32 (\<lambda>vers. dec_bind decode_u32 (\<lambda>proc.
     dec_bind decode_opaque_auth (\<lambda>cred. dec_bind decode_opaque_auth (\<lambda>verf.
     dec_return \<lparr>ch_xid = xid, ch_mtype = mtype, ch_rpcvers = rpcvers, ch_prog = prog,
       ch_vers = vers, ch_proc = proc, ch_cred = cred, ch_verf = verf\<rparr>))))))))"

definition cred_auth :: "Credentials \<Rightarrow> u32 \<times> bytes" where
  "cred_auth cred = (case cred of Cred_None \<Rightarrow> (0, [])
     | Cred_Sys p \<Rightarrow> (1, case to_bytes encode_AuthSysParams p of Ok body \<Rightarrow> body | _ \<Rightarrow> []))"

lemma wire_rt_auth: "wire_rt (encode_auth cred) decode_opaque_auth (cred_auth cred)"
proof (cases cred)
  case Cred_None
  have "encode_u32 0 = encode_opaque [] 400"
    by (rule ext) (simp add: encode_u32_def encode_opaque_eq put_word_def padding_def)
  then have none: "encode_auth Cred_None = enc_seq (encode_u32 0) (encode_opaque [] 400)"
    by (simp add: encode_auth_cases)
  have "wire_rt (enc_seq (encode_u32 0) (encode_opaque [] 400)) decode_opaque_auth (0, [])"
    unfolding decode_opaque_auth_def
    by (rule wire_rt_seq [OF wire_rt_words(1)], rule xdr_enc, rule wire_rt_map [OF wire_rt_opaque])
      simp_all
  with Cred_None none show ?thesis by (simp add: cred_auth_def)
next
  case (Cred_Sys p)
  show ?thesis
  proof (cases "to_bytes encode_AuthSysParams p")
    case (Ok body)
    have "wire_rt (enc_seq (encode_u32 1) (encode_opaque body 400)) decode_opaque_auth (1, body)"
      unfolding decode_opaque_auth_def
      by (rule wire_rt_seq [OF wire_rt_words(1)], rule xdr_enc, rule wire_rt_map [OF wire_rt_opaque])
        simp_all
    with Cred_Sys Ok show ?thesis by (simp add: cred_auth_def encode_auth_cases)
  next
    case (Err e)
    with Cred_Sys show ?thesis by (simp add: encode_auth_cases wire_rt_fail)
  next
    case Panic
    then show ?thesis by (simp add: encode_AuthSysParams_cases split: if_splits)
  qed
qed

lemma encode_call_server_view:
  assumes "encode_call xid prog vers proc cred [] = Ok msg"
  shows "decode_call_header (msg @ args) = Ok (\<lparr>ch_xid = xid, ch_mtype = MSG_CALL,
    ch_rpcvers = RPC_VERSION, ch_prog = prog, ch_vers = vers, ch_proc = proc,
    ch_cred = cred_auth cred, ch_verf = (AUTH_NONE, [])\<rparr>, args)"
proof -
  have "wire_rt (struct_encode
     [encode_u32 xid, encode_u32 MSG_CALL, encode_u32 RPC_VERSION,
      encode_u32 prog, encode_u32 vers, encode_u32 proc,
      encode_auth cred, encode_auth Cred_None]) decode_call_header
    \<lparr>ch_xid = xid, ch_mtype = MSG_CALL, ch_rpcvers = RPC_VERSION, ch_prog = prog,
     ch_vers = vers, ch_proc = proc, ch_cred = cred_auth cred, ch_verf = cred_auth Cred_None\<rparr>"
    unfolding decode_call_header_def by (rule xdr_rt wire_rt_auth xdr_enc refl)+
  with assms show ?thesis
    by (simp add: wire_rt_def encode_call_def cred_auth_def AUTH_NONE_def)
qed

lemma encode_call_Ok_iff:
  "(\<exists>msg. encode_call xid prog vers proc cred buf = Ok msg) \<longleftrightarrow> cred_ok cred"
proof -
  have "xdr_encoder (encode_auth c)" for c by (rule xdr_enc)
  then have app: "encode_auth c b = map_ok (append b) (encode_auth c [])" for c b
    by (rule xdr_encoder.appends)
  have "(\<exists>bs. encode_auth Cred_None [] = Ok bs)"
    by (simp add: encode_auth_Ok_iff cred_ok_def)
  then show ?thesis
    unfolding encode_call_def encode_auth_Ok_iff [of cred, symmetric]
    by (auto simp: enc_seq_def enc_done_def encode_u32_def app [of _ "put_word _ _ _"]
        app [of _ "put_word _ _ _ @ _"])
qed

subsection \<open>The reply of a server\<close>

text \<open>The replies of RFC 5531 and their layout on the wire.\<close>

datatype accept_body =
    A_Success bytes
  | A_ProgUnavail
  | A_ProgMismatch u32 u32
  | A_ProcUnavail
  | A_GarbageArgs
  | A_SystemErr
  | A_Unknown u32 bytes

datatype reply_body =
    Accepted u32 bytes accept_body
  | Rejected_Mismatch u32 u32
  | Rejected_Auth u32
  | Rejected_Unknown u32 bytes

abbreviation w4 :: "u32 \<Rightarrow> bytes" where "w4 \<equiv> be_bytes 4"

fun accept_wire :: "accept_body \<Rightarrow> bytes" where
  "accept_wire (A_Success results) = w4 0 @ results"
| "accept_wire A_ProgUnavail = w4 1"
| "accept_wire (A_ProgMismatch low high) = w4 2 @ w4 low @ w4 high"
| "accept_wire A_ProcUnavail = w4 3"
| "accept_wire A_GarbageArgs = w4 4"
| "accept_wire A_SystemErr = w4 5"
| "accept_wire (A_Unknown stat body) = w4 stat @ body"

fun reply_wire :: "u32 \<Rightarrow> reply_body \<Rightarrow> bytes" where
  "reply_wire xid (Accepted flavor verf acc) =
     w4 xid @ w4 1 @ w4 0 @ w4 flavor @ w4 (of_nat (length verf)) @ verf
       @ replicate (padding (length verf)) 0 @ accept_wire acc"
| "reply_wire xid (Rejected_Mismatch low high) = w4 xid @ w4 1 @ w4 1 @ w4 0 @ w4 low @ w4 high"
| "reply_wire xid (Rejected_Auth stat) = w4 xid @ w4 1 @ w4 1 @ w4 1 @ w4 stat"
| "reply_wire xid (Rejected_Unknown stat body) = w4 xid @ w4 1 @ w4 1 @ w4 stat @ body"

fun accept_outcome :: "accept_body \<Rightarrow> (bytes, RpcError) result" where
  "accept_outcome (A_Success results) = Ok results"
| "accept_outcome A_ProgUnavail = Err ProgUnavail"
| "accept_outcome (A_ProgMismatch low high) = Err (ProgMismatch low high)"
| "accept_outcome A_ProcUnavail = Err ProcUnavail"
| "accept_outcome A_GarbageArgs = Err GarbageArgs"
| "accept_outcome A_SystemErr = Err SystemErr"
| "accept_outcome (A_Unknown stat body) = Err (UnknownAcceptStat stat)"

fun reply_outcome :: "reply_body \<Rightarrow> (bytes, RpcError) result" where
  "reply_outcome (Accepted flavor verf acc) = accept_outcome acc"
| "reply_outcome (Rejected_Mismatch low high) = Err (RpcMismatch low high)"
| "reply_outcome (Rejected_Auth stat) = Err (AuthError stat)"
| "reply_outcome (Rejected_Unknown stat body) = Err MalformedReply"

text \<open>A reply the RFC allows: the verifier within 400 bytes, an unknown status unknown.\<close>

fun reply_ok :: "reply_body \<Rightarrow> bool" where
  "reply_ok (Accepted flavor verf (A_Unknown stat body)) \<longleftrightarrow> length verf \<le> 400 \<and> stat > 5"
| "reply_ok (Accepted flavor verf acc) \<longleftrightarrow> length verf \<le> 400"
| "reply_ok (Rejected_Unknown stat body) \<longleftrightarrow> stat > 1"
| "reply_ok _ \<longleftrightarrow> True"

lemma rpc_bind_u32 [simp]: "rpc_bind decode_u32 (w4 x @ rest) k = k x rest"
  by (simp add: rpc_bind_def rpc_dec_def)

lemma rpc_bind_u32_end [simp]: "rpc_bind decode_u32 (w4 x) k = k x []"
  using rpc_bind_u32 [of x "[]" k] by simp

lemma rpc_bind_opaque:
  "length data \<le> limit \<Longrightarrow> length data \<le> u32_max \<Longrightarrow>
    rpc_bind (decode_opaque limit) (w4 (of_nat (length data)) @ data
      @ replicate (padding (length data)) 0 @ rest) k = k data rest"
  using wire_rt_opaque [of data limit limit]
  by (simp add: rpc_bind_def rpc_dec_def wire_rt_def encode_opaque_eq)

lemma rpc_bind_no_panic:
  "xdr_decoder dec \<Longrightarrow> (\<And>x rest. k x rest \<noteq> Panic) \<Longrightarrow> rpc_bind dec buf k \<noteq> Panic"
  by (auto simp: rpc_bind_def rpc_dec_def xdr_decoder.no_panic)

lemma parse_reply_no_panic: "parse_reply body \<noteq> Panic"
  unfolding parse_reply_def
  by (intro rpc_bind_no_panic xdr_dec conjI impI | simp)+

lemma parse_reply_result_no_panic: "parse_reply body = Ok (xid, r) \<Longrightarrow> r \<noteq> Panic"
  by (auto simp: parse_reply_def rpc_bind_def split: if_splits)

lemma word_gt5_neq: "5 < (x::u32) \<Longrightarrow> x \<noteq> 0 \<and> x \<noteq> 1 \<and> x \<noteq> 2 \<and> x \<noteq> 3 \<and> x \<noteq> 4 \<and> x \<noteq> 5"
  by auto

lemma parse_reply_wire:
  "reply_ok r \<Longrightarrow> parse_reply (reply_wire xid r) = Ok (xid, reply_outcome r)"
proof (cases r)
  case (Accepted flavor verf acc)
  moreover assume "reply_ok r"
  ultimately show ?thesis
    by (cases acc) (auto simp: parse_reply_def msg_consts rpc_bind_opaque u32_max_def
        dest: word_gt5_neq)
qed (auto simp: parse_reply_def msg_consts)

subsection \<open>Properties of the messages\<close>

text \<open>
  The body of an \<open>AUTH_SYS\<close> credential always fits the 400 bytes of an
  \<open>opaque_auth\<close>: encoding a credential fails only for a machine name over 255 bytes or more
  than 16 groups, the limits of RFC 5531.
\<close>

theorem credentials_fit:
  "((\<exists>bs. encode_auth cr [] = Ok bs) \<longleftrightarrow>
      (case cr of Cred_None \<Rightarrow> True
       | Cred_Sys p \<Rightarrow> length (as_machine_name p) \<le> 255 \<and> length (as_gids p) \<le> 16))
    \<and> length (snd (cred_auth cr)) \<le> 340"
proof
  show "(\<exists>bs. encode_auth cr [] = Ok bs) \<longleftrightarrow>
      (case cr of Cred_None \<Rightarrow> True
       | Cred_Sys p \<Rightarrow> length (as_machine_name p) \<le> 255 \<and> length (as_gids p) \<le> 16)"
    using encode_auth_Ok_iff [of cr] by (simp add: cred_ok_def)
  show "length (snd (cred_auth cr)) \<le> 340"
    by (cases cr) (auto simp: cred_auth_def dest: AuthSysParams_size split: result.splits)
qed

text \<open>
  The call header, read by a server. The transaction id, the program, the version and
  the procedure are the ones asked for, the message is a call of RPC version 2, the credential is
  the client's, the verifier is empty, and the arguments start right after the header.
\<close>

theorem call_header_server_view:
  assumes "encode_call xid prog vers proc cr [] = Ok msg"
  shows "decode_call_header (msg @ args) = Ok (\<lparr>ch_xid = xid, ch_mtype = 0, ch_rpcvers = 2, ch_prog = prog,
    ch_vers = vers, ch_proc = proc, ch_cred = cred_auth cr, ch_verf = (0, [])\<rparr>, args)
    \<and> 4 dvd length msg"
proof
  show "decode_call_header (msg @ args) = Ok (\<lparr>ch_xid = xid, ch_mtype = 0, ch_rpcvers = 2, ch_prog = prog,
    ch_vers = vers, ch_proc = proc, ch_cred = cred_auth cr, ch_verf = (0, [])\<rparr>, args)"
    using encode_call_server_view [OF assms, of args] by (simp add: msg_consts)
  have "xdr_encoder (struct_encode [encode_u32 xid, encode_u32 MSG_CALL, encode_u32 RPC_VERSION,
      encode_u32 prog, encode_u32 vers, encode_u32 proc, encode_auth cr, encode_auth Cred_None])"
    by (intro xdr_enc)
  from xdr_encoder.aligned [OF this] assms show "4 dvd length msg" by (simp add: encode_call_def)
qed

theorem call_header_server_view_example:
  "\<exists>msg. encode_call 7 100003 3 1 (unix 1000 100) [] = Ok msg \<and> 4 dvd length msg"
proof -
  have "cred_ok (unix 1000 100)" by (simp add: cred_ok_def unix_def)
  then obtain msg where "encode_call 7 100003 3 1 (unix 1000 100) [] = Ok msg"
    using encode_call_Ok_iff by blast
  with call_header_server_view [OF this] show ?thesis by blast
qed

text \<open>
  C27: the parser of replies, over every reply of RFC 5531: the transaction id is the
  reply's, a successful reply gives exactly its results, and each way a server can refuse is
  reported as that error.
\<close>

theorem parse_reply_every_reply:
  assumes "reply_ok r"
  shows "parse_reply (reply_wire xid r) = Ok (xid, case r of
      Accepted _ _ (A_Success results) \<Rightarrow> Ok results
    | Accepted _ _ A_ProgUnavail \<Rightarrow> Err ProgUnavail
    | Accepted _ _ (A_ProgMismatch low high) \<Rightarrow> Err (ProgMismatch low high)
    | Accepted _ _ A_ProcUnavail \<Rightarrow> Err ProcUnavail
    | Accepted _ _ A_GarbageArgs \<Rightarrow> Err GarbageArgs
    | Accepted _ _ A_SystemErr \<Rightarrow> Err SystemErr
    | Accepted _ _ (A_Unknown stat _) \<Rightarrow> Err (UnknownAcceptStat stat)
    | Rejected_Mismatch low high \<Rightarrow> Err (RpcMismatch low high)
    | Rejected_Auth stat \<Rightarrow> Err (AuthError stat)
    | Rejected_Unknown _ _ \<Rightarrow> Err MalformedReply)"
  using parse_reply_wire [OF assms, of xid] by (auto split: reply_body.splits accept_body.splits)

theorem parse_reply_every_reply_example:
  "parse_reply (reply_wire 7 (Accepted 0 [1, 2, 3] (A_ProgMismatch 2 4))) = Ok (7, Err (ProgMismatch 2 4))"
  using parse_reply_every_reply [of "Accepted 0 [1, 2, 3] (A_ProgMismatch 2 4)" 7] by simp

text \<open>The results handed on are what is left of the message after \<open>n\<close> bytes or more.\<close>

definition left_after :: "nat \<Rightarrow> bytes \<Rightarrow> bytes \<Rightarrow> bool" where
  "left_after n buf body \<longleftrightarrow> (\<exists>pre. buf = pre @ body \<and> n \<le> length pre)"

lemma left_after_refl: "left_after 0 buf buf"
  by (simp add: left_after_def)

lemma left_after_step:
  assumes "dec buf = Ok (x, rest)" "xdr_decoder dec" "4 + length rest \<le> length buf" "left_after (n - 4) rest body"
  shows "left_after n buf body"
proof -
  obtain p q where "buf = p @ rest" "rest = q @ body" "n - 4 \<le> length q"
    using xdr_decoder.consumes [OF assms(2,1)] assms(4) by (auto simp: left_after_def)
  with assms(3) show ?thesis unfolding left_after_def by (intro exI [of _ "p @ q"]) auto
qed

lemma rpc_bind_u32_left:
  assumes "rpc_bind decode_u32 buf k = Ok y" "\<And>w rest. k w rest = Ok y \<Longrightarrow> left_after (n - 4) rest body"
  shows "left_after n buf body"
proof -
  from assms(1) obtain w rest where d: "decode_u32 buf = Ok (w, rest)" "k w rest = Ok y"
    by (auto simp: rpc_bind_def rpc_dec_def)
  have "4 + length rest \<le> length buf"
    using d(1) by (auto simp: decode_u32_def dec_bind_def ensure_def get_word_def Let_def split: if_splits)
  from left_after_step [OF d(1) xdr_decoder_words(1) this assms(2) [OF d(2)]] show ?thesis .
qed

lemma rpc_bind_opaque_left:
  assumes "rpc_bind (decode_opaque limit) buf k = Ok y" "\<And>data rest. k data rest = Ok y \<Longrightarrow> left_after (n - 4) rest body"
  shows "left_after n buf body"
proof -
  from assms(1) obtain data rest where d: "decode_opaque limit buf = Ok (data, rest)" "k data rest = Ok y"
    by (auto simp: rpc_bind_def rpc_dec_def)
  have "4 + length rest \<le> length buf"
    using d(1) by (auto simp: decode_opaque_eq Let_def split: if_splits)
  from left_after_step [OF d(1) xdr_decoder_opaque this assms(2) [OF d(2)]] show ?thesis .
qed

lemma rpc_bind_no_result: "(\<And>x rest. k x rest \<noteq> Ok y) \<Longrightarrow> rpc_bind dec buf k \<noteq> Ok y"
  by (auto simp: rpc_bind_def)

lemma parse_reply_left:
  assumes "parse_reply msg = Ok (xid, Ok body)"
  shows "left_after 24 msg body"
  using assms unfolding parse_reply_def
  by (elim rpc_bind_u32_left)
    (auto split: if_splits elim!: rpc_bind_u32_left rpc_bind_opaque_left
      simp: rpc_bind_no_result left_after_refl)

text \<open>
  On arbitrary bytes the parser of replies returns a reply or an error, without a
  panic, and the results it hands on are a suffix of the message.
\<close>

theorem parse_reply_total:
  "parse_reply bytes \<noteq> Panic \<and>
    (\<forall>xid r. parse_reply bytes = Ok (xid, r) \<longrightarrow> r \<noteq> Panic \<and>
      (\<forall>body. r = Ok body \<longrightarrow> (\<exists>pre. bytes = pre @ body \<and> 24 \<le> length pre)))"
  using parse_reply_no_panic parse_reply_result_no_panic parse_reply_left by (auto simp: left_after_def)

theorem parse_reply_total_example:
  "\<exists>pre. reply_wire 7 (Accepted 0 [] (A_Success [1, 2, 3])) = pre @ [1, 2, 3] \<and> 24 \<le> length pre"
proof -
  have "parse_reply (reply_wire 7 (Accepted 0 [] (A_Success [1, 2, 3]))) = Ok (7, Ok [1, 2, 3])"
    using parse_reply_wire [of "Accepted 0 [] (A_Success [1, 2, 3])" 7] by simp
  with parse_reply_total [of "reply_wire 7 (Accepted 0 [] (A_Success [1, 2, 3]))"] show ?thesis by blast
qed

end
