(* ===== verification/RPC_Client.thy ===== *)
theory RPC_Client
  imports RPC_Message
begin

text \<open>
  The synchronous RPC client (\<open>nfs-rpc/src/client.rs\<close>).

  The network is an explicit script: the answers it gives to the socket calls of the
  program, in the order the program makes them (\<open>net_opens\<close> for \<open>connect\<close>,
  \<open>net_sends\<close> for \<open>write_all\<close>/\<open>send\<close>, \<open>net_recvs\<close> for one round of the receive loop, in
  which \<open>Deadline\<close> is the round that finds \<open>now >= deadline\<close>), and a log of what the
  program did to it. An operation whose script runs out is still waiting: its value is
  \<open>None\<close>. \<open>call_returns\<close> shows that deadlines alone make every call return.
\<close>

subsection \<open>The network\<close>

datatype IpAddr = V4 "32 word" | V6 "128 word"

record SocketAddr =
  sa_ip :: IpAddr
  sa_port :: u16

datatype Protocol = Tcp | Udp

datatype Socket = Sock_Tcp | Sock_Udp | Sock_Stream

datatype recv_event = Deadline | Recv_Data bytes | Recv_Err ErrorKind

datatype net_action = Opened SocketAddr Protocol | Sent bytes | Send_Failed bytes

record net =
  net_opens :: "ErrorKind option list"
  net_sends :: "ErrorKind option list"
  net_recvs :: "recv_event list"
  net_clock :: "u32 list"
  net_log :: "net_action list"

definition DEFAULT_TIMEOUT :: nat where "DEFAULT_TIMEOUT = 60"
definition MAX_ATTEMPTS :: nat where "MAX_ATTEMPTS = 3"

subsection \<open>The client\<close>

record RpcClient =
  addr :: SocketAddr
  protocol :: Protocol
  cred :: Credentials
  timeout :: nat
  socket :: Socket
  reassembler :: RecordReassembler
  pending :: "bytes list"
  next_xid :: u32
  auto_reconnect :: bool

type_synonym 'a rpc_op = "(RpcClient \<times> net, RpcError, 'a) op"

definition open_socket :: "SocketAddr \<Rightarrow> Protocol \<Rightarrow> (net, RpcError, Socket) op" where
  "open_socket a p n =
     (case net_opens n of
        [] \<Rightarrow> None
      | Some kind # os \<Rightarrow> Some (Err (Io kind), n\<lparr>net_opens := os\<rparr>)
      | None # os \<Rightarrow> Some (Ok (case p of Tcp \<Rightarrow> Sock_Tcp | Udp \<Rightarrow> Sock_Udp),
          n\<lparr>net_opens := os, net_log := net_log n @ [Opened a p]\<rparr>))"

text \<open>
  \<open>seed_xid\<close> mixes the clock's nanoseconds with the process id; a clock that fails counts
  as 0.
\<close>

definition seed_xid :: "u32 \<Rightarrow> net \<Rightarrow> u32 \<times> net" where
  "seed_xid pid n =
     (case net_clock n of
        [] \<Rightarrow> (0 XOR pid, n)
      | nanos # ts \<Rightarrow> (nanos XOR pid, n\<lparr>net_clock := ts\<rparr>))"

definition connect ::
  "u32 \<Rightarrow> SocketAddr \<Rightarrow> Protocol \<Rightarrow> Credentials \<Rightarrow> nat \<Rightarrow> (net, RpcError, RpcClient) op" where
  "connect pid a p cr t =
     op_bind (open_socket a p) (\<lambda>sock n.
       let (seed, n') = seed_xid pid n in
       Some (Ok \<lparr>addr = a, protocol = p, cred = cr, timeout = t, socket = sock,
         reassembler = new_reassembler, pending = [], next_xid = seed, auto_reconnect = True\<rparr>, n'))"

definition from_stream :: "u32 \<Rightarrow> Credentials \<Rightarrow> nat \<Rightarrow> net \<Rightarrow> RpcClient \<times> net" where
  "from_stream pid cr t n =
     (let (seed, n') = seed_xid pid n in
      (\<lparr>addr = \<lparr>sa_ip = V4 0, sa_port = 0\<rparr>, protocol = Tcp, cred = cr, timeout = t,
        socket = Sock_Stream, reassembler = new_reassembler, pending = [], next_xid = seed,
        auto_reconnect = False\<rparr>, n'))"

definition set_auto_reconnect :: "bool \<Rightarrow> RpcClient \<Rightarrow> RpcClient" where
  "set_auto_reconnect enabled c = c\<lparr>auto_reconnect := enabled\<rparr>"

definition set_credentials :: "Credentials \<Rightarrow> RpcClient \<Rightarrow> RpcClient" where
  "set_credentials cr c = c\<lparr>cred := cr\<rparr>"

definition peer_addr :: "RpcClient \<Rightarrow> SocketAddr" where
  "peer_addr c = addr c"

definition is_timeout :: "ErrorKind \<Rightarrow> bool" where
  "is_timeout kind \<longleftrightarrow> kind = WouldBlock \<or> kind = TimedOut"

definition is_retryable :: "RpcClient \<Rightarrow> RpcError \<Rightarrow> bool" where
  "is_retryable c err =
     (if err = Timeout \<and> protocol c = Udp then True
      else case err of
        Io _ \<Rightarrow> auto_reconnect c
      | ConnectionClosed \<Rightarrow> auto_reconnect c
      | _ \<Rightarrow> False)"

definition build_call ::
  "u32 \<Rightarrow> u32 \<Rightarrow> u32 \<Rightarrow> encoding \<Rightarrow> RpcClient \<Rightarrow> (u32 \<times> bytes, RpcError) result \<times> RpcClient" where
  "build_call prog vers proc args c =
     (let xid = next_xid c; c' = c\<lparr>next_xid := next_xid c + 1\<rparr> in
      (and_then (encode_call xid prog vers proc (cred c') []) (\<lambda>message.
       and_then (map_err Xdr (args message)) (\<lambda>message. Ok (xid, message))), c'))"

text \<open>\<open>write_all\<close> and \<open>flush\<close>, or the \<open>send\<close> of a datagram.\<close>

definition transmit :: "bytes \<Rightarrow> unit rpc_op" where
  "transmit data = (\<lambda>(c, n).
     (case net_sends n of
        [] \<Rightarrow> None
      | None # ss \<Rightarrow> Some (Ok (), c, n\<lparr>net_sends := ss, net_log := net_log n @ [Sent data]\<rparr>)
      | Some kind # ss \<Rightarrow>
          Some (Err (Io kind), c, n\<lparr>net_sends := ss, net_log := net_log n @ [Send_Failed data]\<rparr>)))"

definition send :: "bytes \<Rightarrow> unit rpc_op" where
  "send message = (\<lambda>(c, n).
     (case socket c of
        Sock_Tcp \<Rightarrow> op_bind (op_lift (frame message)) transmit (c, n)
      | Sock_Udp \<Rightarrow> transmit message (c, n)
      | Sock_Stream \<Rightarrow> op_bind (op_lift (frame message)) transmit (c, n)))"

text \<open>The loop of \<open>recv_message\<close>, one event of the script a round.\<close>

fun recv_loop ::
  "RpcClient \<Rightarrow> recv_event list \<Rightarrow> ((bytes, RpcError) result \<times> RpcClient \<times> recv_event list) option"
where
  "recv_loop c [] = None"
| "recv_loop c (Deadline # evs) = Some (Err Timeout, c, evs)"
| "recv_loop c (Recv_Err kind # evs) =
     (if is_timeout kind then Some (Err Timeout, c, evs)
      else if kind = Interrupted then recv_loop c evs
      else Some (Err (Io kind), c, evs))"
| "recv_loop c (Recv_Data buf # evs) =
     (case socket c of
        Sock_Udp \<Rightarrow> Some (Ok buf, c, evs)
      | _ \<Rightarrow>
        if buf = [] then Some (Err ConnectionClosed, c, evs)
        else
          let (recs, res, r') = drain (push buf (reassembler c));
              c' = c\<lparr>reassembler := r', pending := pending c @ recs\<rparr>
          in (case res of
                Err e \<Rightarrow> Some (Err e, c', evs)
              | Panic \<Rightarrow> Some (Panic, c', evs)
              | Ok _ \<Rightarrow>
                  (case pending c' of
                     message # rest \<Rightarrow> Some (Ok message, c'\<lparr>pending := rest\<rparr>, evs)
                   | [] \<Rightarrow> recv_loop c' evs)))"

definition recv_message ::
  "RpcClient \<Rightarrow> recv_event list \<Rightarrow> ((bytes, RpcError) result \<times> RpcClient \<times> recv_event list) option"
where
  "recv_message c evs =
     (case pending c of
        message # rest \<Rightarrow> Some (Ok message, c\<lparr>pending := rest\<rparr>, evs)
      | [] \<Rightarrow> recv_loop c evs)"

lemma recv_loop_data:
  assumes "socket c \<noteq> Sock_Udp" "buf \<noteq> []" "drain (push buf (reassembler c)) = (recs, res, r')"
  shows "recv_loop c (Recv_Data buf # evs) =
    (let c' = c\<lparr>reassembler := r', pending := pending c @ recs\<rparr> in
     case res of
       Err e \<Rightarrow> Some (Err e, c', evs)
     | Panic \<Rightarrow> Some (Panic, c', evs)
     | Ok _ \<Rightarrow> (case pending c @ recs of
           message # rest \<Rightarrow> Some (Ok message, c'\<lparr>pending := rest\<rparr>, evs)
         | [] \<Rightarrow> recv_loop c' evs))"
  using assms by (cases "socket c"; cases res) (simp_all add: Let_def)

lemma recv_loop_shrinks:
  "recv_loop c evs = Some (res, c', evs') \<Longrightarrow> length evs' < length evs"
proof (induction evs arbitrary: c)
  case (Cons ev evs)
  have IH: "recv_loop d evs = Some (res, c', evs') \<Longrightarrow> length evs' < Suc (length evs)" for d
    using Cons.IH by fastforce
  show ?case
  proof (cases ev)
    case (Recv_Data buf)
    obtain recs r res' where d: "drain (push buf (reassembler c)) = (recs, res', r)"
      by (cases "drain (push buf (reassembler c))")
    show ?thesis
    proof (cases "socket c = Sock_Udp \<or> buf = []")
      case True
      with Cons.prems Recv_Data show ?thesis by (cases "socket c") auto
    next
      case False
      with Cons.prems Recv_Data show ?thesis
        by (auto simp: recv_loop_data [OF _ _ d] Let_def simp del: recv_loop.simps
            dest: IH split: result.splits list.splits)
    qed
  qed (use Cons.prems IH in \<open>auto split: if_splits\<close>)
qed simp

lemma recv_message_shrinks:
  "recv_message c evs = Some (Ok m, c', evs') \<Longrightarrow>
    length evs' < length evs \<or> length evs' = length evs \<and> length (pending c') < length (pending c)"
  by (auto simp: recv_message_def dest: recv_loop_shrinks split: list.splits)

text \<open>The loop of \<open>attempt_call\<close> after the message has been sent.\<close>

function await_reply ::
  "'a decoder \<Rightarrow> u32 \<Rightarrow> RpcClient \<Rightarrow> recv_event list \<Rightarrow>
    (('a, RpcError) result \<times> RpcClient \<times> recv_event list) option" where
  "await_reply dec xid c evs =
     (case recv_message c evs of
        None \<Rightarrow> None
      | Some (Err e, c', evs') \<Rightarrow> Some (Err e, c', evs')
      | Some (Panic, c', evs') \<Rightarrow> Some (Panic, c', evs')
      | Some (Ok reply, c', evs') \<Rightarrow>
          (case parse_reply reply of
             Err e \<Rightarrow> Some (Err e, c', evs')
           | Panic \<Rightarrow> Some (Panic, c', evs')
           | Ok (reply_xid, res) \<Rightarrow>
               if reply_xid \<noteq> xid then await_reply dec xid c' evs'
               else Some (and_then res (\<lambda>body. map_err Xdr (map_ok fst (dec body))), c', evs')))"
  by pat_completeness auto
termination
  by (relation "measures [\<lambda>(dec, xid, c, evs). length evs, \<lambda>(dec, xid, c, evs). length (pending c)]")
    (auto dest!: recv_message_shrinks)

declare await_reply.simps [simp del]

definition attempt_call :: "'a decoder \<Rightarrow> u32 \<Rightarrow> bytes \<Rightarrow> 'a rpc_op" where
  "attempt_call dec xid message =
     op_bind (send message) (\<lambda>_ (c, n).
       case await_reply dec xid c (net_recvs n) of
         None \<Rightarrow> None
       | Some (res, c', evs') \<Rightarrow> Some (res, c', n\<lparr>net_recvs := evs'\<rparr>))"

definition reconnect :: "unit rpc_op" where
  "reconnect = (\<lambda>(c, n).
     case open_socket (addr c) (protocol c) n of
       None \<Rightarrow> None
     | Some (Err e, n') \<Rightarrow> Some (Err e, c, n')
     | Some (Panic, n') \<Rightarrow> Some (Panic, c, n')
     | Some (Ok sock, n') \<Rightarrow>
         Some (Ok (), c\<lparr>socket := sock, reassembler := new_reassembler, pending := []\<rparr>, n'))"

text \<open>The loop of \<open>call\<close>; \<open>attempt\<close> counts the attempts already made.\<close>

function call_loop :: "nat \<Rightarrow> 'a decoder \<Rightarrow> u32 \<Rightarrow> bytes \<Rightarrow> 'a rpc_op" where
  "call_loop attempt dec xid message s =
     (case attempt_call dec xid message s of
        None \<Rightarrow> None
      | Some (Ok v, s') \<Rightarrow> Some (Ok v, s')
      | Some (Panic, s') \<Rightarrow> Some (Panic, s')
      | Some (Err err, s') \<Rightarrow>
          if attempt + 1 < MAX_ATTEMPTS \<and> is_retryable (fst s') err then
            (if protocol (fst s') = Tcp
             then op_bind reconnect (\<lambda>_. call_loop (attempt + 1) dec xid message) s'
             else call_loop (attempt + 1) dec xid message s')
          else Some (Err err, s'))"
  by pat_completeness auto
termination
  by (relation "measure (\<lambda>(attempt, dec, xid, message, s). MAX_ATTEMPTS - attempt)") auto

declare call_loop.simps [simp del]

definition call :: "u32 \<Rightarrow> u32 \<Rightarrow> u32 \<Rightarrow> encoding \<Rightarrow> 'a decoder \<Rightarrow> 'a rpc_op" where
  "call prog vers proc args dec = (\<lambda>(c, n).
     let (built, c') = build_call prog vers proc args c in
     op_bind (op_lift built) (\<lambda>(xid, message). call_loop 0 dec xid message) (c', n))"

definition null :: "u32 \<Rightarrow> u32 \<Rightarrow> unit rpc_op" where
  "null prog vers = call prog vers NULL_PROC (encode_unit ()) decode_unit"

subsection \<open>What receiving changes\<close>

text \<open>
  Receiving touches the reassembler and the queue of pending records only; \<open>received\<close>
  relates the client before and after.
\<close>

definition received :: "RpcClient \<Rightarrow> RpcClient \<Rightarrow> bool" where
  "received c c' \<longleftrightarrow> c' = c\<lparr>reassembler := reassembler c', pending := pending c'\<rparr>"

lemma received_refl [simp]: "received c c"
  by (simp add: received_def)

lemma received_update [simp]:
  "received c (c\<lparr>reassembler := r, pending := p\<rparr>)" "received c (c\<lparr>pending := p\<rparr>)"
  by (simp_all add: received_def)

lemma received_trans: "received a b \<Longrightarrow> received b c \<Longrightarrow> received a c"
  unfolding received_def by (metis (no_types, lifting) RpcClient.surjective RpcClient.update_convs(6,7))

lemma received_fields:
  assumes "received c c'"
  shows "addr c' = addr c" "protocol c' = protocol c" "cred c' = cred c" "timeout c' = timeout c"
    "socket c' = socket c" "next_xid c' = next_xid c" "auto_reconnect c' = auto_reconnect c"
  using assms unfolding received_def
  by (metis RpcClient.select_convs RpcClient.surjective RpcClient.update_convs)+

definition deadlines :: "recv_event list \<Rightarrow> nat" where
  "deadlines evs = length (filter (\<lambda>ev. ev = Deadline) evs)"

lemma deadlines_simps [simp]:
  "deadlines [] = 0" "deadlines (Deadline # evs) = Suc (deadlines evs)"
  "deadlines (Recv_Data b # evs) = deadlines evs" "deadlines (Recv_Err k # evs) = deadlines evs"
  by (simp_all add: deadlines_def)

text \<open>
  One round of receiving: what it leaves of the client, how many deadlines it uses up, and
  that a deadline in the script makes it return.
\<close>

lemma recv_loop_effect:
  "recv_loop c evs = Some (res, c', evs') \<Longrightarrow> received c c' \<and> res \<noteq> Panic \<and>
    (if is_ok res then deadlines evs' = deadlines evs else deadlines evs \<le> Suc (deadlines evs'))"
proof (induction evs arbitrary: c)
  case (Cons ev evs)
  show ?case
  proof (cases ev)
    case (Recv_Data buf)
    obtain recs r res' where d: "drain (push buf (reassembler c)) = (recs, res', r)"
      by (cases "drain (push buf (reassembler c))")
    have np: "res' \<noteq> Panic" using drain_never_panics [of "push buf (reassembler c)"] d by simp
    show ?thesis
    proof (cases "socket c = Sock_Udp \<or> buf = []")
      case True
      with Cons.prems Recv_Data show ?thesis by (cases "socket c") auto
    next
      case False
      with Cons.prems Recv_Data np show ?thesis
        by (auto simp: recv_loop_data [OF _ _ d] Let_def simp del: recv_loop.simps
            dest!: Cons.IH intro: received_trans [rotated] split: result.splits list.splits)
    qed
  qed (use Cons in \<open>auto split: if_splits\<close>)
qed simp

lemma recv_loop_deadline: "0 < deadlines evs \<Longrightarrow> \<exists>out. recv_loop c evs = Some out"
proof (induction evs arbitrary: c)
  case (Cons ev evs)
  show ?case
  proof (cases ev)
    case (Recv_Data buf)
    obtain recs r res' where d: "drain (push buf (reassembler c)) = (recs, res', r)"
      by (cases "drain (push buf (reassembler c))")
    show ?thesis
    proof (cases "socket c = Sock_Udp \<or> buf = []")
      case True
      with Recv_Data show ?thesis by (cases "socket c") auto
    next
      case False
      with Cons Recv_Data show ?thesis
        by (auto simp: recv_loop_data [OF _ _ d] Let_def simp del: recv_loop.simps
            split: result.splits list.splits)
    qed
  qed (use Cons in auto)
qed simp

lemma recv_message_effect:
  "recv_message c evs = Some (res, c', evs') \<Longrightarrow> received c c' \<and> res \<noteq> Panic \<and>
    (if is_ok res then deadlines evs' = deadlines evs else deadlines evs \<le> Suc (deadlines evs'))"
  by (auto simp: recv_message_def dest: recv_loop_effect split: list.splits)

lemma recv_message_deadline: "0 < deadlines evs \<Longrightarrow> \<exists>out. recv_message c evs = Some out"
  unfolding recv_message_def using recv_loop_deadline [of evs c] by (cases "pending c") simp_all

lemma await_reply_step:
  "recv_message c evs = None \<Longrightarrow> await_reply dec xid c evs = None"
  "recv_message c evs = Some (Err e, c', evs') \<Longrightarrow> await_reply dec xid c evs = Some (Err e, c', evs')"
  "recv_message c evs = Some (Ok reply, c', evs') \<Longrightarrow> parse_reply reply = Err e \<Longrightarrow>
    await_reply dec xid c evs = Some (Err e, c', evs')"
  "recv_message c evs = Some (Ok reply, c', evs') \<Longrightarrow> parse_reply reply = Ok (x, r) \<Longrightarrow>
    await_reply dec xid c evs =
      (if x \<noteq> xid then await_reply dec xid c' evs'
       else Some (and_then r (\<lambda>body. map_err Xdr (map_ok fst (dec body))), c', evs'))"
  by (simp_all add: await_reply.simps)

lemma await_reply_cases:
  obtains
    (waiting) "recv_message c evs = None"
  | (failed) e c' evs' where "recv_message c evs = Some (Err e, c', evs')"
  | (malformed) reply c' evs' e where "recv_message c evs = Some (Ok reply, c', evs')"
      "parse_reply reply = Err e"
  | (stale) reply c' evs' x r where "recv_message c evs = Some (Ok reply, c', evs')"
      "parse_reply reply = Ok (x, r)" "x \<noteq> xid"
  | (matching) reply c' evs' r where "recv_message c evs = Some (Ok reply, c', evs')"
      "parse_reply reply = Ok (xid, r)"
proof (cases "recv_message c evs")
  case (Some out)
  then obtain res c' evs' where m: "recv_message c evs = Some (res, c', evs')" by (cases out) auto
  with recv_message_effect [OF this] show ?thesis
  proof (cases res)
    case (Ok reply)
    note m' = m [unfolded Ok]
    show ?thesis
    proof (cases "parse_reply reply")
      case (Ok out)
      then obtain x r where p: "parse_reply reply = Ok (x, r)" by (cases out) auto
      show ?thesis
      proof (cases "x = xid")
        case True
        with p show ?thesis by (intro matching [OF m']) simp
      qed (rule stale [OF m' p])
    next
      case (Err e)
      with m' show ?thesis by (intro malformed)
    next
      case Panic
      with parse_reply_no_panic [of reply] show ?thesis by simp
    qed
  next
    case (Err e)
    with m show ?thesis by (intro failed) simp
  qed simp
qed (rule waiting)

lemma await_reply_induct [case_names step]:
  assumes "\<And>c evs. (\<And>m c' evs' x r. recv_message c evs = Some (Ok m, c', evs') \<Longrightarrow>
    parse_reply m = Ok (x, r) \<Longrightarrow> x \<noteq> xid \<Longrightarrow> P c' evs') \<Longrightarrow> P c evs"
  shows "P c evs"
proof (induction "(c, evs)" arbitrary: c evs
    rule: wf_induct_rule [OF wf_measures [of "[\<lambda>(c, evs). length evs, \<lambda>(c, evs). length (pending c)]"]])
  case (1 c evs)
  show ?case
  proof (rule assms)
    fix m c' evs' x r
    assume "recv_message c evs = Some (Ok m, c', evs')"
    from recv_message_shrinks [OF this] show "P c' evs'" by (intro 1) auto
  qed
qed

lemma await_reply_effect:
  assumes "xdr_decoder dec" and "await_reply dec xid c evs = Some (res, c', evs')"
  shows "received c c' \<and> res \<noteq> Panic \<and> deadlines evs \<le> Suc (deadlines evs')"
  using assms(2)
proof (induction c evs rule: await_reply_induct [where xid = xid])
  case (step c evs)
  show ?case
  proof (cases c evs rule: await_reply_cases [where xid = xid])
    case (stale reply c1 evs1 x r)
    from step.prems stale have "await_reply dec xid c1 evs1 = Some (res, c', evs')"
      by (simp add: await_reply_step)
    from step.IH [OF stale this] recv_message_effect [OF stale(1)] show ?thesis
      by (auto intro: received_trans)
  next
    case (matching reply c1 evs1 r)
    with step.prems recv_message_effect [OF matching(1)] parse_reply_result_no_panic [OF matching(2)]
    show ?thesis by (auto simp: await_reply_step xdr_decoder.no_panic [OF assms(1)])
  qed (use step.prems in \<open>auto simp: await_reply_step dest: recv_message_effect\<close>)
qed

lemma await_reply_received:
  "await_reply dec xid c evs = Some (res, c', evs') \<Longrightarrow> received c c'"
proof (induction c evs rule: await_reply_induct [where xid = xid])
  case (step c evs)
  show ?case
  proof (cases c evs rule: await_reply_cases [where xid = xid])
    case (stale reply c1 evs1 x r)
    with step.prems step.IH [OF stale] recv_message_effect [OF stale(1)] show ?thesis
      by (auto simp: await_reply_step intro: received_trans)
  qed (use step.prems in \<open>auto simp: await_reply_step dest: recv_message_effect\<close>)
qed

lemma await_reply_deadline: "0 < deadlines evs \<Longrightarrow> \<exists>out. await_reply dec xid c evs = Some out"
proof (induction c evs rule: await_reply_induct [where xid = xid])
  case (step c evs)
  show ?case
  proof (cases c evs rule: await_reply_cases [where xid = xid])
    case waiting
    with recv_message_deadline [OF step.prems, of c] show ?thesis by simp
  next
    case (stale reply c1 evs1 x r)
    with recv_message_effect [OF stale(1)] step.prems step.IH [OF stale] show ?thesis
      by (simp add: await_reply_step)
  qed (simp_all add: await_reply_step)
qed

subsection \<open>The inbox\<close>

text \<open>
  The messages that the client will see: the records already reassembled, then those that
  the bytes still in the script complete. \<open>recv_message\<close> takes its first element,
  whatever the sizes of the reads.
\<close>

fun chunks :: "recv_event list \<Rightarrow> bytes list" where
  "chunks [] = []"
| "chunks (Recv_Data buf # evs) = buf # chunks evs"
| "chunks (_ # evs) = chunks evs"

definition inbox :: "RpcClient \<Rightarrow> recv_event list \<Rightarrow> bytes list" where
  "inbox c evs = pending c @ (if socket c = Sock_Udp then chunks evs
     else fst (feed (reassembler c) (chunks evs)))"

lemma inbox_skip [simp]:
  "inbox c (Recv_Err kind # evs) = inbox c evs" "inbox c (Deadline # evs) = inbox c evs"
  by (simp_all add: inbox_def)

lemma recv_loop_inbox:
  "recv_loop c evs = Some (Ok m, c', evs') \<Longrightarrow> pending c = [] \<Longrightarrow> inbox c evs = m # inbox c' evs'"
proof (induction evs arbitrary: c)
  case (Cons ev evs)
  show ?case
  proof (cases ev)
    case (Recv_Data buf)
    obtain recs r res' where d: "drain (push buf (reassembler c)) = (recs, res', r)"
      by (cases "drain (push buf (reassembler c))")
    show ?thesis
    proof (cases "socket c = Sock_Udp \<or> buf = []")
      case True
      with Cons.prems Recv_Data show ?thesis by (cases "socket c") (auto simp: inbox_def)
    next
      case False
      let ?c1 = "c\<lparr>reassembler := r, pending := recs\<rparr>"
      from Cons.prems Recv_Data False have ok: "res' = Ok ()"
        by (cases res') (simp_all add: recv_loop_data [OF _ _ d] del: recv_loop.simps)
      have inb: "inbox c (ev # evs) = inbox ?c1 evs"
        using False Recv_Data Cons.prems(2) by (simp add: inbox_def d ok split: prod.splits)
      show ?thesis
      proof (cases recs)
        case Nil
        with Cons.prems Recv_Data False ok have "recv_loop ?c1 evs = Some (Ok m, c', evs')"
          by (simp add: recv_loop_data [OF _ _ d] del: recv_loop.simps)
        from Cons.IH [OF this] Nil inb show ?thesis by simp
      next
        case (Cons x xs)
        with Cons.prems Recv_Data False ok have "c' = c\<lparr>reassembler := r, pending := xs\<rparr>"
            "x = m" "evs' = evs"
          by (simp_all add: recv_loop_data [OF _ _ d] del: recv_loop.simps)
        with Cons inb show ?thesis by (simp add: inbox_def)
      qed
    qed
  next
    case (Recv_Err kind)
    with Cons.prems have "recv_loop c evs = Some (Ok m, c', evs')" by (auto split: if_splits)
    from Cons.IH [OF this Cons.prems(2)] Recv_Err show ?thesis by simp
  qed (use Cons in auto)
qed simp

lemma recv_message_inbox:
  "recv_message c evs = Some (Ok m, c', evs') \<Longrightarrow> inbox c evs = m # inbox c' evs'"
  by (auto simp: recv_message_def split: list.splits dest: recv_loop_inbox) (auto simp: inbox_def)

definition is_stale :: "u32 \<Rightarrow> bytes \<Rightarrow> bool" where
  "is_stale xid m \<longleftrightarrow> (case parse_reply m of Ok (x, r) \<Rightarrow> x \<noteq> xid | _ \<Rightarrow> False)"

text \<open>
  A call decodes the first message of the inbox that carries its transaction id, after
  discarding replies to other calls.
\<close>

lemma await_reply_matched:
  assumes "await_reply dec xid c evs = Some (Ok v, c', evs')"
  shows "\<exists>old reply body rest. inbox c evs = old @ reply # inbox c' evs' \<and>
    list_all (is_stale xid) old \<and> parse_reply reply = Ok (xid, Ok body) \<and> dec body = Ok (v, rest)"
  using assms
proof (induction c evs rule: await_reply_induct [where xid = xid])
  case (step c evs)
  show ?case
  proof (cases c evs rule: await_reply_cases [where xid = xid])
    case (stale reply c1 evs1 x r)
    with step.prems have "await_reply dec xid c1 evs1 = Some (Ok v, c', evs')"
      by (simp add: await_reply_step)
    from step.IH [OF stale this] obtain old reply' body rest where
      "inbox c1 evs1 = old @ reply' # inbox c' evs'" "list_all (is_stale xid) old"
      "parse_reply reply' = Ok (xid, Ok body)" "dec body = Ok (v, rest)" by blast
    moreover from stale have "is_stale xid reply" by (simp add: is_stale_def)
    ultimately show ?thesis
      using recv_message_inbox [OF stale(1)] by (intro exI [of _ "reply # old"]) auto
  next
    case (matching reply c1 evs1 r)
    with step.prems obtain body rest where "r = Ok body" "dec body = Ok (v, rest)"
        "c1 = c'" "evs1 = evs'"
      by (auto simp: await_reply_step)
    with matching recv_message_inbox [OF matching(1)] show ?thesis
      by (metis append_Nil list.pred_inject(1))
  qed (use step.prems in \<open>auto simp: await_reply_step\<close>)
qed

text \<open>
  The converse: a script that delivers data only, with no empty read and no error, brings
  the first message of the inbox to \<open>recv_message\<close>, and the matching reply to the call.
\<close>

definition delivering :: "recv_event list \<Rightarrow> bool" where
  "delivering evs \<longleftrightarrow> list_all (\<lambda>ev. case ev of Recv_Data buf \<Rightarrow> buf \<noteq> []
     | Recv_Err kind \<Rightarrow> kind = Interrupted | Deadline \<Rightarrow> False) evs"

definition stream_ok :: "RpcClient \<Rightarrow> recv_event list \<Rightarrow> bool" where
  "stream_ok c evs \<longleftrightarrow> delivering evs \<and>
     (socket c = Sock_Udp \<or> snd (feed (reassembler c) (chunks evs)) = Ok ())"

lemma recv_loop_delivers:
  "stream_ok c evs \<Longrightarrow> pending c = [] \<Longrightarrow> inbox c evs = m # ms \<Longrightarrow>
    \<exists>c' evs'. recv_loop c evs = Some (Ok m, c', evs') \<and> stream_ok c' evs'"
proof (induction evs arbitrary: c)
  case Nil
  then show ?case by (cases "socket c") (simp_all add: inbox_def)
next
  case (Cons ev evs)
  show ?case
  proof (cases ev)
    case (Recv_Data buf)
    obtain recs r res' where d: "drain (push buf (reassembler c)) = (recs, res', r)"
      by (cases "drain (push buf (reassembler c))")
    have ne: "buf \<noteq> []" using Cons.prems(1) Recv_Data by (simp add: stream_ok_def delivering_def)
    show ?thesis
    proof (cases "socket c = Sock_Udp")
      case True
      with Cons.prems Recv_Data show ?thesis
        by (auto simp: inbox_def stream_ok_def delivering_def)
    next
      case False
      let ?c1 = "c\<lparr>reassembler := r, pending := recs\<rparr>"
      from Cons.prems(1) Recv_Data False d have ok: "res' = Ok ()" "stream_ok ?c1 evs"
        by (auto simp: stream_ok_def delivering_def split: if_splits prod.splits)
      have inb: "inbox c (ev # evs) = inbox ?c1 evs"
        using False Recv_Data Cons.prems(2) by (simp add: inbox_def d ok split: prod.splits)
      show ?thesis
      proof (cases recs)
        case Nil
        from Nil inb Cons.prems(3) have "\<exists>c' evs'. recv_loop ?c1 evs = Some (Ok m, c', evs')
            \<and> stream_ok c' evs'"
          by (intro Cons.IH [OF ok(2)]) simp_all
        with Nil Recv_Data False ne ok Cons.prems(2) show ?thesis
          by (simp add: recv_loop_data [OF _ _ d] del: recv_loop.simps)
      next
        case (Cons x xs)
        moreover from Cons inb \<open>inbox c (ev # evs) = m # ms\<close> have "x = m" by (simp add: inbox_def)
        ultimately show ?thesis
          using Recv_Data False ne ok \<open>pending c = []\<close>
          by (simp add: recv_loop_data [OF _ _ d] stream_ok_def del: recv_loop.simps)
      qed
    qed
  next
    case (Recv_Err kind)
    with Cons.prems have "kind = Interrupted" "stream_ok c evs" "inbox c evs = m # ms"
      by (auto simp: stream_ok_def delivering_def)
    with Cons.IH [OF this(2) Cons.prems(2) this(3)] Recv_Err show ?thesis
      by (simp add: is_timeout_def)
  qed (use Cons.prems in \<open>simp add: stream_ok_def delivering_def\<close>)
qed

lemma recv_message_delivers:
  "stream_ok c evs \<Longrightarrow> inbox c evs = m # ms \<Longrightarrow>
    \<exists>c' evs'. recv_message c evs = Some (Ok m, c', evs') \<and> stream_ok c' evs' \<and> inbox c' evs' = ms"
proof (cases "pending c")
  case Nil
  assume *: "stream_ok c evs" "inbox c evs = m # ms"
  from recv_loop_delivers [OF *(1) Nil *(2)] obtain c' evs' where
    "recv_loop c evs = Some (Ok m, c', evs')" "stream_ok c' evs'" by blast
  with Nil *(2) recv_loop_inbox [OF this(1) Nil] show ?thesis by (simp add: recv_message_def)
qed (auto simp: recv_message_def inbox_def stream_ok_def)

lemma await_reply_delivers:
  assumes "stream_ok c evs" and "inbox c evs = old @ reply # post"
    and "list_all (is_stale xid) old" and "parse_reply reply = Ok (xid, r)"
  shows "\<exists>c' evs'. await_reply dec xid c evs =
      Some (and_then r (\<lambda>body. map_err Xdr (map_ok fst (dec body))), c', evs')
    \<and> stream_ok c' evs' \<and> inbox c' evs' = post"
  using assms
proof (induction old arbitrary: c evs)
  case Nil
  with recv_message_delivers [of c evs reply post] show ?case
    by (auto simp: await_reply_step)
next
  case (Cons m old)
  from recv_message_delivers [OF Cons.prems(1), of m "old @ reply # post"] Cons.prems(2)
  obtain c1 evs1 where c1: "recv_message c evs = Some (Ok m, c1, evs1)" "stream_ok c1 evs1"
    "inbox c1 evs1 = old @ reply # post" by auto
  from Cons.prems(3) obtain x r' where "parse_reply m = Ok (x, r')" "x \<noteq> xid"
    by (auto simp: is_stale_def split: result.splits prod.splits)
  with c1(1) have "await_reply dec xid c evs = await_reply dec xid c1 evs1"
    by (simp add: await_reply_step)
  with Cons.IH [OF c1(2,3)] Cons.prems show ?case by simp
qed

subsection \<open>Attempts and retries\<close>

text \<open>The socket fits the protocol: every constructor of a client gives that.\<close>

definition client_ok :: "RpcClient \<Rightarrow> bool" where
  "client_ok c \<longleftrightarrow> (socket c = Sock_Udp \<longleftrightarrow> protocol c = Udp)"

definition wire :: "RpcClient \<Rightarrow> bytes \<Rightarrow> bytes" where
  "wire c message = (if protocol c = Udp then message else fragment True message)"

lemma connect_client_ok:
  "connect pid a p cr t n = Some (Ok c, n') \<Longrightarrow> client_ok c \<and> protocol c = p \<and> addr c = a"
  by (auto simp: connect_def op_bind_eq open_socket_def client_ok_def Let_def
      split: list.splits option.splits Protocol.splits prod.splits)

lemma from_stream_client_ok: "client_ok (fst (from_stream pid cr t n))"
  by (auto simp: from_stream_def client_ok_def Let_def split: prod.splits)

lemma send_eq:
  "client_ok c \<Longrightarrow> send message (c, n) =
     (if protocol c = Tcp \<and> length message > unat LENGTH_MASK then Some (Err RecordTooLarge, c, n)
      else transmit (wire c message) (c, n))"
  by (cases "socket c"; cases "protocol c")
    (auto simp: send_def client_ok_def wire_def frame_fragment op_lift_def op_bind_def)

text \<open>What one attempt does to the client and to the network.\<close>

lemma attempt_call_eq:
  assumes "client_ok c"
  shows "attempt_call dec xid message (c, n) =
    (if protocol c = Tcp \<and> length message > unat LENGTH_MASK then Some (Err RecordTooLarge, c, n)
     else case net_sends n of
       [] \<Rightarrow> None
     | Some kind # ss \<Rightarrow> Some (Err (Io kind), c,
         n\<lparr>net_sends := ss, net_log := net_log n @ [Send_Failed (wire c message)]\<rparr>)
     | None # ss \<Rightarrow>
         map_option (\<lambda>(res, c', evs'). (res, c', n\<lparr>net_sends := ss,
             net_log := net_log n @ [Sent (wire c message)], net_recvs := evs'\<rparr>))
           (await_reply dec xid c (net_recvs n)))"
proof (cases "net_sends n")
  case (Cons o1 ss)
  then show ?thesis
    by (cases o1; cases "await_reply dec xid c (net_recvs n)")
      (simp_all add: attempt_call_def op_bind_def send_eq [OF assms] transmit_def case_prod_beta)
qed (simp add: attempt_call_def op_bind_def send_eq [OF assms] transmit_def)

lemma attempt_call_effect:
  assumes "client_ok c" "xdr_decoder dec"
    and "attempt_call dec xid message (c, n) = Some (res, c', n')"
  shows "received c c' \<and> res \<noteq> Panic \<and> net_opens n' = net_opens n
    \<and> length (net_sends n) \<le> Suc (length (net_sends n'))
    \<and> deadlines (net_recvs n) \<le> Suc (deadlines (net_recvs n'))
    \<and> (\<exists>acts. net_log n' = net_log n @ acts \<and> length acts \<le> 1
        \<and> set acts \<subseteq> {Sent (wire c message), Send_Failed (wire c message)})"
proof (cases "protocol c = Tcp \<and> length message > unat LENGTH_MASK")
  case False
  with assms(3) obtain o1 ss where ss: "net_sends n = o1 # ss"
    by (cases "net_sends n") (simp_all add: attempt_call_eq [OF assms(1)])
  show ?thesis
  proof (cases o1)
    case None
    with assms(3) ss False obtain evs' where
      "await_reply dec xid c (net_recvs n) = Some (res, c', evs')"
      "n' = n\<lparr>net_sends := ss, net_log := net_log n @ [Sent (wire c message)], net_recvs := evs'\<rparr>"
      by (simp add: attempt_call_eq [OF assms(1)]) auto
    with ss await_reply_effect [OF assms(2) this(1)] show ?thesis by simp
  next
    case (Some kind)
    with assms(3) ss False have "res = Err (Io kind)" "c' = c"
      "n' = n\<lparr>net_sends := ss, net_log := net_log n @ [Send_Failed (wire c message)]\<rparr>"
      by (auto simp: attempt_call_eq [OF assms(1)])
    with ss show ?thesis by simp
  qed
qed (use assms(3) in \<open>auto simp: attempt_call_eq [OF assms(1)]\<close>)

lemma attempt_call_returns:
  assumes "client_ok c" "0 < length (net_sends n)" "0 < deadlines (net_recvs n)"
  shows "\<exists>out. attempt_call dec xid message (c, n) = Some out"
proof -
  obtain res c' evs' where "await_reply dec xid c (net_recvs n) = Some (res, c', evs')"
    using await_reply_deadline [OF assms(3)] by (metis prod_cases3)
  with assms(2) show ?thesis
    by (cases "net_sends n") (auto simp: attempt_call_eq [OF assms(1)] split: option.splits)
qed

lemma reconnect_effect:
  assumes "client_ok c" "protocol c = Tcp" "reconnect (c, n) = Some (res, c', n')"
  shows "client_ok c' \<and> protocol c' = Tcp \<and> addr c' = addr c \<and> next_xid c' = next_xid c
    \<and> cred c' = cred c \<and> timeout c' = timeout c \<and> auto_reconnect c' = auto_reconnect c \<and> res \<noteq> Panic
    \<and> (is_ok res \<longrightarrow> pending c' = [] \<and> reassembler c' = new_reassembler)
    \<and> net_sends n' = net_sends n \<and> net_recvs n' = net_recvs n
    \<and> length (net_opens n) \<le> Suc (length (net_opens n'))
    \<and> net_log n' = net_log n @ (if is_ok res then [Opened (addr c) Tcp] else [])"
  using assms
  by (auto simp: reconnect_def open_socket_def client_ok_def split: option.splits list.splits)

lemma reconnect_returns:
  "0 < length (net_opens n) \<Longrightarrow> \<exists>out. reconnect (c, n) = Some out"
  by (auto simp: reconnect_def open_socket_def split: list.splits option.splits)

lemma client_ok_received: "received c c' \<Longrightarrow> client_ok c' \<longleftrightarrow> client_ok c"
  by (simp add: client_ok_def received_fields)

definition transmissions :: "net_action list \<Rightarrow> nat" where
  "transmissions acts = length (filter (\<lambda>a. case a of Opened _ _ \<Rightarrow> False | _ \<Rightarrow> True) acts)"

lemma transmissions_simps [simp]:
  "transmissions [] = 0" "transmissions (as @ bs) = transmissions as + transmissions bs"
  "transmissions [Opened a p] = 0" "transmissions as \<le> length as"
  by (simp_all add: transmissions_def)

text \<open>
  The network actions of a call that has \<open>left\<close> attempts: the same bytes at most that
  many times, and a new connection only before a repetition, to the same address, on TCP
  with automatic reconnection.
\<close>

definition call_actions :: "RpcClient \<Rightarrow> bytes \<Rightarrow> nat \<Rightarrow> net_action list \<Rightarrow> bool" where
  "call_actions c message left acts \<longleftrightarrow>
     set acts \<subseteq> {Sent (wire c message), Send_Failed (wire c message), Opened (addr c) Tcp}
     \<and> transmissions acts \<le> left \<and> length acts < 2 * left
     \<and> (protocol c = Udp \<or> \<not> auto_reconnect c \<longrightarrow> Opened (addr c) Tcp \<notin> set acts)
     \<and> (protocol c = Tcp \<and> \<not> auto_reconnect c \<longrightarrow> length acts \<le> 1)"

lemma call_actions_one:
  "set acts \<subseteq> {Sent (wire c m), Send_Failed (wire c m)} \<Longrightarrow> length acts \<le> 1 \<Longrightarrow> 0 < left \<Longrightarrow>
    call_actions c m left acts"
  by (auto simp: call_actions_def le_trans [OF transmissions_simps(4)])

lemma call_actions_Suc:
  assumes "set as \<subseteq> {Sent (wire c m), Send_Failed (wire c m)}" "length as \<le> 1"
    and "protocol c' = protocol c" "addr c' = addr c" "auto_reconnect c' = auto_reconnect c"
    and "call_actions c' m left bs"
    and "os = [] \<and> protocol c = Udp \<or> os = [Opened (addr c) Tcp] \<and> protocol c = Tcp \<and> auto_reconnect c"
  shows "call_actions c m (Suc left) (as @ os @ bs)"
proof -
  have w: "wire c' m = wire c m" using assms(3) by (simp add: wire_def)
  from assms(2) have "transmissions as \<le> 1" using transmissions_simps(4) le_trans by blast
  with assms w show ?thesis by (auto simp: call_actions_def)
qed

text \<open>
  The two ways a round of \<open>call_loop\<close> ends: the call returns, or it goes round once more,
  with a fresh connection on TCP.
\<close>

lemma call_loop_cases [consumes 4, case_names return blocked refused reconnected retransmit]:
  assumes "client_ok c" "xdr_decoder dec" "attempt < MAX_ATTEMPTS"
    and "attempt_call dec xid message (c, n) = Some (res1, c1, n1)"
  obtains
    (return) "call_loop attempt dec xid message (c, n) = Some (res1, c1, n1)"
  | (blocked) "reconnect (c1, n1) = None" "call_loop attempt dec xid message (c, n) = None"
      "protocol c1 = Tcp" "attempt + 1 < MAX_ATTEMPTS"
  | (refused) e c2 n2 where "reconnect (c1, n1) = Some (Err e, c2, n2)" "protocol c1 = Tcp"
      "auto_reconnect c1" "call_loop attempt dec xid message (c, n) = Some (Err e, c2, n2)"
      "attempt + 1 < MAX_ATTEMPTS"
  | (reconnected) c2 n2 where "reconnect (c1, n1) = Some (Ok (), c2, n2)" "protocol c1 = Tcp"
      "auto_reconnect c1" "attempt + 1 < MAX_ATTEMPTS"
      "call_loop attempt dec xid message (c, n) = call_loop (attempt + 1) dec xid message (c2, n2)"
  | (retransmit) "protocol c1 = Udp" "attempt + 1 < MAX_ATTEMPTS"
      "call_loop attempt dec xid message (c, n) = call_loop (attempt + 1) dec xid message (c1, n1)"
proof (cases "\<exists>err. res1 = Err err \<and> attempt + 1 < MAX_ATTEMPTS \<and> is_retryable c1 err")
  case False
  with assms(4) show ?thesis
    by (intro return) (auto simp: call_loop.simps [of attempt] split: result.splits)
next
  case True
  then obtain err where err: "res1 = Err err" "attempt + 1 < MAX_ATTEMPTS" "is_retryable c1 err"
    by blast
  have eff: "received c c1" using attempt_call_effect [OF assms(1,2,4)] by simp
  show ?thesis
  proof (cases "protocol c1")
    case Tcp
    with err(3) have auto: "auto_reconnect c1" by (auto simp: is_retryable_def split: RpcError.splits)
    have loop: "call_loop attempt dec xid message (c, n) =
        op_bind reconnect (\<lambda>_. call_loop (attempt + 1) dec xid message) (c1, n1)"
      using assms(4) err Tcp by (simp add: call_loop.simps [of attempt])
    show ?thesis
    proof (cases "reconnect (c1, n1)")
      case None
      with Tcp err loop show ?thesis by (intro blocked) simp_all
    next
      case (Some out)
      then obtain res c2 n2 where rc: "reconnect (c1, n1) = Some (res, c2, n2)" by (cases out) auto
      have "client_ok c1" using assms(1) client_ok_received [OF eff] by simp
      from reconnect_effect [OF this Tcp rc] have "res \<noteq> Panic" by simp
      with rc loop show ?thesis
        by (cases res) (auto intro: refused [OF _ Tcp auto _ err(2)] reconnected [OF _ Tcp auto err(2)])
    qed
  next
    case Udp
    with err assms(4) show ?thesis
      by (intro retransmit) (simp_all add: call_loop.simps [of attempt])
  qed
qed

lemma call_loop_actions:
  assumes "client_ok c" "xdr_decoder dec" "attempt < MAX_ATTEMPTS"
    and "call_loop attempt dec xid message (c, n) = Some (res, c', n')"
  shows "res \<noteq> Panic \<and> client_ok c' \<and> next_xid c' = next_xid c \<and> cred c' = cred c
    \<and> protocol c' = protocol c
    \<and> (\<exists>acts. net_log n' = net_log n @ acts \<and> call_actions c message (MAX_ATTEMPTS - attempt) acts)"
  using assms
proof (induction "MAX_ATTEMPTS - attempt" arbitrary: attempt c n)
  case (Suc left)
  from Suc.prems(4) obtain res1 c1 n1 where
    at: "attempt_call dec xid message (c, n) = Some (res1, c1, n1)"
    by (subst (asm) call_loop.simps) (auto split: option.splits)
  note eff = attempt_call_effect [OF Suc.prems(1,2) at]
  then obtain as where as: "net_log n1 = net_log n @ as" "length as \<le> 1"
    "set as \<subseteq> {Sent (wire c message), Send_Failed (wire c message)}" by blast
  have rec: "received c c1" "res1 \<noteq> Panic" using eff by simp_all
  note f = received_fields [OF rec(1)]
  have ok1: "client_ok c1" using Suc.prems(1) client_ok_received [OF rec(1)] by simp
  note one = call_actions_one [OF as(3,2), of "MAX_ATTEMPTS - attempt"]
  from Suc.hyps(2) Suc.prems(3) have left: "left = MAX_ATTEMPTS - (attempt + 1)" by simp
  from Suc.prems(1-3) at show ?case
  proof (cases rule: call_loop_cases)
    case return
    with Suc.prems(3,4) as one ok1 rec f show ?thesis by auto
  next
    case (refused e c2 n2)
    with Suc.prems(3,4) reconnect_effect [OF ok1 refused(2,1)] as one f show ?thesis by auto
  next
    case (reconnected c2 n2)
    note rc = reconnect_effect [OF ok1 reconnected(2,1)]
    from reconnected(5) Suc.prems(4)
    have "call_loop (attempt + 1) dec xid message (c2, n2) = Some (res, c', n')" by simp
    from Suc.hyps(1) [OF left _ Suc.prems(2) reconnected(4) this] rc obtain bs where bs:
      "res \<noteq> Panic" "client_ok c'" "next_xid c' = next_xid c2" "cred c' = cred c2"
      "net_log n' = net_log n2 @ bs" "call_actions c2 message left bs" "protocol c' = protocol c2" using left by auto
    have "call_actions c message (Suc left) (as @ [Opened (addr c) Tcp] @ bs)"
      by (rule call_actions_Suc [OF as(3,2) _ _ _ bs(6)]) (use rc f reconnected in auto)
    with bs rc as f reconnected(2) Suc.hyps(2) show ?thesis by simp
  next
    case retransmit
    with Suc.prems(4)
    have "call_loop (attempt + 1) dec xid message (c1, n1) = Some (res, c', n')" by simp
    from Suc.hyps(1) [OF left ok1 Suc.prems(2) retransmit(2) this] obtain bs where bs:
      "res \<noteq> Panic" "client_ok c'" "next_xid c' = next_xid c1" "cred c' = cred c1"
      "net_log n' = net_log n1 @ bs" "call_actions c1 message left bs" "protocol c' = protocol c1" using left by auto
    have "call_actions c message (Suc left) (as @ [] @ bs)"
      by (rule call_actions_Suc [OF as(3,2) _ _ _ bs(6)]) (use f retransmit in auto)
    with bs as f Suc.hyps(2) show ?thesis by simp
  qed (use Suc.prems(4) in simp)
qed simp

text \<open>
  A deadline, an answer to \<open>send\<close> and an answer to \<open>connect\<close> per attempt make the loop
  return.
\<close>

lemma call_loop_returns:
  assumes "client_ok c" "xdr_decoder dec" "attempt < MAX_ATTEMPTS"
    and "MAX_ATTEMPTS - attempt \<le> length (net_sends n)"
    and "MAX_ATTEMPTS - attempt \<le> length (net_opens n) + 1"
    and "MAX_ATTEMPTS - attempt \<le> deadlines (net_recvs n)"
  shows "\<exists>out. call_loop attempt dec xid message (c, n) = Some out"
  using assms
proof (induction "MAX_ATTEMPTS - attempt" arbitrary: attempt c n)
  case (Suc left)
  from Suc.prems have "0 < length (net_sends n)" "0 < deadlines (net_recvs n)" by linarith+
  from attempt_call_returns [OF Suc.prems(1) this] obtain res1 c1 n1 where
    at: "attempt_call dec xid message (c, n) = Some (res1, c1, n1)" by (metis prod_cases3)
  note eff = attempt_call_effect [OF Suc.prems(1,2) at]
  have ok1: "client_ok c1" using Suc.prems(1) client_ok_received eff by blast
  from Suc.hyps(2) Suc.prems(3) have left: "left = MAX_ATTEMPTS - (attempt + 1)" by simp
  from Suc.prems(1-3) at show ?case
  proof (cases rule: call_loop_cases)
    case blocked
    have "net_opens n1 = net_opens n" using eff by simp
    moreover have "2 \<le> MAX_ATTEMPTS - attempt" using blocked(4) by linarith
    ultimately have "0 < length (net_opens n1)" using Suc.prems(5)
      by (cases "net_opens n1") auto
    with reconnect_returns [of n1 c1] blocked(1) show ?thesis by simp
  next
    case (reconnected c2 n2)
    note rc = reconnect_effect [OF ok1 reconnected(2,1)]
    from eff rc Suc.prems reconnected(4) have
      "\<exists>out. call_loop (attempt + 1) dec xid message (c2, n2) = Some out"
      by (intro Suc.hyps(1) [OF left]) (simp_all, linarith+)
    with reconnected(5) show ?thesis by simp
  next
    case retransmit
    from eff ok1 Suc.prems retransmit(2) have
      "\<exists>out. call_loop (attempt + 1) dec xid message (c1, n1) = Some out"
      by (intro Suc.hyps(1) [OF left]) (simp_all, linarith+)
    with retransmit(3) show ?thesis by simp
  qed simp_all
qed simp

text \<open>Where the value of a call comes from.\<close>

lemma recv_loop_suffix: "recv_loop c evs = Some (res, c', evs') \<Longrightarrow> \<exists>pre. evs = pre @ evs'"
proof (induction evs arbitrary: c)
  case (Cons ev evs)
  have IH: "recv_loop d evs = Some (res, c', evs') \<Longrightarrow> \<exists>pre. ev # evs = pre @ evs'" for d
    using Cons.IH by (metis append_Cons)
  have one: "\<exists>pre. ev # evs = pre @ evs" by (metis append_Cons append_Nil)
  show ?case
  proof (cases ev)
    case (Recv_Data buf)
    obtain recs r res' where d: "drain (push buf (reassembler c)) = (recs, res', r)"
      by (cases "drain (push buf (reassembler c))")
    show ?thesis
    proof (cases "socket c = Sock_Udp \<or> buf = []")
      case True
      with Cons.prems Recv_Data one show ?thesis by (cases "socket c") auto
    next
      case False
      with Cons.prems Recv_Data IH one show ?thesis
        by (auto simp: recv_loop_data [OF _ _ d] Let_def simp del: recv_loop.simps
            split: result.splits list.splits)
    qed
  qed (use Cons.prems IH one in \<open>auto split: if_splits\<close>)
qed simp

lemma await_reply_suffix:
  "await_reply dec xid c evs = Some (res, c', evs') \<Longrightarrow> \<exists>pre. evs = pre @ evs'"
proof (induction c evs rule: await_reply_induct [where xid = xid])
  case (step c evs)
  have sfx: "recv_message c evs = Some (r, d, es) \<Longrightarrow> \<exists>pre. evs = pre @ es" for r d es
    by (auto simp: recv_message_def dest: recv_loop_suffix split: list.splits)
  show ?case
  proof (cases c evs rule: await_reply_cases [where xid = xid])
    case (stale reply c1 evs1 x r)
    with step.prems step.IH [OF stale] sfx [OF stale(1)] show ?thesis
      by (auto simp: await_reply_step)
  qed (use step.prems sfx in \<open>auto simp: await_reply_step\<close>)
qed

text \<open>A client at the start of an attempt of a call that began in \<open>c\<close>.\<close>

definition retried :: "RpcClient \<Rightarrow> RpcClient \<Rightarrow> bool" where
  "retried c c1 \<longleftrightarrow> c1 = c \<or> protocol c = Udp \<and> received c c1
     \<or> protocol c = Tcp \<and> socket c1 = Sock_Tcp \<and> pending c1 = [] \<and> reassembler c1 = new_reassembler"

lemma attempt_call_await:
  assumes "client_ok c" "attempt_call dec xid message (c, n) = Some (res, c', n')"
  shows "(\<exists>pre. net_recvs n = pre @ net_recvs n') \<and>
    (is_ok res \<longrightarrow> await_reply dec xid c (net_recvs n) = Some (res, c', net_recvs n'))"
  using assms(2)
  by (cases "net_sends n")
    (auto simp: attempt_call_eq [OF assms(1)] dest: await_reply_suffix split: if_splits option.splits)

lemma call_loop_matched:
  assumes "client_ok c" "xdr_decoder dec" "attempt < MAX_ATTEMPTS"
    and "call_loop attempt dec xid message (c, n) = Some (Ok v, c', n')"
  shows "\<exists>c1 evs. retried c c1 \<and> (\<exists>pre. net_recvs n = pre @ evs) \<and>
    await_reply dec xid c1 evs = Some (Ok v, c', net_recvs n')"
  using assms
proof (induction "MAX_ATTEMPTS - attempt" arbitrary: attempt c n)
  case (Suc left)
  from Suc.prems(4) obtain res1 c1 n1 where
    at: "attempt_call dec xid message (c, n) = Some (res1, c1, n1)"
    by (subst (asm) call_loop.simps) (auto split: option.splits)
  note eff = attempt_call_effect [OF Suc.prems(1,2) at]
  note aw = attempt_call_await [OF Suc.prems(1) at]
  have rcv: "received c c1" using eff by simp
  have ok1: "client_ok c1" using Suc.prems(1) client_ok_received [OF rcv] by simp
  from Suc.hyps(2) Suc.prems(3) have left: "left = MAX_ATTEMPTS - (attempt + 1)" by simp
  from Suc.prems(1-3) at show ?case
  proof (cases rule: call_loop_cases)
    case return
    with Suc.prems(4) aw show ?thesis
      by (intro exI [of _ c] exI [of _ "net_recvs n"]) (auto simp: retried_def)
  next
    case (reconnected c2 n2)
    note rc = reconnect_effect [OF ok1 reconnected(2,1)]
    have s: "socket c2 = Sock_Tcp"
      using reconnected(1,2) by (auto simp: reconnect_def open_socket_def split: list.splits option.splits)
    have ok2: "client_ok c2" and "net_recvs n2 = net_recvs n1" "protocol c2 = Tcp"
      and fresh: "pending c2 = []" "reassembler c2 = new_reassembler" using rc by simp_all
    from Suc.hyps(1) [OF left ok2 Suc.prems(2) reconnected(4)] reconnected(5) Suc.prems(4) this(2)
    obtain c3 evs where c3: "retried c2 c3" "\<exists>pre. net_recvs n1 = pre @ evs"
      "await_reply dec xid c3 evs = Some (Ok v, c', net_recvs n')" by metis
    have "retried c c3"
      using c3(1) reconnected(2) received_fields(2) [OF rcv] s fresh \<open>protocol c2 = Tcp\<close>
      by (auto simp: retried_def)
    moreover have "\<exists>pre. net_recvs n = pre @ evs" using c3(2) aw by (metis append_assoc)
    ultimately show ?thesis using c3(3) by blast
  next
    case retransmit
    from Suc.hyps(1) [OF left ok1 Suc.prems(2) retransmit(2)] retransmit(3) Suc.prems(4)
    obtain c3 evs where c3: "retried c1 c3" "\<exists>pre. net_recvs n1 = pre @ evs"
      "await_reply dec xid c3 evs = Some (Ok v, c', net_recvs n')" by metis
    moreover have "retried c c3"
      using c3(1) received_trans [OF rcv] rcv received_fields(2) [OF rcv] retransmit(1)
      by (auto simp: retried_def)
    moreover have "\<exists>pre. net_recvs n = pre @ evs" using c3(2) aw by (metis append_assoc)
    ultimately show ?thesis by blast
  qed (use Suc.prems(4) in simp_all)
qed simp

subsection \<open>Whole calls\<close>

lemma build_call_eq:
  assumes "cred_ok (cred c)" "xdr_encoder args" "args [] = Ok body"
  obtains header where "encode_call (next_xid c) prog vers proc (cred c) [] = Ok header"
    "build_call prog vers proc args c = (Ok (next_xid c, header @ body), c\<lparr>next_xid := next_xid c + 1\<rparr>)"
proof -
  from assms(1) obtain header where h: "encode_call (next_xid c) prog vers proc (cred c) [] = Ok header"
    using encode_call_Ok_iff by blast
  moreover have "args header = Ok (header @ body)"
    using xdr_encoder.appends [OF assms(2), of header] assms(3) by simp
  ultimately show thesis by (intro that) (simp_all add: build_call_def Let_def)
qed

lemma build_call_cases:
  "build_call prog vers proc args c = (r, c') \<Longrightarrow>
    c' = c\<lparr>next_xid := next_xid c + 1\<rparr> \<and> (\<forall>xid m. r = Ok (xid, m) \<longrightarrow> xid = next_xid c)"
  by (auto simp: build_call_def Let_def)

lemma build_call_no_panic:
  assumes "xdr_encoder args"
  shows "fst (build_call prog vers proc args c) \<noteq> Panic"
proof -
  have "encode_call (next_xid c) prog vers proc (cred c) [] \<noteq> Panic"
    unfolding encode_call_def by (simp, rule xdr_encoder.enc_no_panic) (intro xdr_enc)
  then show ?thesis
    by (auto simp: build_call_def Let_def xdr_encoder.enc_no_panic [OF assms])
qed

lemma call_eq:
  "build_call prog vers proc args c = (Ok (xid, message), c') \<Longrightarrow>
    call prog vers proc args dec (c, n) = call_loop 0 dec xid message (c', n)"
  "build_call prog vers proc args c = (Err e, c') \<Longrightarrow>
    call prog vers proc args dec (c, n) = Some (Err e, c', n)"
  by (simp_all add: call_def op_bind_def op_lift_def)

lemma call_Some:
  assumes "xdr_encoder args" "call prog vers proc args dec (c, n) = Some (res, c', n')"
  obtains
    (unsent) e where "res = Err e" "c' = c\<lparr>next_xid := next_xid c + 1\<rparr>" "n' = n"
      "fst (build_call prog vers proc args c) = Err e"
  | (loop) message where
      "build_call prog vers proc args c = (Ok (next_xid c, message), c\<lparr>next_xid := next_xid c + 1\<rparr>)"
      "call_loop 0 dec (next_xid c) message (c\<lparr>next_xid := next_xid c + 1\<rparr>, n) = Some (res, c', n')"
proof -
  obtain r c1 where b: "build_call prog vers proc args c = (r, c1)"
    by (cases "build_call prog vers proc args c")
  note c1 = build_call_cases [OF b]
  show thesis
  proof (cases r)
    case (Ok xm)
    then obtain xid message where xm: "r = Ok (xid, message)" by (cases xm) auto
    with c1 b have "build_call prog vers proc args c =
        (Ok (next_xid c, message), c\<lparr>next_xid := next_xid c + 1\<rparr>)" by simp
    note b' = this
    show thesis by (rule loop [OF b']) (use assms(2) call_eq(1) [OF b', of dec n] in simp)
  next
    case (Err e)
    with b c1 assms(2) call_eq(2) [of prog vers proc args c e c1 dec n] show thesis
      by (intro unsent [of e]) auto
  next
    case Panic
    with build_call_no_panic [OF assms(1), of prog vers proc c] b show thesis by simp
  qed
qed

lemma client_ok_xid [simp]: "client_ok (c\<lparr>next_xid := x\<rparr>) = client_ok c"
  and wire_xid [simp]: "wire (c\<lparr>next_xid := x\<rparr>) m = wire c m"
  and call_actions_xid [simp]: "call_actions (c\<lparr>next_xid := x\<rparr>) m k acts = call_actions c m k acts"
  by (simp_all add: client_ok_def wire_def call_actions_def)

text \<open>A matching reply on its way makes the first attempt succeed.\<close>

lemma call_delivers:
  assumes "client_ok c" "net_sends n = None # ss"
    and "build_call prog vers proc args c = (Ok (xid, message), c1)"
    and "protocol c = Udp \<or> length message \<le> unat LENGTH_MASK"
    and "stream_ok c (net_recvs n)" "inbox c (net_recvs n) = old @ reply # post"
    and "list_all (is_stale xid) old" "parse_reply reply = Ok (xid, Ok body)"
    and "dec body = Ok (v, rest)"
  shows "\<exists>c' evs'. call prog vers proc args dec (c, n) = Some (Ok v, c',
      n\<lparr>net_sends := ss, net_log := net_log n @ [Sent (wire c message)], net_recvs := evs'\<rparr>)
    \<and> received (c\<lparr>next_xid := next_xid c + 1\<rparr>) c' \<and> stream_ok c' evs' \<and> inbox c' evs' = post"
proof -
  have c1: "c1 = c\<lparr>next_xid := next_xid c + 1\<rparr>" using build_call_cases [OF assms(3)] by simp
  then have "stream_ok c1 evs = stream_ok c evs" "inbox c1 evs = inbox c evs" for evs
    by (simp_all add: stream_ok_def inbox_def)
  with assms(5,6) have s1: "stream_ok c1 (net_recvs n)" "inbox c1 (net_recvs n) = old @ reply # post"
    by simp_all
  from await_reply_delivers [OF s1 assms(7,8), of dec] obtain c' evs' where
    aw: "await_reply dec xid c1 (net_recvs n) = Some (Ok v, c', evs')" "stream_ok c' evs'"
      "inbox c' evs' = post" using assms(9) by auto
  have ok1: "client_ok c1" using assms(1) c1 by simp
  have "attempt_call dec xid message (c1, n) = Some (Ok v, c', n\<lparr>net_sends := ss,
      net_log := net_log n @ [Sent (wire c message)], net_recvs := evs'\<rparr>)"
    unfolding attempt_call_eq [OF ok1] using aw(1) assms(2,4) by (auto simp: c1)
  then have "call prog vers proc args dec (c, n) = Some (Ok v, c', n\<lparr>net_sends := ss,
      net_log := net_log n @ [Sent (wire c message)], net_recvs := evs'\<rparr>)"
    by (simp add: call_eq(1) [OF assms(3)] call_loop.simps [of 0])
  moreover have "received c1 c'" using await_reply_received [OF aw(1)] by simp
  ultimately show ?thesis using aw(2,3) c1 by blast
qed

lemma feed_frames:
  assumes "\<forall>m \<in> set ms. length m \<le> DEFAULT_MAX_RECORD"
    and "concat cs = concat (map (fragment True) ms)"
  shows "feed new_reassembler cs = (ms, Ok ())"
proof -
  have "drain (push (concat (map fragments (map (\<lambda>m. [m]) ms))) (with_max DEFAULT_MAX_RECORD))
      = (map concat (map (\<lambda>m. [m]) ms), Ok (), with_max DEFAULT_MAX_RECORD)"
    using assms(1) by (intro drain_fragments) (auto simp: DEFAULT_MAX_RECORD_def unat_LENGTH_MASK)
  moreover have "map concat (map (\<lambda>m. [m]) ms) = ms" by (induction ms) simp_all
  ultimately show ?thesis
    unfolding new_reassembler_def using assms(2)
    by (simp add: feed_concat [OF drain_empty] comp_def)
qed

lemma chunks_map [simp]: "chunks (map Recv_Data cs) = cs"
  by (induction cs) simp_all

lemma delivering_map: "delivering (map Recv_Data cs) \<longleftrightarrow> [] \<notin> set cs"
  by (induction cs) (auto simp: delivering_def)

text \<open>A concrete client and exchange, for the examples below.\<close>

definition ex_client :: "Protocol \<Rightarrow> RpcClient" where
  "ex_client p = \<lparr>addr = \<lparr>sa_ip = V4 0x7F000001, sa_port = 2049\<rparr>, protocol = p, cred = Cred_None,
     timeout = DEFAULT_TIMEOUT, socket = (if p = Tcp then Sock_Tcp else Sock_Udp),
     reassembler = new_reassembler, pending = [], next_xid = 0xFFFFFFFF, auto_reconnect = True\<rparr>"

definition ex_header :: bytes where
  "ex_header = w4 0xFFFFFFFF @ w4 0 @ w4 2 @ w4 100003 @ w4 3 @ w4 1 @ w4 0 @ w4 0 @ w4 0 @ w4 0"

definition ex_old :: bytes where
  "ex_old = reply_wire 7 (Rejected_Auth 1)"

definition ex_reply :: bytes where
  "ex_reply = reply_wire 0xFFFFFFFF (Accepted 0 [] (A_Success (w4 42)))"

definition ex_cut :: "bytes list" where
  "ex_cut = (let s = fragment True ex_old @ fragment True ex_reply in [take 26 s, drop 26 s])"

definition ex_net :: net where
  "ex_net = \<lparr>net_opens = [None, None], net_sends = [None, None, None],
     net_recvs = map Recv_Data ex_cut, net_clock = [], net_log = []\<rparr>"

lemma ex_lengths:
  "\<forall>m \<in> set ([ex_old] @ [ex_reply]). length m \<le> DEFAULT_MAX_RECORD"
  by (simp add: ex_old_def ex_reply_def DEFAULT_MAX_RECORD_def padding_def)

lemma ex_cut: "concat ex_cut = concat (map (fragment True) ([ex_old] @ [ex_reply]))" "[] \<notin> set ex_cut"
  by (simp_all add: ex_cut_def Let_def fragment_def ex_old_def ex_reply_def padding_def be_bytes_ne)

lemma ex_header: "encode_call 0xFFFFFFFF 100003 3 1 Cred_None [] = Ok ex_header"
  by (simp add: encode_call_def encode_auth_cases enc_seq_def enc_done_def encode_u32_def
      put_word_def msg_consts ex_header_def)

lemma ex_build: "build_call 100003 3 1 (encode_u32 5) (ex_client Tcp) =
    (Ok (0xFFFFFFFF, ex_header @ w4 5), (ex_client Tcp)\<lparr>next_xid := 0\<rparr>)"
  using ex_header by (simp add: build_call_def ex_client_def encode_u32_def put_word_def)

lemma ex_stale: "list_all (is_stale 0xFFFFFFFF) [ex_old]"
  using parse_reply_wire [of "Rejected_Auth 1" 7] by (simp add: is_stale_def ex_old_def)

lemma ex_call:
  "\<exists>c' n'. call 100003 3 1 (encode_u32 5) decode_u32 (ex_client Tcp, ex_net) = Some (Ok 42, c', n')"
proof -
  have "feed new_reassembler ex_cut = ([ex_old] @ [ex_reply], Ok ())"
    by (rule feed_frames [OF ex_lengths ex_cut(1)])
  then have s: "stream_ok (ex_client Tcp) (net_recvs ex_net)"
    "inbox (ex_client Tcp) (net_recvs ex_net) = [ex_old] @ ex_reply # []"
    using ex_cut(2) by (simp_all add: stream_ok_def inbox_def ex_client_def ex_net_def delivering_map)
  have "parse_reply ex_reply = Ok (0xFFFFFFFF, Ok (w4 42))"
    using parse_reply_wire [of "Accepted 0 [] (A_Success (w4 42))" "0xFFFFFFFF"]
    by (simp add: ex_reply_def)
  from call_delivers [OF _ _ ex_build _ s ex_stale this, of "[None, None]" decode_u32 42 "[]"]
  show ?thesis
    by (auto simp: ex_client_def ex_net_def client_ok_def ex_header_def unat_LENGTH_MASK
        decode_words_be(1) [of 42 "[]", simplified])
qed

text \<open>
  C1: a call over TCP succeeds. The request goes out once, as one record that holds
  the call header and the arguments; the server's answer may be preceded by replies to
  earlier calls and may arrive cut into any pieces; the call returns the decoded result,
  uses one transaction id and leaves nothing pending.
\<close>

theorem call_succeeds_tcp:
  assumes "client_ok c" "protocol c = Tcp" "pending c = []" "reassembler c = new_reassembler"
    and "cred_ok (cred c)" "xdr_encoder args" "args [] = Ok arg_bytes"
    and "encode_call (next_xid c) prog vers proc (cred c) [] = Ok header"
    and "length (header @ arg_bytes) \<le> unat LENGTH_MASK"
    and "net_sends n = None # ss"
    and "net_recvs n = map Recv_Data cs" "[] \<notin> set cs"
    and "concat cs = concat (map (fragment True) (old @ [reply]))"
    and "\<forall>m \<in> set (old @ [reply]). length m \<le> DEFAULT_MAX_RECORD"
    and "list_all (is_stale (next_xid c)) old"
    and "reply = reply_wire (next_xid c) (Accepted flavor verf (A_Success body))"
    and "length verf \<le> 400" "dec body = Ok (v, rest)"
  shows "\<exists>c' n'. call prog vers proc args dec (c, n) = Some (Ok v, c', n')
    \<and> net_log n' = net_log n @ [Sent (fragment True (header @ arg_bytes))]
    \<and> next_xid c' = next_xid c + 1 \<and> inbox c' (net_recvs n') = []"
proof -
  obtain h where "encode_call (next_xid c) prog vers proc (cred c) [] = Ok h" and
    b: "build_call prog vers proc args c =
      (Ok (next_xid c, h @ arg_bytes), c\<lparr>next_xid := next_xid c + 1\<rparr>)"
    by (rule build_call_eq [OF assms(5-7)])
  with assms(8) have h: "h = header" by simp
  have f: "feed new_reassembler cs = (old @ [reply], Ok ())"
    by (rule feed_frames [OF assms(14,13)])
  have sock: "socket c \<noteq> Sock_Udp" using assms(1,2) by (simp add: client_ok_def)
  have "stream_ok c (net_recvs n)" "inbox c (net_recvs n) = old @ reply # []"
    using f sock assms(3,4,11,12) by (simp_all add: stream_ok_def inbox_def delivering_map)
  moreover have "parse_reply reply = Ok (next_xid c, Ok body)"
    using assms(16,17) parse_reply_wire [of "Accepted flavor verf (A_Success body)"] by simp
  ultimately obtain c' evs' where r: "call prog vers proc args dec (c, n) = Some (Ok v, c',
      n\<lparr>net_sends := ss, net_log := net_log n @ [Sent (wire c (h @ arg_bytes))], net_recvs := evs'\<rparr>)"
    "received (c\<lparr>next_xid := next_xid c + 1\<rparr>) c'" "inbox c' evs' = []"
    using call_delivers [OF assms(1,10) b, of old reply "[]" body dec v rest] assms(9,15,18) h
    by blast
  with received_fields [OF r(2)] assms(2) h show ?thesis by (simp add: wire_def)
qed

theorem call_succeeds_tcp_example:
  "\<exists>c' n'. call 100003 3 1 (encode_u32 5) decode_u32 (ex_client Tcp, ex_net) = Some (Ok 42, c', n')
    \<and> net_log n' = net_log ex_net @ [Sent (fragment True (ex_header @ w4 5))]
    \<and> next_xid c' = next_xid (ex_client Tcp) + 1 \<and> inbox c' (net_recvs n') = []"
proof (rule call_succeeds_tcp)
  show "net_recvs ex_net = map Recv_Data ex_cut" by (simp add: ex_net_def)
  show "[] \<notin> set ex_cut" by (rule ex_cut)
  show "concat ex_cut = concat (map (fragment True) ([ex_old] @ [ex_reply]))" by (rule ex_cut)
  show "\<forall>m \<in> set ([ex_old] @ [ex_reply]). length m \<le> DEFAULT_MAX_RECORD" by (rule ex_lengths)
  show "list_all (is_stale (next_xid (ex_client Tcp))) [ex_old]"
    using ex_stale by (simp add: ex_client_def)
  show "ex_reply = reply_wire (next_xid (ex_client Tcp)) (Accepted 0 [] (A_Success (w4 42)))"
    by (simp add: ex_reply_def ex_client_def)
  show "encode_call (next_xid (ex_client Tcp)) 100003 3 1 (cred (ex_client Tcp)) [] = Ok ex_header"
    using ex_header by (simp add: ex_client_def)
  show "length (ex_header @ w4 5) \<le> unat LENGTH_MASK"
    by (simp add: ex_header_def unat_LENGTH_MASK)
  show "decode_u32 (w4 42) = Ok (42, [])" using decode_words_be(1) [of 42 "[]"] by simp
qed (simp_all add: ex_client_def ex_net_def client_ok_def cred_ok_def xdr_enc)

text \<open>
  C3: what a call returns comes from the network: it is the decoded body of the
  first message in the inbox of its last attempt that carries the call's transaction id,
  all earlier ones being replies to other calls. After a reconnection that inbox starts
  empty.
\<close>

theorem call_result_matches_xid:
  assumes "client_ok c" "xdr_encoder args" "xdr_decoder dec"
    and "call prog vers proc args dec (c, n) = Some (Ok v, c', n')"
  shows "\<exists>c1 before evs old reply body rest.
    retried (c\<lparr>next_xid := next_xid c + 1\<rparr>) c1 \<and> net_recvs n = before @ evs \<and>
    inbox c1 evs = old @ reply # inbox c' (net_recvs n') \<and> list_all (is_stale (next_xid c)) old \<and>
    parse_reply reply = Ok (next_xid c, Ok body) \<and> dec body = Ok (v, rest)"
proof -
  from assms(2,4) obtain message where
    "call_loop 0 dec (next_xid c) message (c\<lparr>next_xid := next_xid c + 1\<rparr>, n) = Some (Ok v, c', n')"
    by (rule call_Some) simp_all
  from call_loop_matched [OF _ assms(3) _ this] assms(1) obtain c1 evs before where
    "retried (c\<lparr>next_xid := next_xid c + 1\<rparr>) c1" "net_recvs n = before @ evs"
    "await_reply dec (next_xid c) c1 evs = Some (Ok v, c', net_recvs n')"
    by (auto simp: MAX_ATTEMPTS_def)
  with await_reply_matched [OF this(3)] show ?thesis by blast
qed

theorem call_result_matches_xid_example:
  "\<exists>c' n' c1 before evs old reply body rest.
    call 100003 3 1 (encode_u32 5) decode_u32 (ex_client Tcp, ex_net) = Some (Ok 42, c', n') \<and>
    retried ((ex_client Tcp)\<lparr>next_xid := next_xid (ex_client Tcp) + 1\<rparr>) c1 \<and>
    net_recvs ex_net = before @ evs \<and> inbox c1 evs = old @ reply # inbox c' (net_recvs n') \<and>
    list_all (is_stale (next_xid (ex_client Tcp))) old \<and>
    parse_reply reply = Ok (next_xid (ex_client Tcp), Ok body) \<and> decode_u32 body = Ok (42, rest)"
proof -
  obtain c' n' where c: "call 100003 3 1 (encode_u32 5) decode_u32 (ex_client Tcp, ex_net)
      = Some (Ok 42, c', n')"
    using ex_call by blast
  have "client_ok (ex_client Tcp)" by (simp add: ex_client_def client_ok_def)
  from call_result_matches_xid [OF this xdr_encoder_words(1) xdr_decoder_words(1) c] c
  show ?thesis by blast
qed



text \<open>
  C4: a call returns, whatever the server does: three answers to \<open>send\<close>, two to
  \<open>connect\<close> and three deadlines are enough for any script of events.
\<close>

theorem call_returns:
  assumes "client_ok c" "xdr_encoder args" "xdr_decoder dec"
    and "3 \<le> length (net_sends n)" "2 \<le> length (net_opens n)" "3 \<le> deadlines (net_recvs n)"
  shows "\<exists>res c' n'. call prog vers proc args dec (c, n) = Some (res, c', n')"
proof -
  obtain r c1 where b: "build_call prog vers proc args c = (r, c1)"
    by (cases "build_call prog vers proc args c")
  have "client_ok c1" using build_call_cases [OF b] assms(1) by simp
  then have "\<exists>out. call_loop 0 dec xid m (c1, n) = Some out" for xid m
    using assms by (intro call_loop_returns) (auto simp: MAX_ATTEMPTS_def)
  with b build_call_no_panic [OF assms(2), of prog vers proc c] show ?thesis
    by (cases r) (auto simp: call_eq)
qed

theorem call_returns_example:
  "\<exists>res c' n'. call 100003 3 1 (encode_u32 5) decode_u32 (ex_client Udp,
    ex_net\<lparr>net_recvs := [Recv_Err Interrupted, Deadline, Deadline, Deadline]\<rparr>) = Some (res, c', n')"
  by (rule call_returns)
    (simp_all add: ex_client_def ex_net_def client_ok_def xdr_dec xdr_enc)

end
