(* ===== verification/Proto_Base.thy ===== *)
theory Proto_Base
  imports RPC_Client
begin

text \<open>
  What the protocol clients of the crate \<open>nfs-proto\<close> share: the error type
  (\<open>nfs-proto/src/error.rs\<close>), a remote procedure as the protocols call it
  (\<open>proto_call\<close>: an RPC call, its error converted, its result mapped), and the interface
  between the protocols and the RPC client (locale \<open>rpc_transport\<close>).

  The interface rests on a factorisation of \<open>call\<close>: whatever the result type, a call is
  the exchange of raw bytes \<open>rpc_exchange\<close> followed by the decoding of the answer, because
  a decoding error is never retried.
\<close>

subsection \<open>Errors (error.rs)\<close>

datatype ProtoError =
    PE_Rpc RpcError
  | PE_Xdr XdrError
  | PE_Io ErrorKind
  | Unresolvable string
  | PortNotRegistered u32 u32
  | PE_Mount u32
  | PE_Nfs3 u32
  | PE_Nfs4 u32
  | PE_Nlm u32
  | PE_Rquota u32
  | PE_Protocol string

type_synonym 'a proto_op = "(RpcClient \<times> net, ProtoError, 'a) op"

subsection \<open>Remote procedures\<close>

text \<open>\<open>client.call(prog, vers, proc, &args)?\<close> and what the function makes of the result.\<close>

definition proto_call ::
  "u32 \<Rightarrow> u32 \<Rightarrow> u32 \<Rightarrow> encoding \<Rightarrow> 'a decoder \<Rightarrow> ('a \<Rightarrow> ('b, ProtoError) result) \<Rightarrow> 'b proto_op"
where
  "proto_call prog vers proc args dec finish =
     op_bind (op_map_err PE_Rpc (call prog vers proc args dec)) (\<lambda>v. op_lift (finish v))"

subsection \<open>A call is an exchange of bytes and a decoding\<close>

definition raw :: "bytes decoder" where
  "raw buf = Ok (buf, [])"

definition rpc_exchange :: "u32 \<Rightarrow> u32 \<Rightarrow> u32 \<Rightarrow> encoding \<Rightarrow> bytes rpc_op" where
  "rpc_exchange prog vers proc args = call prog vers proc args raw"

definition decode_with :: "'a decoder \<Rightarrow> (bytes, RpcError) result \<Rightarrow> ('a, RpcError) result" where
  "decode_with dec r = and_then r (\<lambda>body. map_err Xdr (map_ok fst (dec body)))"

lemma decode_with_simps [simp]:
  "decode_with dec (Err e) = Err e" "decode_with dec Panic = Panic"
  "decode_with dec (Ok body) = map_err Xdr (map_ok fst (dec body))"
  by (simp_all add: decode_with_def)

lemma decode_with_raw [simp]: "decode_with raw r = r"
  by (cases r) (simp_all add: raw_def)

lemma await_reply_raw:
  "await_reply dec xid c evs =
    map_option (\<lambda>(r, s). (decode_with dec r, s)) (await_reply raw xid c evs)"
proof (induction c evs rule: await_reply_induct [where xid = xid])
  case (step c evs)
  show ?case
  proof (cases c evs rule: await_reply_cases [where xid = xid])
    case (stale reply c1 evs1 x r)
    with step.IH [OF stale] show ?thesis by (simp add: await_reply_step)
  next
    case (matching reply c1 evs1 r)
    then show ?thesis
      by (simp add: await_reply_step decode_with_def [symmetric])
  qed (simp_all add: await_reply_step)
qed

lemma attempt_call_raw:
  "attempt_call dec xid message s =
    map_option (\<lambda>(r, s). (decode_with dec r, s)) (attempt_call raw xid message s)"
  unfolding attempt_call_def op_bind_def
  by (auto simp: await_reply_raw [of dec] split: option.splits result.splits prod.splits)

lemma Xdr_not_retryable: "\<not> is_retryable c (Xdr e)"
  by (simp add: is_retryable_def)

lemma call_loop_raw:
  "call_loop attempt dec xid message s =
    map_option (\<lambda>(r, s). (decode_with dec r, s)) (call_loop attempt raw xid message s)"
proof (induction "MAX_ATTEMPTS - attempt" arbitrary: attempt s)
  case 0
  then show ?case
    by (auto simp: call_loop.simps [of attempt] attempt_call_raw [of dec] Xdr_not_retryable
        split: option.splits result.splits)
next
  case (Suc left)
  from Suc.hyps(2) have "left = MAX_ATTEMPTS - (attempt + 1)" by simp
  note IH = Suc.hyps(1) [OF this, simplified]
  show ?case
  proof (cases "attempt_call raw xid message s")
    case (Some out)
    then obtain r s1 where at: "attempt_call raw xid message s = Some (r, s1)" by (cases out) auto
    show ?thesis
    proof (cases "\<exists>err. r = Err err \<and> attempt + 1 < MAX_ATTEMPTS \<and> is_retryable (fst s1) err")
      case True
      then show ?thesis
        by (auto simp: call_loop.simps [of attempt] at attempt_call_raw [of dec] op_bind_def IH
            split: option.splits result.splits)
    next
      case False
      then show ?thesis
        by (cases r) (auto simp: call_loop.simps [of attempt] at attempt_call_raw [of dec]
            Xdr_not_retryable split: result.splits)
    qed
  qed (simp add: call_loop.simps [of attempt] attempt_call_raw [of dec])
qed

lemma call_raw:
  "call prog vers proc args dec s =
    map_option (\<lambda>(r, s). (decode_with dec r, s)) (rpc_exchange prog vers proc args s)"
proof -
  obtain c n where s: "s = (c, n)" by (cases s)
  obtain b c' where b: "build_call prog vers proc args c = (b, c')"
    by (cases "build_call prog vers proc args c")
  show ?thesis unfolding s rpc_exchange_def call_def
    by (cases b) (auto simp: b op_bind_def op_lift_def call_loop_raw [of 0 dec])
qed

subsection \<open>The interface of the RPC client\<close>

text \<open>
  \<open>remote\<close> is \<open>proto_call\<close> over any exchange of bytes: the client of the interface. The
  law of the interface is that an exchange keeps the client's invariant and does not
  panic.
\<close>

definition remote ::
  "(u32 \<Rightarrow> u32 \<Rightarrow> u32 \<Rightarrow> encoding \<Rightarrow> ('s, RpcError, bytes) op) \<Rightarrow>
   u32 \<Rightarrow> u32 \<Rightarrow> u32 \<Rightarrow> encoding \<Rightarrow> 'a decoder \<Rightarrow> ('a \<Rightarrow> ('b, ProtoError) result) \<Rightarrow>
   ('s, ProtoError, 'b) op" where
  "remote exchange prog vers proc args dec finish s =
     (case exchange prog vers proc args s of
        None \<Rightarrow> None
      | Some (r, s') \<Rightarrow> Some (and_then (map_err PE_Rpc (decode_with dec r)) finish, s'))"

locale rpc_transport =
  fixes exchange :: "u32 \<Rightarrow> u32 \<Rightarrow> u32 \<Rightarrow> encoding \<Rightarrow> ('s, RpcError, bytes) op"
    and inv :: "'s \<Rightarrow> bool"
  assumes exchange_safe:
    "inv s \<Longrightarrow> xdr_encoder args \<Longrightarrow> exchange prog vers proc args s = Some (r, s') \<Longrightarrow>
      inv s' \<and> r \<noteq> Panic"
begin

lemma remote_answer:
  assumes "exchange prog vers proc args s = Some (Ok body, s')" "dec body = Ok (v, rest)"
  shows "remote exchange prog vers proc args dec finish s = Some (finish v, s')"
  using assms by (simp add: remote_def)

lemma remote_garbage:
  assumes "exchange prog vers proc args s = Some (Ok body, s')" "dec body = Err e"
  shows "remote exchange prog vers proc args dec finish s = Some (Err (PE_Rpc (Xdr e)), s')"
  using assms by (simp add: remote_def)

lemma remote_failed:
  assumes "exchange prog vers proc args s = Some (Err e, s')"
  shows "remote exchange prog vers proc args dec finish s = Some (Err (PE_Rpc e), s')"
  using assms by (simp add: remote_def)

lemma remote_safe:
  assumes "inv s" "xdr_encoder args" "xdr_decoder dec" "\<And>v. finish v \<noteq> Panic"
    and "remote exchange prog vers proc args dec finish s = Some (r, s')"
  shows "inv s' \<and> r \<noteq> Panic"
proof -
  from assms(5) obtain r0 where e: "exchange prog vers proc args s = Some (r0, s')"
    "r = and_then (map_err PE_Rpc (decode_with dec r0)) finish"
    by (auto simp: remote_def split: option.splits)
  with exchange_safe [OF assms(1,2) e(1)] assms(4) xdr_decoder.no_panic [OF assms(3)] show ?thesis
    by (auto simp: decode_with_def)
qed

text \<open>A remote procedure succeeds only on an answer that decodes and that it accepts.\<close>

lemma remote_Ok:
  assumes "remote exchange prog vers proc args dec finish s = Some (Ok w, s')"
  obtains body v rest where "exchange prog vers proc args s = Some (Ok body, s')"
    "dec body = Ok (v, rest)" "finish v = Ok w"
  using assms by (auto simp: remote_def decode_with_def split: option.splits)

end

lemma proto_call_remote:
  "proto_call prog vers proc args dec finish = remote rpc_exchange prog vers proc args dec finish"
proof
  fix s
  show "proto_call prog vers proc args dec finish s
      = remote rpc_exchange prog vers proc args dec finish s"
  proof (cases "rpc_exchange prog vers proc args s")
    case (Some out)
    then obtain r s' where "rpc_exchange prog vers proc args s = Some (r, s')" by (cases out) auto
    then show ?thesis
      by (cases "decode_with dec r")
        (simp_all add: proto_call_def remote_def op_bind_def op_map_err_def call_raw op_lift_def)
  qed (simp add: proto_call_def remote_def op_bind_def op_map_err_def call_raw)
qed

text \<open>The synchronous client provides the interface.\<close>

lemma call_safe:
  assumes "client_ok c" "xdr_encoder args" "xdr_decoder dec"
    and "call prog vers proc args dec (c, n) = Some (res, c', n')"
  shows "client_ok c' \<and> res \<noteq> Panic"
  using assms(2,4)
proof (cases rule: call_Some)
  case (loop message)
  from call_loop_actions [OF _ assms(3) _ loop(2)] assms(1) show ?thesis
    by (simp add: MAX_ATTEMPTS_def)
qed (use assms(1) in simp)

lemma rpc_exchange_safe:
  assumes "client_ok (fst s)" "xdr_encoder args" "rpc_exchange prog vers proc args s = Some (r, s')"
  shows "client_ok (fst s') \<and> r \<noteq> Panic"
proof -
  obtain c n c' n' where s: "s = (c, n)" "s' = (c', n')" by (cases s; cases s')
  have "call prog vers proc args decode_unit (c, n) = Some (decode_with decode_unit r, c', n')"
    using assms(3) by (simp add: call_raw s)
  from call_safe [OF _ assms(2) xdr_decoder_unit this] assms(1) s show ?thesis by auto
qed

interpretation sync: rpc_transport rpc_exchange "\<lambda>s. client_ok (fst s)"
  by unfold_locales (rule rpc_exchange_safe)

lemmas proto_call_answer = sync.remote_answer [folded proto_call_remote]
  and proto_call_garbage = sync.remote_garbage [folded proto_call_remote]
  and proto_call_failed = sync.remote_failed [folded proto_call_remote]
  and proto_call_safe = sync.remote_safe [folded proto_call_remote]
  and proto_call_Ok = sync.remote_Ok [folded proto_call_remote]

subsection \<open>A successful call uses an answer of the network\<close>

text \<open>
  Every successful call consumes at least one answer to \<open>send\<close>, so a client that calls in
  a loop ends with its script.
\<close>

lemma send_answers:
  "send message (c, n) = Some (r, c', n') \<Longrightarrow>
    length (net_sends n') \<le> length (net_sends n) \<and> (is_ok r \<longrightarrow> length (net_sends n') < length (net_sends n))"
  by (cases "socket c"; cases "frame message"; cases "net_sends n"; cases "hd (net_sends n)")
    (auto simp: send_def op_bind_def op_lift_def transmit_def)

lemma attempt_call_answers:
  assumes "attempt_call dec xid message (c, n) = Some (r, c', n')"
  shows "length (net_sends n') \<le> length (net_sends n) \<and> (is_ok r \<longrightarrow> length (net_sends n') < length (net_sends n))"
proof -
  from assms obtain r1 c1 n1 where s: "send message (c, n) = Some (r1, c1, n1)"
    by (auto simp: attempt_call_def op_bind_eq)
  note sa = send_answers [OF s]
  show ?thesis
  proof (cases r1)
    case (Ok u)
    with assms s sa show ?thesis
      by (auto simp: attempt_call_def split: option.splits)
  qed (use assms s sa in \<open>auto simp: attempt_call_def\<close>)
qed

lemma reconnect_answers: "reconnect (c, n) = Some (r, c', n') \<Longrightarrow> net_sends n' = net_sends n"
  by (cases "net_opens n"; cases "hd (net_opens n)") (auto simp: reconnect_def open_socket_def)

lemma call_loop_answers:
  "call_loop attempt dec xid message (c, n) = Some (Ok v, c', n') \<Longrightarrow>
    length (net_sends n') < length (net_sends n)"
proof (induction "MAX_ATTEMPTS - attempt" arbitrary: attempt c n)
  case 0
  then have "\<not> attempt + 1 < MAX_ATTEMPTS" by simp
  with "0.prems" obtain c1 n1 where "attempt_call dec xid message (c, n) = Some (Ok v, c1, n1)" "n1 = n'"
    by (subst (asm) call_loop.simps) (auto split: option.splits result.splits)
  with attempt_call_answers [OF this(1)] show ?case by simp
next
  case (Suc left)
  from Suc.prems obtain r c1 n1 where at: "attempt_call dec xid message (c, n) = Some (r, c1, n1)"
    by (subst (asm) call_loop.simps) (auto split: option.splits)
  note sa = attempt_call_answers [OF at]
  have left: "left = MAX_ATTEMPTS - (attempt + 1)" using Suc.hyps(2) by simp
  show ?case
  proof (cases r)
    case (Err e)
    with Suc.prems at have retry: "attempt + 1 < MAX_ATTEMPTS" "is_retryable c1 e"
      by (subst (asm) call_loop.simps, simp split: if_splits)+
    show ?thesis
    proof (cases "protocol c1")
      case Udp
      with Suc.prems at Err retry
      have "call_loop (attempt + 1) dec xid message (c1, n1) = Some (Ok v, c', n')"
        by (subst (asm) call_loop.simps) simp
      from Suc.hyps(1) [OF left this] sa show ?thesis by simp
    next
      case Tcp
      with Suc.prems at Err retry
      have "op_bind reconnect (\<lambda>_. call_loop (attempt + 1) dec xid message) (c1, n1) = Some (Ok v, c', n')"
        by (subst (asm) call_loop.simps) simp
      then obtain u c2 n2 where rc: "reconnect (c1, n1) = Some (u, c2, n2)"
        "call_loop (attempt + 1) dec xid message (c2, n2) = Some (Ok v, c', n')"
        unfolding op_bind_eq by auto
      from Suc.hyps(1) [OF left rc(2)] reconnect_answers [OF rc(1)] sa show ?thesis by simp
    qed
  qed (use Suc.prems at sa in \<open>subst (asm) call_loop.simps, simp\<close>)+
qed

lemma call_answers:
  "call prog vers proc args dec (c, n) = Some (Ok v, c', n') \<Longrightarrow>
    length (net_sends n') < length (net_sends n)"
  by (auto simp: call_def op_bind_eq op_lift_def dest!: call_loop_answers split: prod.splits)

lemma proto_call_answers:
  "proto_call prog vers proc args dec finish (c, n) = Some (Ok v, c', n') \<Longrightarrow>
    length (net_sends n') < length (net_sends n)"
  by (auto simp: proto_call_def op_bind_eq op_map_err_eq op_lift_def dest!: call_answers)

subsection \<open>Linked lists on the wire\<close>

text \<open>The reference form of an XDR linked list, as a server writes it.\<close>

fun encode_list :: "'a encoder \<Rightarrow> 'a list encoder" where
  "encode_list enc [] = encode_bool False"
| "encode_list enc (x # xs) = enc_seq (encode_bool True) (enc_seq (enc x) (encode_list enc xs))"

lemma xdr_encoder_list [xdr_enc]: "(\<And>x. xdr_encoder (enc x)) \<Longrightarrow> xdr_encoder (encode_list enc xs)"
  by (induction xs) (auto intro!: xdr_enc)

lemma wire_rt_bool: "wire_rt (encode_bool b) decode_bool b"
  by (rule bool_codec.roundtrip) simp

lemma wire_rt_list [xdr_rt]:
  assumes "xdr_decoder dec" "\<And>x. xdr_encoder (enc x)" "list_all (\<lambda>x. wire_rt (enc x) dec x) xs"
  shows "wire_rt (encode_list enc xs) (decode_while dec) xs"
  using assms(3)
proof (induction xs)
  case Nil
  show ?case
    using wire_rt_bool [of False]
    by (subst decode_while_unfold [OF assms(1)]) (auto simp: wire_rt_def dec_bind_def dec_return_def)
next
  case (Cons x xs)
  note e = xdr_encoder_list [of enc, OF assms(2)]
  from Cons have "wire_rt (encode_list enc (x # xs)) (dec_bind decode_bool (\<lambda>present.
      if present then dec_bind dec (\<lambda>x. dec_bind (decode_while dec) (\<lambda>xs. dec_return (x # xs)))
      else dec_return [])) (x # xs)"
    unfolding encode_list.simps
    by (intro wire_rt_seq [OF wire_rt_bool] xdr_encoder_seq assms(2) e)
      (auto intro!: wire_rt_seq wire_rt_map e)
  then show ?case by (subst decode_while_unfold [OF assms(1)])
qed

subsection \<open>A server's answer\<close>

text \<open>One request and one answer on a fresh connection without credentials.\<close>

definition none_header :: "u32 \<Rightarrow> u32 \<Rightarrow> u32 \<Rightarrow> u32 \<Rightarrow> bytes" where
  "none_header xid prog vers proc = w4 xid @ w4 0 @ w4 2 @ w4 prog @ w4 vers @ w4 proc
     @ w4 0 @ w4 0 @ w4 0 @ w4 0"

lemma encode_call_none: "encode_call xid prog vers proc Cred_None [] = Ok (none_header xid prog vers proc)"
  by (simp add: encode_call_def encode_auth_cases enc_seq_def enc_done_def encode_u32_def
      put_word_def msg_consts none_header_def)

definition answer_to :: "RpcClient \<Rightarrow> bytes \<Rightarrow> bytes" where
  "answer_to c body = wire c (reply_wire (next_xid c) (Accepted 0 [] (A_Success body)))"

lemma exchange_next:
  assumes "client_ok c" "pending c = []" "reassembler c = new_reassembler" "cred c = Cred_None"
    and "xdr_encoder args" "args [] = Ok ab" "length ab \<le> 2 ^ 20" "length body \<le> 2 ^ 20"
    and "net_sends n = None # ss" "net_recvs n = Recv_Data (answer_to c body) # evs"
  shows "\<exists>acts. rpc_exchange prog vers proc args (c, n) = Some (Ok body, c\<lparr>next_xid := next_xid c + 1\<rparr>,
    n\<lparr>net_sends := ss, net_log := net_log n @ acts, net_recvs := evs\<rparr>)"
proof -
  let ?reply = "reply_wire (next_xid c) (Accepted 0 [] (A_Success body))"
  let ?message = "none_header (next_xid c) prog vers proc @ ab"
  let ?c = "c\<lparr>next_xid := next_xid c + 1\<rparr>"
  have "cred_ok (cred c)" by (simp add: assms(4) cred_ok_def)
  from this assms(5,6) have b: "build_call prog vers proc args c = (Ok (next_xid c, ?message), ?c)"
    by (rule build_call_eq [where prog = prog and vers = vers and proc = proc])
      (simp add: assms(4) encode_call_none)
  have len: "length ?reply \<le> DEFAULT_MAX_RECORD"
    using assms(8) by (simp add: DEFAULT_MAX_RECORD_def padding_def)
  then have d: "drain (push (fragment True ?reply) new_reassembler) = ([?reply], Ok (), new_reassembler)"
    using drain_fragments [of "[[?reply]]" DEFAULT_MAX_RECORD]
    by (simp add: new_reassembler_def DEFAULT_MAX_RECORD_def unat_LENGTH_MASK)
  have "recv_message ?c (net_recvs n) = Some (Ok ?reply, ?c, evs)"
  proof (cases "socket c = Sock_Udp")
    case True
    then show ?thesis using assms(1,2,10) by (simp add: recv_message_def answer_to_def wire_def client_ok_def)
  next
    case False
    then have "wire c ?reply = fragment True ?reply" "fragment True ?reply \<noteq> []"
      using assms(1) by (auto simp: wire_def client_ok_def fragment_def be_bytes_ne)
    with False d show ?thesis using assms(2,3,10)
      by (simp add: recv_message_def answer_to_def recv_loop_data [where res = "Ok ()"] del: recv_loop.simps)
  qed
  moreover have "parse_reply ?reply = Ok (next_xid c, Ok body)"
    using parse_reply_wire [of "Accepted 0 [] (A_Success body)"] by simp
  ultimately have "await_reply raw (next_xid c) ?c (net_recvs n) = Some (Ok body, ?c, evs)"
    by (subst await_reply.simps) (simp add: raw_def)
  moreover have "length ?message \<le> unat LENGTH_MASK"
    using assms(7) by (simp add: none_header_def unat_LENGTH_MASK)
  ultimately have "attempt_call raw (next_xid c) ?message (?c, n) = Some (Ok body, ?c,
      n\<lparr>net_sends := ss, net_log := net_log n @ [Sent (wire ?c ?message)], net_recvs := evs\<rparr>)"
    using assms(1,9) by (subst attempt_call_eq) simp_all
  then show ?thesis
    unfolding rpc_exchange_def by (auto simp: call_eq(1) [OF b] call_loop.simps [of 0])
qed

lemma exchange_served:
  assumes "client_ok c" "pending c = []" "reassembler c = new_reassembler" "cred c = Cred_None"
    and "xdr_encoder args" "args [] = Ok ab" "length ab \<le> 2 ^ 20" "length body \<le> 2 ^ 20"
    and "net_sends n = None # ss" "net_recvs n = [Recv_Data (answer_to c body)]"
  shows "\<exists>c' evs' acts. rpc_exchange prog vers proc args (c, n) = Some (Ok body, c',
    n\<lparr>net_sends := ss, net_log := net_log n @ acts, net_recvs := evs'\<rparr>)"
  using exchange_next [OF assms] by blast

definition ex_served :: "RpcClient \<Rightarrow> bytes \<Rightarrow> net" where
  "ex_served c body = \<lparr>net_opens = [], net_sends = [None], net_recvs = [Recv_Data (answer_to c body)],
     net_clock = [], net_log = []\<rparr>"

lemma ex_exchange:
  assumes "xdr_encoder args" "args [] = Ok ab" "length ab \<le> 2 ^ 20" "length body \<le> 2 ^ 20"
  shows "\<exists>s'. rpc_exchange prog vers proc args (ex_client p, ex_served (ex_client p) body) = Some (Ok body, s')"
proof -
  have "client_ok (ex_client p)" "pending (ex_client p) = []" "cred (ex_client p) = Cred_None"
    "reassembler (ex_client p) = new_reassembler"
    by (cases p; simp add: ex_client_def client_ok_def)+
  moreover have "net_sends (ex_served (ex_client p) body) = [None]"
    "net_recvs (ex_served (ex_client p) body) = [Recv_Data (answer_to (ex_client p) body)]"
    by (simp_all add: ex_served_def)
  ultimately show ?thesis using exchange_served [OF _ _ _ _ assms] by blast
qed

text \<open>Encoders evaluated on concrete values.\<close>

lemmas enc_eval = enc_seq_def enc_done_def encode_u32_def encode_u64_def put_word_def
  encode_opaque_eq to_bytes_def u32_max_def usize_max_def padding_def encode_String_def as_bytes_def
  encode_Bytes_def encode_Vec_def encode_bool_def encode_i32_def encode_Option_def encode_fixed_def
  put_slice_def put_bytes_def

end
