(* ===== verification/Mount.thy ===== *)
theory Mount
  imports Proto_Base
begin

text \<open>
  The MOUNT v3 client (\<open>nfs-proto/src/mount.rs\<close>): the result of \<open>MNT\<close>, the lists of
  exports and of active mounts, and the procedures \<open>MNT\<close>, \<open>UMNT\<close>, \<open>EXPORT\<close> and
  \<open>DUMP\<close>. The results are compared with the encodings a server produces.
\<close>

subsection \<open>Definitions\<close>

definition MOUNT_PROGRAM :: u32 where "MOUNT_PROGRAM = 100005"
definition MOUNT_VERSION3 :: u32 where "MOUNT_VERSION3 = 3"
definition FHSIZE3 :: nat where "FHSIZE3 = 64"
definition MNT3_OK :: u32 where "MNT3_OK = 0"
definition MOUNTPROC3_MNT :: u32 where "MOUNTPROC3_MNT = 1"
definition MOUNTPROC3_DUMP :: u32 where "MOUNTPROC3_DUMP = 2"
definition MOUNTPROC3_UMNT :: u32 where "MOUNTPROC3_UMNT = 3"
definition MOUNTPROC3_EXPORT :: u32 where "MOUNTPROC3_EXPORT = 5"

record MountOk =
  fhandle :: bytes
  auth_flavors :: "u32 list"

datatype Mountres3 = Mount_Ok MountOk | Mount_Err u32

definition decode_Mountres3 :: "Mountres3 decoder" where
  "decode_Mountres3 = dec_bind decode_u32 (\<lambda>status.
     if status = MNT3_OK then
       dec_bind (decode_opaque FHSIZE3) (\<lambda>fh.
       dec_bind (decode_Vec decode_u32) (\<lambda>flavors.
       dec_return (Mount_Ok \<lparr>fhandle = fh, auth_flavors = flavors\<rparr>)))
     else dec_return (Mount_Err status))"

record ExportNode =
  ex_dir :: string
  ex_groups :: "string list"

definition decode_string_list :: "string list decoder" where
  "decode_string_list = decode_while decode_String"

definition decode_ExportList :: "ExportNode list decoder" where
  "decode_ExportList = decode_while
     (dec_bind decode_String (\<lambda>dir. dec_bind decode_string_list (\<lambda>groups.
      dec_return \<lparr>ex_dir = dir, ex_groups = groups\<rparr>)))"

record MountEntry =
  me_hostname :: string
  me_dir :: string

definition decode_MountList :: "MountEntry list decoder" where
  "decode_MountList = decode_while
     (dec_bind decode_String (\<lambda>hostname. dec_bind decode_String (\<lambda>dir.
      dec_return \<lparr>me_hostname = hostname, me_dir = dir\<rparr>)))"

definition mnt :: "string \<Rightarrow> MountOk proto_op" where
  "mnt path = proto_call MOUNT_PROGRAM MOUNT_VERSION3 MOUNTPROC3_MNT (encode_String path)
     decode_Mountres3
     (\<lambda>res. case res of Mount_Ok ok \<Rightarrow> Ok ok | Mount_Err code \<Rightarrow> Err (PE_Mount code))"

definition umnt :: "string \<Rightarrow> unit proto_op" where
  "umnt path = proto_call MOUNT_PROGRAM MOUNT_VERSION3 MOUNTPROC3_UMNT (encode_String path)
     decode_unit (\<lambda>_. Ok ())"

definition mount_export :: "ExportNode list proto_op" where
  "mount_export = proto_call MOUNT_PROGRAM MOUNT_VERSION3 MOUNTPROC3_EXPORT (encode_unit ())
     decode_ExportList Ok"

definition mount_dump :: "MountEntry list proto_op" where
  "mount_dump = proto_call MOUNT_PROGRAM MOUNT_VERSION3 MOUNTPROC3_DUMP (encode_unit ())
     decode_MountList Ok"

subsection \<open>The server's side\<close>

fun encode_Mountres3 :: "Mountres3 encoder" where
  "encode_Mountres3 (Mount_Ok ok) = struct_encode
     [encode_u32 0, encode_opaque (fhandle ok) 64, encode_Vec encode_u32 (auth_flavors ok)]"
| "encode_Mountres3 (Mount_Err code) = encode_u32 code"

definition encode_ExportNode :: "ExportNode encoder" where
  "encode_ExportNode e = struct_encode
     [encode_String (ex_dir e), encode_list encode_String (ex_groups e)]"

definition encode_MountEntry :: "MountEntry encoder" where
  "encode_MountEntry e = struct_encode [encode_String (me_hostname e), encode_String (me_dir e)]"

subsection \<open>The codec\<close>

lemma xdr_decoder_Mountres3 [xdr_dec]: "xdr_decoder decode_Mountres3"
  unfolding decode_Mountres3_def by (intro xdr_dec)

lemma xdr_decoder_mount_lists [xdr_dec]:
  "xdr_decoder decode_string_list" "xdr_decoder decode_ExportList" "xdr_decoder decode_MountList"
  unfolding decode_string_list_def decode_ExportList_def decode_MountList_def
  by (intro xdr_dec)+

lemma xdr_encoder_mount [xdr_enc]:
  "xdr_encoder (encode_Mountres3 r)" "xdr_encoder (encode_ExportNode e)"
  "xdr_encoder (encode_MountEntry m)"
proof -
  show "xdr_encoder (encode_Mountres3 r)" by (cases r) (auto intro!: xdr_enc)
qed (unfold encode_ExportNode_def encode_MountEntry_def, (intro xdr_enc)+)

definition mountres3_ok :: "Mountres3 \<Rightarrow> bool" where
  "mountres3_ok r \<longleftrightarrow> (case r of Mount_Ok ok \<Rightarrow> True | Mount_Err code \<Rightarrow> code \<noteq> 0)"

lemma wire_rt_Mountres3 [xdr_rt]:
  "mountres3_ok r \<Longrightarrow> wire_rt (encode_Mountres3 r) decode_Mountres3 r"
proof (cases r)
  case (Mount_Ok ok)
  show ?thesis
    unfolding Mount_Ok encode_Mountres3.simps decode_Mountres3_def MNT3_OK_def FHSIZE3_def
    by (rule xdr_rt xdr_enc refl | simp)+
next
  case (Mount_Err code)
  assume "mountres3_ok r"
  with Mount_Err show ?thesis
    by (auto simp: mountres3_ok_def decode_Mountres3_def MNT3_OK_def wire_rt_def dec_bind_def
        dec_return_def encode_u32_def put_word_def)
qed

lemma wire_rt_strings:
  "list_all valid_string ss \<Longrightarrow> wire_rt (encode_list encode_String ss) decode_string_list ss"
  unfolding decode_string_list_def
  by (rule wire_rt_list) (auto simp: list_all_iff intro: xdr_dec xdr_enc xdr_rt)

definition export_ok :: "ExportNode \<Rightarrow> bool" where
  "export_ok e \<longleftrightarrow> valid_string (ex_dir e) \<and> list_all valid_string (ex_groups e)"

lemma wire_rt_ExportList:
  assumes "list_all export_ok es"
  shows "wire_rt (encode_list encode_ExportNode es) decode_ExportList es"
proof -
  have "wire_rt (encode_ExportNode e) (dec_bind decode_String (\<lambda>dir.
      dec_bind decode_string_list (\<lambda>groups. dec_return \<lparr>ex_dir = dir, ex_groups = groups\<rparr>))) e"
    if "export_ok e" for e
    using that unfolding encode_ExportNode_def export_ok_def
    by (auto intro!: wire_rt_struct wire_rt_strings xdr_rt xdr_enc)
  with assms show ?thesis
    unfolding decode_ExportList_def
    by (intro wire_rt_list xdr_dec xdr_enc) (auto simp: list_all_iff)
qed

interpretation Mountres3_codec: xdr_codec decode_Mountres3 encode_Mountres3 mountres3_ok
  by (rule xdr_codecI; intro xdr_dec xdr_enc xdr_rt)

interpretation ExportList_codec:
  xdr_codec decode_ExportList "encode_list encode_ExportNode" "list_all export_ok"
  by (rule xdr_codecI; intro xdr_dec xdr_enc wire_rt_ExportList)

lemma decode_Mountres3_bound:
  "decode_Mountres3 buf = Ok (Mount_Ok ok, rest) \<Longrightarrow> length (fhandle ok) \<le> 64"
  by (auto simp: decode_Mountres3_def dec_bind_eq dec_return_def FHSIZE3_def
      dest!: decode_opaque_limit split: if_splits)

text \<open>
  \<open>MNT\<close> on every answer of a server: the root handle and the flavors of a
  successful mount, or the error code of the server. No handle longer than 64 bytes is ever
  accepted.
\<close>

theorem mnt_answer:
  assumes "rpc_exchange 100005 3 1 (encode_String path) s = Some (Ok body, s')"
    and "mountres3_ok r" "to_bytes encode_Mountres3 r = Ok body"
  shows "mnt path s = Some (case r of Mount_Ok ok \<Rightarrow> Ok ok | Mount_Err code \<Rightarrow> Err (PE_Mount code), s')
    \<and> (\<forall>ok. r = Mount_Ok ok \<longrightarrow> length (fhandle ok) \<le> 64)"
proof
  from wire_rt_Mountres3 [OF assms(2)] assms(3)
  have d: "decode_Mountres3 body = Ok (r, [])"
    unfolding wire_rt_def to_bytes_def by (metis append_Nil2)
  then show "mnt path s =
      Some (case r of Mount_Ok ok \<Rightarrow> Ok ok | Mount_Err code \<Rightarrow> Err (PE_Mount code), s')"
    unfolding mnt_def
    by (rule proto_call_answer [OF assms(1) [folded MOUNT_PROGRAM_def MOUNT_VERSION3_def
          MOUNTPROC3_MNT_def]])
  from d decode_Mountres3_bound show "\<forall>ok. r = Mount_Ok ok \<longrightarrow> length (fhandle ok) \<le> 64" by blast
qed

definition ex_root :: MountOk where
  "ex_root = \<lparr>fhandle = [1, 2, 3, 4], auth_flavors = [1]\<rparr>"

lemma ex_root_bytes:
  "\<exists>body. to_bytes encode_Mountres3 (Mount_Ok ex_root) = Ok body \<and> length body \<le> 2 ^ 20"
  by (simp add: ex_root_def enc_eval FHSIZE3_def MNT3_OK_def)

theorem mnt_answer_example:
  "\<exists>body s'. to_bytes encode_Mountres3 (Mount_Ok ex_root) = Ok body \<and>
    mnt ''/export'' (ex_client Udp, ex_served (ex_client Udp) body) = Some (Ok ex_root, s')"
proof -
  obtain body where body: "to_bytes encode_Mountres3 (Mount_Ok ex_root) = Ok body" "length body \<le> 2 ^ 20"
    using ex_root_bytes by blast
  have ab: "\<exists>ab. encode_String ''/export'' [] = Ok ab \<and> length ab \<le> 2 ^ 20"
    by (simp add: enc_eval)
  with ex_exchange [OF xdr_encoder_opaques(1) _ _ body(2), where prog = 100005 and vers = 3
      and proc = 1 and p = Udp]
  obtain s' where "rpc_exchange 100005 3 1 (encode_String ''/export'')
      (ex_client Udp, ex_served (ex_client Udp) body) = Some (Ok body, s')" by blast
  from mnt_answer [OF this _ body(1)] body(1) show ?thesis by (auto simp: mountres3_ok_def)
qed

end
