(* ===== verification/NFS3_Types.thy ===== *)
theory NFS3_Types
  imports Mount
begin

text \<open>
  The data types of NFSv3 (\<open>nfs-proto/src/nfs3.rs\<close>) and their wire codecs. The first part
  holds the types with the codecs that the source derives (or, for the directory listings,
  writes by hand); the second the opposite directions, which only a server needs:
  encoders of the results, decoders of the arguments. The third part shows that every
  decoder and every encoder keeps the contract of \<open>XDR_Codec\<close> and that both
  directions agree.
\<close>

subsection \<open>Types and codecs of the client\<close>

record Nfstime3 =
  nt_seconds :: u32
  nt_nseconds :: u32

definition encode_Nfstime3 :: "Nfstime3 encoder" where
  "encode_Nfstime3 v = struct_encode
     [encode_u32 (nt_seconds v), encode_u32 (nt_nseconds v)]"

definition decode_Nfstime3 :: "Nfstime3 decoder" where
  "decode_Nfstime3 =
     dec_bind decode_u32 (\<lambda>seconds'. dec_bind decode_u32 (\<lambda>nseconds'.
     dec_return \<lparr>nt_seconds = seconds', nt_nseconds = nseconds'\<rparr>))"

record Specdata3 =
  specdata1 :: u32
  specdata2 :: u32

definition encode_Specdata3 :: "Specdata3 encoder" where
  "encode_Specdata3 v = struct_encode
     [encode_u32 (specdata1 v), encode_u32 (specdata2 v)]"

definition decode_Specdata3 :: "Specdata3 decoder" where
  "decode_Specdata3 =
     dec_bind decode_u32 (\<lambda>specdata1'. dec_bind decode_u32 (\<lambda>specdata2'.
     dec_return \<lparr>specdata1 = specdata1', specdata2 = specdata2'\<rparr>))"

record Fattr3 =
  fa_ftype :: u32
  fa_mode :: u32
  fa_nlink :: u32
  fa_uid :: u32
  fa_gid :: u32
  fa_size :: u64
  fa_used :: u64
  fa_rdev :: Specdata3
  fa_fsid :: u64
  fa_fileid :: u64
  fa_atime :: Nfstime3
  fa_mtime :: Nfstime3
  fa_ctime :: Nfstime3

definition encode_Fattr3 :: "Fattr3 encoder" where
  "encode_Fattr3 v = struct_encode
     [encode_u32 (fa_ftype v), encode_u32 (fa_mode v), encode_u32 (fa_nlink v),
      encode_u32 (fa_uid v), encode_u32 (fa_gid v), encode_u64 (fa_size v),
      encode_u64 (fa_used v), encode_Specdata3 (fa_rdev v), encode_u64 (fa_fsid v),
      encode_u64 (fa_fileid v), encode_Nfstime3 (fa_atime v), encode_Nfstime3 (fa_mtime v),
      encode_Nfstime3 (fa_ctime v)]"

definition decode_Fattr3 :: "Fattr3 decoder" where
  "decode_Fattr3 =
     dec_bind decode_u32 (\<lambda>ftype'. dec_bind decode_u32 (\<lambda>mode'.
     dec_bind decode_u32 (\<lambda>nlink'. dec_bind decode_u32 (\<lambda>uid'.
     dec_bind decode_u32 (\<lambda>gid'. dec_bind decode_u64 (\<lambda>size'.
     dec_bind decode_u64 (\<lambda>used'. dec_bind decode_Specdata3 (\<lambda>rdev'.
     dec_bind decode_u64 (\<lambda>fsid'. dec_bind decode_u64 (\<lambda>fileid'.
     dec_bind decode_Nfstime3 (\<lambda>atime'. dec_bind decode_Nfstime3 (\<lambda>mtime'.
     dec_bind decode_Nfstime3 (\<lambda>ctime'.
     dec_return \<lparr>fa_ftype = ftype', fa_mode = mode', fa_nlink = nlink', fa_uid = uid',
       fa_gid = gid', fa_size = size', fa_used = used', fa_rdev = rdev', fa_fsid = fsid',
       fa_fileid = fileid', fa_atime = atime', fa_mtime = mtime',
       fa_ctime = ctime'\<rparr>)))))))))))))"

record NfsFh3 =
  fh_data :: bytes

definition encode_NfsFh3 :: "NfsFh3 encoder" where
  "encode_NfsFh3 v = struct_encode
     [encode_access encode_Bytes length (Some 64) (fh_data v)]"

definition decode_NfsFh3 :: "NfsFh3 decoder" where
  "decode_NfsFh3 =
     dec_bind (decode_value decode_Bytes length (Some 64)) (\<lambda>data'.
     dec_return \<lparr>fh_data = data'\<rparr>)"

record WccAttr =
  wa_size :: u64
  wa_mtime :: Nfstime3
  wa_ctime :: Nfstime3

definition encode_WccAttr :: "WccAttr encoder" where
  "encode_WccAttr v = struct_encode
     [encode_u64 (wa_size v), encode_Nfstime3 (wa_mtime v), encode_Nfstime3 (wa_ctime v)]"

definition decode_WccAttr :: "WccAttr decoder" where
  "decode_WccAttr =
     dec_bind decode_u64 (\<lambda>size'. dec_bind decode_Nfstime3 (\<lambda>mtime'.
     dec_bind decode_Nfstime3 (\<lambda>ctime'.
     dec_return \<lparr>wa_size = size', wa_mtime = mtime', wa_ctime = ctime'\<rparr>)))"

record WccData =
  wd_before :: "WccAttr option"
  wd_after :: "Fattr3 option"

definition encode_WccData :: "WccData encoder" where
  "encode_WccData v = struct_encode
     [encode_Option encode_WccAttr (wd_before v), encode_Option encode_Fattr3 (wd_after v)]"

definition decode_WccData :: "WccData decoder" where
  "decode_WccData =
     dec_bind (decode_Option decode_WccAttr) (\<lambda>before'.
     dec_bind (decode_Option decode_Fattr3) (\<lambda>after'.
     dec_return \<lparr>wd_before = before', wd_after = after'\<rparr>))"

datatype SetTime = DontChange | ToServerTime | ToClientTime Nfstime3

fun encode_SetTime :: "SetTime encoder" where
  "encode_SetTime DontChange = union_encode 0 []"
| "encode_SetTime ToServerTime = union_encode 1 []"
| "encode_SetTime (ToClientTime t) = union_encode 2 [encode_Nfstime3 t]"

definition decode_SetTime :: "SetTime decoder" where
  "decode_SetTime = union_decode
     [(0, dec_return DontChange),
      (1, dec_return ToServerTime),
      (2, dec_bind decode_Nfstime3 (\<lambda>t. dec_return (ToClientTime t)))]"

record Sattr3 =
  sa3_mode :: "u32 option"
  sa3_uid :: "u32 option"
  sa3_gid :: "u32 option"
  sa3_size :: "u64 option"
  sa3_atime :: SetTime
  sa3_mtime :: SetTime

definition encode_Sattr3 :: "Sattr3 encoder" where
  "encode_Sattr3 v = struct_encode
     [encode_Option encode_u32 (sa3_mode v), encode_Option encode_u32 (sa3_uid v),
      encode_Option encode_u32 (sa3_gid v), encode_Option encode_u64 (sa3_size v),
      encode_SetTime (sa3_atime v), encode_SetTime (sa3_mtime v)]"

definition decode_Sattr3 :: "Sattr3 decoder" where
  "decode_Sattr3 =
     dec_bind (decode_Option decode_u32) (\<lambda>mode'.
     dec_bind (decode_Option decode_u32) (\<lambda>uid'.
     dec_bind (decode_Option decode_u32) (\<lambda>gid'.
     dec_bind (decode_Option decode_u64) (\<lambda>size'.
     dec_bind decode_SetTime (\<lambda>atime'. dec_bind decode_SetTime (\<lambda>mtime'.
     dec_return \<lparr>sa3_mode = mode', sa3_uid = uid', sa3_gid = gid', sa3_size = size',
       sa3_atime = atime', sa3_mtime = mtime'\<rparr>))))))"

record DirOpArgs3 =
  do_dir :: NfsFh3
  do_name :: string

definition encode_DirOpArgs3 :: "DirOpArgs3 encoder" where
  "encode_DirOpArgs3 v = struct_encode
     [encode_NfsFh3 (do_dir v), encode_String (do_name v)]"

definition decode_DirOpArgs3 :: "DirOpArgs3 decoder" where
  "decode_DirOpArgs3 =
     dec_bind decode_NfsFh3 (\<lambda>dir'. dec_bind decode_String (\<lambda>name'.
     dec_return \<lparr>do_dir = dir', do_name = name'\<rparr>))"

record LookupOk =
  lo_object :: NfsFh3
  lo_obj_attributes :: "Fattr3 option"
  lo_dir_attributes :: "Fattr3 option"

definition decode_LookupOk :: "LookupOk decoder" where
  "decode_LookupOk =
     dec_bind decode_NfsFh3 (\<lambda>object'.
     dec_bind (decode_Option decode_Fattr3) (\<lambda>obj_attributes'.
     dec_bind (decode_Option decode_Fattr3) (\<lambda>dir_attributes'.
     dec_return \<lparr>lo_object = object', lo_obj_attributes = obj_attributes',
       lo_dir_attributes = dir_attributes'\<rparr>)))"

record AccessArgs =
  aa_object :: NfsFh3
  aa_access :: u32

definition encode_AccessArgs :: "AccessArgs encoder" where
  "encode_AccessArgs v = struct_encode
     [encode_NfsFh3 (aa_object v), encode_u32 (aa_access v)]"

record AccessOk =
  ao_obj_attributes :: "Fattr3 option"
  ao_access :: u32

definition decode_AccessOk :: "AccessOk decoder" where
  "decode_AccessOk =
     dec_bind (decode_Option decode_Fattr3) (\<lambda>obj_attributes'.
     dec_bind decode_u32 (\<lambda>access'.
     dec_return \<lparr>ao_obj_attributes = obj_attributes', ao_access = access'\<rparr>))"

record ReadlinkOk =
  rl_symlink_attributes :: "Fattr3 option"
  rl_data :: string

definition decode_ReadlinkOk :: "ReadlinkOk decoder" where
  "decode_ReadlinkOk =
     dec_bind (decode_Option decode_Fattr3) (\<lambda>symlink_attributes'.
     dec_bind decode_String (\<lambda>data'.
     dec_return \<lparr>rl_symlink_attributes = symlink_attributes', rl_data = data'\<rparr>))"

record ReadArgs =
  ra_file :: NfsFh3
  ra_offset :: u64
  ra_count :: u32

definition encode_ReadArgs :: "ReadArgs encoder" where
  "encode_ReadArgs v = struct_encode
     [encode_NfsFh3 (ra_file v), encode_u64 (ra_offset v), encode_u32 (ra_count v)]"

record ReadOk =
  ro_file_attributes :: "Fattr3 option"
  ro_count :: u32
  ro_eof :: bool
  ro_data :: bytes

definition decode_ReadOk :: "ReadOk decoder" where
  "decode_ReadOk =
     dec_bind (decode_Option decode_Fattr3) (\<lambda>file_attributes'.
     dec_bind decode_u32 (\<lambda>count'. dec_bind decode_bool (\<lambda>eof'.
     dec_bind decode_Bytes (\<lambda>data'.
     dec_return \<lparr>ro_file_attributes = file_attributes', ro_count = count', ro_eof = eof',
       ro_data = data'\<rparr>))))"

record WriteArgs =
  wr_file :: NfsFh3
  wr_offset :: u64
  wr_count :: u32
  wr_stable :: u32
  wr_data :: bytes

definition encode_WriteArgs :: "WriteArgs encoder" where
  "encode_WriteArgs v = struct_encode
     [encode_NfsFh3 (wr_file v), encode_u64 (wr_offset v), encode_u32 (wr_count v),
      encode_u32 (wr_stable v), encode_Bytes (wr_data v)]"

record WriteOk =
  wo_file_wcc :: WccData
  wo_count :: u32
  wo_committed :: u32
  wo_verf :: bytes

definition decode_WriteOk :: "WriteOk decoder" where
  "decode_WriteOk =
     dec_bind decode_WccData (\<lambda>file_wcc'. dec_bind decode_u32 (\<lambda>count'.
     dec_bind decode_u32 (\<lambda>committed'. dec_bind (decode_fixed 8) (\<lambda>verf'.
     dec_return \<lparr>wo_file_wcc = file_wcc', wo_count = count', wo_committed = committed',
       wo_verf = verf'\<rparr>))))"

datatype CreateHow3 = Unchecked Sattr3 | Guarded Sattr3 | Exclusive bytes

fun encode_CreateHow3 :: "CreateHow3 encoder" where
  "encode_CreateHow3 (Unchecked attr) = union_encode 0 [encode_Sattr3 attr]"
| "encode_CreateHow3 (Guarded attr) = union_encode 1 [encode_Sattr3 attr]"
| "encode_CreateHow3 (Exclusive verf) = union_encode 2 [encode_fixed verf]"

record CreateArgs =
  cr_where :: DirOpArgs3
  cr_how :: CreateHow3

definition encode_CreateArgs :: "CreateArgs encoder" where
  "encode_CreateArgs v = struct_encode
     [encode_DirOpArgs3 (cr_where v), encode_CreateHow3 (cr_how v)]"

record CreateOk =
  co_obj :: "NfsFh3 option"
  co_obj_attributes :: "Fattr3 option"
  co_dir_wcc :: WccData

definition decode_CreateOk :: "CreateOk decoder" where
  "decode_CreateOk =
     dec_bind (decode_Option decode_NfsFh3) (\<lambda>obj'.
     dec_bind (decode_Option decode_Fattr3) (\<lambda>obj_attributes'.
     dec_bind decode_WccData (\<lambda>dir_wcc'.
     dec_return \<lparr>co_obj = obj', co_obj_attributes = obj_attributes',
       co_dir_wcc = dir_wcc'\<rparr>)))"

record MkdirArgs =
  md_where :: DirOpArgs3
  md_attributes :: Sattr3

definition encode_MkdirArgs :: "MkdirArgs encoder" where
  "encode_MkdirArgs v = struct_encode
     [encode_DirOpArgs3 (md_where v), encode_Sattr3 (md_attributes v)]"

record SymlinkData3 =
  symlink_attributes :: Sattr3
  symlink_data :: string

definition encode_SymlinkData3 :: "SymlinkData3 encoder" where
  "encode_SymlinkData3 v = struct_encode
     [encode_Sattr3 (symlink_attributes v), encode_String (symlink_data v)]"

record SymlinkArgs =
  sl_where :: DirOpArgs3
  sl_symlink :: SymlinkData3

definition encode_SymlinkArgs :: "SymlinkArgs encoder" where
  "encode_SymlinkArgs v = struct_encode
     [encode_DirOpArgs3 (sl_where v), encode_SymlinkData3 (sl_symlink v)]"

record DeviceData3 =
  dev_attributes :: Sattr3
  spec :: Specdata3

definition encode_DeviceData3 :: "DeviceData3 encoder" where
  "encode_DeviceData3 v = struct_encode
     [encode_Sattr3 (dev_attributes v), encode_Specdata3 (spec v)]"

datatype MknodData3 = Blk DeviceData3 | Chr DeviceData3 | Sock Sattr3 | Fifo Sattr3

fun encode_MknodData3 :: "MknodData3 encoder" where
  "encode_MknodData3 (Blk dev) = union_encode 3 [encode_DeviceData3 dev]"
| "encode_MknodData3 (Chr dev) = union_encode 4 [encode_DeviceData3 dev]"
| "encode_MknodData3 (Sock attr) = union_encode 6 [encode_Sattr3 attr]"
| "encode_MknodData3 (Fifo attr) = union_encode 7 [encode_Sattr3 attr]"

record MknodArgs =
  mk_where :: DirOpArgs3
  mk_what :: MknodData3

definition encode_MknodArgs :: "MknodArgs encoder" where
  "encode_MknodArgs v = struct_encode
     [encode_DirOpArgs3 (mk_where v), encode_MknodData3 (mk_what v)]"

record SetattrArgs =
  st_object :: NfsFh3
  st_new_attributes :: Sattr3
  st_guard :: "Nfstime3 option"

definition encode_SetattrArgs :: "SetattrArgs encoder" where
  "encode_SetattrArgs v = struct_encode
     [encode_NfsFh3 (st_object v), encode_Sattr3 (st_new_attributes v),
      encode_Option encode_Nfstime3 (st_guard v)]"

record RenameArgs =
  rn_from :: DirOpArgs3
  rn_to :: DirOpArgs3

definition encode_RenameArgs :: "RenameArgs encoder" where
  "encode_RenameArgs v = struct_encode
     [encode_DirOpArgs3 (rn_from v), encode_DirOpArgs3 (rn_to v)]"

record RenameOk =
  fromdir_wcc :: WccData
  todir_wcc :: WccData

definition decode_RenameOk :: "RenameOk decoder" where
  "decode_RenameOk =
     dec_bind decode_WccData (\<lambda>fromdir_wcc'.
     dec_bind decode_WccData (\<lambda>todir_wcc'.
     dec_return \<lparr>fromdir_wcc = fromdir_wcc', todir_wcc = todir_wcc'\<rparr>))"

record LinkArgs =
  li_file :: NfsFh3
  li_link :: DirOpArgs3

definition encode_LinkArgs :: "LinkArgs encoder" where
  "encode_LinkArgs v = struct_encode
     [encode_NfsFh3 (li_file v), encode_DirOpArgs3 (li_link v)]"

record LinkOk =
  lk_file_attributes :: "Fattr3 option"
  lk_linkdir_wcc :: WccData

definition decode_LinkOk :: "LinkOk decoder" where
  "decode_LinkOk =
     dec_bind (decode_Option decode_Fattr3) (\<lambda>file_attributes'.
     dec_bind decode_WccData (\<lambda>linkdir_wcc'.
     dec_return \<lparr>lk_file_attributes = file_attributes',
       lk_linkdir_wcc = linkdir_wcc'\<rparr>))"

record ReaddirArgs =
  rda_dir :: NfsFh3
  rda_cookie :: u64
  rda_cookieverf :: bytes
  rda_count :: u32

definition encode_ReaddirArgs :: "ReaddirArgs encoder" where
  "encode_ReaddirArgs v = struct_encode
     [encode_NfsFh3 (rda_dir v), encode_u64 (rda_cookie v), encode_fixed (rda_cookieverf v),
      encode_u32 (rda_count v)]"

record Entry3 =
  e3_fileid :: u64
  e3_name :: string
  e3_cookie :: u64

definition decode_Entry3 :: "Entry3 decoder" where
  "decode_Entry3 =
     dec_bind decode_u64 (\<lambda>fileid'. dec_bind decode_String (\<lambda>name'.
     dec_bind decode_u64 (\<lambda>cookie'.
     dec_return \<lparr>e3_fileid = fileid', e3_name = name', e3_cookie = cookie'\<rparr>)))"

record ReaddirOk =
  rdo_dir_attributes :: "Fattr3 option"
  rdo_cookieverf :: bytes
  rdo_entries :: "Entry3 list"
  rdo_eof :: bool

definition decode_ReaddirOk :: "ReaddirOk decoder" where
  "decode_ReaddirOk =
     dec_bind (decode_Option decode_Fattr3) (\<lambda>dir_attributes'.
     dec_bind (decode_fixed 8) (\<lambda>cookieverf'.
     dec_bind (decode_while decode_Entry3) (\<lambda>entries'.
     dec_bind decode_bool (\<lambda>eof'.
     dec_return \<lparr>rdo_dir_attributes = dir_attributes', rdo_cookieverf = cookieverf',
       rdo_entries = entries', rdo_eof = eof'\<rparr>))))"

record ReaddirplusArgs =
  rpa_dir :: NfsFh3
  rpa_cookie :: u64
  rpa_cookieverf :: bytes
  rpa_dircount :: u32
  rpa_maxcount :: u32

definition encode_ReaddirplusArgs :: "ReaddirplusArgs encoder" where
  "encode_ReaddirplusArgs v = struct_encode
     [encode_NfsFh3 (rpa_dir v), encode_u64 (rpa_cookie v), encode_fixed (rpa_cookieverf v),
      encode_u32 (rpa_dircount v), encode_u32 (rpa_maxcount v)]"

record EntryPlus3 =
  ep_fileid :: u64
  ep_name :: string
  ep_cookie :: u64
  ep_name_attributes :: "Fattr3 option"
  ep_name_handle :: "NfsFh3 option"

definition decode_EntryPlus3 :: "EntryPlus3 decoder" where
  "decode_EntryPlus3 =
     dec_bind decode_u64 (\<lambda>fileid'. dec_bind decode_String (\<lambda>name'.
     dec_bind decode_u64 (\<lambda>cookie'.
     dec_bind (decode_Option decode_Fattr3) (\<lambda>name_attributes'.
     dec_bind (decode_Option decode_NfsFh3) (\<lambda>name_handle'.
     dec_return \<lparr>ep_fileid = fileid', ep_name = name', ep_cookie = cookie',
       ep_name_attributes = name_attributes', ep_name_handle = name_handle'\<rparr>)))))"

record ReaddirplusOk =
  rpo_dir_attributes :: "Fattr3 option"
  rpo_cookieverf :: bytes
  rpo_entries :: "EntryPlus3 list"
  rpo_eof :: bool

definition decode_ReaddirplusOk :: "ReaddirplusOk decoder" where
  "decode_ReaddirplusOk =
     dec_bind (decode_Option decode_Fattr3) (\<lambda>dir_attributes'.
     dec_bind (decode_fixed 8) (\<lambda>cookieverf'.
     dec_bind (decode_while decode_EntryPlus3) (\<lambda>entries'.
     dec_bind decode_bool (\<lambda>eof'.
     dec_return \<lparr>rpo_dir_attributes = dir_attributes', rpo_cookieverf = cookieverf',
       rpo_entries = entries', rpo_eof = eof'\<rparr>))))"

record FsstatOk =
  fss_obj_attributes :: "Fattr3 option"
  fss_tbytes :: u64
  fss_fbytes :: u64
  fss_abytes :: u64
  fss_tfiles :: u64
  fss_ffiles :: u64
  fss_afiles :: u64
  fss_invarsec :: u32

definition decode_FsstatOk :: "FsstatOk decoder" where
  "decode_FsstatOk =
     dec_bind (decode_Option decode_Fattr3) (\<lambda>obj_attributes'.
     dec_bind decode_u64 (\<lambda>tbytes'. dec_bind decode_u64 (\<lambda>fbytes'.
     dec_bind decode_u64 (\<lambda>abytes'. dec_bind decode_u64 (\<lambda>tfiles'.
     dec_bind decode_u64 (\<lambda>ffiles'. dec_bind decode_u64 (\<lambda>afiles'.
     dec_bind decode_u32 (\<lambda>invarsec'.
     dec_return \<lparr>fss_obj_attributes = obj_attributes', fss_tbytes = tbytes',
       fss_fbytes = fbytes', fss_abytes = abytes', fss_tfiles = tfiles', fss_ffiles = ffiles',
       fss_afiles = afiles', fss_invarsec = invarsec'\<rparr>))))))))"

record FsinfoOk =
  fsi_obj_attributes :: "Fattr3 option"
  fsi_rtmax :: u32
  fsi_rtpref :: u32
  fsi_rtmult :: u32
  fsi_wtmax :: u32
  fsi_wtpref :: u32
  fsi_wtmult :: u32
  fsi_dtpref :: u32
  fsi_maxfilesize :: u64
  fsi_time_delta :: Nfstime3
  fsi_properties :: u32

definition decode_FsinfoOk :: "FsinfoOk decoder" where
  "decode_FsinfoOk =
     dec_bind (decode_Option decode_Fattr3) (\<lambda>obj_attributes'.
     dec_bind decode_u32 (\<lambda>rtmax'. dec_bind decode_u32 (\<lambda>rtpref'.
     dec_bind decode_u32 (\<lambda>rtmult'. dec_bind decode_u32 (\<lambda>wtmax'.
     dec_bind decode_u32 (\<lambda>wtpref'. dec_bind decode_u32 (\<lambda>wtmult'.
     dec_bind decode_u32 (\<lambda>dtpref'. dec_bind decode_u64 (\<lambda>maxfilesize'.
     dec_bind decode_Nfstime3 (\<lambda>time_delta'. dec_bind decode_u32 (\<lambda>properties'.
     dec_return \<lparr>fsi_obj_attributes = obj_attributes', fsi_rtmax = rtmax',
       fsi_rtpref = rtpref', fsi_rtmult = rtmult', fsi_wtmax = wtmax', fsi_wtpref = wtpref',
       fsi_wtmult = wtmult', fsi_dtpref = dtpref', fsi_maxfilesize = maxfilesize',
       fsi_time_delta = time_delta', fsi_properties = properties'\<rparr>)))))))))))"

record PathconfOk =
  pc_obj_attributes :: "Fattr3 option"
  pc_linkmax :: u32
  pc_name_max :: u32
  pc_no_trunc :: bool
  pc_chown_restricted :: bool
  pc_case_insensitive :: bool
  pc_case_preserving :: bool

definition decode_PathconfOk :: "PathconfOk decoder" where
  "decode_PathconfOk =
     dec_bind (decode_Option decode_Fattr3) (\<lambda>obj_attributes'.
     dec_bind decode_u32 (\<lambda>linkmax'. dec_bind decode_u32 (\<lambda>name_max'.
     dec_bind decode_bool (\<lambda>no_trunc'. dec_bind decode_bool (\<lambda>chown_restricted'.
     dec_bind decode_bool (\<lambda>case_insensitive'.
     dec_bind decode_bool (\<lambda>case_preserving'.
     dec_return \<lparr>pc_obj_attributes = obj_attributes', pc_linkmax = linkmax',
       pc_name_max = name_max', pc_no_trunc = no_trunc', pc_chown_restricted = chown_restricted',
       pc_case_insensitive = case_insensitive',
       pc_case_preserving = case_preserving'\<rparr>)))))))"

record CommitArgs =
  cm_file :: NfsFh3
  cm_offset :: u64
  cm_count :: u32

definition encode_CommitArgs :: "CommitArgs encoder" where
  "encode_CommitArgs v = struct_encode
     [encode_NfsFh3 (cm_file v), encode_u64 (cm_offset v), encode_u32 (cm_count v)]"

record CommitOk =
  ck_file_wcc :: WccData
  ck_verf :: bytes

definition decode_CommitOk :: "CommitOk decoder" where
  "decode_CommitOk =
     dec_bind decode_WccData (\<lambda>file_wcc'. dec_bind (decode_fixed 8) (\<lambda>verf'.
     dec_return \<lparr>ck_file_wcc = file_wcc', ck_verf = verf'\<rparr>))"

definition unchanged :: Sattr3 where
  "unchanged = \<lparr>sa3_mode = None, sa3_uid = None, sa3_gid = None, sa3_size = None,
     sa3_atime = DontChange, sa3_mtime = DontChange\<rparr>"

datatype 'a Nfs3Result = Nfs3_Ok 'a | Nfs3_Fail u32

definition NFS3_OK :: u32 where "NFS3_OK = 0"

definition decode_Nfs3Result :: "'a decoder \<Rightarrow> 'a Nfs3Result decoder" where
  "decode_Nfs3Result dec = dec_bind decode_u32 (\<lambda>status.
     if status = NFS3_OK then dec_bind dec (\<lambda>v. dec_return (Nfs3_Ok v))
     else dec_return (Nfs3_Fail status))"

definition into_result :: "'a Nfs3Result \<Rightarrow> ('a, ProtoError) result" where
  "into_result r = (case r of Nfs3_Ok v \<Rightarrow> Ok v | Nfs3_Fail status \<Rightarrow> Err (PE_Nfs3 status))"

subsection \<open>The server's side\<close>

definition encode_LookupOk :: "LookupOk encoder" where
  "encode_LookupOk v = struct_encode
     [encode_NfsFh3 (lo_object v), encode_Option encode_Fattr3 (lo_obj_attributes v),
      encode_Option encode_Fattr3 (lo_dir_attributes v)]"

definition decode_AccessArgs :: "AccessArgs decoder" where
  "decode_AccessArgs =
     dec_bind decode_NfsFh3 (\<lambda>object'. dec_bind decode_u32 (\<lambda>access'.
     dec_return \<lparr>aa_object = object', aa_access = access'\<rparr>))"

definition encode_AccessOk :: "AccessOk encoder" where
  "encode_AccessOk v = struct_encode
     [encode_Option encode_Fattr3 (ao_obj_attributes v), encode_u32 (ao_access v)]"

definition encode_ReadlinkOk :: "ReadlinkOk encoder" where
  "encode_ReadlinkOk v = struct_encode
     [encode_Option encode_Fattr3 (rl_symlink_attributes v), encode_String (rl_data v)]"

definition decode_ReadArgs :: "ReadArgs decoder" where
  "decode_ReadArgs =
     dec_bind decode_NfsFh3 (\<lambda>file'. dec_bind decode_u64 (\<lambda>offset'.
     dec_bind decode_u32 (\<lambda>count'.
     dec_return \<lparr>ra_file = file', ra_offset = offset', ra_count = count'\<rparr>)))"

definition encode_ReadOk :: "ReadOk encoder" where
  "encode_ReadOk v = struct_encode
     [encode_Option encode_Fattr3 (ro_file_attributes v), encode_u32 (ro_count v),
      encode_bool (ro_eof v), encode_Bytes (ro_data v)]"

definition decode_WriteArgs :: "WriteArgs decoder" where
  "decode_WriteArgs =
     dec_bind decode_NfsFh3 (\<lambda>file'. dec_bind decode_u64 (\<lambda>offset'.
     dec_bind decode_u32 (\<lambda>count'. dec_bind decode_u32 (\<lambda>stable'.
     dec_bind decode_Bytes (\<lambda>data'.
     dec_return \<lparr>wr_file = file', wr_offset = offset', wr_count = count',
       wr_stable = stable', wr_data = data'\<rparr>)))))"

definition encode_WriteOk :: "WriteOk encoder" where
  "encode_WriteOk v = struct_encode
     [encode_WccData (wo_file_wcc v), encode_u32 (wo_count v), encode_u32 (wo_committed v),
      encode_fixed (wo_verf v)]"

definition decode_CreateHow3 :: "CreateHow3 decoder" where
  "decode_CreateHow3 = union_decode
     [(0, dec_bind decode_Sattr3 (\<lambda>a. dec_return (Unchecked a))),
      (1, dec_bind decode_Sattr3 (\<lambda>a. dec_return (Guarded a))),
      (2, dec_bind (decode_fixed 8) (\<lambda>v. dec_return (Exclusive v)))]"

definition decode_CreateArgs :: "CreateArgs decoder" where
  "decode_CreateArgs =
     dec_bind decode_DirOpArgs3 (\<lambda>where'. dec_bind decode_CreateHow3 (\<lambda>how'.
     dec_return \<lparr>cr_where = where', cr_how = how'\<rparr>))"

definition encode_CreateOk :: "CreateOk encoder" where
  "encode_CreateOk v = struct_encode
     [encode_Option encode_NfsFh3 (co_obj v), encode_Option encode_Fattr3 (co_obj_attributes v),
      encode_WccData (co_dir_wcc v)]"

definition decode_MkdirArgs :: "MkdirArgs decoder" where
  "decode_MkdirArgs =
     dec_bind decode_DirOpArgs3 (\<lambda>where'. dec_bind decode_Sattr3 (\<lambda>attributes'.
     dec_return \<lparr>md_where = where', md_attributes = attributes'\<rparr>))"

definition decode_SymlinkData3 :: "SymlinkData3 decoder" where
  "decode_SymlinkData3 =
     dec_bind decode_Sattr3 (\<lambda>symlink_attributes'.
     dec_bind decode_String (\<lambda>symlink_data'.
     dec_return \<lparr>symlink_attributes = symlink_attributes',
       symlink_data = symlink_data'\<rparr>))"

definition decode_SymlinkArgs :: "SymlinkArgs decoder" where
  "decode_SymlinkArgs =
     dec_bind decode_DirOpArgs3 (\<lambda>where'.
     dec_bind decode_SymlinkData3 (\<lambda>symlink'.
     dec_return \<lparr>sl_where = where', sl_symlink = symlink'\<rparr>))"

definition decode_DeviceData3 :: "DeviceData3 decoder" where
  "decode_DeviceData3 =
     dec_bind decode_Sattr3 (\<lambda>dev_attributes'. dec_bind decode_Specdata3 (\<lambda>spec'.
     dec_return \<lparr>dev_attributes = dev_attributes', spec = spec'\<rparr>))"

definition decode_MknodData3 :: "MknodData3 decoder" where
  "decode_MknodData3 = union_decode
     [(3, dec_bind decode_DeviceData3 (\<lambda>d. dec_return (Blk d))),
      (4, dec_bind decode_DeviceData3 (\<lambda>d. dec_return (Chr d))),
      (6, dec_bind decode_Sattr3 (\<lambda>a. dec_return (Sock a))),
      (7, dec_bind decode_Sattr3 (\<lambda>a. dec_return (Fifo a)))]"

definition decode_MknodArgs :: "MknodArgs decoder" where
  "decode_MknodArgs =
     dec_bind decode_DirOpArgs3 (\<lambda>where'. dec_bind decode_MknodData3 (\<lambda>what'.
     dec_return \<lparr>mk_where = where', mk_what = what'\<rparr>))"

definition decode_SetattrArgs :: "SetattrArgs decoder" where
  "decode_SetattrArgs =
     dec_bind decode_NfsFh3 (\<lambda>object'. dec_bind decode_Sattr3 (\<lambda>new_attributes'.
     dec_bind (decode_Option decode_Nfstime3) (\<lambda>guard'.
     dec_return \<lparr>st_object = object', st_new_attributes = new_attributes',
       st_guard = guard'\<rparr>)))"

definition decode_RenameArgs :: "RenameArgs decoder" where
  "decode_RenameArgs =
     dec_bind decode_DirOpArgs3 (\<lambda>from'. dec_bind decode_DirOpArgs3 (\<lambda>to'.
     dec_return \<lparr>rn_from = from', rn_to = to'\<rparr>))"

definition encode_RenameOk :: "RenameOk encoder" where
  "encode_RenameOk v = struct_encode
     [encode_WccData (fromdir_wcc v), encode_WccData (todir_wcc v)]"

definition decode_LinkArgs :: "LinkArgs decoder" where
  "decode_LinkArgs =
     dec_bind decode_NfsFh3 (\<lambda>file'. dec_bind decode_DirOpArgs3 (\<lambda>link'.
     dec_return \<lparr>li_file = file', li_link = link'\<rparr>))"

definition encode_LinkOk :: "LinkOk encoder" where
  "encode_LinkOk v = struct_encode
     [encode_Option encode_Fattr3 (lk_file_attributes v), encode_WccData (lk_linkdir_wcc v)]"

definition decode_ReaddirArgs :: "ReaddirArgs decoder" where
  "decode_ReaddirArgs =
     dec_bind decode_NfsFh3 (\<lambda>dir'. dec_bind decode_u64 (\<lambda>cookie'.
     dec_bind (decode_fixed 8) (\<lambda>cookieverf'. dec_bind decode_u32 (\<lambda>count'.
     dec_return \<lparr>rda_dir = dir', rda_cookie = cookie', rda_cookieverf = cookieverf',
       rda_count = count'\<rparr>))))"

definition encode_Entry3 :: "Entry3 encoder" where
  "encode_Entry3 v = struct_encode
     [encode_u64 (e3_fileid v), encode_String (e3_name v), encode_u64 (e3_cookie v)]"

definition encode_ReaddirOk :: "ReaddirOk encoder" where
  "encode_ReaddirOk v = struct_encode
     [encode_Option encode_Fattr3 (rdo_dir_attributes v), encode_fixed (rdo_cookieverf v),
      encode_list encode_Entry3 (rdo_entries v), encode_bool (rdo_eof v)]"

definition decode_ReaddirplusArgs :: "ReaddirplusArgs decoder" where
  "decode_ReaddirplusArgs =
     dec_bind decode_NfsFh3 (\<lambda>dir'. dec_bind decode_u64 (\<lambda>cookie'.
     dec_bind (decode_fixed 8) (\<lambda>cookieverf'. dec_bind decode_u32 (\<lambda>dircount'.
     dec_bind decode_u32 (\<lambda>maxcount'.
     dec_return \<lparr>rpa_dir = dir', rpa_cookie = cookie', rpa_cookieverf = cookieverf',
       rpa_dircount = dircount', rpa_maxcount = maxcount'\<rparr>)))))"

definition encode_EntryPlus3 :: "EntryPlus3 encoder" where
  "encode_EntryPlus3 v = struct_encode
     [encode_u64 (ep_fileid v), encode_String (ep_name v), encode_u64 (ep_cookie v),
      encode_Option encode_Fattr3 (ep_name_attributes v),
      encode_Option encode_NfsFh3 (ep_name_handle v)]"

definition encode_ReaddirplusOk :: "ReaddirplusOk encoder" where
  "encode_ReaddirplusOk v = struct_encode
     [encode_Option encode_Fattr3 (rpo_dir_attributes v), encode_fixed (rpo_cookieverf v),
      encode_list encode_EntryPlus3 (rpo_entries v), encode_bool (rpo_eof v)]"

definition encode_FsstatOk :: "FsstatOk encoder" where
  "encode_FsstatOk v = struct_encode
     [encode_Option encode_Fattr3 (fss_obj_attributes v), encode_u64 (fss_tbytes v),
      encode_u64 (fss_fbytes v), encode_u64 (fss_abytes v), encode_u64 (fss_tfiles v),
      encode_u64 (fss_ffiles v), encode_u64 (fss_afiles v), encode_u32 (fss_invarsec v)]"

definition encode_FsinfoOk :: "FsinfoOk encoder" where
  "encode_FsinfoOk v = struct_encode
     [encode_Option encode_Fattr3 (fsi_obj_attributes v), encode_u32 (fsi_rtmax v),
      encode_u32 (fsi_rtpref v), encode_u32 (fsi_rtmult v), encode_u32 (fsi_wtmax v),
      encode_u32 (fsi_wtpref v), encode_u32 (fsi_wtmult v), encode_u32 (fsi_dtpref v),
      encode_u64 (fsi_maxfilesize v), encode_Nfstime3 (fsi_time_delta v),
      encode_u32 (fsi_properties v)]"

definition encode_PathconfOk :: "PathconfOk encoder" where
  "encode_PathconfOk v = struct_encode
     [encode_Option encode_Fattr3 (pc_obj_attributes v), encode_u32 (pc_linkmax v),
      encode_u32 (pc_name_max v), encode_bool (pc_no_trunc v),
      encode_bool (pc_chown_restricted v), encode_bool (pc_case_insensitive v),
      encode_bool (pc_case_preserving v)]"

definition decode_CommitArgs :: "CommitArgs decoder" where
  "decode_CommitArgs =
     dec_bind decode_NfsFh3 (\<lambda>file'. dec_bind decode_u64 (\<lambda>offset'.
     dec_bind decode_u32 (\<lambda>count'.
     dec_return \<lparr>cm_file = file', cm_offset = offset', cm_count = count'\<rparr>)))"

definition encode_CommitOk :: "CommitOk encoder" where
  "encode_CommitOk v = struct_encode
     [encode_WccData (ck_file_wcc v), encode_fixed (ck_verf v)]"

subsection \<open>The codecs agree\<close>

lemma xdr_Nfstime3: "xdr_decoder decode_Nfstime3" "xdr_encoder (encode_Nfstime3 v)"
  unfolding decode_Nfstime3_def encode_Nfstime3_def by (intro xdr_dec, intro xdr_enc)

lemmas [xdr_dec] = xdr_Nfstime3(1) and [xdr_enc] = xdr_Nfstime3(2)

lemma wire_rt_Nfstime3 [xdr_rt]: "wire_rt (encode_Nfstime3 v) decode_Nfstime3 v"
  unfolding encode_Nfstime3_def decode_Nfstime3_def
  by (rule xdr_rt xdr_enc xdr_dec refl | simp)+

lemma xdr_Specdata3: "xdr_decoder decode_Specdata3" "xdr_encoder (encode_Specdata3 v)"
  unfolding decode_Specdata3_def encode_Specdata3_def by (intro xdr_dec, intro xdr_enc)

lemmas [xdr_dec] = xdr_Specdata3(1) and [xdr_enc] = xdr_Specdata3(2)

lemma wire_rt_Specdata3 [xdr_rt]: "wire_rt (encode_Specdata3 v) decode_Specdata3 v"
  unfolding encode_Specdata3_def decode_Specdata3_def
  by (rule xdr_rt xdr_enc xdr_dec refl | simp)+

lemma xdr_Fattr3: "xdr_decoder decode_Fattr3" "xdr_encoder (encode_Fattr3 v)"
  unfolding decode_Fattr3_def encode_Fattr3_def by (intro xdr_dec, intro xdr_enc)

lemmas [xdr_dec] = xdr_Fattr3(1) and [xdr_enc] = xdr_Fattr3(2)

lemma wire_rt_Fattr3 [xdr_rt]: "wire_rt (encode_Fattr3 v) decode_Fattr3 v"
  unfolding encode_Fattr3_def decode_Fattr3_def
  by (rule xdr_rt xdr_enc xdr_dec refl | simp)+

lemma xdr_NfsFh3: "xdr_decoder decode_NfsFh3" "xdr_encoder (encode_NfsFh3 v)"
  unfolding decode_NfsFh3_def encode_NfsFh3_def by (intro xdr_dec, intro xdr_enc)

lemmas [xdr_dec] = xdr_NfsFh3(1) and [xdr_enc] = xdr_NfsFh3(2)

lemma wire_rt_NfsFh3 [xdr_rt]: "wire_rt (encode_NfsFh3 v) decode_NfsFh3 v"
  unfolding encode_NfsFh3_def decode_NfsFh3_def
  by (rule xdr_rt xdr_enc xdr_dec refl | simp)+

lemma xdr_WccAttr: "xdr_decoder decode_WccAttr" "xdr_encoder (encode_WccAttr v)"
  unfolding decode_WccAttr_def encode_WccAttr_def by (intro xdr_dec, intro xdr_enc)

lemmas [xdr_dec] = xdr_WccAttr(1) and [xdr_enc] = xdr_WccAttr(2)

lemma wire_rt_WccAttr [xdr_rt]: "wire_rt (encode_WccAttr v) decode_WccAttr v"
  unfolding encode_WccAttr_def decode_WccAttr_def
  by (rule xdr_rt xdr_enc xdr_dec refl | simp)+

lemma xdr_WccData: "xdr_decoder decode_WccData" "xdr_encoder (encode_WccData v)"
  unfolding decode_WccData_def encode_WccData_def by (intro xdr_dec, intro xdr_enc)

lemmas [xdr_dec] = xdr_WccData(1) and [xdr_enc] = xdr_WccData(2)

lemma wire_rt_WccData [xdr_rt]: "wire_rt (encode_WccData v) decode_WccData v"
  unfolding encode_WccData_def decode_WccData_def
  by (rule xdr_rt xdr_enc xdr_dec refl | simp)+

lemma xdr_SetTime: "xdr_decoder decode_SetTime" "xdr_encoder (encode_SetTime v)"
proof -
  show "xdr_encoder (encode_SetTime v)" by (cases v) (auto intro!: xdr_enc)
qed (auto simp: decode_SetTime_def intro!: xdr_dec)

lemmas [xdr_dec] = xdr_SetTime(1) and [xdr_enc] = xdr_SetTime(2)

lemma wire_rt_SetTime [xdr_rt]: "wire_rt (encode_SetTime v) decode_SetTime v"
  unfolding decode_SetTime_def
  by (cases v; simp only: encode_SetTime.simps; (rule xdr_rt xdr_enc refl | simp)+)

lemma xdr_Sattr3: "xdr_decoder decode_Sattr3" "xdr_encoder (encode_Sattr3 v)"
  unfolding decode_Sattr3_def encode_Sattr3_def by (intro xdr_dec, intro xdr_enc)

lemmas [xdr_dec] = xdr_Sattr3(1) and [xdr_enc] = xdr_Sattr3(2)

lemma wire_rt_Sattr3 [xdr_rt]: "wire_rt (encode_Sattr3 v) decode_Sattr3 v"
  unfolding encode_Sattr3_def decode_Sattr3_def
  by (rule xdr_rt xdr_enc xdr_dec refl | simp)+

definition ok_DirOpArgs3 :: "DirOpArgs3 \<Rightarrow> bool" where
  "ok_DirOpArgs3 v \<longleftrightarrow> valid_string (do_name v)"

lemma xdr_DirOpArgs3: "xdr_decoder decode_DirOpArgs3" "xdr_encoder (encode_DirOpArgs3 v)"
  unfolding decode_DirOpArgs3_def encode_DirOpArgs3_def by (intro xdr_dec, intro xdr_enc)

lemmas [xdr_dec] = xdr_DirOpArgs3(1) and [xdr_enc] = xdr_DirOpArgs3(2)

lemma wire_rt_DirOpArgs3 [xdr_rt]: "ok_DirOpArgs3 v \<Longrightarrow> wire_rt (encode_DirOpArgs3 v) decode_DirOpArgs3 v"
  unfolding encode_DirOpArgs3_def decode_DirOpArgs3_def ok_DirOpArgs3_def
  by (rule xdr_rt xdr_enc xdr_dec refl | simp)+

lemma xdr_LookupOk: "xdr_decoder decode_LookupOk" "xdr_encoder (encode_LookupOk v)"
  unfolding decode_LookupOk_def encode_LookupOk_def by (intro xdr_dec, intro xdr_enc)

lemmas [xdr_dec] = xdr_LookupOk(1) and [xdr_enc] = xdr_LookupOk(2)

lemma wire_rt_LookupOk [xdr_rt]: "wire_rt (encode_LookupOk v) decode_LookupOk v"
  unfolding encode_LookupOk_def decode_LookupOk_def
  by (rule xdr_rt xdr_enc xdr_dec refl | simp)+

lemma xdr_AccessArgs: "xdr_decoder decode_AccessArgs" "xdr_encoder (encode_AccessArgs v)"
  unfolding decode_AccessArgs_def encode_AccessArgs_def by (intro xdr_dec, intro xdr_enc)

lemmas [xdr_dec] = xdr_AccessArgs(1) and [xdr_enc] = xdr_AccessArgs(2)

lemma wire_rt_AccessArgs [xdr_rt]: "wire_rt (encode_AccessArgs v) decode_AccessArgs v"
  unfolding encode_AccessArgs_def decode_AccessArgs_def
  by (rule xdr_rt xdr_enc xdr_dec refl | simp)+

lemma xdr_AccessOk: "xdr_decoder decode_AccessOk" "xdr_encoder (encode_AccessOk v)"
  unfolding decode_AccessOk_def encode_AccessOk_def by (intro xdr_dec, intro xdr_enc)

lemmas [xdr_dec] = xdr_AccessOk(1) and [xdr_enc] = xdr_AccessOk(2)

lemma wire_rt_AccessOk [xdr_rt]: "wire_rt (encode_AccessOk v) decode_AccessOk v"
  unfolding encode_AccessOk_def decode_AccessOk_def
  by (rule xdr_rt xdr_enc xdr_dec refl | simp)+

definition ok_ReadlinkOk :: "ReadlinkOk \<Rightarrow> bool" where
  "ok_ReadlinkOk v \<longleftrightarrow> valid_string (rl_data v)"

lemma xdr_ReadlinkOk: "xdr_decoder decode_ReadlinkOk" "xdr_encoder (encode_ReadlinkOk v)"
  unfolding decode_ReadlinkOk_def encode_ReadlinkOk_def by (intro xdr_dec, intro xdr_enc)

lemmas [xdr_dec] = xdr_ReadlinkOk(1) and [xdr_enc] = xdr_ReadlinkOk(2)

lemma wire_rt_ReadlinkOk [xdr_rt]: "ok_ReadlinkOk v \<Longrightarrow> wire_rt (encode_ReadlinkOk v) decode_ReadlinkOk v"
  unfolding encode_ReadlinkOk_def decode_ReadlinkOk_def ok_ReadlinkOk_def
  by (rule xdr_rt xdr_enc xdr_dec refl | simp)+

lemma xdr_ReadArgs: "xdr_decoder decode_ReadArgs" "xdr_encoder (encode_ReadArgs v)"
  unfolding decode_ReadArgs_def encode_ReadArgs_def by (intro xdr_dec, intro xdr_enc)

lemmas [xdr_dec] = xdr_ReadArgs(1) and [xdr_enc] = xdr_ReadArgs(2)

lemma wire_rt_ReadArgs [xdr_rt]: "wire_rt (encode_ReadArgs v) decode_ReadArgs v"
  unfolding encode_ReadArgs_def decode_ReadArgs_def
  by (rule xdr_rt xdr_enc xdr_dec refl | simp)+

lemma xdr_ReadOk: "xdr_decoder decode_ReadOk" "xdr_encoder (encode_ReadOk v)"
  unfolding decode_ReadOk_def encode_ReadOk_def by (intro xdr_dec, intro xdr_enc)

lemmas [xdr_dec] = xdr_ReadOk(1) and [xdr_enc] = xdr_ReadOk(2)

lemma wire_rt_ReadOk [xdr_rt]: "wire_rt (encode_ReadOk v) decode_ReadOk v"
  unfolding encode_ReadOk_def decode_ReadOk_def
  by (rule xdr_rt xdr_enc xdr_dec refl | simp)+

lemma xdr_WriteArgs: "xdr_decoder decode_WriteArgs" "xdr_encoder (encode_WriteArgs v)"
  unfolding decode_WriteArgs_def encode_WriteArgs_def by (intro xdr_dec, intro xdr_enc)

lemmas [xdr_dec] = xdr_WriteArgs(1) and [xdr_enc] = xdr_WriteArgs(2)

lemma wire_rt_WriteArgs [xdr_rt]: "wire_rt (encode_WriteArgs v) decode_WriteArgs v"
  unfolding encode_WriteArgs_def decode_WriteArgs_def
  by (rule xdr_rt xdr_enc xdr_dec refl | simp)+

definition ok_WriteOk :: "WriteOk \<Rightarrow> bool" where
  "ok_WriteOk v \<longleftrightarrow> length (wo_verf v) = 8"

lemma xdr_WriteOk: "xdr_decoder decode_WriteOk" "xdr_encoder (encode_WriteOk v)"
  unfolding decode_WriteOk_def encode_WriteOk_def by (intro xdr_dec, intro xdr_enc)

lemmas [xdr_dec] = xdr_WriteOk(1) and [xdr_enc] = xdr_WriteOk(2)

lemma wire_rt_WriteOk [xdr_rt]: "ok_WriteOk v \<Longrightarrow> wire_rt (encode_WriteOk v) decode_WriteOk v"
  unfolding encode_WriteOk_def decode_WriteOk_def ok_WriteOk_def
  by (rule xdr_rt xdr_enc xdr_dec refl | simp)+

definition ok_CreateHow3 :: "CreateHow3 \<Rightarrow> bool" where
  "ok_CreateHow3 v \<longleftrightarrow> (case v of Exclusive verf \<Rightarrow> length verf = 8 | _ \<Rightarrow> True)"

lemma xdr_CreateHow3: "xdr_decoder decode_CreateHow3" "xdr_encoder (encode_CreateHow3 v)"
proof -
  show "xdr_encoder (encode_CreateHow3 v)" by (cases v) (auto intro!: xdr_enc)
qed (auto simp: decode_CreateHow3_def intro!: xdr_dec)

lemmas [xdr_dec] = xdr_CreateHow3(1) and [xdr_enc] = xdr_CreateHow3(2)

lemma wire_rt_CreateHow3 [xdr_rt]: "ok_CreateHow3 v \<Longrightarrow> wire_rt (encode_CreateHow3 v) decode_CreateHow3 v"
  unfolding decode_CreateHow3_def ok_CreateHow3_def
  by (cases v; simp only: encode_CreateHow3.simps; (rule xdr_rt xdr_enc refl | simp)+)

definition ok_CreateArgs :: "CreateArgs \<Rightarrow> bool" where
  "ok_CreateArgs v \<longleftrightarrow> ok_DirOpArgs3 (cr_where v) \<and> ok_CreateHow3 (cr_how v)"

lemma xdr_CreateArgs: "xdr_decoder decode_CreateArgs" "xdr_encoder (encode_CreateArgs v)"
  unfolding decode_CreateArgs_def encode_CreateArgs_def by (intro xdr_dec, intro xdr_enc)

lemmas [xdr_dec] = xdr_CreateArgs(1) and [xdr_enc] = xdr_CreateArgs(2)

lemma wire_rt_CreateArgs [xdr_rt]: "ok_CreateArgs v \<Longrightarrow> wire_rt (encode_CreateArgs v) decode_CreateArgs v"
  unfolding encode_CreateArgs_def decode_CreateArgs_def ok_CreateArgs_def
  by (rule xdr_rt xdr_enc xdr_dec refl | simp)+

lemma xdr_CreateOk: "xdr_decoder decode_CreateOk" "xdr_encoder (encode_CreateOk v)"
  unfolding decode_CreateOk_def encode_CreateOk_def by (intro xdr_dec, intro xdr_enc)

lemmas [xdr_dec] = xdr_CreateOk(1) and [xdr_enc] = xdr_CreateOk(2)

lemma wire_rt_CreateOk [xdr_rt]: "wire_rt (encode_CreateOk v) decode_CreateOk v"
  unfolding encode_CreateOk_def decode_CreateOk_def
  by (rule xdr_rt xdr_enc xdr_dec refl | simp)+

definition ok_MkdirArgs :: "MkdirArgs \<Rightarrow> bool" where
  "ok_MkdirArgs v \<longleftrightarrow> ok_DirOpArgs3 (md_where v)"

lemma xdr_MkdirArgs: "xdr_decoder decode_MkdirArgs" "xdr_encoder (encode_MkdirArgs v)"
  unfolding decode_MkdirArgs_def encode_MkdirArgs_def by (intro xdr_dec, intro xdr_enc)

lemmas [xdr_dec] = xdr_MkdirArgs(1) and [xdr_enc] = xdr_MkdirArgs(2)

lemma wire_rt_MkdirArgs [xdr_rt]: "ok_MkdirArgs v \<Longrightarrow> wire_rt (encode_MkdirArgs v) decode_MkdirArgs v"
  unfolding encode_MkdirArgs_def decode_MkdirArgs_def ok_MkdirArgs_def
  by (rule xdr_rt xdr_enc xdr_dec refl | simp)+

definition ok_SymlinkData3 :: "SymlinkData3 \<Rightarrow> bool" where
  "ok_SymlinkData3 v \<longleftrightarrow> valid_string (symlink_data v)"

lemma xdr_SymlinkData3: "xdr_decoder decode_SymlinkData3" "xdr_encoder (encode_SymlinkData3 v)"
  unfolding decode_SymlinkData3_def encode_SymlinkData3_def by (intro xdr_dec, intro xdr_enc)

lemmas [xdr_dec] = xdr_SymlinkData3(1) and [xdr_enc] = xdr_SymlinkData3(2)

lemma wire_rt_SymlinkData3 [xdr_rt]: "ok_SymlinkData3 v \<Longrightarrow> wire_rt (encode_SymlinkData3 v) decode_SymlinkData3 v"
  unfolding encode_SymlinkData3_def decode_SymlinkData3_def ok_SymlinkData3_def
  by (rule xdr_rt xdr_enc xdr_dec refl | simp)+

definition ok_SymlinkArgs :: "SymlinkArgs \<Rightarrow> bool" where
  "ok_SymlinkArgs v \<longleftrightarrow> ok_DirOpArgs3 (sl_where v) \<and> ok_SymlinkData3 (sl_symlink v)"

lemma xdr_SymlinkArgs: "xdr_decoder decode_SymlinkArgs" "xdr_encoder (encode_SymlinkArgs v)"
  unfolding decode_SymlinkArgs_def encode_SymlinkArgs_def by (intro xdr_dec, intro xdr_enc)

lemmas [xdr_dec] = xdr_SymlinkArgs(1) and [xdr_enc] = xdr_SymlinkArgs(2)

lemma wire_rt_SymlinkArgs [xdr_rt]: "ok_SymlinkArgs v \<Longrightarrow> wire_rt (encode_SymlinkArgs v) decode_SymlinkArgs v"
  unfolding encode_SymlinkArgs_def decode_SymlinkArgs_def ok_SymlinkArgs_def
  by (rule xdr_rt xdr_enc xdr_dec refl | simp)+

lemma xdr_DeviceData3: "xdr_decoder decode_DeviceData3" "xdr_encoder (encode_DeviceData3 v)"
  unfolding decode_DeviceData3_def encode_DeviceData3_def by (intro xdr_dec, intro xdr_enc)

lemmas [xdr_dec] = xdr_DeviceData3(1) and [xdr_enc] = xdr_DeviceData3(2)

lemma wire_rt_DeviceData3 [xdr_rt]: "wire_rt (encode_DeviceData3 v) decode_DeviceData3 v"
  unfolding encode_DeviceData3_def decode_DeviceData3_def
  by (rule xdr_rt xdr_enc xdr_dec refl | simp)+

lemma xdr_MknodData3: "xdr_decoder decode_MknodData3" "xdr_encoder (encode_MknodData3 v)"
proof -
  show "xdr_encoder (encode_MknodData3 v)" by (cases v) (auto intro!: xdr_enc)
qed (auto simp: decode_MknodData3_def intro!: xdr_dec)

lemmas [xdr_dec] = xdr_MknodData3(1) and [xdr_enc] = xdr_MknodData3(2)

lemma wire_rt_MknodData3 [xdr_rt]: "wire_rt (encode_MknodData3 v) decode_MknodData3 v"
  unfolding decode_MknodData3_def
  by (cases v; simp only: encode_MknodData3.simps; (rule xdr_rt xdr_enc refl | simp)+)

definition ok_MknodArgs :: "MknodArgs \<Rightarrow> bool" where
  "ok_MknodArgs v \<longleftrightarrow> ok_DirOpArgs3 (mk_where v)"

lemma xdr_MknodArgs: "xdr_decoder decode_MknodArgs" "xdr_encoder (encode_MknodArgs v)"
  unfolding decode_MknodArgs_def encode_MknodArgs_def by (intro xdr_dec, intro xdr_enc)

lemmas [xdr_dec] = xdr_MknodArgs(1) and [xdr_enc] = xdr_MknodArgs(2)

lemma wire_rt_MknodArgs [xdr_rt]: "ok_MknodArgs v \<Longrightarrow> wire_rt (encode_MknodArgs v) decode_MknodArgs v"
  unfolding encode_MknodArgs_def decode_MknodArgs_def ok_MknodArgs_def
  by (rule xdr_rt xdr_enc xdr_dec refl | simp)+

lemma xdr_SetattrArgs: "xdr_decoder decode_SetattrArgs" "xdr_encoder (encode_SetattrArgs v)"
  unfolding decode_SetattrArgs_def encode_SetattrArgs_def by (intro xdr_dec, intro xdr_enc)

lemmas [xdr_dec] = xdr_SetattrArgs(1) and [xdr_enc] = xdr_SetattrArgs(2)

lemma wire_rt_SetattrArgs [xdr_rt]: "wire_rt (encode_SetattrArgs v) decode_SetattrArgs v"
  unfolding encode_SetattrArgs_def decode_SetattrArgs_def
  by (rule xdr_rt xdr_enc xdr_dec refl | simp)+

definition ok_RenameArgs :: "RenameArgs \<Rightarrow> bool" where
  "ok_RenameArgs v \<longleftrightarrow> ok_DirOpArgs3 (rn_from v) \<and> ok_DirOpArgs3 (rn_to v)"

lemma xdr_RenameArgs: "xdr_decoder decode_RenameArgs" "xdr_encoder (encode_RenameArgs v)"
  unfolding decode_RenameArgs_def encode_RenameArgs_def by (intro xdr_dec, intro xdr_enc)

lemmas [xdr_dec] = xdr_RenameArgs(1) and [xdr_enc] = xdr_RenameArgs(2)

lemma wire_rt_RenameArgs [xdr_rt]: "ok_RenameArgs v \<Longrightarrow> wire_rt (encode_RenameArgs v) decode_RenameArgs v"
  unfolding encode_RenameArgs_def decode_RenameArgs_def ok_RenameArgs_def
  by (rule xdr_rt xdr_enc xdr_dec refl | simp)+

lemma xdr_RenameOk: "xdr_decoder decode_RenameOk" "xdr_encoder (encode_RenameOk v)"
  unfolding decode_RenameOk_def encode_RenameOk_def by (intro xdr_dec, intro xdr_enc)

lemmas [xdr_dec] = xdr_RenameOk(1) and [xdr_enc] = xdr_RenameOk(2)

lemma wire_rt_RenameOk [xdr_rt]: "wire_rt (encode_RenameOk v) decode_RenameOk v"
  unfolding encode_RenameOk_def decode_RenameOk_def
  by (rule xdr_rt xdr_enc xdr_dec refl | simp)+

definition ok_LinkArgs :: "LinkArgs \<Rightarrow> bool" where
  "ok_LinkArgs v \<longleftrightarrow> ok_DirOpArgs3 (li_link v)"

lemma xdr_LinkArgs: "xdr_decoder decode_LinkArgs" "xdr_encoder (encode_LinkArgs v)"
  unfolding decode_LinkArgs_def encode_LinkArgs_def by (intro xdr_dec, intro xdr_enc)

lemmas [xdr_dec] = xdr_LinkArgs(1) and [xdr_enc] = xdr_LinkArgs(2)

lemma wire_rt_LinkArgs [xdr_rt]: "ok_LinkArgs v \<Longrightarrow> wire_rt (encode_LinkArgs v) decode_LinkArgs v"
  unfolding encode_LinkArgs_def decode_LinkArgs_def ok_LinkArgs_def
  by (rule xdr_rt xdr_enc xdr_dec refl | simp)+

lemma xdr_LinkOk: "xdr_decoder decode_LinkOk" "xdr_encoder (encode_LinkOk v)"
  unfolding decode_LinkOk_def encode_LinkOk_def by (intro xdr_dec, intro xdr_enc)

lemmas [xdr_dec] = xdr_LinkOk(1) and [xdr_enc] = xdr_LinkOk(2)

lemma wire_rt_LinkOk [xdr_rt]: "wire_rt (encode_LinkOk v) decode_LinkOk v"
  unfolding encode_LinkOk_def decode_LinkOk_def
  by (rule xdr_rt xdr_enc xdr_dec refl | simp)+

definition ok_ReaddirArgs :: "ReaddirArgs \<Rightarrow> bool" where
  "ok_ReaddirArgs v \<longleftrightarrow> length (rda_cookieverf v) = 8"

lemma xdr_ReaddirArgs: "xdr_decoder decode_ReaddirArgs" "xdr_encoder (encode_ReaddirArgs v)"
  unfolding decode_ReaddirArgs_def encode_ReaddirArgs_def by (intro xdr_dec, intro xdr_enc)

lemmas [xdr_dec] = xdr_ReaddirArgs(1) and [xdr_enc] = xdr_ReaddirArgs(2)

lemma wire_rt_ReaddirArgs [xdr_rt]: "ok_ReaddirArgs v \<Longrightarrow> wire_rt (encode_ReaddirArgs v) decode_ReaddirArgs v"
  unfolding encode_ReaddirArgs_def decode_ReaddirArgs_def ok_ReaddirArgs_def
  by (rule xdr_rt xdr_enc xdr_dec refl | simp)+

definition ok_Entry3 :: "Entry3 \<Rightarrow> bool" where
  "ok_Entry3 v \<longleftrightarrow> valid_string (e3_name v)"

lemma xdr_Entry3: "xdr_decoder decode_Entry3" "xdr_encoder (encode_Entry3 v)"
  unfolding decode_Entry3_def encode_Entry3_def by (intro xdr_dec, intro xdr_enc)

lemmas [xdr_dec] = xdr_Entry3(1) and [xdr_enc] = xdr_Entry3(2)

lemma wire_rt_Entry3 [xdr_rt]: "ok_Entry3 v \<Longrightarrow> wire_rt (encode_Entry3 v) decode_Entry3 v"
  unfolding encode_Entry3_def decode_Entry3_def ok_Entry3_def
  by (rule xdr_rt xdr_enc xdr_dec refl | simp)+

definition ok_ReaddirOk :: "ReaddirOk \<Rightarrow> bool" where
  "ok_ReaddirOk v \<longleftrightarrow> length (rdo_cookieverf v) = 8 \<and> list_all ok_Entry3 (rdo_entries v)"

lemma xdr_ReaddirOk: "xdr_decoder decode_ReaddirOk" "xdr_encoder (encode_ReaddirOk v)"
  unfolding decode_ReaddirOk_def encode_ReaddirOk_def by (intro xdr_dec, intro xdr_enc)

lemmas [xdr_dec] = xdr_ReaddirOk(1) and [xdr_enc] = xdr_ReaddirOk(2)

lemma wire_rt_ReaddirOk [xdr_rt]: "ok_ReaddirOk v \<Longrightarrow> wire_rt (encode_ReaddirOk v) decode_ReaddirOk v"
  unfolding encode_ReaddirOk_def decode_ReaddirOk_def ok_ReaddirOk_def
  by (rule xdr_rt xdr_enc xdr_dec refl | simp add: list_all_iff wire_rt_Entry3)+

definition ok_ReaddirplusArgs :: "ReaddirplusArgs \<Rightarrow> bool" where
  "ok_ReaddirplusArgs v \<longleftrightarrow> length (rpa_cookieverf v) = 8"

lemma xdr_ReaddirplusArgs: "xdr_decoder decode_ReaddirplusArgs" "xdr_encoder (encode_ReaddirplusArgs v)"
  unfolding decode_ReaddirplusArgs_def encode_ReaddirplusArgs_def by (intro xdr_dec, intro xdr_enc)

lemmas [xdr_dec] = xdr_ReaddirplusArgs(1) and [xdr_enc] = xdr_ReaddirplusArgs(2)

lemma wire_rt_ReaddirplusArgs [xdr_rt]: "ok_ReaddirplusArgs v \<Longrightarrow> wire_rt (encode_ReaddirplusArgs v) decode_ReaddirplusArgs v"
  unfolding encode_ReaddirplusArgs_def decode_ReaddirplusArgs_def ok_ReaddirplusArgs_def
  by (rule xdr_rt xdr_enc xdr_dec refl | simp)+

definition ok_EntryPlus3 :: "EntryPlus3 \<Rightarrow> bool" where
  "ok_EntryPlus3 v \<longleftrightarrow> valid_string (ep_name v)"

lemma xdr_EntryPlus3: "xdr_decoder decode_EntryPlus3" "xdr_encoder (encode_EntryPlus3 v)"
  unfolding decode_EntryPlus3_def encode_EntryPlus3_def by (intro xdr_dec, intro xdr_enc)

lemmas [xdr_dec] = xdr_EntryPlus3(1) and [xdr_enc] = xdr_EntryPlus3(2)

lemma wire_rt_EntryPlus3 [xdr_rt]: "ok_EntryPlus3 v \<Longrightarrow> wire_rt (encode_EntryPlus3 v) decode_EntryPlus3 v"
  unfolding encode_EntryPlus3_def decode_EntryPlus3_def ok_EntryPlus3_def
  by (rule xdr_rt xdr_enc xdr_dec refl | simp)+

definition ok_ReaddirplusOk :: "ReaddirplusOk \<Rightarrow> bool" where
  "ok_ReaddirplusOk v \<longleftrightarrow> length (rpo_cookieverf v) = 8 \<and> list_all ok_EntryPlus3 (rpo_entries v)"

lemma xdr_ReaddirplusOk: "xdr_decoder decode_ReaddirplusOk" "xdr_encoder (encode_ReaddirplusOk v)"
  unfolding decode_ReaddirplusOk_def encode_ReaddirplusOk_def by (intro xdr_dec, intro xdr_enc)

lemmas [xdr_dec] = xdr_ReaddirplusOk(1) and [xdr_enc] = xdr_ReaddirplusOk(2)

lemma wire_rt_ReaddirplusOk [xdr_rt]: "ok_ReaddirplusOk v \<Longrightarrow> wire_rt (encode_ReaddirplusOk v) decode_ReaddirplusOk v"
  unfolding encode_ReaddirplusOk_def decode_ReaddirplusOk_def ok_ReaddirplusOk_def
  by (rule xdr_rt xdr_enc xdr_dec refl | simp add: list_all_iff wire_rt_EntryPlus3)+

lemma xdr_FsstatOk: "xdr_decoder decode_FsstatOk" "xdr_encoder (encode_FsstatOk v)"
  unfolding decode_FsstatOk_def encode_FsstatOk_def by (intro xdr_dec, intro xdr_enc)

lemmas [xdr_dec] = xdr_FsstatOk(1) and [xdr_enc] = xdr_FsstatOk(2)

lemma wire_rt_FsstatOk [xdr_rt]: "wire_rt (encode_FsstatOk v) decode_FsstatOk v"
  unfolding encode_FsstatOk_def decode_FsstatOk_def
  by (rule xdr_rt xdr_enc xdr_dec refl | simp)+

lemma xdr_FsinfoOk: "xdr_decoder decode_FsinfoOk" "xdr_encoder (encode_FsinfoOk v)"
  unfolding decode_FsinfoOk_def encode_FsinfoOk_def by (intro xdr_dec, intro xdr_enc)

lemmas [xdr_dec] = xdr_FsinfoOk(1) and [xdr_enc] = xdr_FsinfoOk(2)

lemma wire_rt_FsinfoOk [xdr_rt]: "wire_rt (encode_FsinfoOk v) decode_FsinfoOk v"
  unfolding encode_FsinfoOk_def decode_FsinfoOk_def
  by (rule xdr_rt xdr_enc xdr_dec refl | simp)+

lemma xdr_PathconfOk: "xdr_decoder decode_PathconfOk" "xdr_encoder (encode_PathconfOk v)"
  unfolding decode_PathconfOk_def encode_PathconfOk_def by (intro xdr_dec, intro xdr_enc)

lemmas [xdr_dec] = xdr_PathconfOk(1) and [xdr_enc] = xdr_PathconfOk(2)

lemma wire_rt_PathconfOk [xdr_rt]: "wire_rt (encode_PathconfOk v) decode_PathconfOk v"
  unfolding encode_PathconfOk_def decode_PathconfOk_def
  by (rule xdr_rt xdr_enc xdr_dec refl | simp)+

lemma xdr_CommitArgs: "xdr_decoder decode_CommitArgs" "xdr_encoder (encode_CommitArgs v)"
  unfolding decode_CommitArgs_def encode_CommitArgs_def by (intro xdr_dec, intro xdr_enc)

lemmas [xdr_dec] = xdr_CommitArgs(1) and [xdr_enc] = xdr_CommitArgs(2)

lemma wire_rt_CommitArgs [xdr_rt]: "wire_rt (encode_CommitArgs v) decode_CommitArgs v"
  unfolding encode_CommitArgs_def decode_CommitArgs_def
  by (rule xdr_rt xdr_enc xdr_dec refl | simp)+

definition ok_CommitOk :: "CommitOk \<Rightarrow> bool" where
  "ok_CommitOk v \<longleftrightarrow> length (ck_verf v) = 8"

lemma xdr_CommitOk: "xdr_decoder decode_CommitOk" "xdr_encoder (encode_CommitOk v)"
  unfolding decode_CommitOk_def encode_CommitOk_def by (intro xdr_dec, intro xdr_enc)

lemmas [xdr_dec] = xdr_CommitOk(1) and [xdr_enc] = xdr_CommitOk(2)

lemma wire_rt_CommitOk [xdr_rt]: "ok_CommitOk v \<Longrightarrow> wire_rt (encode_CommitOk v) decode_CommitOk v"
  unfolding encode_CommitOk_def decode_CommitOk_def ok_CommitOk_def
  by (rule xdr_rt xdr_enc xdr_dec refl | simp)+

lemma xdr_decoder_Nfs3Result [xdr_dec]: "xdr_decoder dec \<Longrightarrow> xdr_decoder (decode_Nfs3Result dec)"
  unfolding decode_Nfs3Result_def by (intro xdr_dec)

end
