(* ===== verification/NFS3.thy ===== *)
theory NFS3
  imports NFS3_Types
begin

text \<open>
  The NFSv3 client \<open>Nfs3\<close> (\<open>nfs-proto/src/nfs3.rs\<close>): the connection and the 22
  procedures of RFC 1813. The client is a wrapper of its \<open>RpcClient\<close>, so its state is
  that client with the network.
\<close>

subsection \<open>The client\<close>

definition NFS3_PROGRAM :: u32 where "NFS3_PROGRAM = 100003"
definition NFS3_VERSION :: u32 where "NFS3_VERSION = 3"
definition PROC_GETATTR :: u32 where "PROC_GETATTR = 1"
definition PROC_SETATTR :: u32 where "PROC_SETATTR = 2"
definition PROC_LOOKUP :: u32 where "PROC_LOOKUP = 3"
definition PROC_ACCESS :: u32 where "PROC_ACCESS = 4"
definition PROC_READLINK :: u32 where "PROC_READLINK = 5"
definition PROC_READ :: u32 where "PROC_READ = 6"
definition PROC_WRITE :: u32 where "PROC_WRITE = 7"
definition PROC_CREATE :: u32 where "PROC_CREATE = 8"
definition PROC_MKDIR :: u32 where "PROC_MKDIR = 9"
definition PROC_SYMLINK :: u32 where "PROC_SYMLINK = 10"
definition PROC_MKNOD :: u32 where "PROC_MKNOD = 11"
definition PROC_REMOVE :: u32 where "PROC_REMOVE = 12"
definition PROC_RMDIR :: u32 where "PROC_RMDIR = 13"
definition PROC_RENAME :: u32 where "PROC_RENAME = 14"
definition PROC_LINK :: u32 where "PROC_LINK = 15"
definition PROC_READDIR :: u32 where "PROC_READDIR = 16"
definition PROC_READDIRPLUS :: u32 where "PROC_READDIRPLUS = 17"
definition PROC_FSSTAT :: u32 where "PROC_FSSTAT = 18"
definition PROC_FSINFO :: u32 where "PROC_FSINFO = 19"
definition PROC_PATHCONF :: u32 where "PROC_PATHCONF = 20"
definition PROC_COMMIT :: u32 where "PROC_COMMIT = 21"

lemmas nfs3_procs = PROC_GETATTR_def PROC_SETATTR_def PROC_LOOKUP_def PROC_ACCESS_def
  PROC_READLINK_def PROC_READ_def PROC_WRITE_def PROC_CREATE_def PROC_MKDIR_def PROC_SYMLINK_def
  PROC_MKNOD_def PROC_REMOVE_def PROC_RMDIR_def PROC_RENAME_def PROC_LINK_def PROC_READDIR_def
  PROC_READDIRPLUS_def PROC_FSSTAT_def PROC_FSINFO_def PROC_PATHCONF_def PROC_COMMIT_def
  NFS3_PROGRAM_def NFS3_VERSION_def

text \<open>Error codes.\<close>

definition NFS3ERR_PERM :: u32 where "NFS3ERR_PERM = 1"
definition NFS3ERR_NOENT :: u32 where "NFS3ERR_NOENT = 2"
definition NFS3ERR_IO :: u32 where "NFS3ERR_IO = 5"
definition NFS3ERR_ACCES :: u32 where "NFS3ERR_ACCES = 13"
definition NFS3ERR_EXIST :: u32 where "NFS3ERR_EXIST = 17"
definition NFS3ERR_NOTDIR :: u32 where "NFS3ERR_NOTDIR = 20"
definition NFS3ERR_ISDIR :: u32 where "NFS3ERR_ISDIR = 21"
definition NFS3ERR_INVAL :: u32 where "NFS3ERR_INVAL = 22"
definition NFS3ERR_NOSPC :: u32 where "NFS3ERR_NOSPC = 28"
definition NFS3ERR_ROFS :: u32 where "NFS3ERR_ROFS = 30"
definition NFS3ERR_NAMETOOLONG :: u32 where "NFS3ERR_NAMETOOLONG = 63"
definition NFS3ERR_NOTEMPTY :: u32 where "NFS3ERR_NOTEMPTY = 66"
definition NFS3ERR_STALE :: u32 where "NFS3ERR_STALE = 70"
definition NFS3ERR_NOTSUPP :: u32 where "NFS3ERR_NOTSUPP = 10004"

lemmas nfs3_errors = NFS3ERR_PERM_def NFS3ERR_NOENT_def NFS3ERR_IO_def NFS3ERR_ACCES_def NFS3ERR_EXIST_def NFS3ERR_NOTDIR_def
  NFS3ERR_ISDIR_def NFS3ERR_INVAL_def NFS3ERR_NOSPC_def NFS3ERR_ROFS_def
  NFS3ERR_NAMETOOLONG_def NFS3ERR_NOTEMPTY_def NFS3ERR_STALE_def NFS3ERR_NOTSUPP_def

definition nfs3_connect ::
  "u32 \<Rightarrow> IpAddr \<Rightarrow> u16 \<Rightarrow> Credentials \<Rightarrow> Protocol \<Rightarrow> nat \<Rightarrow> (net, ProtoError, RpcClient) op" where
  "nfs3_connect pid server port cr proto t =
     op_map_err PE_Rpc (connect pid \<lparr>sa_ip = server, sa_port = port\<rparr> proto cr t)"

text \<open>\<open>self.call::<Nfs3Result<T>>(proc, args)?.into_result()\<close>\<close>

definition nfs3_call :: "u32 \<Rightarrow> encoding \<Rightarrow> 'a decoder \<Rightarrow> 'a proto_op" where
  "nfs3_call proc args dec =
     proto_call NFS3_PROGRAM NFS3_VERSION proc args (decode_Nfs3Result dec) into_result"

definition nfs3_null :: "unit proto_op" where
  "nfs3_null = proto_call NFS3_PROGRAM NFS3_VERSION 0 (encode_unit ()) decode_unit Ok"

definition nfs3_getattr :: "NfsFh3 \<Rightarrow> Fattr3 proto_op" where
  "nfs3_getattr fh = nfs3_call PROC_GETATTR (encode_NfsFh3 fh) decode_Fattr3"

definition nfs3_setattr :: "NfsFh3 \<Rightarrow> Sattr3 \<Rightarrow> Nfstime3 option \<Rightarrow> WccData proto_op" where
  "nfs3_setattr object attrs guard = nfs3_call PROC_SETATTR
     (encode_SetattrArgs \<lparr>st_object = object, st_new_attributes = attrs, st_guard = guard\<rparr>)
     decode_WccData"

definition nfs3_lookup :: "NfsFh3 \<Rightarrow> string \<Rightarrow> LookupOk proto_op" where
  "nfs3_lookup dir name = nfs3_call PROC_LOOKUP
     (encode_DirOpArgs3 \<lparr>do_dir = dir, do_name = name\<rparr>) decode_LookupOk"

definition nfs3_access :: "NfsFh3 \<Rightarrow> u32 \<Rightarrow> AccessOk proto_op" where
  "nfs3_access object bits = nfs3_call PROC_ACCESS
     (encode_AccessArgs \<lparr>aa_object = object, aa_access = bits\<rparr>) decode_AccessOk"

definition nfs3_readlink :: "NfsFh3 \<Rightarrow> ReadlinkOk proto_op" where
  "nfs3_readlink symlink = nfs3_call PROC_READLINK (encode_NfsFh3 symlink) decode_ReadlinkOk"

definition nfs3_read :: "NfsFh3 \<Rightarrow> u64 \<Rightarrow> u32 \<Rightarrow> ReadOk proto_op" where
  "nfs3_read file offset count = nfs3_call PROC_READ
     (encode_ReadArgs \<lparr>ra_file = file, ra_offset = offset, ra_count = count\<rparr>) decode_ReadOk"

definition nfs3_write :: "NfsFh3 \<Rightarrow> u64 \<Rightarrow> u32 \<Rightarrow> bytes \<Rightarrow> WriteOk proto_op" where
  "nfs3_write file offset stable_how data = nfs3_call PROC_WRITE
     (encode_WriteArgs \<lparr>wr_file = file, wr_offset = offset, wr_count = of_nat (length data),
        wr_stable = stable_how, wr_data = data\<rparr>) decode_WriteOk"

definition nfs3_create :: "NfsFh3 \<Rightarrow> string \<Rightarrow> CreateHow3 \<Rightarrow> CreateOk proto_op" where
  "nfs3_create dir name how = nfs3_call PROC_CREATE
     (encode_CreateArgs \<lparr>cr_where = \<lparr>do_dir = dir, do_name = name\<rparr>, cr_how = how\<rparr>)
     decode_CreateOk"

definition nfs3_mkdir :: "NfsFh3 \<Rightarrow> string \<Rightarrow> Sattr3 \<Rightarrow> CreateOk proto_op" where
  "nfs3_mkdir dir name attributes = nfs3_call PROC_MKDIR
     (encode_MkdirArgs \<lparr>md_where = \<lparr>do_dir = dir, do_name = name\<rparr>, md_attributes = attributes\<rparr>)
     decode_CreateOk"

definition nfs3_symlink :: "NfsFh3 \<Rightarrow> string \<Rightarrow> string \<Rightarrow> Sattr3 \<Rightarrow> CreateOk proto_op" where
  "nfs3_symlink dir name target attributes = nfs3_call PROC_SYMLINK
     (encode_SymlinkArgs \<lparr>sl_where = \<lparr>do_dir = dir, do_name = name\<rparr>,
        sl_symlink = \<lparr>symlink_attributes = attributes, symlink_data = target\<rparr>\<rparr>)
     decode_CreateOk"

definition nfs3_mknod :: "NfsFh3 \<Rightarrow> string \<Rightarrow> MknodData3 \<Rightarrow> CreateOk proto_op" where
  "nfs3_mknod dir name what = nfs3_call PROC_MKNOD
     (encode_MknodArgs \<lparr>mk_where = \<lparr>do_dir = dir, do_name = name\<rparr>, mk_what = what\<rparr>)
     decode_CreateOk"

definition nfs3_remove :: "NfsFh3 \<Rightarrow> string \<Rightarrow> WccData proto_op" where
  "nfs3_remove dir name = nfs3_call PROC_REMOVE
     (encode_DirOpArgs3 \<lparr>do_dir = dir, do_name = name\<rparr>) decode_WccData"

definition nfs3_rmdir :: "NfsFh3 \<Rightarrow> string \<Rightarrow> WccData proto_op" where
  "nfs3_rmdir dir name = nfs3_call PROC_RMDIR
     (encode_DirOpArgs3 \<lparr>do_dir = dir, do_name = name\<rparr>) decode_WccData"

definition nfs3_rename :: "NfsFh3 \<Rightarrow> string \<Rightarrow> NfsFh3 \<Rightarrow> string \<Rightarrow> RenameOk proto_op" where
  "nfs3_rename from_dir from_name to_dir to_name = nfs3_call PROC_RENAME
     (encode_RenameArgs \<lparr>rn_from = \<lparr>do_dir = from_dir, do_name = from_name\<rparr>,
        rn_to = \<lparr>do_dir = to_dir, do_name = to_name\<rparr>\<rparr>) decode_RenameOk"

definition nfs3_link :: "NfsFh3 \<Rightarrow> NfsFh3 \<Rightarrow> string \<Rightarrow> LinkOk proto_op" where
  "nfs3_link file dir name = nfs3_call PROC_LINK
     (encode_LinkArgs \<lparr>li_file = file, li_link = \<lparr>do_dir = dir, do_name = name\<rparr>\<rparr>) decode_LinkOk"

definition nfs3_readdir :: "NfsFh3 \<Rightarrow> u64 \<Rightarrow> bytes \<Rightarrow> u32 \<Rightarrow> ReaddirOk proto_op" where
  "nfs3_readdir dir cookie cookieverf count = nfs3_call PROC_READDIR
     (encode_ReaddirArgs \<lparr>rda_dir = dir, rda_cookie = cookie, rda_cookieverf = cookieverf,
        rda_count = count\<rparr>) decode_ReaddirOk"

definition nfs3_readdirplus :: "NfsFh3 \<Rightarrow> u64 \<Rightarrow> bytes \<Rightarrow> u32 \<Rightarrow> u32 \<Rightarrow> ReaddirplusOk proto_op" where
  "nfs3_readdirplus dir cookie cookieverf dircount maxcount = nfs3_call PROC_READDIRPLUS
     (encode_ReaddirplusArgs \<lparr>rpa_dir = dir, rpa_cookie = cookie, rpa_cookieverf = cookieverf,
        rpa_dircount = dircount, rpa_maxcount = maxcount\<rparr>) decode_ReaddirplusOk"

definition nfs3_fsstat :: "NfsFh3 \<Rightarrow> FsstatOk proto_op" where
  "nfs3_fsstat fh = nfs3_call PROC_FSSTAT (encode_NfsFh3 fh) decode_FsstatOk"

definition nfs3_fsinfo :: "NfsFh3 \<Rightarrow> FsinfoOk proto_op" where
  "nfs3_fsinfo fh = nfs3_call PROC_FSINFO (encode_NfsFh3 fh) decode_FsinfoOk"

definition nfs3_pathconf :: "NfsFh3 \<Rightarrow> PathconfOk proto_op" where
  "nfs3_pathconf fh = nfs3_call PROC_PATHCONF (encode_NfsFh3 fh) decode_PathconfOk"

definition nfs3_commit :: "NfsFh3 \<Rightarrow> u64 \<Rightarrow> u32 \<Rightarrow> CommitOk proto_op" where
  "nfs3_commit file offset count = nfs3_call PROC_COMMIT
     (encode_CommitArgs \<lparr>cm_file = file, cm_offset = offset, cm_count = count\<rparr>) decode_CommitOk"

lemmas nfs3_procedures = nfs3_getattr_def nfs3_setattr_def nfs3_lookup_def nfs3_access_def
  nfs3_readlink_def nfs3_read_def nfs3_write_def nfs3_create_def nfs3_mkdir_def nfs3_symlink_def
  nfs3_mknod_def nfs3_remove_def nfs3_rmdir_def nfs3_rename_def nfs3_link_def nfs3_readdir_def
  nfs3_readdirplus_def nfs3_fsstat_def nfs3_fsinfo_def nfs3_pathconf_def nfs3_commit_def

subsection \<open>Answers\<close>

lemma decode_Nfs3Result_Ok:
  "decode_Nfs3Result dec (w4 0 @ bs) = map_ok (\<lambda>(v, rest). (Nfs3_Ok v, rest)) (dec bs)"
  by (cases "dec bs") (auto simp: decode_Nfs3Result_def NFS3_OK_def dec_bind_def dec_return_def)

lemma decode_Nfs3Result_Fail:
  "status \<noteq> 0 \<Longrightarrow> decode_Nfs3Result dec (w4 status @ bs) = Ok (Nfs3_Fail status, bs)"
  by (simp add: decode_Nfs3Result_def NFS3_OK_def dec_bind_def dec_return_def)

lemma nfs3_call_ok:
  assumes "rpc_exchange 100003 3 proc args s = Some (Ok (w4 0 @ bs), s')" "dec bs = Ok (v, rest)"
  shows "nfs3_call proc args dec s = Some (Ok v, s')"
  unfolding nfs3_call_def nfs3_procs
  by (subst proto_call_answer [OF assms(1), of _ "Nfs3_Ok v" rest])
    (simp_all add: decode_Nfs3Result_Ok assms(2) into_result_def)

lemma nfs3_call_fail:
  assumes "rpc_exchange 100003 3 proc args s = Some (Ok (w4 status @ tail), s')" "status \<noteq> 0"
  shows "nfs3_call proc args dec s = Some (Err (PE_Nfs3 status), s')"
  unfolding nfs3_call_def nfs3_procs
  by (subst proto_call_answer [OF assms(1), of _ "Nfs3_Fail status" tail])
    (simp_all add: decode_Nfs3Result_Fail assms(2) into_result_def)

text \<open>The result of a procedure read from the bytes of the server that sent it.\<close>

lemma nfs3_call_roundtrip:
  assumes "wire_rt e dec v" "e [] = Ok bs"
    and "rpc_exchange 100003 3 proc args s = Some (Ok (w4 0 @ bs), s')"
  shows "nfs3_call proc args dec s = Some (Ok v, s')"
  using nfs3_call_ok [OF assms(3), of dec v "[]"] assms(1,2)
  unfolding wire_rt_def by (metis append_Nil2)

lemma nfs3_call_served:
  assumes "xdr_encoder args" "\<exists>ab. args [] = Ok ab \<and> length ab \<le> 2 ^ 20" "wire_rt e dec v"
    and "e [] = Ok bs" "length (w4 0 @ bs) \<le> 2 ^ 20"
  shows "\<exists>c' n'. nfs3_call proc args dec (ex_client Udp, ex_served (ex_client Udp) (w4 0 @ bs)) = Some (Ok v, c', n')"
proof -
  from assms(2) ex_exchange [OF assms(1) _ _ assms(5), where prog = 100003 and vers = 3 and proc = proc and p = Udp]
  obtain c' n' where "rpc_exchange 100003 3 proc args (ex_client Udp, ex_served (ex_client Udp) (w4 0 @ bs))
      = Some (Ok (w4 0 @ bs), c', n')" by fastforce
  from nfs3_call_roundtrip [OF assms(3,4) this] show ?thesis by blast
qed



text \<open>
  \<open>READDIR\<close> returns the entries of the server in order, with the cookies,
  the verifier and the end-of-directory flag, however many entries there are.
\<close>

theorem nfs3_readdir_answer:
  assumes "rpc_exchange 100003 3 16
      (encode_ReaddirArgs \<lparr>rda_dir = dir, rda_cookie = ck, rda_cookieverf = verf, rda_count = n\<rparr>) s
      = Some (Ok (w4 0 @ bs), s')"
    and "ok_ReaddirOk listing" "to_bytes encode_ReaddirOk listing = Ok bs"
  shows "nfs3_readdir dir ck verf n s = Some (Ok listing, s')"
  unfolding nfs3_readdir_def
  using nfs3_call_roundtrip [OF wire_rt_ReaddirOk [OF assms(2)] assms(3) [unfolded to_bytes_def]]
    assms(1) by (simp add: nfs3_procs)

definition ex_listing :: ReaddirOk where
  "ex_listing = \<lparr>rdo_dir_attributes = None, rdo_cookieverf = replicate 8 7,
     rdo_entries = [\<lparr>e3_fileid = 1, e3_name = ''a'', e3_cookie = 10\<rparr>,
       \<lparr>e3_fileid = 2, e3_name = ''bc'', e3_cookie = 11\<rparr>], rdo_eof = True\<rparr>"

definition ex_fh :: NfsFh3 where
  "ex_fh = \<lparr>fh_data = [1, 2, 3, 4]\<rparr>"

theorem nfs3_readdir_answer_example:
  "\<exists>bs s'. to_bytes encode_ReaddirOk ex_listing = Ok bs \<and>
    nfs3_readdir ex_fh 0 (replicate 8 0) 4096
      (ex_client Udp, ex_served (ex_client Udp) (w4 0 @ bs)) = Some (Ok ex_listing, s')"
proof -
  have "\<exists>bs. to_bytes encode_ReaddirOk ex_listing = Ok bs \<and> length (w4 0 @ bs) \<le> 2 ^ 20"
    by (simp add: ex_listing_def encode_ReaddirOk_def encode_Entry3_def enc_eval)
  then obtain bs where bs: "to_bytes encode_ReaddirOk ex_listing = Ok bs" "length (w4 0 @ bs) \<le> 2 ^ 20" by blast
  let ?args = "\<lparr>rda_dir = ex_fh, rda_cookie = 0, rda_cookieverf = replicate 8 0, rda_count = 4096\<rparr>"
  have "\<exists>ab. encode_ReaddirArgs ?args [] = Ok ab \<and> length ab \<le> 2 ^ 20"
    by (simp add: ex_fh_def encode_ReaddirArgs_def encode_NfsFh3_def enc_eval encode_access_def)
  with ex_exchange [OF xdr_ReaddirArgs(2) _ _ bs(2), where prog = 100003 and vers = 3 and proc = 16 and p = Udp]
  obtain s' where "rpc_exchange 100003 3 16 (encode_ReaddirArgs ?args)
      (ex_client Udp, ex_served (ex_client Udp) (w4 0 @ bs)) = Some (Ok (w4 0 @ bs), s')" by blast
  moreover have "ok_ReaddirOk ex_listing"
    by (simp add: ex_listing_def ok_ReaddirOk_def ok_Entry3_def valid_string_def) code_simp
  ultimately have "nfs3_readdir ex_fh 0 (replicate 8 0) 4096
      (ex_client Udp, ex_served (ex_client Udp) (w4 0 @ bs)) = Some (Ok ex_listing, s')"
    using bs(1) by (rule nfs3_readdir_answer)
  with bs(1) show ?thesis by blast
qed

text \<open>
  The \<open>WRITE\<close> request. When it can be encoded at all, the count field is the
  length of the data (the cast to 32 bits does not wrap), the handle is at most 64 bytes, and
  a server reads back exactly the handle, the offset, the count and the data.
\<close>

lemma nfs3_write_request:
  assumes "encode_WriteArgs \<lparr>wr_file = file, wr_offset = offset, wr_count = of_nat (length data),
      wr_stable = stable_how, wr_data = data\<rparr> [] = Ok bs"
  shows "length (fh_data file) \<le> 64 \<and> unat (of_nat (length data) :: u32) = length data \<and>
    decode_WriteArgs (bs @ rest) = Ok (\<lparr>wr_file = file, wr_offset = offset,
      wr_count = of_nat (length data), wr_stable = stable_how, wr_data = data\<rparr>, rest)"
proof (intro conjI)
  show "length (fh_data file) \<le> 64"
    using assms by (auto simp: encode_WriteArgs_def enc_seq_def encode_NfsFh3_def
        dest!: encode_access_limit)
  have "length data \<le> u32_max"
    using assms by (auto simp: encode_WriteArgs_def enc_seq_def encode_Bytes_def encode_opaque_eq
        split: if_splits)
  then show "unat (of_nat (length data) :: u32) = length data" by simp
  show "decode_WriteArgs (bs @ rest) = Ok (\<lparr>wr_file = file, wr_offset = offset,
      wr_count = of_nat (length data), wr_stable = stable_how, wr_data = data\<rparr>, rest)"
    using assms wire_rt_WriteArgs unfolding wire_rt_def by blast
qed

end
