(* ===== verification/Proto_Server.thy ===== *)
theory Proto_Server
  imports Proto_Base
begin

text \<open>
  What a server reads of the calls of a client: the decoder of a whole message, from the header to the
  arguments of its procedure, and the interface of a service (locale \<open>rpc_service\<close>) in which every request is
  transmitted by an operation of the client. The services of \<open>nfs-proto\<close> interpret it.
\<close>

subsection \<open>Reading a message\<close>

text \<open>The procedures of a service: program, version and number, with the decoder of the request.\<close>

type_synonym 'r arms = "((u32 \<times> u32 \<times> u32) \<times> 'r decoder) list"

abbreviation read_as :: "'a decoder \<Rightarrow> ('a \<Rightarrow> 'b) \<Rightarrow> 'b decoder" where
  "read_as dec f \<equiv> dec_bind dec (\<lambda>a. dec_return (f a))"

text \<open>The header of the call and the arguments that its procedure has, and nothing after them.\<close>

definition read_call :: "'r arms \<Rightarrow> bytes \<Rightarrow> (call_header \<times> 'r) option" where
  "read_call arms message =
     (case decode_call_header message of
        Ok (h, args) \<Rightarrow>
          (case map_of arms (ch_prog h, ch_vers h, ch_proc h) of
             Some dec \<Rightarrow> (case dec args of Ok (req, []) \<Rightarrow> Some (h, req) | _ \<Rightarrow> None)
           | None \<Rightarrow> None)
      | _ \<Rightarrow> None)"

lemma read_call_message:
  assumes "encode_call xid prog vers proc cr [] = Ok header" "args [] = Ok ab"
    and "map_of arms (prog, vers, proc) = Some dec" "wire_rt args dec req"
  shows "read_call arms (header @ ab) = Some (\<lparr>ch_xid = xid, ch_mtype = 0, ch_rpcvers = 2, ch_prog = prog,
    ch_vers = vers, ch_proc = proc, ch_cred = cred_auth cr, ch_verf = (0, [])\<rparr>, req)"
proof -
  have "dec ab = Ok (req, [])" using assms(2,4) unfolding wire_rt_def by (metis append_Nil2)
  with encode_call_server_view [OF assms(1), of ab] assms(3) show ?thesis
    by (simp add: read_call_def msg_consts)
qed

subsection \<open>What a call transmits\<close>

lemma exchange_sends:
  assumes "client_ok c" "xdr_encoder args" "rpc_exchange prog vers proc args (c, n) = Some (r, c', n')"
  shows "client_ok c' \<and> cred c' = cred c \<and> protocol c' = protocol c \<and>
    (\<exists>acts. net_log n' = net_log n @ acts \<and> (\<forall>bs. Sent bs \<in> set acts \<longrightarrow>
      (\<exists>header ab. args [] = Ok ab \<and> encode_call (next_xid c) prog vers proc (cred c) [] = Ok header \<and>
        bs = wire c (header @ ab))))"
proof -
  have "call prog vers proc args decode_unit (c, n) = Some (decode_with decode_unit r, c', n')"
    using assms(3) by (simp add: call_raw)
  from assms(2) this show ?thesis
  proof (cases rule: call_Some)
    case (loop message)
    let ?c = "c\<lparr>next_xid := next_xid c + 1\<rparr>"
    from loop(1) obtain header where h: "encode_call (next_xid c) prog vers proc (cred c) [] = Ok header"
      "args header = Ok message"
      by (auto simp: build_call_def Let_def split: result.splits)
    from h(2) obtain ab where ab: "args [] = Ok ab" "message = header @ ab"
      using xdr_encoder.appends [OF assms(2), of header] by auto
    have "client_ok ?c" using assms(1) by (simp add: client_ok_def)
    from call_loop_actions [OF this xdr_decoder_unit _ loop(2)] obtain acts where
      acts: "net_log n' = net_log n @ acts" "call_actions ?c message MAX_ATTEMPTS acts"
      and same: "client_ok c'" "cred c' = cred c" "protocol c' = protocol c"
      by (auto simp: MAX_ATTEMPTS_def)
    have "wire ?c message = wire c message" by (simp add: wire_def)
    with acts(2) have "\<forall>bs. Sent bs \<in> set acts \<longrightarrow> bs = wire c message" by (auto simp: call_actions_def)
    with acts(1) same h(1) ab show ?thesis by blast
  qed (use assms(1) in \<open>simp add: client_ok_def\<close>)
qed

text \<open>\<open>asks m (prog, vers, proc) args\<close>: the operation is one exchange of the procedure with these arguments.\<close>

definition asks :: "unit proto_op \<Rightarrow> u32 \<times> u32 \<times> u32 \<Rightarrow> encoding \<Rightarrow> bool" where
  "asks m p args \<longleftrightarrow> (case p of (prog, vers, proc) \<Rightarrow>
     \<forall>s r s'. m s = Some (r, s') \<longrightarrow> (\<exists>r0. rpc_exchange prog vers proc args s = Some (r0, s')))"

lemma asks_proto: "asks (op_void (proto_call prog vers proc args dec finish)) (prog, vers, proc) args"
  by (auto simp: asks_def op_void_def op_bind_eq op_lift_def proto_call_remote remote_def split: option.splits)

text \<open>\<open>transmits arms m req\<close>: a server reads the arguments of the operation as the request \<open>req\<close>.\<close>

definition transmits :: "'r arms \<Rightarrow> unit proto_op \<Rightarrow> 'r \<Rightarrow> bool" where
  "transmits arms m req \<longleftrightarrow> (\<exists>p args dec. asks m p args \<and> xdr_encoder args \<and>
     map_of arms p = Some dec \<and> wire_rt args dec req)"

lemma transmits_proto:
  assumes "xdr_encoder args" "map_of arms (prog, vers, proc) = Some dec'" "wire_rt args dec' req"
  shows "transmits arms (op_void (proto_call prog vers proc args dec finish)) req"
  unfolding transmits_def using asks_proto assms by blast

lemma transmits_then:
  assumes "xdr_encoder args" "map_of arms (prog, vers, proc) = Some (dec_bind dec' k)" "wire_rt args dec' a"
    and "k a = dec_return req"
  shows "transmits arms (op_void (proto_call prog vers proc args dec finish)) req"
proof (rule transmits_proto [OF assms(1,2)])
  show "wire_rt args (dec_bind dec' k) req"
    using assms(3,4) by (auto simp: wire_rt_def dec_bind_def dec_return_def)
qed

lemma transmits_no_args:
  assumes "map_of arms (prog, vers, proc) = Some (dec_return req)"
  shows "transmits arms (op_void (proto_call prog vers proc (encode_unit ()) dec finish)) req"
  by (rule transmits_proto [OF xdr_encoder_unit assms]) (simp add: wire_rt_def encode_unit_def dec_return_def)

subsection \<open>Services\<close>

locale rpc_service =
  fixes programs :: "(u32 \<times> u32) set" and arms :: "'r arms" and run :: "'r \<Rightarrow> unit proto_op" and ok :: "'r \<Rightarrow> bool"
  assumes run_transmits: "ok req \<Longrightarrow> transmits arms (run req) req"
    and arms_programs: "((prog, vers, proc), dec) \<in> set arms \<Longrightarrow> (prog, vers) \<in> programs"
begin

text \<open>Every message that is sent is read as the request, under the transaction id and the credential of the client,
  for a program of the service.\<close>

lemma messages_read:
  assumes "client_ok c" "ok req" "run req (c, n) = Some (r, c', n')"
  shows "\<exists>acts. net_log n' = net_log n @ acts \<and> (\<forall>bs. Sent bs \<in> set acts \<longrightarrow> (\<exists>message h. bs = wire c message \<and>
    read_call arms message = Some (h, req) \<and> ch_xid h = next_xid c \<and> ch_mtype h = 0 \<and> ch_rpcvers h = 2 \<and>
    ch_cred h = cred_auth (cred c) \<and> (ch_prog h, ch_vers h) \<in> programs))"
proof -
  from run_transmits [OF assms(2)] obtain prog vers proc args dec where t: "asks (run req) (prog, vers, proc) args"
    "xdr_encoder args" "map_of arms (prog, vers, proc) = Some dec" "wire_rt args dec req"
    unfolding transmits_def by (metis prod_cases3)
  from t(1) assms(3) obtain r0 where "rpc_exchange prog vers proc args (c, n) = Some (r0, c', n')"
    unfolding asks_def prod.case by blast
  from exchange_sends [OF assms(1) t(2) this] obtain acts where acts: "net_log n' = net_log n @ acts"
    "\<forall>bs. Sent bs \<in> set acts \<longrightarrow> (\<exists>header ab. args [] = Ok ab \<and>
      encode_call (next_xid c) prog vers proc (cred c) [] = Ok header \<and> bs = wire c (header @ ab))" by blast
  have known: "(prog, vers) \<in> programs" using arms_programs [OF map_of_SomeD [OF t(3)]] .
  have "\<exists>message h. bs = wire c message \<and> read_call arms message = Some (h, req) \<and> ch_xid h = next_xid c \<and>
      ch_mtype h = 0 \<and> ch_rpcvers h = 2 \<and> ch_cred h = cred_auth (cred c) \<and>
      (ch_prog h, ch_vers h) \<in> programs"
    if "Sent bs \<in> set acts" for bs
  proof -
    from acts(2) that obtain header ab where m: "args [] = Ok ab"
      "encode_call (next_xid c) prog vers proc (cred c) [] = Ok header" "bs = wire c (header @ ab)" by blast
    show ?thesis
      by (intro exI conjI, rule m(3), rule read_call_message [OF m(2,1) t(3,4)]) (simp_all add: known)
  qed
  with acts(1) show ?thesis by blast
qed

end

end
