(* ===== verification/NFS3_Server.thy ===== *)
theory NFS3_Server
  imports NFS3 Proto_Server
begin

text \<open>
  What an NFSv3 server reads of the client (\<open>nfs-proto/src/nfs3.rs\<close> over \<open>nfs-rpc\<close>): the requests of
  RFC 1813 as values, the decoder of a server from the bytes of a whole message, and the property that
  every procedure of the client transmits the request it stands for.
\<close>

subsection \<open>Requests\<close>

datatype request3 =
    R_Null
  | R_Getattr NfsFh3
  | R_Setattr NfsFh3 Sattr3 "Nfstime3 option"
  | R_Lookup NfsFh3 string
  | R_Access NfsFh3 u32
  | R_Readlink NfsFh3
  | R_Read NfsFh3 u64 u32
  | R_Write NfsFh3 u64 u32 bytes
  | R_Create NfsFh3 string CreateHow3
  | R_Mkdir NfsFh3 string Sattr3
  | R_Symlink NfsFh3 string string Sattr3
  | R_Mknod NfsFh3 string MknodData3
  | R_Remove NfsFh3 string
  | R_Rmdir NfsFh3 string
  | R_Rename NfsFh3 string NfsFh3 string
  | R_Link NfsFh3 NfsFh3 string
  | R_Readdir NfsFh3 u64 bytes u32
  | R_Readdirplus NfsFh3 u64 bytes u32 u32
  | R_Fsstat NfsFh3
  | R_Fsinfo NfsFh3
  | R_Pathconf NfsFh3
  | R_Commit NfsFh3 u64 u32

text \<open>The procedure of the client that makes the request.\<close>

fun run3 :: "request3 \<Rightarrow> unit proto_op" where
  "run3 R_Null = op_void nfs3_null"
| "run3 (R_Getattr fh) = op_void (nfs3_getattr fh)"
| "run3 (R_Setattr fh attrs guard) = op_void (nfs3_setattr fh attrs guard)"
| "run3 (R_Lookup dir name) = op_void (nfs3_lookup dir name)"
| "run3 (R_Access fh bits) = op_void (nfs3_access fh bits)"
| "run3 (R_Readlink fh) = op_void (nfs3_readlink fh)"
| "run3 (R_Read fh off cnt) = op_void (nfs3_read fh off cnt)"
| "run3 (R_Write fh off how data) = op_void (nfs3_write fh off how data)"
| "run3 (R_Create dir name how) = op_void (nfs3_create dir name how)"
| "run3 (R_Mkdir dir name attrs) = op_void (nfs3_mkdir dir name attrs)"
| "run3 (R_Symlink dir name target attrs) = op_void (nfs3_symlink dir name target attrs)"
| "run3 (R_Mknod dir name what) = op_void (nfs3_mknod dir name what)"
| "run3 (R_Remove dir name) = op_void (nfs3_remove dir name)"
| "run3 (R_Rmdir dir name) = op_void (nfs3_rmdir dir name)"
| "run3 (R_Rename dir name dir2 name2) = op_void (nfs3_rename dir name dir2 name2)"
| "run3 (R_Link fh dir name) = op_void (nfs3_link fh dir name)"
| "run3 (R_Readdir dir ck verf cnt) = op_void (nfs3_readdir dir ck verf cnt)"
| "run3 (R_Readdirplus dir ck verf dc mx) = op_void (nfs3_readdirplus dir ck verf dc mx)"
| "run3 (R_Fsstat fh) = op_void (nfs3_fsstat fh)"
| "run3 (R_Fsinfo fh) = op_void (nfs3_fsinfo fh)"
| "run3 (R_Pathconf fh) = op_void (nfs3_pathconf fh)"
| "run3 (R_Commit fh off cnt) = op_void (nfs3_commit fh off cnt)"

text \<open>
  The decoders of a server, by the procedure numbers of RFC 1813. A \<open>WRITE\<close> whose count is not the length
  of its data is refused.
\<close>

definition read_write3 :: "request3 decoder" where
  "read_write3 = dec_bind decode_WriteArgs (\<lambda>a.
     if unat (wr_count a) = length (wr_data a)
     then dec_return (R_Write (wr_file a) (wr_offset a) (wr_stable a) (wr_data a))
     else dec_fail (LengthOverflow (unat (wr_count a))))"

definition request3_arms :: "request3 arms" where
  "request3_arms =
     [((100003, 3, 0), dec_return R_Null),
      ((100003, 3, 1), read_as decode_NfsFh3 R_Getattr),
      ((100003, 3, 2), read_as decode_SetattrArgs (\<lambda>a. R_Setattr (st_object a) (st_new_attributes a) (st_guard a))),
      ((100003, 3, 3), read_as decode_DirOpArgs3 (\<lambda>a. R_Lookup (do_dir a) (do_name a))),
      ((100003, 3, 4), read_as decode_AccessArgs (\<lambda>a. R_Access (aa_object a) (aa_access a))),
      ((100003, 3, 5), read_as decode_NfsFh3 R_Readlink),
      ((100003, 3, 6), read_as decode_ReadArgs (\<lambda>a. R_Read (ra_file a) (ra_offset a) (ra_count a))),
      ((100003, 3, 7), read_write3),
      ((100003, 3, 8), read_as decode_CreateArgs (\<lambda>a. R_Create (do_dir (cr_where a)) (do_name (cr_where a)) (cr_how a))),
      ((100003, 3, 9), read_as decode_MkdirArgs (\<lambda>a. R_Mkdir (do_dir (md_where a)) (do_name (md_where a)) (md_attributes a))),
      ((100003, 3, 10), read_as decode_SymlinkArgs (\<lambda>a. R_Symlink (do_dir (sl_where a)) (do_name (sl_where a))
         (symlink_data (sl_symlink a)) (symlink_attributes (sl_symlink a)))),
      ((100003, 3, 11), read_as decode_MknodArgs (\<lambda>a. R_Mknod (do_dir (mk_where a)) (do_name (mk_where a)) (mk_what a))),
      ((100003, 3, 12), read_as decode_DirOpArgs3 (\<lambda>a. R_Remove (do_dir a) (do_name a))),
      ((100003, 3, 13), read_as decode_DirOpArgs3 (\<lambda>a. R_Rmdir (do_dir a) (do_name a))),
      ((100003, 3, 14), read_as decode_RenameArgs (\<lambda>a. R_Rename (do_dir (rn_from a)) (do_name (rn_from a))
         (do_dir (rn_to a)) (do_name (rn_to a)))),
      ((100003, 3, 15), read_as decode_LinkArgs (\<lambda>a. R_Link (li_file a) (do_dir (li_link a)) (do_name (li_link a)))),
      ((100003, 3, 16), read_as decode_ReaddirArgs (\<lambda>a. R_Readdir (rda_dir a) (rda_cookie a) (rda_cookieverf a) (rda_count a))),
      ((100003, 3, 17), read_as decode_ReaddirplusArgs (\<lambda>a. R_Readdirplus (rpa_dir a) (rpa_cookie a) (rpa_cookieverf a)
         (rpa_dircount a) (rpa_maxcount a))),
      ((100003, 3, 18), read_as decode_NfsFh3 R_Fsstat),
      ((100003, 3, 19), read_as decode_NfsFh3 R_Fsinfo),
      ((100003, 3, 20), read_as decode_NfsFh3 R_Pathconf),
      ((100003, 3, 21), read_as decode_CommitArgs (\<lambda>a. R_Commit (cm_file a) (cm_offset a) (cm_count a)))]"

text \<open>The requests that can be made in Rust: strings are UTF-8 and verifiers have eight bytes.\<close>

fun ok_request3 :: "request3 \<Rightarrow> bool" where
  "ok_request3 (R_Lookup dir name) = valid_string name"
| "ok_request3 (R_Create dir name how) = (valid_string name \<and> ok_CreateHow3 how)"
| "ok_request3 (R_Mkdir dir name attrs) = valid_string name"
| "ok_request3 (R_Symlink dir name target attrs) = (valid_string name \<and> valid_string target)"
| "ok_request3 (R_Mknod dir name what) = valid_string name"
| "ok_request3 (R_Remove dir name) = valid_string name"
| "ok_request3 (R_Rmdir dir name) = valid_string name"
| "ok_request3 (R_Rename dir name dir2 name2) = (valid_string name \<and> valid_string name2)"
| "ok_request3 (R_Link fh dir name) = valid_string name"
| "ok_request3 (R_Readdir dir ck verf cnt) = (length verf = 8)"
| "ok_request3 (R_Readdirplus dir ck verf dc mx) = (length verf = 8)"
| "ok_request3 _ = True"

subsection \<open>The service\<close>

lemma wire_rt_write3:
  "wire_rt (encode_WriteArgs \<lparr>wr_file = fh, wr_offset = off, wr_count = of_nat (length data), wr_stable = how,
     wr_data = data\<rparr>) read_write3 (R_Write fh off how data)"
  unfolding wire_rt_def
proof (intro allI impI)
  let ?a = "\<lparr>wr_file = fh, wr_offset = off, wr_count = of_nat (length data), wr_stable = how, wr_data = data\<rparr>"
  fix bs rest
  assume e: "encode_WriteArgs ?a [] = Ok bs"
  note read = nfs3_write_request [OF e, of rest]
  show "read_write3 (bs @ rest) = Ok (R_Write fh off how data, rest)"
    using read by (simp add: read_write3_def dec_bind_def dec_return_def)
qed

lemmas ok_args3 = ok_DirOpArgs3_def ok_CreateArgs_def ok_MkdirArgs_def ok_SymlinkArgs_def ok_SymlinkData3_def
  ok_MknodArgs_def ok_RenameArgs_def ok_LinkArgs_def ok_ReaddirArgs_def ok_ReaddirplusArgs_def

lemma run3_transmits:
  assumes "ok_request3 req"
  shows "transmits request3_arms (run3 req) req"
proof (cases req)
  case R_Null
  show ?thesis
    unfolding R_Null run3.simps nfs3_null_def nfs3_procs
    by (rule transmits_no_args) (simp add: request3_arms_def)
next
  case (R_Write fh off how data)
  show ?thesis
    unfolding R_Write run3.simps nfs3_write_def nfs3_call_def nfs3_procs
    by (rule transmits_proto [OF xdr_WriteArgs(2) _ wire_rt_write3]) (simp add: request3_arms_def)
qed (insert assms, simp only: run3.simps ok_request3.simps nfs3_procedures nfs3_call_def nfs3_procs,
    rule transmits_then, rule xdr_enc, (simp add: request3_arms_def; fail), rule xdr_rt, (simp add: ok_args3; fail)+)+

interpretation nfs3: rpc_service "{(100003, 3)}" request3_arms run3 ok_request3
  by unfold_locales (rule run3_transmits, assumption, auto simp: request3_arms_def)

text \<open>
  C25: what an NFSv3 server receives. Whatever the network does, every message that any of the 22 procedures
  transmits is read by a server as exactly the request the procedure was called for, with every argument, and
  with nothing after it: a call of program 100003, version 3, under the transaction id of the call and
  with the client's credential. In particular the count of a \<open>WRITE\<close> is the length of its data.
\<close>

theorem nfs3_requests_read:
  assumes "client_ok c" "ok_request3 req" "run3 req (c, n) = Some (r, c', n')"
  shows "\<exists>acts. net_log n' = net_log n @ acts \<and> (\<forall>bs. Sent bs \<in> set acts \<longrightarrow> (\<exists>message h. bs = wire c message \<and>
    read_call request3_arms message = Some (h, req) \<and> ch_xid h = next_xid c \<and> ch_mtype h = 0 \<and> ch_rpcvers h = 2 \<and>
    ch_cred h = cred_auth (cred c) \<and> ch_prog h = 100003 \<and> ch_vers h = 3))"
  using nfs3.messages_read [OF assms] by simp

theorem nfs3_requests_read_example:
  "\<exists>r c' n' acts. run3 (R_Write ex_fh 7 2 [1, 2, 3]) (ex_client Udp, ex_served (ex_client Udp) (w4 70)) = Some (r, c', n') \<and>
    net_log n' = acts \<and> (\<forall>bs. Sent bs \<in> set acts \<longrightarrow>
      (\<exists>h. read_call request3_arms bs = Some (h, R_Write ex_fh 7 2 [1, 2, 3]) \<and> ch_prog h = 100003))"
proof -
  let ?args = "encode_WriteArgs \<lparr>wr_file = ex_fh, wr_offset = 7, wr_count = of_nat (length [1, 2, 3 :: u8]),
    wr_stable = 2, wr_data = [1, 2, 3]\<rparr>" and ?n = "ex_served (ex_client Udp) (w4 70)"
  have "\<exists>ab. ?args [] = Ok ab \<and> length ab \<le> 2 ^ 20"
    by (simp add: ex_fh_def encode_WriteArgs_def encode_NfsFh3_def enc_eval encode_access_def)
  with ex_exchange [OF xdr_WriteArgs(2), of _ _ "w4 70" 100003 3 7 Udp]
  obtain c' n' where "rpc_exchange 100003 3 7 ?args (ex_client Udp, ?n) = Some (Ok (w4 70), c', n')" by fastforce
  then have "rpc_exchange 100003 3 7 ?args (ex_client Udp, ?n) = Some (Ok (w4 70 @ []), c', n')" by simp
  from nfs3_call_fail [OF this, of decode_WriteOk]
  have run: "run3 (R_Write ex_fh 7 2 [1, 2, 3]) (ex_client Udp, ?n) = Some (Err (PE_Nfs3 70), c', n')"
    by (simp add: nfs3_write_def nfs3_procs op_void_def)
  have "client_ok (ex_client Udp)" by (simp add: ex_client_def client_ok_def)
  from nfs3_requests_read [OF this _ run] obtain acts where a: "net_log n' = net_log ?n @ acts"
    "\<forall>bs. Sent bs \<in> set acts \<longrightarrow> (\<exists>message h. bs = wire (ex_client Udp) message \<and>
      read_call request3_arms message = Some (h, R_Write ex_fh 7 2 [1, 2, 3]) \<and> ch_prog h = 100003)" by fastforce
  then have "\<forall>bs. Sent bs \<in> set acts \<longrightarrow>
      (\<exists>h. read_call request3_arms bs = Some (h, R_Write ex_fh 7 2 [1, 2, 3]) \<and> ch_prog h = 100003)"
    by (auto simp: wire_def ex_client_def)
  moreover have "net_log n' = acts" using a(1) by (simp add: ex_served_def)
  ultimately show ?thesis using run by blast
qed

end
