(* ===== verification/Portmap.thy ===== *)
theory Portmap
  imports Proto_Base
begin

text \<open>
  The portmapper client (\<open>nfs-proto/src/portmap.rs\<close>): the \<open>mapping\<close> record, the linked
  list of \<open>DUMP\<close> and the procedures \<open>GETPORT\<close> and \<open>DUMP\<close>.
\<close>

subsection \<open>Definitions\<close>

definition PMAP_PROGRAM :: u32 where "PMAP_PROGRAM = 100000"
definition PMAP_VERSION2 :: u32 where "PMAP_VERSION2 = 2"
definition IPPROTO_TCP :: u32 where "IPPROTO_TCP = 6"
definition IPPROTO_UDP :: u32 where "IPPROTO_UDP = 17"
definition PMAPPROC_GETPORT :: u32 where "PMAPPROC_GETPORT = 3"
definition PMAPPROC_DUMP :: u32 where "PMAPPROC_DUMP = 4"

record Mapping =
  map_prog :: u32
  map_vers :: u32
  map_prot :: u32
  map_port :: u32

definition encode_Mapping :: "Mapping encoder" where
  "encode_Mapping m = struct_encode
     [encode_u32 (map_prog m), encode_u32 (map_vers m), encode_u32 (map_prot m),
      encode_u32 (map_port m)]"

definition decode_Mapping :: "Mapping decoder" where
  "decode_Mapping =
     dec_bind decode_u32 (\<lambda>prog. dec_bind decode_u32 (\<lambda>vers.
     dec_bind decode_u32 (\<lambda>prot. dec_bind decode_u32 (\<lambda>port.
     dec_return \<lparr>map_prog = prog, map_vers = vers, map_prot = prot, map_port = port\<rparr>))))"

definition decode_PortmapList :: "Mapping list decoder" where
  "decode_PortmapList = decode_while decode_Mapping"

definition getport :: "u32 \<Rightarrow> u32 \<Rightarrow> u32 \<Rightarrow> u16 proto_op" where
  "getport prog vers prot =
     proto_call PMAP_PROGRAM PMAP_VERSION2 PMAPPROC_GETPORT
       (encode_Mapping \<lparr>map_prog = prog, map_vers = vers, map_prot = prot, map_port = 0\<rparr>)
       decode_u32
       (\<lambda>port. if port = 0 then Err (PortNotRegistered prog vers) else Ok (ucast port))"

definition portmap_dump :: "Mapping list proto_op" where
  "portmap_dump =
     proto_call PMAP_PROGRAM PMAP_VERSION2 PMAPPROC_DUMP (encode_unit ()) decode_PortmapList Ok"

subsection \<open>The codec\<close>

lemma xdr_decoder_Mapping [xdr_dec]: "xdr_decoder decode_Mapping"
  unfolding decode_Mapping_def by (intro xdr_dec)

lemma xdr_encoder_Mapping [xdr_enc]: "xdr_encoder (encode_Mapping m)"
  unfolding encode_Mapping_def by (intro xdr_enc)

lemma wire_rt_Mapping [xdr_rt]: "wire_rt (encode_Mapping m) decode_Mapping m"
  unfolding encode_Mapping_def decode_Mapping_def by (rule xdr_rt xdr_enc | simp)+

interpretation Mapping_codec: xdr_codec decode_Mapping encode_Mapping "\<lambda>_. True"
  by (rule xdr_codecI; intro xdr_dec xdr_enc xdr_rt)

lemma xdr_decoder_PortmapList [xdr_dec]: "xdr_decoder decode_PortmapList"
  unfolding decode_PortmapList_def by (intro xdr_dec)

interpretation PortmapList_codec:
  xdr_codec decode_PortmapList "encode_list encode_Mapping" "\<lambda>_. True"
  unfolding decode_PortmapList_def
  by (rule xdr_codecI; intro xdr_dec xdr_enc wire_rt_list) (simp add: list_all_iff wire_rt_Mapping)

text \<open>
  \<open>GETPORT\<close> asks for the service it was given and reads the answer as the
  specification says: port 0 means that nothing is registered, and any other port comes
  back unchanged when it is a port number.
\<close>

theorem getport_answer:
  assumes "rpc_exchange 100000 2 3
      (encode_Mapping \<lparr>map_prog = prog, map_vers = vers, map_prot = prot, map_port = 0\<rparr>) s
      = Some (Ok (w4 port), s')"
  shows "getport prog vers prot s =
    Some (if port = 0 then Err (PortNotRegistered prog vers) else Ok (ucast port), s')
    \<and> (unat port < 2 ^ 16 \<longrightarrow> unat (ucast port :: u16) = unat port)"
proof
  have "decode_u32 (w4 port) = Ok (port, [])" using decode_words_be(1) [of port "[]"] by simp
  then show "getport prog vers prot s =
    Some (if port = 0 then Err (PortNotRegistered prog vers) else Ok (ucast port), s')"
    unfolding getport_def
    by (rule proto_call_answer [OF assms [folded PMAP_PROGRAM_def PMAP_VERSION2_def
          PMAPPROC_GETPORT_def]])
  show "unat port < 2 ^ 16 \<longrightarrow> unat (ucast port :: u16) = unat port"
    by (simp add: unsigned_ucast_eq take_bit_nat_eq_self)
qed

theorem getport_answer_example:
  "\<exists>s'. getport 100005 3 6 (ex_client Udp, ex_served (ex_client Udp) (w4 635)) = Some (Ok 635, s')"
proof -
  have e: "encode_Mapping \<lparr>map_prog = 100005, map_vers = 3, map_prot = 6, map_port = 0\<rparr> []
      = Ok (w4 100005 @ w4 3 @ w4 6 @ w4 0)"
    by (simp add: encode_Mapping_def enc_eval)
  from ex_exchange [OF xdr_encoder_Mapping e, where prog = 100000 and vers = 2 and proc = 3
      and p = Udp and body = "w4 635"]
  obtain s' where "rpc_exchange 100000 2 3
      (encode_Mapping \<lparr>map_prog = 100005, map_vers = 3, map_prot = 6, map_port = 0\<rparr>)
      (ex_client Udp, ex_served (ex_client Udp) (w4 635)) = Some (Ok (w4 635), s')" by auto
  from getport_answer [OF this] show ?thesis by simp
qed

end
