(* ===== verification/NLM.thy ===== *)
theory NLM
  imports Proto_Base
begin

text \<open>
  The lock protocols: the Network Lock Manager v4 client (\<open>nfs-proto/src/nlm.rs\<close>) and the
  status monitor client (\<open>nfs-proto/src/nsm.rs\<close>). Their arguments are only encoded and
  their results only decoded; the lemmas relate them to the encodings of the other side.
\<close>

subsection \<open>NLM (nlm.rs)\<close>

definition NLM_PROGRAM :: u32 where "NLM_PROGRAM = 100021"
definition NLM_VERSION4 :: u32 where "NLM_VERSION4 = 4"
definition NLMPROC4_TEST :: u32 where "NLMPROC4_TEST = 1"
definition NLMPROC4_LOCK :: u32 where "NLMPROC4_LOCK = 2"
definition NLMPROC4_CANCEL :: u32 where "NLMPROC4_CANCEL = 3"
definition NLMPROC4_UNLOCK :: u32 where "NLMPROC4_UNLOCK = 4"
definition NLM4_GRANTED :: u32 where "NLM4_GRANTED = 0"
definition NLM4_DENIED :: u32 where "NLM4_DENIED = 1"

record Nlm4Lock =
  caller_name :: string
  lk_fh :: bytes
  lk_oh :: bytes
  lk_svid :: i32
  lk_offset :: u64
  lk_len :: u64

definition encode_Nlm4Lock :: "Nlm4Lock encoder" where
  "encode_Nlm4Lock l = struct_encode
     [encode_String (caller_name l), encode_Bytes (lk_fh l), encode_Bytes (lk_oh l),
      encode_i32 (lk_svid l), encode_u64 (lk_offset l), encode_u64 (lk_len l)]"

record Nlm4LockArgs =
  la_cookie :: bytes
  la_block :: bool
  la_exclusive :: bool
  la_lock :: Nlm4Lock
  la_reclaim :: bool
  la_state :: i32

definition encode_Nlm4LockArgs :: "Nlm4LockArgs encoder" where
  "encode_Nlm4LockArgs a = struct_encode
     [encode_Bytes (la_cookie a), encode_bool (la_block a), encode_bool (la_exclusive a),
      encode_Nlm4Lock (la_lock a), encode_bool (la_reclaim a), encode_i32 (la_state a)]"

record Nlm4UnlockArgs =
  ua_cookie :: bytes
  ua_lock :: Nlm4Lock

definition encode_Nlm4UnlockArgs :: "Nlm4UnlockArgs encoder" where
  "encode_Nlm4UnlockArgs a = struct_encode [encode_Bytes (ua_cookie a), encode_Nlm4Lock (ua_lock a)]"

record Nlm4CancelArgs =
  ca_cookie :: bytes
  ca_block :: bool
  ca_exclusive :: bool
  ca_lock :: Nlm4Lock

definition encode_Nlm4CancelArgs :: "Nlm4CancelArgs encoder" where
  "encode_Nlm4CancelArgs a = struct_encode
     [encode_Bytes (ca_cookie a), encode_bool (ca_block a), encode_bool (ca_exclusive a),
      encode_Nlm4Lock (ca_lock a)]"

record Nlm4TestArgs =
  ta_cookie :: bytes
  ta_exclusive :: bool
  ta_lock :: Nlm4Lock

definition encode_Nlm4TestArgs :: "Nlm4TestArgs encoder" where
  "encode_Nlm4TestArgs a = struct_encode
     [encode_Bytes (ta_cookie a), encode_bool (ta_exclusive a), encode_Nlm4Lock (ta_lock a)]"

record Nlm4Res =
  nr_cookie :: bytes
  nr_stat :: u32

definition decode_Nlm4Res :: "Nlm4Res decoder" where
  "decode_Nlm4Res = dec_bind decode_Bytes (\<lambda>cookie. dec_bind decode_u32 (\<lambda>stat.
     dec_return \<lparr>nr_cookie = cookie, nr_stat = stat\<rparr>))"

record Nlm4Holder =
  ho_exclusive :: bool
  ho_svid :: i32
  ho_offset :: u64
  ho_len :: u64

datatype TestResult = Granted | Denied Nlm4Holder | Other u32

definition decode_TestResult :: "TestResult decoder" where
  "decode_TestResult =
     dec_bind decode_Bytes (\<lambda>cookie. dec_bind decode_u32 (\<lambda>stat.
     if stat = NLM4_GRANTED then dec_return Granted
     else if stat = NLM4_DENIED then
       dec_bind decode_bool (\<lambda>exclusive. dec_bind decode_i32 (\<lambda>svid.
       dec_bind decode_Bytes (\<lambda>oh. dec_bind decode_u64 (\<lambda>offset.
       dec_bind decode_u64 (\<lambda>len.
       dec_return (Denied \<lparr>ho_exclusive = exclusive, ho_svid = svid, ho_offset = offset,
         ho_len = len\<rparr>))))))
     else dec_return (Other stat)))"

definition cookie :: bytes where
  "cookie = [0, 0, 0, 0]"

definition stat_to_result :: "u32 \<Rightarrow> (unit, ProtoError) result" where
  "stat_to_result stat = (if stat = NLM4_GRANTED then Ok () else Err (PE_Nlm stat))"

definition nlm_lock ::
  "string \<Rightarrow> bytes \<Rightarrow> bytes \<Rightarrow> i32 \<Rightarrow> u64 \<Rightarrow> u64 \<Rightarrow> bool \<Rightarrow> unit proto_op" where
  "nlm_lock caller fh owner svid offset len exclusive =
     proto_call NLM_PROGRAM NLM_VERSION4 NLMPROC4_LOCK
       (encode_Nlm4LockArgs \<lparr>la_cookie = cookie, la_block = False, la_exclusive = exclusive,
          la_lock = \<lparr>caller_name = caller, lk_fh = fh, lk_oh = owner, lk_svid = svid,
            lk_offset = offset, lk_len = len\<rparr>,
          la_reclaim = False, la_state = 0\<rparr>)
       decode_Nlm4Res (\<lambda>res. stat_to_result (nr_stat res))"

definition nlm_unlock :: "string \<Rightarrow> bytes \<Rightarrow> bytes \<Rightarrow> i32 \<Rightarrow> u64 \<Rightarrow> u64 \<Rightarrow> unit proto_op" where
  "nlm_unlock caller fh owner svid offset len =
     proto_call NLM_PROGRAM NLM_VERSION4 NLMPROC4_UNLOCK
       (encode_Nlm4UnlockArgs \<lparr>ua_cookie = cookie,
          ua_lock = \<lparr>caller_name = caller, lk_fh = fh, lk_oh = owner, lk_svid = svid,
            lk_offset = offset, lk_len = len\<rparr>\<rparr>)
       decode_Nlm4Res (\<lambda>res. stat_to_result (nr_stat res))"

definition nlm_cancel ::
  "string \<Rightarrow> bytes \<Rightarrow> bytes \<Rightarrow> i32 \<Rightarrow> u64 \<Rightarrow> u64 \<Rightarrow> bool \<Rightarrow> unit proto_op" where
  "nlm_cancel caller fh owner svid offset len exclusive =
     proto_call NLM_PROGRAM NLM_VERSION4 NLMPROC4_CANCEL
       (encode_Nlm4CancelArgs \<lparr>ca_cookie = cookie, ca_block = False, ca_exclusive = exclusive,
          ca_lock = \<lparr>caller_name = caller, lk_fh = fh, lk_oh = owner, lk_svid = svid,
            lk_offset = offset, lk_len = len\<rparr>\<rparr>)
       decode_Nlm4Res (\<lambda>res. stat_to_result (nr_stat res))"

definition nlm_test ::
  "string \<Rightarrow> bytes \<Rightarrow> bytes \<Rightarrow> i32 \<Rightarrow> u64 \<Rightarrow> u64 \<Rightarrow> bool \<Rightarrow> TestResult proto_op" where
  "nlm_test caller fh owner svid offset len exclusive =
     proto_call NLM_PROGRAM NLM_VERSION4 NLMPROC4_TEST
       (encode_Nlm4TestArgs \<lparr>ta_cookie = cookie, ta_exclusive = exclusive,
          ta_lock = \<lparr>caller_name = caller, lk_fh = fh, lk_oh = owner, lk_svid = svid,
            lk_offset = offset, lk_len = len\<rparr>\<rparr>)
       decode_TestResult Ok"

subsection \<open>NSM (nsm.rs)\<close>

definition NSM_PROGRAM :: u32 where "NSM_PROGRAM = 100024"
definition NSM_VERSION1 :: u32 where "NSM_VERSION1 = 1"
definition SM_STAT :: u32 where "SM_STAT = 1"
definition SM_MON :: u32 where "SM_MON = 2"
definition SM_UNMON :: u32 where "SM_UNMON = 3"

record MyId =
  my_name :: string
  my_prog :: i32
  my_vers :: i32
  my_proc :: i32

record MonId =
  mon_name :: string
  my_id :: MyId

record MonArgs =
  mon_id :: MonId
  priv :: bytes

record SmStatRes =
  res_stat :: u32
  sm_state :: i32

definition encode_MyId :: "MyId encoder" where
  "encode_MyId m = struct_encode
     [encode_String (my_name m), encode_i32 (my_prog m), encode_i32 (my_vers m),
      encode_i32 (my_proc m)]"

definition encode_MonId :: "MonId encoder" where
  "encode_MonId m = struct_encode [encode_String (mon_name m), encode_MyId (my_id m)]"

definition encode_MonArgs :: "MonArgs encoder" where
  "encode_MonArgs a = struct_encode [encode_MonId (mon_id a), encode_fixed (priv a)]"

definition encode_SmName :: "string encoder" where
  "encode_SmName name = struct_encode [encode_String name]"

definition decode_SmStatRes :: "SmStatRes decoder" where
  "decode_SmStatRes = dec_bind decode_u32 (\<lambda>rs. dec_bind decode_i32 (\<lambda>st.
     dec_return \<lparr>res_stat = rs, sm_state = st\<rparr>))"

definition mon ::
  "string \<Rightarrow> string \<Rightarrow> i32 \<Rightarrow> i32 \<Rightarrow> i32 \<Rightarrow> bytes \<Rightarrow> SmStatRes proto_op" where
  "mon mname mine prog vers proc private =
     proto_call NSM_PROGRAM NSM_VERSION1 SM_MON
       (encode_MonArgs \<lparr>mon_id = \<lparr>mon_name = mname, my_id = \<lparr>my_name = mine, my_prog = prog,
          my_vers = vers, my_proc = proc\<rparr>\<rparr>, priv = private\<rparr>)
       decode_SmStatRes Ok"

definition unmon :: "string \<Rightarrow> string \<Rightarrow> i32 \<Rightarrow> i32 \<Rightarrow> i32 \<Rightarrow> i32 proto_op" where
  "unmon mname mine prog vers proc =
     proto_call NSM_PROGRAM NSM_VERSION1 SM_UNMON
       (encode_MonId \<lparr>mon_name = mname, my_id = \<lparr>my_name = mine, my_prog = prog,
          my_vers = vers, my_proc = proc\<rparr>\<rparr>)
       decode_i32 Ok"

definition nsm_stat :: "string \<Rightarrow> SmStatRes proto_op" where
  "nsm_stat mname =
     proto_call NSM_PROGRAM NSM_VERSION1 SM_STAT (encode_SmName mname) decode_SmStatRes Ok"

subsection \<open>The server's side\<close>

definition decode_Nlm4Lock :: "Nlm4Lock decoder" where
  "decode_Nlm4Lock =
     dec_bind decode_String (\<lambda>caller. dec_bind decode_Bytes (\<lambda>fh. dec_bind decode_Bytes (\<lambda>oh.
     dec_bind decode_i32 (\<lambda>svid. dec_bind decode_u64 (\<lambda>offset. dec_bind decode_u64 (\<lambda>len.
     dec_return \<lparr>caller_name = caller, lk_fh = fh, lk_oh = oh, lk_svid = svid,
       lk_offset = offset, lk_len = len\<rparr>))))))"

definition decode_Nlm4LockArgs :: "Nlm4LockArgs decoder" where
  "decode_Nlm4LockArgs =
     dec_bind decode_Bytes (\<lambda>ck. dec_bind decode_bool (\<lambda>block. dec_bind decode_bool (\<lambda>exclusive.
     dec_bind decode_Nlm4Lock (\<lambda>lock. dec_bind decode_bool (\<lambda>reclaim. dec_bind decode_i32 (\<lambda>state.
     dec_return \<lparr>la_cookie = ck, la_block = block, la_exclusive = exclusive, la_lock = lock,
       la_reclaim = reclaim, la_state = state\<rparr>))))))"

definition encode_Nlm4Res :: "Nlm4Res encoder" where
  "encode_Nlm4Res r = struct_encode [encode_Bytes (nr_cookie r), encode_u32 (nr_stat r)]"

fun encode_TestResult :: "bytes \<Rightarrow> bytes \<Rightarrow> TestResult encoder" where
  "encode_TestResult ck oh Granted = struct_encode [encode_Bytes ck, encode_u32 0]"
| "encode_TestResult ck oh (Denied h) = struct_encode
     [encode_Bytes ck, encode_u32 1, encode_bool (ho_exclusive h), encode_i32 (ho_svid h),
      encode_Bytes oh, encode_u64 (ho_offset h), encode_u64 (ho_len h)]"
| "encode_TestResult ck oh (Other stat) = struct_encode [encode_Bytes ck, encode_u32 stat]"

subsection \<open>The codecs\<close>

lemma xdr_encoder_nlm [xdr_enc]:
  "xdr_encoder (encode_Nlm4Lock l)" "xdr_encoder (encode_Nlm4LockArgs a)"
  "xdr_encoder (encode_Nlm4UnlockArgs u)" "xdr_encoder (encode_Nlm4CancelArgs k)"
  "xdr_encoder (encode_Nlm4TestArgs t)" "xdr_encoder (encode_Nlm4Res r)"
  unfolding encode_Nlm4Lock_def encode_Nlm4LockArgs_def encode_Nlm4UnlockArgs_def
    encode_Nlm4CancelArgs_def encode_Nlm4TestArgs_def encode_Nlm4Res_def
  by (intro xdr_enc)+

lemma xdr_encoder_TestResult [xdr_enc]: "xdr_encoder (encode_TestResult ck oh r)"
  by (cases r) (auto intro!: xdr_enc)

lemma xdr_encoder_nsm [xdr_enc]:
  "xdr_encoder (encode_MyId m)" "xdr_encoder (encode_MonId i)" "xdr_encoder (encode_MonArgs a)"
  "xdr_encoder (encode_SmName n)"
  unfolding encode_MyId_def encode_MonId_def encode_MonArgs_def encode_SmName_def
  by (intro xdr_enc)+

lemma xdr_decoder_nlm [xdr_dec]:
  "xdr_decoder decode_Nlm4Res" "xdr_decoder decode_TestResult" "xdr_decoder decode_Nlm4Lock"
  "xdr_decoder decode_Nlm4LockArgs" "xdr_decoder decode_SmStatRes"
  unfolding decode_Nlm4Res_def decode_TestResult_def decode_Nlm4Lock_def decode_Nlm4LockArgs_def
    decode_SmStatRes_def
  by (intro xdr_dec)+

lemma wire_rt_Nlm4Lock [xdr_rt]:
  "valid_string (caller_name l) \<Longrightarrow> wire_rt (encode_Nlm4Lock l) decode_Nlm4Lock l"
  unfolding encode_Nlm4Lock_def decode_Nlm4Lock_def by (rule xdr_rt xdr_enc | simp)+

lemma wire_rt_Nlm4LockArgs [xdr_rt]:
  "valid_string (caller_name (la_lock a)) \<Longrightarrow>
    wire_rt (encode_Nlm4LockArgs a) decode_Nlm4LockArgs a"
  unfolding encode_Nlm4LockArgs_def decode_Nlm4LockArgs_def by (rule xdr_rt xdr_enc | simp)+

lemma wire_rt_Nlm4Res [xdr_rt]: "wire_rt (encode_Nlm4Res r) decode_Nlm4Res r"
  unfolding encode_Nlm4Res_def decode_Nlm4Res_def by (rule xdr_rt xdr_enc | simp)+

definition test_result_ok :: "TestResult \<Rightarrow> bool" where
  "test_result_ok r \<longleftrightarrow> (case r of Other stat \<Rightarrow> stat \<noteq> 0 \<and> stat \<noteq> 1 | _ \<Rightarrow> True)"

lemma wire_rt_TestResult [xdr_rt]:
  "test_result_ok r \<Longrightarrow> wire_rt (encode_TestResult ck oh r) decode_TestResult r"
  unfolding decode_TestResult_def NLM4_GRANTED_def NLM4_DENIED_def test_result_ok_def
  by (cases r; simp only: encode_TestResult.simps TestResult.case; (rule xdr_rt xdr_enc refl | simp)+)

interpretation Nlm4LockArgs_codec: xdr_codec decode_Nlm4LockArgs encode_Nlm4LockArgs
    "\<lambda>a. valid_string (caller_name (la_lock a))"
  by (rule xdr_codecI; intro xdr_dec xdr_enc xdr_rt)

interpretation TestResult_codec: xdr_codec decode_TestResult "encode_TestResult ck oh"
    test_result_ok for ck oh
  by (rule xdr_codecI; intro xdr_dec xdr_enc xdr_rt)

end
