(* ===== verification/Rquota.thy ===== *)
theory Rquota
  imports Proto_Base
begin

text \<open>The remote quota client (\<open>nfs-proto/src/rquota.rs\<close>).\<close>

subsection \<open>Definitions\<close>

definition RQUOTA_PROGRAM :: u32 where "RQUOTA_PROGRAM = 100011"
definition RQUOTA_VERSION1 :: u32 where "RQUOTA_VERSION1 = 1"
definition RQUOTAPROC_GETQUOTA :: u32 where "RQUOTAPROC_GETQUOTA = 1"
definition RQUOTAPROC_GETACTIVEQUOTA :: u32 where "RQUOTAPROC_GETACTIVEQUOTA = 2"
definition Q_OK :: u32 where "Q_OK = 1"

record GetquotaArgs =
  qa_path :: string
  qa_uid :: i32

definition encode_GetquotaArgs :: "GetquotaArgs encoder" where
  "encode_GetquotaArgs a = struct_encode [encode_String (qa_path a), encode_i32 (qa_uid a)]"

record Rquota =
  q_bsize :: i32
  q_active :: bool
  q_bhardlimit :: u32
  q_bsoftlimit :: u32
  q_curblocks :: u32
  q_fhardlimit :: u32
  q_fsoftlimit :: u32
  q_curfiles :: u32
  q_btimeleft :: u32
  q_ftimeleft :: u32

definition decode_Rquota :: "Rquota decoder" where
  "decode_Rquota =
     dec_bind decode_i32 (\<lambda>bsize. dec_bind decode_bool (\<lambda>active.
     dec_bind decode_u32 (\<lambda>bhard. dec_bind decode_u32 (\<lambda>bsoft. dec_bind decode_u32 (\<lambda>curb.
     dec_bind decode_u32 (\<lambda>fhard. dec_bind decode_u32 (\<lambda>fsoft. dec_bind decode_u32 (\<lambda>curf.
     dec_bind decode_u32 (\<lambda>btime. dec_bind decode_u32 (\<lambda>ftime.
     dec_return \<lparr>q_bsize = bsize, q_active = active, q_bhardlimit = bhard, q_bsoftlimit = bsoft,
       q_curblocks = curb, q_fhardlimit = fhard, q_fsoftlimit = fsoft, q_curfiles = curf,
       q_btimeleft = btime, q_ftimeleft = ftime\<rparr>))))))))))"

datatype GetquotaResult = Quota_Ok Rquota | Quota_Status u32

definition decode_GetquotaResult :: "GetquotaResult decoder" where
  "decode_GetquotaResult = dec_bind decode_u32 (\<lambda>status.
     if status = Q_OK then dec_bind decode_Rquota (\<lambda>q. dec_return (Quota_Ok q))
     else dec_return (Quota_Status status))"

definition quota_result :: "GetquotaResult \<Rightarrow> (Rquota, ProtoError) result" where
  "quota_result r = (case r of Quota_Ok q \<Rightarrow> Ok q | Quota_Status s \<Rightarrow> Err (PE_Rquota s))"

definition getquota :: "string \<Rightarrow> i32 \<Rightarrow> Rquota proto_op" where
  "getquota path uid = proto_call RQUOTA_PROGRAM RQUOTA_VERSION1 RQUOTAPROC_GETQUOTA
     (encode_GetquotaArgs \<lparr>qa_path = path, qa_uid = uid\<rparr>) decode_GetquotaResult quota_result"

definition getactivequota :: "string \<Rightarrow> i32 \<Rightarrow> Rquota proto_op" where
  "getactivequota path uid = proto_call RQUOTA_PROGRAM RQUOTA_VERSION1 RQUOTAPROC_GETACTIVEQUOTA
     (encode_GetquotaArgs \<lparr>qa_path = path, qa_uid = uid\<rparr>) decode_GetquotaResult quota_result"

subsection \<open>The server's side and the codec\<close>

definition encode_Rquota :: "Rquota encoder" where
  "encode_Rquota q = struct_encode
     [encode_i32 (q_bsize q), encode_bool (q_active q), encode_u32 (q_bhardlimit q),
      encode_u32 (q_bsoftlimit q), encode_u32 (q_curblocks q), encode_u32 (q_fhardlimit q),
      encode_u32 (q_fsoftlimit q), encode_u32 (q_curfiles q), encode_u32 (q_btimeleft q),
      encode_u32 (q_ftimeleft q)]"

fun encode_GetquotaResult :: "GetquotaResult encoder" where
  "encode_GetquotaResult (Quota_Ok q) = enc_seq (encode_u32 1) (encode_Rquota q)"
| "encode_GetquotaResult (Quota_Status s) = encode_u32 s"

definition quota_ok :: "GetquotaResult \<Rightarrow> bool" where
  "quota_ok r \<longleftrightarrow> (case r of Quota_Ok q \<Rightarrow> True | Quota_Status s \<Rightarrow> s \<noteq> 1)"

lemma xdr_rquota [xdr_dec]: "xdr_decoder decode_Rquota" "xdr_decoder decode_GetquotaResult"
  unfolding decode_GetquotaResult_def decode_Rquota_def by (intro xdr_dec)+

lemma xdr_encoder_rquota [xdr_enc]:
  "xdr_encoder (encode_GetquotaArgs a)" "xdr_encoder (encode_Rquota q)"
  unfolding encode_GetquotaArgs_def encode_Rquota_def by (intro xdr_enc)+

lemma xdr_encoder_GetquotaResult [xdr_enc]: "xdr_encoder (encode_GetquotaResult r)"
  by (cases r) (auto intro!: xdr_enc)

lemma wire_rt_Rquota [xdr_rt]: "wire_rt (encode_Rquota q) decode_Rquota q"
  unfolding encode_Rquota_def decode_Rquota_def by (rule xdr_rt xdr_enc | simp)+

lemma wire_rt_GetquotaResult [xdr_rt]:
  "quota_ok r \<Longrightarrow> wire_rt (encode_GetquotaResult r) decode_GetquotaResult r"
proof (cases r)
  case (Quota_Ok q)
  show ?thesis
    unfolding Quota_Ok encode_GetquotaResult.simps decode_GetquotaResult_def Q_OK_def
    by (rule wire_rt_seq [OF wire_rt_words(1)]) (auto intro!: xdr_enc wire_rt_map [OF wire_rt_Rquota])
next
  case (Quota_Status s)
  assume "quota_ok r"
  with Quota_Status show ?thesis
    by (auto simp: quota_ok_def decode_GetquotaResult_def Q_OK_def wire_rt_def dec_bind_def
        dec_return_def encode_u32_def put_word_def)
qed

interpretation GetquotaResult_codec: xdr_codec decode_GetquotaResult encode_GetquotaResult quota_ok
  by (rule xdr_codecI; intro xdr_dec xdr_enc xdr_rt)

end
