(* ===== verification/Services_Server.thy ===== *)
theory Services_Server
  imports Portmap Mount NLM Rquota Proto_Server
begin

text \<open>
  The services beside NFS (\<open>portmap.rs\<close>, \<open>mount.rs\<close>, \<open>nlm.rs\<close>, \<open>nsm.rs\<close>, \<open>rquota.rs\<close> of \<open>nfs-proto\<close>) from the
  side of their servers: the requests of RFC 1833, RFC 1813 and the lock, status and quota protocols, and the
  property that every procedure of the clients transmits the request it stands for.
\<close>

subsection \<open>Requests\<close>

datatype service_request =
    Pm_Getport u32 u32 u32
  | Pm_Dump
  | Mnt_Mnt string
  | Mnt_Umnt string
  | Mnt_Export
  | Mnt_Dump
  | Lm_Lock bool Nlm4Lock
  | Lm_Unlock Nlm4Lock
  | Lm_Cancel bool Nlm4Lock
  | Lm_Test bool Nlm4Lock
  | Sm_Mon MonArgs
  | Sm_Unmon MonId
  | Sm_Stat string
  | Rq_Getquota string i32
  | Rq_Getactivequota string i32

text \<open>The procedure of the client that makes the request.\<close>

fun run_service :: "service_request \<Rightarrow> unit proto_op" where
  "run_service (Pm_Getport prog vers prot) = op_void (getport prog vers prot)"
| "run_service Pm_Dump = op_void portmap_dump"
| "run_service (Mnt_Mnt path) = op_void (mnt path)"
| "run_service (Mnt_Umnt path) = op_void (umnt path)"
| "run_service Mnt_Export = op_void mount_export"
| "run_service Mnt_Dump = op_void mount_dump"
| "run_service (Lm_Lock excl l) =
     op_void (nlm_lock (caller_name l) (lk_fh l) (lk_oh l) (lk_svid l) (lk_offset l) (lk_len l) excl)"
| "run_service (Lm_Unlock l) =
     op_void (nlm_unlock (caller_name l) (lk_fh l) (lk_oh l) (lk_svid l) (lk_offset l) (lk_len l))"
| "run_service (Lm_Cancel excl l) =
     op_void (nlm_cancel (caller_name l) (lk_fh l) (lk_oh l) (lk_svid l) (lk_offset l) (lk_len l) excl)"
| "run_service (Lm_Test excl l) =
     op_void (nlm_test (caller_name l) (lk_fh l) (lk_oh l) (lk_svid l) (lk_offset l) (lk_len l) excl)"
| "run_service (Sm_Mon a) = op_void (mon (mon_name (mon_id a)) (my_name (my_id (mon_id a)))
     (my_prog (my_id (mon_id a))) (my_vers (my_id (mon_id a))) (my_proc (my_id (mon_id a))) (priv a))"
| "run_service (Sm_Unmon m) =
     op_void (unmon (mon_name m) (my_name (my_id m)) (my_prog (my_id m)) (my_vers (my_id m)) (my_proc (my_id m)))"
| "run_service (Sm_Stat name) = op_void (nsm_stat name)"
| "run_service (Rq_Getquota path uid) = op_void (getquota path uid)"
| "run_service (Rq_Getactivequota path uid) = op_void (getactivequota path uid)"

subsection \<open>The decoders of the servers\<close>

text \<open>A lock is asked for without blocking and is no reclaim; other requests are not of this client.\<close>

definition decode_Nlm4UnlockArgs :: "Nlm4UnlockArgs decoder" where
  "decode_Nlm4UnlockArgs = dec_bind decode_Bytes (\<lambda>ck. dec_bind decode_Nlm4Lock (\<lambda>lock.
     dec_return \<lparr>ua_cookie = ck, ua_lock = lock\<rparr>))"

definition decode_Nlm4CancelArgs :: "Nlm4CancelArgs decoder" where
  "decode_Nlm4CancelArgs =
     dec_bind decode_Bytes (\<lambda>ck. dec_bind decode_bool (\<lambda>block. dec_bind decode_bool (\<lambda>exclusive.
     dec_bind decode_Nlm4Lock (\<lambda>lock.
     dec_return \<lparr>ca_cookie = ck, ca_block = block, ca_exclusive = exclusive, ca_lock = lock\<rparr>))))"

definition decode_Nlm4TestArgs :: "Nlm4TestArgs decoder" where
  "decode_Nlm4TestArgs = dec_bind decode_Bytes (\<lambda>ck. dec_bind decode_bool (\<lambda>exclusive.
     dec_bind decode_Nlm4Lock (\<lambda>lock. dec_return \<lparr>ta_cookie = ck, ta_exclusive = exclusive, ta_lock = lock\<rparr>)))"

definition decode_MyId :: "MyId decoder" where
  "decode_MyId = dec_bind decode_String (\<lambda>name. dec_bind decode_i32 (\<lambda>prog. dec_bind decode_i32 (\<lambda>vers.
     dec_bind decode_i32 (\<lambda>proc.
     dec_return \<lparr>my_name = name, my_prog = prog, my_vers = vers, my_proc = proc\<rparr>))))"

definition decode_MonId :: "MonId decoder" where
  "decode_MonId = dec_bind decode_String (\<lambda>name. dec_bind decode_MyId (\<lambda>me.
     dec_return \<lparr>mon_name = name, my_id = me\<rparr>))"

definition decode_MonArgs :: "MonArgs decoder" where
  "decode_MonArgs = dec_bind decode_MonId (\<lambda>m. dec_bind (decode_fixed 16) (\<lambda>private.
     dec_return \<lparr>mon_id = m, priv = private\<rparr>))"

definition decode_GetquotaArgs :: "GetquotaArgs decoder" where
  "decode_GetquotaArgs = dec_bind decode_String (\<lambda>path. dec_bind decode_i32 (\<lambda>uid.
     dec_return \<lparr>qa_path = path, qa_uid = uid\<rparr>))"

definition service_arms :: "service_request arms" where
  "service_arms =
     [((100000, 2, 3), read_as decode_Mapping (\<lambda>m. Pm_Getport (map_prog m) (map_vers m) (map_prot m))),
      ((100000, 2, 4), dec_return Pm_Dump),
      ((100005, 3, 1), read_as decode_String Mnt_Mnt),
      ((100005, 3, 2), dec_return Mnt_Dump),
      ((100005, 3, 3), read_as decode_String Mnt_Umnt),
      ((100005, 3, 5), dec_return Mnt_Export),
      ((100021, 4, 1), read_as decode_Nlm4TestArgs (\<lambda>a. Lm_Test (ta_exclusive a) (ta_lock a))),
      ((100021, 4, 2), dec_bind decode_Nlm4LockArgs (\<lambda>a.
         if la_block a \<or> la_reclaim a then dec_fail (InvalidBool 1)
         else dec_return (Lm_Lock (la_exclusive a) (la_lock a)))),
      ((100021, 4, 3), dec_bind decode_Nlm4CancelArgs (\<lambda>a.
         if ca_block a then dec_fail (InvalidBool 1) else dec_return (Lm_Cancel (ca_exclusive a) (ca_lock a)))),
      ((100021, 4, 4), read_as decode_Nlm4UnlockArgs (\<lambda>a. Lm_Unlock (ua_lock a))),
      ((100024, 1, 1), read_as decode_String Sm_Stat),
      ((100024, 1, 2), read_as decode_MonArgs Sm_Mon),
      ((100024, 1, 3), read_as decode_MonId Sm_Unmon),
      ((100011, 1, 1), read_as decode_GetquotaArgs (\<lambda>a. Rq_Getquota (qa_path a) (qa_uid a))),
      ((100011, 1, 2), read_as decode_GetquotaArgs (\<lambda>a. Rq_Getactivequota (qa_path a) (qa_uid a)))]"

text \<open>The requests that can be made in Rust: strings are UTF-8, the private data of a monitor has 16 bytes.\<close>

definition ok_monid :: "MonId \<Rightarrow> bool" where
  "ok_monid m \<longleftrightarrow> valid_string (mon_name m) \<and> valid_string (my_name (my_id m))"

fun ok_service :: "service_request \<Rightarrow> bool" where
  "ok_service (Mnt_Mnt path) = valid_string path"
| "ok_service (Mnt_Umnt path) = valid_string path"
| "ok_service (Lm_Lock excl l) = valid_string (caller_name l)"
| "ok_service (Lm_Unlock l) = valid_string (caller_name l)"
| "ok_service (Lm_Cancel excl l) = valid_string (caller_name l)"
| "ok_service (Lm_Test excl l) = valid_string (caller_name l)"
| "ok_service (Sm_Mon a) = (ok_monid (mon_id a) \<and> length (priv a) = 16)"
| "ok_service (Sm_Unmon m) = ok_monid m"
| "ok_service (Sm_Stat name) = valid_string name"
| "ok_service (Rq_Getquota path uid) = valid_string path"
| "ok_service (Rq_Getactivequota path uid) = valid_string path"
| "ok_service _ = True"

subsection \<open>The codecs\<close>

lemma wire_rt_nlm_args [xdr_rt]:
  "valid_string (caller_name (ua_lock u)) \<Longrightarrow> wire_rt (encode_Nlm4UnlockArgs u) decode_Nlm4UnlockArgs u"
  "valid_string (caller_name (ca_lock k)) \<Longrightarrow> wire_rt (encode_Nlm4CancelArgs k) decode_Nlm4CancelArgs k"
  "valid_string (caller_name (ta_lock t)) \<Longrightarrow> wire_rt (encode_Nlm4TestArgs t) decode_Nlm4TestArgs t"
  unfolding encode_Nlm4UnlockArgs_def decode_Nlm4UnlockArgs_def encode_Nlm4CancelArgs_def decode_Nlm4CancelArgs_def
    encode_Nlm4TestArgs_def decode_Nlm4TestArgs_def
  by (rule xdr_rt xdr_enc | simp)+

lemma wire_rt_MyId [xdr_rt]: "valid_string (my_name m) \<Longrightarrow> wire_rt (encode_MyId m) decode_MyId m"
  unfolding encode_MyId_def decode_MyId_def by (rule xdr_rt xdr_enc | simp)+

lemma wire_rt_MonId [xdr_rt]: "ok_monid m \<Longrightarrow> wire_rt (encode_MonId m) decode_MonId m"
  unfolding encode_MonId_def decode_MonId_def ok_monid_def by (rule xdr_rt xdr_enc | simp)+

lemma wire_rt_MonArgs [xdr_rt]:
  "ok_monid (mon_id a) \<Longrightarrow> length (priv a) = 16 \<Longrightarrow> wire_rt (encode_MonArgs a) decode_MonArgs a"
  unfolding encode_MonArgs_def decode_MonArgs_def by (rule xdr_rt xdr_enc | simp)+

lemma wire_rt_GetquotaArgs [xdr_rt]:
  "valid_string (qa_path a) \<Longrightarrow> wire_rt (encode_GetquotaArgs a) decode_GetquotaArgs a"
  unfolding encode_GetquotaArgs_def decode_GetquotaArgs_def by (rule xdr_rt xdr_enc | simp)+


subsection \<open>The service\<close>

lemmas service_procs = PMAP_PROGRAM_def PMAP_VERSION2_def PMAPPROC_GETPORT_def PMAPPROC_DUMP_def MOUNT_PROGRAM_def
  MOUNT_VERSION3_def MOUNTPROC3_MNT_def MOUNTPROC3_DUMP_def MOUNTPROC3_UMNT_def MOUNTPROC3_EXPORT_def
  NLM_PROGRAM_def NLM_VERSION4_def NLMPROC4_TEST_def NLMPROC4_LOCK_def NLMPROC4_CANCEL_def NLMPROC4_UNLOCK_def
  NSM_PROGRAM_def NSM_VERSION1_def SM_STAT_def SM_MON_def SM_UNMON_def
  RQUOTA_PROGRAM_def RQUOTA_VERSION1_def RQUOTAPROC_GETQUOTA_def RQUOTAPROC_GETACTIVEQUOTA_def

lemmas service_procedures = getport_def portmap_dump_def mnt_def umnt_def mount_export_def mount_dump_def
  nlm_lock_def nlm_unlock_def nlm_cancel_def nlm_test_def mon_def unmon_def nsm_stat_def getquota_def
  getactivequota_def

lemma SmName_String: "encode_SmName name = encode_String name"
proof
  show "encode_SmName name buf = encode_String name buf" for buf
    by (cases "encode_String name buf") (simp_all add: encode_SmName_def enc_seq_def enc_done_def)
qed

lemma service_records:
  "\<lparr>caller_name = caller_name l, lk_fh = lk_fh l, lk_oh = lk_oh l, lk_svid = lk_svid l, lk_offset = lk_offset l,
     lk_len = lk_len l\<rparr> = l"
  "\<lparr>my_name = my_name i, my_prog = my_prog i, my_vers = my_vers i, my_proc = my_proc i\<rparr> = i"
  "\<lparr>mon_name = mon_name m, my_id = my_id m\<rparr> = m" "\<lparr>mon_id = mon_id a, priv = priv a\<rparr> = a"
  by simp_all

lemma run_service_transmits:
  assumes "ok_service req"
  shows "transmits service_arms (run_service req) req"
  using assms
proof (cases req)
  case Pm_Dump
  show ?thesis
    unfolding Pm_Dump run_service.simps service_procedures service_procs
    by (rule transmits_no_args) (simp add: service_arms_def)
next
  case Mnt_Dump
  show ?thesis
    unfolding Mnt_Dump run_service.simps service_procedures service_procs
    by (rule transmits_no_args) (simp add: service_arms_def)
next
  case Mnt_Export
  show ?thesis
    unfolding Mnt_Export run_service.simps service_procedures service_procs
    by (rule transmits_no_args) (simp add: service_arms_def)
qed (simp only: run_service.simps ok_service.simps service_procedures service_procs SmName_String
      service_records,
    rule transmits_then, rule xdr_enc, (simp add: service_arms_def; fail), rule xdr_rt, (simp add: ok_monid_def; fail)+)+


interpretation services: rpc_service "{(100000, 2), (100005, 3), (100021, 4), (100024, 1), (100011, 1)}"
    service_arms run_service ok_service
  by unfold_locales (rule run_service_transmits, assumption, auto simp: service_arms_def)

text \<open>
  C26: what the other servers receive. Every message that a procedure of the portmapper, mount, lock manager,
  status monitor or quota client transmits is read by the server as exactly the request the procedure was
  called for, with every argument and nothing after it, under the transaction id of the call and with the
  client's credential; locks are asked for without blocking and never as a reclaim.
\<close>

theorem service_requests_read:
  assumes "client_ok c" "ok_service req" "run_service req (c, n) = Some (r, c', n')"
  shows "\<exists>acts. net_log n' = net_log n @ acts \<and> (\<forall>bs. Sent bs \<in> set acts \<longrightarrow> (\<exists>message h. bs = wire c message \<and>
    read_call service_arms message = Some (h, req) \<and> ch_xid h = next_xid c \<and> ch_mtype h = 0 \<and> ch_rpcvers h = 2 \<and>
    ch_cred h = cred_auth (cred c) \<and>
    (ch_prog h, ch_vers h) \<in> {(100000, 2), (100005, 3), (100021, 4), (100024, 1), (100011, 1)}))"
  by (rule services.messages_read [OF assms])

theorem service_requests_read_example:
  "\<exists>r c' n' acts. run_service (Pm_Getport 100003 3 6) (ex_client Udp, ex_served (ex_client Udp) (w4 2049))
      = Some (r, c', n') \<and> net_log n' = acts \<and> (\<forall>bs. Sent bs \<in> set acts \<longrightarrow>
      (\<exists>h. read_call service_arms bs = Some (h, Pm_Getport 100003 3 6) \<and> ch_xid h = next_xid (ex_client Udp)))"
proof -
  let ?args = "encode_Mapping \<lparr>map_prog = 100003, map_vers = 3, map_prot = 6, map_port = 0\<rparr>"
    and ?n = "ex_served (ex_client Udp) (w4 2049)"
  have "\<exists>ab. ?args [] = Ok ab \<and> length ab \<le> 2 ^ 20" by (simp add: encode_Mapping_def enc_eval)
  with ex_exchange [OF xdr_encoder_Mapping, of _ _ "w4 2049" 100000 2 3 Udp]
  obtain c' n' where x: "rpc_exchange 100000 2 3 ?args (ex_client Udp, ?n) = Some (Ok (w4 2049), c', n')" by fastforce
  have "decode_u32 (w4 2049) = Ok (2049, [])"
    using wire_rt_words(1) [of 2049] unfolding wire_rt_def by (metis append_Nil2 encode_u32_def put_word_def append_Nil)
  then have "getport 100003 3 6 (ex_client Udp, ?n) = Some (Ok 2049, c', n')"
    by (simp add: getport_def service_procs proto_call_answer [where dec = decode_u32, OF x])
  then have run: "run_service (Pm_Getport 100003 3 6) (ex_client Udp, ?n) = Some (Ok (), c', n')"
    by (simp add: op_void_def op_lift_def)
  have "client_ok (ex_client Udp)" by (simp add: ex_client_def client_ok_def)
  from service_requests_read [OF this _ run] obtain acts where a: "net_log n' = net_log ?n @ acts"
    "\<forall>bs. Sent bs \<in> set acts \<longrightarrow> (\<exists>message h. bs = wire (ex_client Udp) message \<and>
      read_call service_arms message = Some (h, Pm_Getport 100003 3 6) \<and> ch_xid h = next_xid (ex_client Udp))"
    by fastforce
  then have "\<forall>bs. Sent bs \<in> set acts \<longrightarrow>
      (\<exists>h. read_call service_arms bs = Some (h, Pm_Getport 100003 3 6) \<and> ch_xid h = next_xid (ex_client Udp))"
    by (auto simp: wire_def ex_client_def)
  moreover have "net_log n' = acts" using a(1) by (simp add: ex_served_def)
  ultimately show ?thesis using run by blast
qed

end
