(* ===== verification/NFS4_Types.thy ===== *)
theory NFS4_Types
  imports Mount
begin

text \<open>
  The data of NFSv4 (\<open>nfs-proto/src/nfs4.rs\<close>): the constants of RFC 7530, the structures
  with their derived codecs, attribute bitmaps and the attribute list \<open>fattr4\<close>, and the
  positional reader of a \<open>COMPOUND\<close> answer. The second half states what a server does
  with them: a bitmap holds exactly the bits it was built from, an attribute list written in
  ascending order of its bits is read back, the attributes of \<open>SETATTR\<close> are what a server
  reads.
\<close>

subsection \<open>Constants\<close>

definition NFS4_PROGRAM :: u32 where "NFS4_PROGRAM = 100003"
definition NFS4_VERSION4 :: u32 where "NFS4_VERSION4 = 4"
definition COMPOUND_PROC :: u32 where "COMPOUND_PROC = 1"
definition OP_ACCESS :: u32 where "OP_ACCESS = 3"
definition OP_CLOSE :: u32 where "OP_CLOSE = 4"
definition OP_COMMIT :: u32 where "OP_COMMIT = 5"
definition OP_CREATE :: u32 where "OP_CREATE = 6"
definition OP_GETATTR :: u32 where "OP_GETATTR = 9"
definition OP_GETFH :: u32 where "OP_GETFH = 10"
definition OP_LINK :: u32 where "OP_LINK = 11"
definition OP_LOCK :: u32 where "OP_LOCK = 12"
definition OP_LOCKT :: u32 where "OP_LOCKT = 13"
definition OP_LOCKU :: u32 where "OP_LOCKU = 14"
definition OP_LOOKUP :: u32 where "OP_LOOKUP = 15"
definition OP_OPEN :: u32 where "OP_OPEN = 18"
definition OP_OPEN_CONFIRM :: u32 where "OP_OPEN_CONFIRM = 20"
definition OP_PUTFH :: u32 where "OP_PUTFH = 22"
definition OP_PUTROOTFH :: u32 where "OP_PUTROOTFH = 24"
definition OP_READ :: u32 where "OP_READ = 25"
definition OP_READDIR :: u32 where "OP_READDIR = 26"
definition OP_READLINK :: u32 where "OP_READLINK = 27"
definition OP_REMOVE :: u32 where "OP_REMOVE = 28"
definition OP_RENAME :: u32 where "OP_RENAME = 29"
definition OP_RENEW :: u32 where "OP_RENEW = 30"
definition OP_SAVEFH :: u32 where "OP_SAVEFH = 32"
definition OP_SETATTR :: u32 where "OP_SETATTR = 34"
definition OP_SETCLIENTID :: u32 where "OP_SETCLIENTID = 35"
definition OP_SETCLIENTID_CONFIRM :: u32 where "OP_SETCLIENTID_CONFIRM = 36"
definition OP_WRITE :: u32 where "OP_WRITE = 38"
definition OP_EXCHANGE_ID :: u32 where "OP_EXCHANGE_ID = 42"
definition OP_CREATE_SESSION :: u32 where "OP_CREATE_SESSION = 43"
definition OP_DESTROY_SESSION :: u32 where "OP_DESTROY_SESSION = 44"
definition OP_SEQUENCE :: u32 where "OP_SEQUENCE = 53"
definition OP_RECLAIM_COMPLETE :: u32 where "OP_RECLAIM_COMPLETE = 58"
definition NFS4_OK :: u32 where "NFS4_OK = 0"
definition NFS4ERR_NOENT :: u32 where "NFS4ERR_NOENT = 2"
definition NFS4ERR_ACCESS :: u32 where "NFS4ERR_ACCESS = 13"
definition NFS4ERR_EXIST :: u32 where "NFS4ERR_EXIST = 17"
definition NFS4ERR_NOTDIR :: u32 where "NFS4ERR_NOTDIR = 20"
definition NFS4ERR_INVAL :: u32 where "NFS4ERR_INVAL = 22"
definition NFS4ERR_NOTEMPTY :: u32 where "NFS4ERR_NOTEMPTY = 66"
definition NFS4ERR_STALE :: u32 where "NFS4ERR_STALE = 70"
definition NFS4ERR_GRACE :: u32 where "NFS4ERR_GRACE = 10013"
definition NFS4ERR_DELAY :: u32 where "NFS4ERR_DELAY = 10008"
definition NFS4ERR_STALE_CLIENTID :: u32 where "NFS4ERR_STALE_CLIENTID = 10022"
definition NFS4ERR_BAD_SEQID :: u32 where "NFS4ERR_BAD_SEQID = 10026"
definition NFS4ERR_DENIED :: u32 where "NFS4ERR_DENIED = 10010"
definition READ_LT :: u32 where "READ_LT = 1"
definition WRITE_LT :: u32 where "WRITE_LT = 2"
definition NF4REG :: u32 where "NF4REG = 1"
definition NF4DIR :: u32 where "NF4DIR = 2"
definition NF4LNK :: u32 where "NF4LNK = 5"
definition OPEN4_SHARE_ACCESS_READ :: u32 where "OPEN4_SHARE_ACCESS_READ = 1"
definition OPEN4_SHARE_ACCESS_WRITE :: u32 where "OPEN4_SHARE_ACCESS_WRITE = 2"
definition OPEN4_SHARE_ACCESS_BOTH :: u32 where "OPEN4_SHARE_ACCESS_BOTH = 3"
definition OPEN4_SHARE_DENY_NONE :: u32 where "OPEN4_SHARE_DENY_NONE = 0"
definition OPEN4_NOCREATE :: u32 where "OPEN4_NOCREATE = 0"
definition OPEN4_CREATE :: u32 where "OPEN4_CREATE = 1"
definition UNCHECKED4 :: u32 where "UNCHECKED4 = 0"
definition CLAIM_NULL :: u32 where "CLAIM_NULL = 0"
definition OPEN4_RESULT_CONFIRM :: u32 where "OPEN4_RESULT_CONFIRM = 0x00000002"
definition UNSTABLE4 :: u32 where "UNSTABLE4 = 0"
definition FILE_SYNC4 :: u32 where "FILE_SYNC4 = 2"
definition FATTR4_TYPE :: u32 where "FATTR4_TYPE = 1"
definition FATTR4_CHANGE :: u32 where "FATTR4_CHANGE = 3"
definition FATTR4_SIZE :: u32 where "FATTR4_SIZE = 4"
definition FATTR4_FSID :: u32 where "FATTR4_FSID = 8"
definition FATTR4_FILEID :: u32 where "FATTR4_FILEID = 20"
definition FATTR4_FILES_AVAIL :: u32 where "FATTR4_FILES_AVAIL = 21"
definition FATTR4_FILES_FREE :: u32 where "FATTR4_FILES_FREE = 22"
definition FATTR4_FILES_TOTAL :: u32 where "FATTR4_FILES_TOTAL = 23"
definition FATTR4_SPACE_AVAIL :: u32 where "FATTR4_SPACE_AVAIL = 42"
definition FATTR4_SPACE_FREE :: u32 where "FATTR4_SPACE_FREE = 43"
definition FATTR4_SPACE_TOTAL :: u32 where "FATTR4_SPACE_TOTAL = 44"
definition FATTR4_MODE :: u32 where "FATTR4_MODE = 33"
definition FATTR4_NUMLINKS :: u32 where "FATTR4_NUMLINKS = 35"
definition FATTR4_OWNER :: u32 where "FATTR4_OWNER = 36"
definition FATTR4_OWNER_GROUP :: u32 where "FATTR4_OWNER_GROUP = 37"
definition FATTR4_RAWDEV :: u32 where "FATTR4_RAWDEV = 41"
definition FATTR4_SPACE_USED :: u32 where "FATTR4_SPACE_USED = 45"
definition FATTR4_TIME_ACCESS :: u32 where "FATTR4_TIME_ACCESS = 47"
definition FATTR4_TIME_METADATA :: u32 where "FATTR4_TIME_METADATA = 52"
definition FATTR4_TIME_MODIFY :: u32 where "FATTR4_TIME_MODIFY = 53"

lemmas nfs4_ops =
  NFS4_PROGRAM_def NFS4_VERSION4_def OP_ACCESS_def OP_CLOSE_def OP_COMMIT_def OP_CREATE_def
  OP_GETATTR_def OP_GETFH_def OP_LINK_def OP_LOCK_def OP_LOCKT_def OP_LOCKU_def OP_LOOKUP_def
  OP_OPEN_def OP_OPEN_CONFIRM_def OP_PUTFH_def OP_PUTROOTFH_def OP_READ_def OP_READDIR_def
  OP_READLINK_def OP_REMOVE_def OP_RENAME_def OP_RENEW_def OP_SAVEFH_def OP_SETATTR_def
  OP_SETCLIENTID_def OP_SETCLIENTID_CONFIRM_def OP_WRITE_def OP_EXCHANGE_ID_def
  OP_CREATE_SESSION_def OP_DESTROY_SESSION_def OP_SEQUENCE_def OP_RECLAIM_COMPLETE_def NFS4_OK_def

lemmas nfs4_attrs =
  FATTR4_TYPE_def FATTR4_CHANGE_def FATTR4_SIZE_def FATTR4_FSID_def FATTR4_FILEID_def
  FATTR4_FILES_AVAIL_def FATTR4_FILES_FREE_def FATTR4_FILES_TOTAL_def FATTR4_SPACE_AVAIL_def
  FATTR4_SPACE_FREE_def FATTR4_SPACE_TOTAL_def FATTR4_MODE_def FATTR4_NUMLINKS_def
  FATTR4_OWNER_def FATTR4_OWNER_GROUP_def FATTR4_RAWDEV_def FATTR4_SPACE_USED_def
  FATTR4_TIME_ACCESS_def FATTR4_TIME_METADATA_def FATTR4_TIME_MODIFY_def

lemmas nfs4_consts =
  COMPOUND_PROC_def NFS4ERR_NOENT_def NFS4ERR_ACCESS_def NFS4ERR_EXIST_def NFS4ERR_NOTDIR_def
  NFS4ERR_INVAL_def NFS4ERR_NOTEMPTY_def NFS4ERR_STALE_def NFS4ERR_GRACE_def NFS4ERR_DELAY_def
  NFS4ERR_STALE_CLIENTID_def NFS4ERR_BAD_SEQID_def NFS4ERR_DENIED_def READ_LT_def WRITE_LT_def
  NF4REG_def NF4DIR_def NF4LNK_def OPEN4_SHARE_ACCESS_READ_def OPEN4_SHARE_ACCESS_WRITE_def
  OPEN4_SHARE_ACCESS_BOTH_def OPEN4_SHARE_DENY_NONE_def OPEN4_NOCREATE_def OPEN4_CREATE_def
  UNCHECKED4_def CLAIM_NULL_def OPEN4_RESULT_CONFIRM_def UNSTABLE4_def FILE_SYNC4_def

definition REQUEST_ATTRS :: "u32 list" where
  "REQUEST_ATTRS = [FATTR4_TYPE, FATTR4_CHANGE, FATTR4_SIZE, FATTR4_FSID, FATTR4_FILEID,
     FATTR4_MODE, FATTR4_NUMLINKS, FATTR4_OWNER, FATTR4_OWNER_GROUP, FATTR4_RAWDEV,
     FATTR4_SPACE_USED, FATTR4_TIME_ACCESS, FATTR4_TIME_METADATA, FATTR4_TIME_MODIFY]"

subsection \<open>Structures\<close>

record Stateid4 =
  sid_seqid :: u32
  sid_other :: bytes

definition default_Stateid4 :: Stateid4 where
  "default_Stateid4 = \<lparr>sid_seqid = 0, sid_other = replicate 12 0\<rparr>"

definition encode_Stateid4 :: "Stateid4 encoder" where
  "encode_Stateid4 v = struct_encode [encode_u32 (sid_seqid v), encode_fixed (sid_other v)]"

definition decode_Stateid4 :: "Stateid4 decoder" where
  "decode_Stateid4 =
     dec_bind decode_u32 (\<lambda>seqid'. dec_bind (decode_fixed 12) (\<lambda>other'.
     dec_return \<lparr>sid_seqid = seqid', sid_other = other'\<rparr>))"

record NfsFh4 =
  fh4_data :: bytes

definition new_NfsFh4 :: "bytes \<Rightarrow> NfsFh4" where
  "new_NfsFh4 data = \<lparr>fh4_data = data\<rparr>"

definition encode_NfsFh4 :: "NfsFh4 encoder" where
  "encode_NfsFh4 v = struct_encode [encode_access encode_Bytes length (Some 128) (fh4_data v)]"

definition decode_NfsFh4 :: "NfsFh4 decoder" where
  "decode_NfsFh4 =
     dec_bind (decode_value decode_Bytes length (Some 128)) (\<lambda>data'. dec_return \<lparr>fh4_data = data'\<rparr>)"

record Nfstime4 =
  nt4_seconds :: i64
  nt4_nseconds :: u32

definition encode_Nfstime4 :: "Nfstime4 encoder" where
  "encode_Nfstime4 v = struct_encode [encode_i64 (nt4_seconds v), encode_u32 (nt4_nseconds v)]"

definition decode_Nfstime4 :: "Nfstime4 decoder" where
  "decode_Nfstime4 =
     dec_bind decode_i64 (\<lambda>seconds'. dec_bind decode_u32 (\<lambda>nseconds'.
     dec_return \<lparr>nt4_seconds = seconds', nt4_nseconds = nseconds'\<rparr>))"

record ChangeInfo4 =
  ci_atomic :: bool
  ci_before :: u64
  ci_after :: u64

definition decode_ChangeInfo4 :: "ChangeInfo4 decoder" where
  "decode_ChangeInfo4 =
     dec_bind decode_bool (\<lambda>atomic'. dec_bind decode_u64 (\<lambda>before'. dec_bind decode_u64 (\<lambda>after'.
     dec_return \<lparr>ci_atomic = atomic', ci_before = before', ci_after = after'\<rparr>)))"

record Fattr4 =
  f4_ftype :: "u32 option"
  f4_change :: "u64 option"
  f4_size :: "u64 option"
  f4_fsid :: "(u64 \<times> u64) option"
  f4_fileid :: "u64 option"
  f4_mode :: "u32 option"
  f4_numlinks :: "u32 option"
  f4_owner :: "string option"
  f4_owner_group :: "string option"
  f4_rawdev :: "(u32 \<times> u32) option"
  f4_space_used :: "u64 option"
  f4_files_avail :: "u64 option"
  f4_files_free :: "u64 option"
  f4_files_total :: "u64 option"
  f4_space_avail :: "u64 option"
  f4_space_free :: "u64 option"
  f4_space_total :: "u64 option"
  f4_time_access :: "Nfstime4 option"
  f4_time_metadata :: "Nfstime4 option"
  f4_time_modify :: "Nfstime4 option"

definition default_Fattr4 :: Fattr4 where
  "default_Fattr4 = \<lparr>f4_ftype = None, f4_change = None, f4_size = None, f4_fsid = None,
     f4_fileid = None, f4_mode = None, f4_numlinks = None, f4_owner = None, f4_owner_group = None,
     f4_rawdev = None, f4_space_used = None, f4_files_avail = None, f4_files_free = None,
     f4_files_total = None, f4_space_avail = None, f4_space_free = None, f4_space_total = None,
     f4_time_access = None, f4_time_metadata = None, f4_time_modify = None\<rparr>"

record SetAttr4 =
  s4_mode :: "u32 option"
  s4_size :: "u64 option"

record OpenResult =
  or_fh :: NfsFh4
  or_stateid :: Stateid4

record ReadResult =
  rr_eof :: bool
  rr_data :: bytes

record DirEntry4 =
  d4_cookie :: u64
  d4_name :: string
  d4_attrs :: Fattr4

record ReaddirResult =
  rd_cookieverf :: bytes
  rd_entries :: "DirEntry4 list"
  rd_eof :: bool

record LockGrant =
  lg_stateid :: Stateid4
  lg_locktype :: u32

subsection \<open>Bitmaps\<close>

text \<open>The indexing \<open>words[i]\<close> is in range: the vector has a word for the largest bit.\<close>

definition mark_bit :: "u32 \<Rightarrow> u32 list \<Rightarrow> u32 list" where
  "mark_bit pos words =
     (let i = unat (pos div 32) in words[i := words ! i OR push_bit (unat (pos mod 32)) 1])"

definition build_bitmap :: "u32 list \<Rightarrow> u32 list" where
  "build_bitmap bits =
     (let max_word = fold max (map (\<lambda>b. unat (b div 32)) bits) 0 in
      fold mark_bit bits (replicate (max_word + 1) 0))"

definition bit_set :: "u32 list \<Rightarrow> u32 \<Rightarrow> bool" where
  "bit_set bitmap pos =
     (let word = unat (pos div 32) in
      word < length bitmap \<and> (drop_bit (unat (pos mod 32)) (bitmap ! word)) AND 1 = 1)"

definition encode_bitmap :: "u32 list \<Rightarrow> encoding" where
  "encode_bitmap bits = encode_Vec encode_u32 (build_bitmap bits)"

subsection \<open>The reader of an answer\<close>

text \<open>
  \<open>CompoundReader\<close> is the buffer that is left; its methods return what they read and the
  rest, and an \<open>XdrError\<close> becomes a \<open>ProtoError\<close>.
\<close>

type_synonym 'a reader = "bytes \<Rightarrow> ('a \<times> bytes, ProtoError) result"

definition rd_return :: "'a \<Rightarrow> 'a reader" where
  "rd_return x buf = Ok (x, buf)"

definition rd_fail :: "ProtoError \<Rightarrow> 'a reader" where
  "rd_fail e buf = Err e"

definition rd_bind :: "'a reader \<Rightarrow> ('a \<Rightarrow> 'b reader) \<Rightarrow> 'b reader" where
  "rd_bind r k buf = and_then (r buf) (\<lambda>(x, rest). k x rest)"

definition rd_decode :: "'a decoder \<Rightarrow> 'a reader" where
  "rd_decode dec buf = map_err PE_Xdr (dec buf)"

definition rd_opaque :: "nat \<Rightarrow> bytes reader" where
  "rd_opaque limit = rd_decode (decode_opaque limit)"

definition reader_parse :: "bytes \<Rightarrow> (bytes, ProtoError) result" where
  "reader_parse buf = map_ok snd (
     rd_bind (rd_decode decode_u32) (\<lambda>status.
     rd_bind (rd_decode decode_String) (\<lambda>_.
     rd_bind (rd_decode decode_u32) (\<lambda>_.
     if status \<noteq> NFS4_OK then rd_fail (PE_Nfs4 status) else rd_return ()))) buf)"

definition begin_op :: "u32 \<Rightarrow> unit reader" where
  "begin_op expected =
     rd_bind (rd_decode decode_u32) (\<lambda>opcode.
     if opcode \<noteq> expected then rd_fail (PE_Protocol ''COMPOUND: opcode inesperado'')
     else rd_bind (rd_decode decode_u32) (\<lambda>status.
       if status \<noteq> NFS4_OK then rd_fail (PE_Nfs4 status) else rd_return ()))"

text \<open>
  The loop \<open>while present\<close> of a directory listing, as \<open>decode_while\<close> of \<open>XDR_Codec\<close>: more
  rounds than the buffer has bytes are enough (\<open>rd_while_unfold\<close>).
\<close>

fun rd_rounds :: "nat \<Rightarrow> 'a reader \<Rightarrow> 'a list reader" where
  "rd_rounds 0 r buf = Panic"
| "rd_rounds (Suc n) r buf =
     rd_bind (rd_decode decode_bool) (\<lambda>present.
       if present then rd_bind r (\<lambda>x. rd_bind (rd_rounds n r) (\<lambda>xs. rd_return (x # xs)))
       else rd_return []) buf"

definition rd_while :: "'a reader \<Rightarrow> 'a list reader" where
  "rd_while r buf = rd_rounds (Suc (length buf)) r buf"

subsection \<open>Attribute lists\<close>

text \<open>One attribute: \<open>out.f = Some(T::decode(b)?)\<close>.\<close>

definition take_attr :: "'a decoder \<Rightarrow> ('a \<Rightarrow> Fattr4) \<Rightarrow> Fattr4 reader" where
  "take_attr dec store = rd_bind (rd_decode dec) (\<lambda>v. rd_return (store v))"

definition decode_u64_pair :: "(u64 \<times> u64) decoder" where
  "decode_u64_pair = dec_bind decode_u64 (\<lambda>a. dec_bind decode_u64 (\<lambda>b. dec_return (a, b)))"

definition decode_u32_pair :: "(u32 \<times> u32) decoder" where
  "decode_u32_pair = dec_bind decode_u32 (\<lambda>a. dec_bind decode_u32 (\<lambda>b. dec_return (a, b)))"

definition decode_attr :: "u32 \<Rightarrow> Fattr4 \<Rightarrow> Fattr4 reader" where
  "decode_attr pos out =
     (if pos = FATTR4_TYPE then take_attr decode_u32 (\<lambda>v. out\<lparr>f4_ftype := Some v\<rparr>)
      else if pos = FATTR4_CHANGE then take_attr decode_u64 (\<lambda>v. out\<lparr>f4_change := Some v\<rparr>)
      else if pos = FATTR4_SIZE then take_attr decode_u64 (\<lambda>v. out\<lparr>f4_size := Some v\<rparr>)
      else if pos = FATTR4_FSID then take_attr decode_u64_pair (\<lambda>v. out\<lparr>f4_fsid := Some v\<rparr>)
      else if pos = FATTR4_FILEID then take_attr decode_u64 (\<lambda>v. out\<lparr>f4_fileid := Some v\<rparr>)
      else if pos = FATTR4_MODE then take_attr decode_u32 (\<lambda>v. out\<lparr>f4_mode := Some v\<rparr>)
      else if pos = FATTR4_NUMLINKS then take_attr decode_u32 (\<lambda>v. out\<lparr>f4_numlinks := Some v\<rparr>)
      else if pos = FATTR4_OWNER then take_attr decode_String (\<lambda>v. out\<lparr>f4_owner := Some v\<rparr>)
      else if pos = FATTR4_OWNER_GROUP then take_attr decode_String (\<lambda>v. out\<lparr>f4_owner_group := Some v\<rparr>)
      else if pos = FATTR4_RAWDEV then take_attr decode_u32_pair (\<lambda>v. out\<lparr>f4_rawdev := Some v\<rparr>)
      else if pos = FATTR4_SPACE_USED then take_attr decode_u64 (\<lambda>v. out\<lparr>f4_space_used := Some v\<rparr>)
      else if pos = FATTR4_FILES_AVAIL then take_attr decode_u64 (\<lambda>v. out\<lparr>f4_files_avail := Some v\<rparr>)
      else if pos = FATTR4_FILES_FREE then take_attr decode_u64 (\<lambda>v. out\<lparr>f4_files_free := Some v\<rparr>)
      else if pos = FATTR4_FILES_TOTAL then take_attr decode_u64 (\<lambda>v. out\<lparr>f4_files_total := Some v\<rparr>)
      else if pos = FATTR4_SPACE_AVAIL then take_attr decode_u64 (\<lambda>v. out\<lparr>f4_space_avail := Some v\<rparr>)
      else if pos = FATTR4_SPACE_FREE then take_attr decode_u64 (\<lambda>v. out\<lparr>f4_space_free := Some v\<rparr>)
      else if pos = FATTR4_SPACE_TOTAL then take_attr decode_u64 (\<lambda>v. out\<lparr>f4_space_total := Some v\<rparr>)
      else if pos = FATTR4_TIME_ACCESS then take_attr decode_Nfstime4 (\<lambda>v. out\<lparr>f4_time_access := Some v\<rparr>)
      else if pos = FATTR4_TIME_METADATA then take_attr decode_Nfstime4 (\<lambda>v. out\<lparr>f4_time_metadata := Some v\<rparr>)
      else if pos = FATTR4_TIME_MODIFY then take_attr decode_Nfstime4 (\<lambda>v. out\<lparr>f4_time_modify := Some v\<rparr>)
      else rd_fail (PE_Protocol ''fattr4 con atributo no soportado en la respuesta''))"

fun decode_attrs :: "u32 list \<Rightarrow> u32 list \<Rightarrow> Fattr4 \<Rightarrow> Fattr4 reader" where
  "decode_attrs bitmap [] out = rd_return out"
| "decode_attrs bitmap (pos # bits) out =
     (if \<not> bit_set bitmap pos then decode_attrs bitmap bits out
      else rd_bind (decode_attr pos out) (decode_attrs bitmap bits))"

definition decode_fattr4 :: "u32 list \<Rightarrow> bytes \<Rightarrow> (Fattr4, ProtoError) result" where
  "decode_fattr4 bitmap attrs =
     (let max_bit = (of_nat (length bitmap) :: u32) * 32 in
      map_ok fst (decode_attrs bitmap (map of_nat [0..<unat max_bit]) default_Fattr4 attrs))"

definition rd_fattr4 :: "Fattr4 reader" where
  "rd_fattr4 =
     rd_bind (rd_decode (decode_Vec decode_u32)) (\<lambda>bitmap.
     rd_bind (rd_opaque usize_max) (\<lambda>attrlist buf.
       map_ok (\<lambda>a. (a, buf)) (decode_fattr4 bitmap attrlist)))"

text \<open>The attributes of \<open>SETATTR\<close>: the size before the mode, each only when given.\<close>

definition setattr_values :: "SetAttr4 \<Rightarrow> u32 list \<times> encoding" where
  "setattr_values attrs =
     (let (bits, values) = (case s4_size attrs of
            None \<Rightarrow> ([], enc_done)
          | Some sz \<Rightarrow> ([FATTR4_SIZE], encode_u64 sz)) in
      case s4_mode attrs of
        None \<Rightarrow> (bits, values)
      | Some mode \<Rightarrow> (bits @ [FATTR4_MODE], enc_seq values (encode_u32 mode)))"

definition encode_setattr_fattr4 :: "SetAttr4 \<Rightarrow> encoding" where
  "encode_setattr_fattr4 attrs buf =
     (let (bits, enc) = setattr_values attrs in
      and_then (enc []) (\<lambda>values.
      and_then (encode_bitmap bits buf) (\<lambda>buf.
      and_then (encode_u32 (of_nat (length values)) buf) (\<lambda>buf.
        Ok (put_bytes 0 ((4 - length values mod 4) mod 4) (put_slice values buf))))))"

subsection \<open>Bitmaps hold their bits\<close>

lemma length_mark_bit [simp]: "length (mark_bit b ws) = length ws"
  by (simp add: mark_bit_def Let_def)

lemma length_mark_bits [simp]: "length (fold mark_bit bits ws) = length ws"
  by (induction bits arbitrary: ws) auto

lemma fold_max_ge: "(acc :: nat) \<le> fold max xs acc \<and> (\<forall>x \<in> set xs. x \<le> fold max xs acc)"
proof (induction xs arbitrary: acc)
  case (Cons x xs)
  from Cons [of "max x acc"] show ?case by auto
qed simp

lemma shift_and_1: "(drop_bit n w AND 1 = 1) = bit (w :: u32) n"
  by (simp add: and_one_eq bit_iff_odd_drop_bit odd_iff_mod_2_eq_one)

lemma bit_or_push: "i < 32 \<Longrightarrow> bit ((w :: u32) OR push_bit j 1) i \<longleftrightarrow> bit w i \<or> i = j"
  by (auto simp: bit_simps)

lemma unat_mod_32: "unat ((b :: u32) mod 32) < 32"
  by (simp add: unat_mod)

lemma div_mod_32_eq: "(b :: u32) div 32 = c div 32 \<Longrightarrow> b mod 32 = c mod 32 \<Longrightarrow> b = c"
  by (metis div_mult_mod_eq)

lemma bit_mark_bit:
  assumes "unat (p div 32) < length ws"
  shows "bit (mark_bit b ws ! unat (p div 32)) (unat (p mod 32)) \<longleftrightarrow>
    bit (ws ! unat (p div 32)) (unat (p mod 32)) \<or> p = b"
proof (cases "p div 32 = b div 32")
  case True
  with assms have "mark_bit b ws ! unat (p div 32)
      = ws ! unat (p div 32) OR push_bit (unat (b mod 32)) 1"
    unfolding mark_bit_def Let_def by (metis nth_list_update_eq)
  moreover have "unat (p mod 32) = unat (b mod 32) \<longleftrightarrow> p = b"
    using div_mod_32_eq [OF True] by (auto simp: word_unat_eq_iff [symmetric])
  ultimately show ?thesis using bit_or_push [OF unat_mod_32 [of p]] by metis
next
  case False
  then have "unat (b div 32) \<noteq> unat (p div 32)" by (metis word_unat_eq_iff)
  then have "mark_bit b ws ! unat (p div 32) = ws ! unat (p div 32)"
    unfolding mark_bit_def Let_def by (rule nth_list_update_neq)
  with False show ?thesis by auto
qed

lemma bit_mark_bits:
  assumes "unat (p div 32) < length ws"
  shows "bit (fold mark_bit bits ws ! unat (p div 32)) (unat (p mod 32)) \<longleftrightarrow>
    bit (ws ! unat (p div 32)) (unat (p mod 32)) \<or> p \<in> set bits"
  using assms by (induction bits arbitrary: ws) (auto simp: bit_mark_bit)

lemma length_build_bitmap:
  "length (build_bitmap bits) = fold max (map (\<lambda>b. unat (b div 32)) bits) 0 + 1"
  by (simp add: build_bitmap_def Let_def)

lemma build_bitmap_covers: "b \<in> set bits \<Longrightarrow> unat (b div 32) < length (build_bitmap bits)"
  using fold_max_ge [of 0 "map (\<lambda>b. unat (b div 32)) bits"]
  by (auto simp: length_build_bitmap less_Suc_eq_le)

lemma bit_set_build [simp]: "bit_set (build_bitmap bits) p \<longleftrightarrow> p \<in> set bits"
proof (cases "unat (p div 32) < length (build_bitmap bits)")
  case True
  then have "bit (build_bitmap bits ! unat (p div 32)) (unat (p mod 32)) \<longleftrightarrow> p \<in> set bits"
    unfolding length_build_bitmap unfolding build_bitmap_def Let_def
    by (subst bit_mark_bits) (auto simp del: replicate_Suc replicate.simps)
  with True show ?thesis by (simp add: bit_set_def shift_and_1 Let_def)
next
  case False
  then show ?thesis using build_bitmap_covers [of p bits] by (auto simp: bit_set_def Let_def)
qed


lemma build_bitmap_two: "\<forall>b \<in> set bits. b < 64 \<Longrightarrow> length (build_bitmap bits) \<le> 2"
proof -
  assume a: "\<forall>b \<in> set bits. b < 64"
  have "fold max xs n \<le> 1" if "\<forall>x \<in> set xs. x \<le> 1" "n \<le> 1" for xs and n :: nat
    using that by (induction xs arbitrary: n) auto
  moreover have "\<forall>x \<in> set (map (\<lambda>b. unat (b div 32)) bits). x \<le> 1"
    using a by (auto simp: word_less_nat_alt unat_div)
  ultimately show ?thesis by (simp add: length_build_bitmap)
qed

text \<open>The bits of a bitmap in ascending order are the list it was built from.\<close>

lemma bitmap_bits:
  assumes "sorted_wrt (<) bits" "\<forall>b \<in> set bits. b < 64"
  shows "filter (bit_set (build_bitmap bits))
    (map of_nat [0..<unat ((of_nat (length (build_bitmap bits)) :: u32) * 32)]) = bits" (is "?l = _")
proof -
  define n where "n = length (build_bitmap bits)"
  have n: "n \<le> 2" unfolding n_def by (rule build_bitmap_two [OF assms(2)])
  then have u: "unat ((of_nat n :: u32) * 32) = n * 32"
    by (simp add: unat_word_ariths unat_of_nat)
  have in_range: "unat b < n * 32" if "b \<in> set bits" for b
    using build_bitmap_covers [OF that] by (simp add: n_def unat_div)
  have "sorted_wrt (<) (map of_nat [0..<n * 32] :: u32 list)"
    using n by (auto simp: sorted_wrt_iff_nth_less word_less_nat_alt unat_of_nat)
  then have "sorted_wrt (<) ?l" unfolding n_def [symmetric] u by (rule sorted_wrt_filter)
  moreover have "set ?l = set bits"
  proof -
    have "b \<in> (of_nat :: nat \<Rightarrow> u32) ` {0..<n * 32}" if "b \<in> set bits" for b
      using in_range [OF that] by (intro image_eqI [of _ _ "unat b"]) auto
    then show ?thesis unfolding n_def [symmetric] u by (auto simp: image_iff)
  qed
  ultimately show ?thesis using assms(1) by (intro strict_sorted_equal) auto
qed

subsection \<open>Attribute lists are read back\<close>

fun decode_given :: "u32 list \<Rightarrow> Fattr4 \<Rightarrow> Fattr4 reader" where
  "decode_given [] out = rd_return out"
| "decode_given (p # ps) out = rd_bind (decode_attr p out) (decode_given ps)"

lemma decode_attrs_filter: "decode_attrs bitmap bits out = decode_given (filter (bit_set bitmap) bits) out"
  by (induction bits arbitrary: out) (auto simp: rd_bind_def fun_eq_iff)

text \<open>A server's attribute list: the attributes it has, in ascending order of their bits.\<close>

definition opt_attr :: "u32 \<Rightarrow> 'a encoder \<Rightarrow> 'a option \<Rightarrow> (u32 \<times> encoding) list" where
  "opt_attr b enc v = (case v of None \<Rightarrow> [] | Some x \<Rightarrow> [(b, enc x)])"

definition encode_pair :: "'a encoder \<Rightarrow> ('a \<times> 'a) encoder" where
  "encode_pair enc p = struct_encode [enc (fst p), enc (snd p)]"

definition attr_values :: "Fattr4 \<Rightarrow> (u32 \<times> encoding) list" where
  "attr_values a =
     opt_attr FATTR4_TYPE encode_u32 (f4_ftype a)
     @ opt_attr FATTR4_CHANGE encode_u64 (f4_change a)
     @ opt_attr FATTR4_SIZE encode_u64 (f4_size a)
     @ opt_attr FATTR4_FSID (encode_pair encode_u64) (f4_fsid a)
     @ opt_attr FATTR4_FILEID encode_u64 (f4_fileid a)
     @ opt_attr FATTR4_FILES_AVAIL encode_u64 (f4_files_avail a)
     @ opt_attr FATTR4_FILES_FREE encode_u64 (f4_files_free a)
     @ opt_attr FATTR4_FILES_TOTAL encode_u64 (f4_files_total a)
     @ opt_attr FATTR4_MODE encode_u32 (f4_mode a)
     @ opt_attr FATTR4_NUMLINKS encode_u32 (f4_numlinks a)
     @ opt_attr FATTR4_OWNER encode_String (f4_owner a)
     @ opt_attr FATTR4_OWNER_GROUP encode_String (f4_owner_group a)
     @ opt_attr FATTR4_RAWDEV (encode_pair encode_u32) (f4_rawdev a)
     @ opt_attr FATTR4_SPACE_AVAIL encode_u64 (f4_space_avail a)
     @ opt_attr FATTR4_SPACE_FREE encode_u64 (f4_space_free a)
     @ opt_attr FATTR4_SPACE_TOTAL encode_u64 (f4_space_total a)
     @ opt_attr FATTR4_SPACE_USED encode_u64 (f4_space_used a)
     @ opt_attr FATTR4_TIME_ACCESS encode_Nfstime4 (f4_time_access a)
     @ opt_attr FATTR4_TIME_METADATA encode_Nfstime4 (f4_time_metadata a)
     @ opt_attr FATTR4_TIME_MODIFY encode_Nfstime4 (f4_time_modify a)"

definition encode_fattr4 :: "Fattr4 encoder" where
  "encode_fattr4 a buf =
     and_then (struct_encode (map snd (attr_values a)) []) (\<lambda>values.
       enc_seq (encode_bitmap (map fst (attr_values a))) (encode_Bytes values) buf)"

definition ok_Fattr4 :: "Fattr4 \<Rightarrow> bool" where
  "ok_Fattr4 a \<longleftrightarrow> (\<forall>s \<in> set_option (f4_owner a) \<union> set_option (f4_owner_group a). valid_string s)"

lemma xdr_Nfstime4: "xdr_decoder decode_Nfstime4" "xdr_encoder (encode_Nfstime4 v)"
  unfolding decode_Nfstime4_def encode_Nfstime4_def by (intro xdr_dec, intro xdr_enc)

lemmas [xdr_dec] = xdr_Nfstime4(1) and [xdr_enc] = xdr_Nfstime4(2)

lemma wire_rt_Nfstime4 [xdr_rt]: "wire_rt (encode_Nfstime4 v) decode_Nfstime4 v"
  unfolding encode_Nfstime4_def decode_Nfstime4_def
  by (rule xdr_rt xdr_enc xdr_dec refl | simp)+

lemma xdr_pairs [xdr_dec]: "xdr_decoder decode_u64_pair" "xdr_decoder decode_u32_pair"
  unfolding decode_u64_pair_def decode_u32_pair_def by (intro xdr_dec)+

lemma xdr_encoder_pair [xdr_enc]: "(\<And>x. xdr_encoder (enc x)) \<Longrightarrow> xdr_encoder (encode_pair enc p)"
  unfolding encode_pair_def by (intro xdr_enc)

lemma wire_rt_pairs [xdr_rt]:
  "wire_rt (encode_pair encode_u64 p) decode_u64_pair p"
  "wire_rt (encode_pair encode_u32 q) decode_u32_pair q"
  unfolding encode_pair_def decode_u64_pair_def decode_u32_pair_def
  by (rule xdr_rt xdr_enc xdr_dec refl | simp)+

definition reads :: "(u32 \<times> encoding) list \<Rightarrow> Fattr4 \<Rightarrow> Fattr4 \<Rightarrow> bool" where
  "reads fs out a \<longleftrightarrow> xdr_encoder (struct_encode (map snd fs)) \<and>
     (\<forall>bs rest. struct_encode (map snd fs) [] = Ok bs \<longrightarrow>
        decode_given (map fst fs) out (bs @ rest) = Ok (a, rest))"

lemma reads_done: "reads [] a a"
  by (simp add: reads_def enc_done_def rd_return_def xdr_encoder_done)

lemma reads_field:
  assumes "\<And>r. get r = None \<Longrightarrow> upd (\<lambda>_. None) r = r"
    and "\<And>r. decode_attr b r = take_attr dec (\<lambda>v. upd (\<lambda>_. Some v) r)"
    and "\<And>x. xdr_encoder (enc x)"
    and "get out = None" "\<And>x. v = Some x \<Longrightarrow> wire_rt (enc x) dec x" "reads fs (upd (\<lambda>_. v) out) a"
  shows "reads (opt_attr b enc v @ fs) out a"
proof (cases v)
  case None
  with assms(1,4,6) show ?thesis by (simp add: opt_attr_def)
next
  case (Some x)
  have e: "xdr_encoder (struct_encode (map snd fs))" using assms(6) by (simp add: reads_def)
  have "decode_given (b # map fst fs) out (bs @ rest) = Ok (a, rest)"
    if "enc_seq (enc x) (struct_encode (map snd fs)) [] = Ok bs" for bs rest
  proof -
    from that [unfolded enc_seq_Ok_iff [OF e]] obtain as cs where
      "enc x [] = Ok as" "struct_encode (map snd fs) [] = Ok cs" "bs = as @ cs" by blast
    with assms(2) [of out] assms(5) [OF Some] assms(6) Some show ?thesis
      by (simp add: wire_rt_def reads_def take_attr_def rd_bind_def rd_decode_def rd_return_def)
  qed
  with Some e assms(3) show ?thesis by (simp add: reads_def opt_attr_def xdr_encoder_seq)
qed


lemmas reads_fields =
  reads_field [where get = f4_ftype and upd = f4_ftype_update and b = FATTR4_TYPE and dec = decode_u32]
  reads_field [where get = f4_change and upd = f4_change_update and b = FATTR4_CHANGE and dec = decode_u64]
  reads_field [where get = f4_size and upd = f4_size_update and b = FATTR4_SIZE and dec = decode_u64]
  reads_field [where get = f4_fsid and upd = f4_fsid_update and b = FATTR4_FSID and dec = decode_u64_pair]
  reads_field [where get = f4_fileid and upd = f4_fileid_update and b = FATTR4_FILEID and dec = decode_u64]
  reads_field [where get = f4_files_avail and upd = f4_files_avail_update and b = FATTR4_FILES_AVAIL and dec = decode_u64]
  reads_field [where get = f4_files_free and upd = f4_files_free_update and b = FATTR4_FILES_FREE and dec = decode_u64]
  reads_field [where get = f4_files_total and upd = f4_files_total_update and b = FATTR4_FILES_TOTAL and dec = decode_u64]
  reads_field [where get = f4_mode and upd = f4_mode_update and b = FATTR4_MODE and dec = decode_u32]
  reads_field [where get = f4_numlinks and upd = f4_numlinks_update and b = FATTR4_NUMLINKS and dec = decode_u32]
  reads_field [where get = f4_owner and upd = f4_owner_update and b = FATTR4_OWNER and dec = decode_String]
  reads_field [where get = f4_owner_group and upd = f4_owner_group_update and b = FATTR4_OWNER_GROUP and dec = decode_String]
  reads_field [where get = f4_rawdev and upd = f4_rawdev_update and b = FATTR4_RAWDEV and dec = decode_u32_pair]
  reads_field [where get = f4_space_avail and upd = f4_space_avail_update and b = FATTR4_SPACE_AVAIL and dec = decode_u64]
  reads_field [where get = f4_space_free and upd = f4_space_free_update and b = FATTR4_SPACE_FREE and dec = decode_u64]
  reads_field [where get = f4_space_total and upd = f4_space_total_update and b = FATTR4_SPACE_TOTAL and dec = decode_u64]
  reads_field [where get = f4_space_used and upd = f4_space_used_update and b = FATTR4_SPACE_USED and dec = decode_u64]
  reads_field [where get = f4_time_access and upd = f4_time_access_update and b = FATTR4_TIME_ACCESS and dec = decode_Nfstime4]
  reads_field [where get = f4_time_metadata and upd = f4_time_metadata_update and b = FATTR4_TIME_METADATA and dec = decode_Nfstime4]
  reads_field [where get = f4_time_modify and upd = f4_time_modify_update and b = FATTR4_TIME_MODIFY and dec = decode_Nfstime4]

lemma reads_attr_values:
  assumes "ok_Fattr4 a"
  shows "reads (attr_values a) default_Fattr4 a"
  unfolding attr_values_def
  by (subst append_Nil2 [symmetric, of "opt_attr FATTR4_TIME_MODIFY _ _"],
      (rule reads_fields, simp, simp add: decode_attr_def nfs4_attrs, intro xdr_enc,
        simp add: default_Fattr4_def, (intro xdr_rt; use assms in \<open>force simp: ok_Fattr4_def\<close>))+)
    (cases a, simp add: default_Fattr4_def reads_done)

lemma opt_attr_bits: "p \<in> fst ` set (opt_attr b enc v) \<Longrightarrow> p = b"
  by (cases v) (auto simp: opt_attr_def)

lemma sorted_opt_attr:
  assumes "\<forall>p \<in> fst ` set fs. b < p" "sorted_wrt (<) (map fst fs)"
  shows "sorted_wrt (<) (map fst (opt_attr b enc v @ fs))"
  using assms by (cases v) (auto simp: opt_attr_def)

lemma sorted_attr_values: "sorted_wrt (<) (map fst (attr_values a))"
  unfolding attr_values_def
  by (subst append_Nil2 [symmetric, of "opt_attr FATTR4_TIME_MODIFY _ _"],
      (rule sorted_opt_attr, fastforce simp: nfs4_attrs dest!: opt_attr_bits [OF imageI])+) simp

lemma attr_values_bits: "\<forall>p \<in> set (map fst (attr_values a)). p < 64"
  unfolding attr_values_def by (auto simp: nfs4_attrs dest!: opt_attr_bits [OF imageI])

lemma decode_fattr4_values:
  assumes "ok_Fattr4 a" "struct_encode (map snd (attr_values a)) [] = Ok vs"
  shows "decode_fattr4 (build_bitmap (map fst (attr_values a))) vs = Ok a"
proof -
  have "decode_given (map fst (attr_values a)) default_Fattr4 (vs @ []) = Ok (a, [])"
    using reads_attr_values [OF assms(1)] assms(2) unfolding reads_def by blast
  then show ?thesis
    by (simp add: decode_fattr4_def Let_def decode_attrs_filter
        bitmap_bits [OF sorted_attr_values attr_values_bits])
qed

lemma xdr_encoder_bitmap [xdr_enc]: "xdr_encoder (encode_bitmap bits)"
  unfolding encode_bitmap_def by (intro xdr_enc)

lemma xdr_encoder_fields:
  "list_all xdr_encoder fs \<Longrightarrow> xdr_encoder (struct_encode fs)"
  by (induction fs) (auto intro: xdr_enc)

lemma xdr_encoder_opt_attr:
  "(\<And>x. xdr_encoder (enc x)) \<Longrightarrow> list_all xdr_encoder (map snd (opt_attr b enc v))"
  by (cases v) (auto simp: opt_attr_def)

lemma xdr_encoder_attr_values: "xdr_encoder (struct_encode (map snd (attr_values a)))"
  unfolding attr_values_def
  by (intro xdr_encoder_fields) (simp add: xdr_enc xdr_encoder_opt_attr)

lemma xdr_encoder_fattr4 [xdr_enc]: "xdr_encoder (encode_fattr4 a)"
proof -
  note e = xdr_encoder_attr_values [of a]
  show ?thesis
  proof (cases "struct_encode (map snd (attr_values a)) []")
    case (Ok vs)
    then have "encode_fattr4 a = enc_seq (encode_bitmap (map fst (attr_values a))) (encode_Bytes vs)"
      by (simp add: encode_fattr4_def fun_eq_iff)
    then show ?thesis by (simp add: xdr_enc)
  next
    case (Err d)
    then have "encode_fattr4 a = enc_fail d" by (simp add: encode_fattr4_def enc_fail_def fun_eq_iff)
    then show ?thesis by (simp add: xdr_enc)
  qed (use xdr_encoder.enc_no_panic [OF e] in blast)
qed

text \<open>What a server writes for an object is what \<open>fattr4()\<close> reads.\<close>

lemma rd_fattr4_encoded:
  assumes "ok_Fattr4 a" "encode_fattr4 a [] = Ok bs"
  shows "rd_fattr4 (bs @ rest) = Ok (a, rest)"
proof -
  from assms(2) obtain vs ms ws where v: "struct_encode (map snd (attr_values a)) [] = Ok vs"
    "encode_bitmap (map fst (attr_values a)) [] = Ok ms" "encode_Bytes vs [] = Ok ws" "bs = ms @ ws"
    by (auto simp: encode_fattr4_def enc_seq_Ok_iff [OF xdr_encoder_opaques(2)])
  have "decode_Vec decode_u32 (ms @ ws @ rest) = Ok (build_bitmap (map fst (attr_values a)), ws @ rest)"
    using v(2) wire_rt_u32_Vec unfolding encode_bitmap_def wire_rt_def by (metis append.assoc)
  moreover have "decode_opaque usize_max (ws @ rest) = Ok (vs, rest)"
    using v(3) wire_rt_Bytes unfolding wire_rt_def decode_Bytes_def by blast
  ultimately show ?thesis
    using decode_fattr4_values [OF assms(1) v(1)] v(4)
    by (simp add: rd_fattr4_def rd_opaque_def rd_decode_def rd_bind_def)
qed

lemma setattr_fattr4_eq:
  "encode_setattr_fattr4 s = encode_fattr4 (default_Fattr4\<lparr>f4_size := s4_size s, f4_mode := s4_mode s\<rparr>)"
proof -
  have f: "encode_Bytes vs = (\<lambda>buf. and_then (encode_u32 (of_nat (length vs)) buf) (\<lambda>buf.
      Ok (put_bytes 0 ((4 - length vs mod 4) mod 4) (put_slice vs buf))))" if "length vs \<le> 12" for vs
    using that by (simp add: enc_eval fun_eq_iff)
  show ?thesis
    by (cases "s4_size s"; cases "s4_mode s")
      (simp_all add: encode_setattr_fattr4_def setattr_values_def encode_fattr4_def attr_values_def
        opt_attr_def default_Fattr4_def enc_seq_def enc_done_def f fun_eq_iff encode_words_Nil
        encode_u32_def put_word_def)
qed

subsection \<open>The contract of the reader\<close>

text \<open>
  A reader does not panic and does not grow the buffer, so a loop that reads a \<open>bool\<close> in
  every round ends.
\<close>

locale compound_reader =
  fixes r :: "'a reader"
  assumes no_panic: "r buf \<noteq> Panic"
    and shrinks: "r buf = Ok (v, rest) \<Longrightarrow> length rest \<le> length buf"

named_theorems reader \<open>readers that satisfy the contract\<close>

lemma rd_bind_eq:
  "rd_bind r k buf = Ok (y, rest) \<longleftrightarrow> (\<exists>x mid. r buf = Ok (x, mid) \<and> k x mid = Ok (y, rest))"
  "rd_bind r k buf = Err e \<longleftrightarrow> r buf = Err e \<or> (\<exists>x mid. r buf = Ok (x, mid) \<and> k x mid = Err e)"
  "rd_bind r k buf = Panic \<longleftrightarrow> r buf = Panic \<or> (\<exists>x mid. r buf = Ok (x, mid) \<and> k x mid = Panic)"
  unfolding rd_bind_def by auto

lemma rd_bind_Ok [simp]: "r buf = Ok (x, mid) \<Longrightarrow> rd_bind r k buf = k x mid"
  by (simp add: rd_bind_def)

lemma rd_bind_cong:
  "r buf = r' buf' \<Longrightarrow> (\<And>x mid. r' buf' = Ok (x, mid) \<Longrightarrow> k x mid = k' x mid) \<Longrightarrow>
    rd_bind r k buf = rd_bind r' k' buf'"
  by (cases "r' buf'") (auto simp: rd_bind_def)

lemma reader_return [reader]: "compound_reader (rd_return x)"
  by unfold_locales (auto simp: rd_return_def)

lemma reader_fail [reader]: "compound_reader (rd_fail e)"
  by unfold_locales (auto simp: rd_fail_def)

lemma reader_bind [reader]:
  "compound_reader r \<Longrightarrow> (\<And>x. compound_reader (k x)) \<Longrightarrow> compound_reader (rd_bind r k)"
  unfolding compound_reader_def by (fastforce simp: rd_bind_eq)

lemma reader_if [reader]:
  "compound_reader r1 \<Longrightarrow> compound_reader r2 \<Longrightarrow> compound_reader (if b then r1 else r2)"
  by simp

lemma reader_decode [reader]: "xdr_decoder dec \<Longrightarrow> compound_reader (rd_decode dec)"
  using xdr_decoder.no_panic xdr_decoder.rest_le
  unfolding compound_reader_def rd_decode_def by fastforce

lemma reader_opaque [reader]: "compound_reader (rd_opaque limit)"
  unfolding rd_opaque_def by (intro reader xdr_dec)

lemma reader_begin_op [reader]: "compound_reader (begin_op p)"
  unfolding begin_op_def by (intro reader xdr_dec)

lemma reader_attr: "compound_reader (decode_attr p out)"
  unfolding decode_attr_def take_attr_def by (intro reader xdr_dec)

lemma reader_attrs: "compound_reader (decode_attrs bm bits out)"
  by (induction bits arbitrary: out) (auto intro!: reader reader_attr)

lemma decode_fattr4_no_panic: "decode_fattr4 bm vs \<noteq> Panic"
  using compound_reader.no_panic [OF reader_attrs] by (simp add: decode_fattr4_def Let_def)

lemma reader_lift: "x \<noteq> Panic \<Longrightarrow> compound_reader (\<lambda>buf. map_ok (\<lambda>a. (a, buf)) x)"
  by unfold_locales auto

lemma reader_fattr4 [reader]: "compound_reader rd_fattr4"
  unfolding rd_fattr4_def by (intro reader xdr_dec reader_lift decode_fattr4_no_panic)

context compound_reader
begin

lemma rounds_enough:
  "length buf < n \<Longrightarrow> length buf < m \<Longrightarrow> rd_rounds n r buf = rd_rounds m r buf"
proof (induction n arbitrary: m buf)
  case (Suc n)
  then obtain m' where m: "m = Suc m'" by (cases m) auto
  have "rd_rounds n r rest = rd_rounds m' r rest"
    if "rd_decode decode_bool buf = Ok (True, mid)" "r mid = Ok (x, rest)" for mid x rest
  proof -
    have "decode_bool buf = Ok (True, mid)" using that(1) by (simp add: rd_decode_def)
    from decode_bool_shrinks [OF this] shrinks [OF that(2)] Suc m show ?thesis by simp
  qed
  then show ?case
    unfolding m rd_rounds.simps
    by (intro rd_bind_cong [OF refl]) (auto intro!: rd_bind_cong [OF refl] rd_bind_cong)
qed simp

lemma while_unfold:
  "rd_while r buf = rd_bind (rd_decode decode_bool) (\<lambda>present.
    if present then rd_bind r (\<lambda>x. rd_bind (rd_while r) (\<lambda>xs. rd_return (x # xs)))
    else rd_return []) buf"
proof -
  have "rd_rounds (length buf) r rest = rd_while r rest"
    if "rd_decode decode_bool buf = Ok (True, mid)" "r mid = Ok (x, rest)" for mid x rest
  proof -
    have "decode_bool buf = Ok (True, mid)" using that(1) by (simp add: rd_decode_def)
    from decode_bool_shrinks [OF this] shrinks [OF that(2)] show ?thesis
      unfolding rd_while_def by (intro rounds_enough) auto
  qed
  then show ?thesis
    unfolding rd_while_def [of r buf] rd_rounds.simps
    by (intro rd_bind_cong [OF refl]) (auto intro!: rd_bind_cong [OF refl] rd_bind_cong)
qed

lemma rounds_safe:
  "length buf < n \<Longrightarrow> rd_rounds n r buf \<noteq> Panic \<and>
    (\<forall>v rest. rd_rounds n r buf = Ok (v, rest) \<longrightarrow> length rest \<le> length buf)"
proof (induction n arbitrary: buf)
  case (Suc n)
  have b: "rd_decode decode_bool buf \<noteq> Panic"
    using xdr_decoder.no_panic [OF xdr_decoder_bool] by (simp add: rd_decode_def)
  have sh: "length mid < length buf" if "rd_decode decode_bool buf = Ok (p, mid)" for p mid
    using that decode_bool_shrinks [of buf p mid] by (simp add: rd_decode_def)
  have rounds: "rd_rounds n r rest \<noteq> Panic \<and>
      (\<forall>v end. rd_rounds n r rest = Ok (v, end) \<longrightarrow> length end \<le> length buf)"
    if "rd_decode decode_bool buf = Ok (p, mid)" "r mid = Ok (x, rest)" for p mid x rest
    using sh [OF that(1)] shrinks [OF that(2)] Suc.IH [of rest] Suc.prems by fastforce
  show ?case
    unfolding rd_rounds.simps
    using b sh no_panic rounds by (fastforce simp: rd_bind_eq rd_return_def split: if_splits)
qed simp

lemma while_reader: "compound_reader (rd_while r)"
  using rounds_safe unfolding rd_while_def by unfold_locales blast+

end

lemmas [reader] = compound_reader.while_reader

interpretation fattr4_rd: compound_reader rd_fattr4
  by (rule reader_fattr4)

subsection \<open>Codecs\<close>

lemma xdr_Stateid4: "xdr_decoder decode_Stateid4" "xdr_encoder (encode_Stateid4 v)"
  unfolding decode_Stateid4_def encode_Stateid4_def by (intro xdr_dec, intro xdr_enc)

lemma xdr_NfsFh4: "xdr_decoder decode_NfsFh4" "xdr_encoder (encode_NfsFh4 fh)"
  unfolding decode_NfsFh4_def encode_NfsFh4_def by (intro xdr_dec, intro xdr_enc)

lemma xdr_ChangeInfo4: "xdr_decoder decode_ChangeInfo4"
  unfolding decode_ChangeInfo4_def by (intro xdr_dec)

lemmas [xdr_dec] = xdr_Stateid4(1) xdr_NfsFh4(1) xdr_ChangeInfo4
  and [xdr_enc] = xdr_Stateid4(2) xdr_NfsFh4(2)

definition ok_Stateid4 :: "Stateid4 \<Rightarrow> bool" where
  "ok_Stateid4 v \<longleftrightarrow> length (sid_other v) = 12"

lemma wire_rt_Stateid4 [xdr_rt]: "ok_Stateid4 v \<Longrightarrow> wire_rt (encode_Stateid4 v) decode_Stateid4 v"
  unfolding encode_Stateid4_def decode_Stateid4_def ok_Stateid4_def
  by (rule xdr_rt xdr_enc xdr_dec refl | simp)+

lemma wire_rt_NfsFh4 [xdr_rt]: "wire_rt (encode_NfsFh4 v) decode_NfsFh4 v"
  unfolding encode_NfsFh4_def decode_NfsFh4_def
  by (rule xdr_rt xdr_enc xdr_dec refl | simp)+

lemma ok_default_Stateid4 [simp]: "ok_Stateid4 default_Stateid4"
  by (simp add: ok_Stateid4_def default_Stateid4_def)

lemma xdr_encoder_setattr_fattr4 [xdr_enc]: "xdr_encoder (encode_setattr_fattr4 attrs)"
  unfolding setattr_fattr4_eq by (intro xdr_enc)

definition set_fattr4 :: "SetAttr4 \<Rightarrow> Fattr4" where
  "set_fattr4 s = default_Fattr4\<lparr>f4_size := s4_size s, f4_mode := s4_mode s\<rparr>"

subsection \<open>Properties\<close>

text \<open>
  A bitmap has exactly the bits it was built from, whatever they are, and tests of
  bits beyond its last word are false.
\<close>

theorem bitmap_exact:
  "bit_set (build_bitmap bits) p \<longleftrightarrow> p \<in> set bits"
  by (rule bit_set_build)

text \<open>
  C38: the attributes of an object, written by a server as the bitmap of the attributes it
  has and their values in ascending order of the bits, are read back exactly, and reading stops
  right after them.
\<close>

theorem fattr4_roundtrip:
  assumes "ok_Fattr4 a" "encode_fattr4 a [] = Ok bs"
  shows "rd_fattr4 (bs @ rest) = Ok (a, rest)"
  by (rule rd_fattr4_encoded [OF assms])

theorem fattr4_roundtrip_example:
  "\<exists>bs. encode_fattr4 (default_Fattr4\<lparr>f4_mode := Some 420, f4_owner := Some ''ab''\<rparr>) [] = Ok bs \<and>
    rd_fattr4 (bs @ [9]) = Ok (default_Fattr4\<lparr>f4_mode := Some 420, f4_owner := Some ''ab''\<rparr>, [9])"
proof -
  let ?a = "default_Fattr4\<lparr>f4_mode := Some 420, f4_owner := Some ''ab''\<rparr>"
  have "length (build_bitmap [33, 36]) \<le> 2" by (rule build_bitmap_two) simp
  then have "\<exists>bs. encode_fattr4 ?a [] = Ok bs"
    by (cases "build_bitmap [33, 36]"; cases "tl (build_bitmap [33, 36])")
      (auto simp: encode_fattr4_def attr_values_def opt_attr_def default_Fattr4_def nfs4_attrs
        encode_bitmap_def enc_eval)
  moreover have "ok_Fattr4 ?a"
    by (simp add: ok_Fattr4_def default_Fattr4_def valid_string_def) code_simp
  ultimately show ?thesis using fattr4_roundtrip by blast
qed

text \<open>
  The attribute list of \<open>SETATTR\<close> is always encodable, and a server reads from it the
  new size and the new mode, each when it was given, and nothing else.
\<close>

theorem setattr_attrs_read:
  "\<exists>bs. encode_setattr_fattr4 s [] = Ok bs \<and> rd_fattr4 (bs @ rest) = Ok (set_fattr4 s, rest)"
proof -
  let ?bits = "map fst (attr_values (set_fattr4 s))"
  have "length (build_bitmap ?bits) \<le> 2" by (rule build_bitmap_two [OF attr_values_bits])
  then have "\<exists>bs. encode_fattr4 (set_fattr4 s) [] = Ok bs"
    by (cases "s4_size s"; cases "s4_mode s"; cases "build_bitmap ?bits"; cases "tl (build_bitmap ?bits)")
      (auto simp: encode_fattr4_def attr_values_def opt_attr_def default_Fattr4_def nfs4_attrs
        encode_bitmap_def enc_eval set_fattr4_def)
  moreover have "ok_Fattr4 (set_fattr4 s)" by (simp add: ok_Fattr4_def set_fattr4_def default_Fattr4_def)
  ultimately show ?thesis
    using rd_fattr4_encoded unfolding setattr_fattr4_eq set_fattr4_def [symmetric] by blast
qed

end
