(* ===== verification/NFS4.thy ===== *)
theory NFS4
  imports NFS4_Types
begin

text \<open>
  The NFSv4 client \<open>Nfs4\<close> (\<open>nfs-proto/src/nfs4.rs\<close>): the builder of a \<open>COMPOUND\<close>, the
  state of the client (clientid, open owner with its seqid, lock counter, session of v4.1),
  the exchange of a \<open>COMPOUND\<close> with its retries, the handshakes and the procedures.
\<close>

subsection \<open>Building a COMPOUND\<close>

record Compound =
  c_ops :: bytes
  c_nops :: u32

type_synonym builder = "Compound \<Rightarrow> (Compound, XdrError) result"

definition new_Compound :: Compound where
  "new_Compound = \<lparr>c_ops = [], c_nops = 0\<rparr>"

text \<open>\<open>x.encode(&mut self.ops)?\<close>\<close>

definition c_put :: "encoding \<Rightarrow> builder" where
  "c_put enc c = map_ok (\<lambda>ops. c\<lparr>c_ops := ops\<rparr>) (enc (c_ops c))"

definition c_then :: "builder \<Rightarrow> builder \<Rightarrow> builder" where
  "c_then a b c = and_then (a c) b"

definition c_op :: "u32 \<Rightarrow> builder" where
  "c_op opcode = c_then (c_put (encode_u32 opcode)) (\<lambda>c. Ok (c\<lparr>c_nops := c_nops c + 1\<rparr>))"

text \<open>An operation with its arguments, encoded one after the other.\<close>

definition c_op_args :: "u32 \<Rightarrow> encoding list \<Rightarrow> builder" where
  "c_op_args opcode args = c_then (c_op opcode) (c_put (struct_encode args))"

definition c_putrootfh :: builder where
  "c_putrootfh = c_op OP_PUTROOTFH"

definition c_putfh :: "NfsFh4 \<Rightarrow> builder" where
  "c_putfh fh = c_op_args OP_PUTFH [encode_NfsFh4 fh]"

definition c_getfh :: builder where
  "c_getfh = c_op OP_GETFH"

definition c_savefh :: builder where
  "c_savefh = c_op OP_SAVEFH"

definition c_getattr :: "u32 list \<Rightarrow> builder" where
  "c_getattr bits = c_op_args OP_GETATTR [encode_bitmap bits]"

definition c_lookup :: "string \<Rightarrow> builder" where
  "c_lookup name = c_op_args OP_LOOKUP [encode_String name]"

definition c_access :: "u32 \<Rightarrow> builder" where
  "c_access bits = c_op_args OP_ACCESS [encode_u32 bits]"

definition c_readlink :: builder where
  "c_readlink = c_op OP_READLINK"

definition c_read :: "Stateid4 \<Rightarrow> u64 \<Rightarrow> u32 \<Rightarrow> builder" where
  "c_read stateid offset count =
     c_op_args OP_READ [encode_Stateid4 stateid, encode_u64 offset, encode_u32 count]"

definition c_write :: "Stateid4 \<Rightarrow> u64 \<Rightarrow> u32 \<Rightarrow> bytes \<Rightarrow> builder" where
  "c_write stateid offset stable_how data =
     c_op_args OP_WRITE [encode_Stateid4 stateid, encode_u64 offset, encode_u32 stable_how,
       encode_Bytes data]"

definition c_commit :: "u64 \<Rightarrow> u32 \<Rightarrow> builder" where
  "c_commit offset count = c_op_args OP_COMMIT [encode_u64 offset, encode_u32 count]"

definition c_remove :: "string \<Rightarrow> builder" where
  "c_remove name = c_op_args OP_REMOVE [encode_String name]"

definition c_rename :: "string \<Rightarrow> string \<Rightarrow> builder" where
  "c_rename old new = c_op_args OP_RENAME [encode_String old, encode_String new]"

definition c_link :: "string \<Rightarrow> builder" where
  "c_link newname = c_op_args OP_LINK [encode_String newname]"

definition c_renew :: "u64 \<Rightarrow> builder" where
  "c_renew clientid = c_op_args OP_RENEW [encode_u64 clientid]"

definition c_create_dir :: "string \<Rightarrow> builder" where
  "c_create_dir name = c_op_args OP_CREATE
     [encode_u32 NF4DIR, encode_String name, encode_bitmap [], encode_u32 0]"

definition c_create_symlink :: "string \<Rightarrow> string \<Rightarrow> builder" where
  "c_create_symlink name target = c_op_args OP_CREATE
     [encode_u32 NF4LNK, encode_String target, encode_String name, encode_bitmap [], encode_u32 0]"

definition c_open :: "u32 \<Rightarrow> u64 \<Rightarrow> bytes \<Rightarrow> u32 \<Rightarrow> bool \<Rightarrow> string \<Rightarrow> builder" where
  "c_open seqid clientid owner share_access create name = c_op_args OP_OPEN
     ([encode_u32 seqid, encode_u32 share_access, encode_u32 OPEN4_SHARE_DENY_NONE,
       encode_u64 clientid, encode_Bytes owner]
      @ (if create then
           [encode_u32 OPEN4_CREATE, encode_u32 UNCHECKED4, encode_bitmap [], encode_u32 0]
         else [encode_u32 OPEN4_NOCREATE])
      @ [encode_u32 CLAIM_NULL, encode_String name])"

definition c_open_confirm :: "Stateid4 \<Rightarrow> u32 \<Rightarrow> builder" where
  "c_open_confirm stateid seqid = c_op_args OP_OPEN_CONFIRM [encode_Stateid4 stateid, encode_u32 seqid]"

definition c_close :: "u32 \<Rightarrow> Stateid4 \<Rightarrow> builder" where
  "c_close seqid stateid = c_op_args OP_CLOSE [encode_u32 seqid, encode_Stateid4 stateid]"

definition c_lock_new ::
  "u32 \<Rightarrow> u64 \<Rightarrow> u64 \<Rightarrow> u32 \<Rightarrow> Stateid4 \<Rightarrow> u32 \<Rightarrow> u64 \<Rightarrow> bytes \<Rightarrow> builder" where
  "c_lock_new locktype offset len open_seqid open_stateid lock_seqid clientid lock_owner =
     c_op_args OP_LOCK [encode_u32 locktype, encode_bool False, encode_u64 offset, encode_u64 len,
       encode_bool True, encode_u32 open_seqid, encode_Stateid4 open_stateid, encode_u32 lock_seqid,
       encode_u64 clientid, encode_Bytes lock_owner]"

definition c_locku :: "u32 \<Rightarrow> u32 \<Rightarrow> Stateid4 \<Rightarrow> u64 \<Rightarrow> u64 \<Rightarrow> builder" where
  "c_locku locktype lock_seqid lock_stateid offset len =
     c_op_args OP_LOCKU [encode_u32 locktype, encode_u32 lock_seqid, encode_Stateid4 lock_stateid,
       encode_u64 offset, encode_u64 len]"

definition c_lockt :: "u32 \<Rightarrow> u64 \<Rightarrow> u64 \<Rightarrow> u64 \<Rightarrow> bytes \<Rightarrow> builder" where
  "c_lockt locktype offset len clientid lock_owner =
     c_op_args OP_LOCKT [encode_u32 locktype, encode_u64 offset, encode_u64 len,
       encode_u64 clientid, encode_Bytes lock_owner]"

definition c_setattr :: "Stateid4 \<Rightarrow> SetAttr4 \<Rightarrow> builder" where
  "c_setattr stateid attrs =
     c_op_args OP_SETATTR [encode_Stateid4 stateid, encode_setattr_fattr4 attrs]"

definition c_readdir :: "u64 \<Rightarrow> bytes \<Rightarrow> u32 \<Rightarrow> u32 \<Rightarrow> u32 list \<Rightarrow> builder" where
  "c_readdir ck cookieverf dircount maxcount attr_bits =
     c_op_args OP_READDIR [encode_u64 ck, encode_fixed cookieverf, encode_u32 dircount,
       encode_u32 maxcount, encode_bitmap attr_bits]"

text \<open>Bytes already encoded (\<open>struct Raw\<close>), and the whole argument of the call.\<close>

definition encode_Raw :: "bytes \<Rightarrow> encoding" where
  "encode_Raw data buf = Ok (put_slice data buf)"

definition c_finish :: "u32 \<Rightarrow> Compound \<Rightarrow> (bytes, XdrError) result" where
  "c_finish minor c =
     struct_encode [encode_String [], encode_u32 minor, encode_u32 (c_nops c), encode_Raw (c_ops c)] []"

subsection \<open>The client\<close>

record Nfs4 =
  n4_rpc :: RpcClient
  n4_minor :: u32
  n4_clientid :: u64
  n4_owner :: bytes
  n4_open_seqid :: u32
  n4_lock_counter :: u32
  n4_sessionid :: "bytes option"
  n4_seq_id :: u32

type_synonym nfs4_state = "Nfs4 \<times> net"
type_synonym 'a nfs4_op = "(nfs4_state, ProtoError, 'a) op"

text \<open>Reading a field of \<open>self\<close>, and writing one.\<close>

definition n4_get :: "(Nfs4 \<Rightarrow> 'b) \<Rightarrow> ('b \<Rightarrow> 'a nfs4_op) \<Rightarrow> 'a nfs4_op" where
  "n4_get f k = (\<lambda>(c, n). k (f c) (c, n))"

definition n4_set :: "(Nfs4 \<Rightarrow> Nfs4) \<Rightarrow> unit nfs4_op" where
  "n4_set f = (\<lambda>(c, n). Some (Ok (), f c, n))"

text \<open>\<open>self.rpc.call(PROGRAM, VERSION4, COMPOUND_PROC, &Raw(args))?\<close> at the type \<open>Bytes\<close>\<close>

definition n4_call :: "bytes \<Rightarrow> bytes nfs4_op" where
  "n4_call args = (\<lambda>(c, n).
     case call NFS4_PROGRAM NFS4_VERSION4 COMPOUND_PROC (encode_Raw args) decode_Bytes (n4_rpc c, n) of
       None \<Rightarrow> None
     | Some (r, rpc', n') \<Rightarrow> Some (map_err PE_Rpc r, c\<lparr>n4_rpc := rpc'\<rparr>, n'))"

definition no_session :: string where
  "no_session = ''sesi'' @ [CHR 0xC3, CHR 0xB3] @ ''n NFSv4.1 no establecida''"

definition assemble :: "Compound \<Rightarrow> bytes nfs4_op" where
  "assemble c = n4_get n4_minor (\<lambda>minor.
     if minor = 0 then op_lift (map_err PE_Xdr (c_finish 0 c))
     else n4_get n4_sessionid (\<lambda>sid.
       op_bind (op_lift (ok_or sid (PE_Protocol no_session))) (\<lambda>sessionid.
       n4_get n4_seq_id (\<lambda>seqid.
       op_bind (n4_set (\<lambda>s. s\<lparr>n4_seq_id := n4_seq_id s + 1\<rparr>)) (\<lambda>_.
       op_lift (map_err PE_Xdr (struct_encode
         [encode_String [], encode_u32 minor, encode_u32 (c_nops c + 1), encode_u32 OP_SEQUENCE,
          encode_fixed sessionid, encode_u32 seqid, encode_u32 0, encode_u32 0, encode_bool False,
          encode_Raw (c_ops c)] [])))))))"

text \<open>The result of \<open>SEQUENCE\<close>: the sessionid and five words.\<close>

definition rd_sequence :: "unit reader" where
  "rd_sequence = rd_bind (begin_op OP_SEQUENCE) (\<lambda>_. rd_bind (rd_decode (decode_fixed 16)) (\<lambda>_.
     rd_bind (rd_decode (decode_items 5 decode_u32)) (\<lambda>_. rd_return ())))"

definition run_attempt :: "Compound \<Rightarrow> bytes nfs4_op" where
  "run_attempt c = op_bind (assemble c) n4_call"

definition is_delay :: "u32 \<Rightarrow> bool" where
  "is_delay code \<longleftrightarrow> code = NFS4ERR_GRACE \<or> code = NFS4ERR_DELAY"

text \<open>
  The loop of \<open>run\<close> with the number of attempts already made; the pauses between the
  attempts take time only. The result is the reader at the first operation of \<open>c\<close>.
\<close>

function run_loop :: "nat \<Rightarrow> Compound \<Rightarrow> bytes nfs4_op" where
  "run_loop attempts c s =
     (case run_attempt c s of
        Some (Ok reply, s') \<Rightarrow>
          (case reader_parse reply of
             Ok reader \<Rightarrow>
               Some (if 1 \<le> n4_minor (fst s') then map_ok snd (rd_sequence reader) else Ok reader, s')
           | Err (PE_Nfs4 code) \<Rightarrow>
               if is_delay code \<and> attempts + 1 < 6 then run_loop (attempts + 1) c s'
               else Some (Err (PE_Nfs4 code), s')
           | r \<Rightarrow> Some (r, s'))
      | r \<Rightarrow> r)"
  by pat_completeness auto

termination by (relation "measure (\<lambda>(attempts, c, s). 6 - attempts)") auto

declare run_loop.simps [simp del]

definition nfs4_run :: "Compound \<Rightarrow> bytes nfs4_op" where
  "nfs4_run = run_loop 0"

definition nfs4_run_raw :: "Compound \<Rightarrow> bytes nfs4_op" where
  "nfs4_run_raw c = n4_get n4_minor (\<lambda>minor.
     op_bind (op_lift (map_err PE_Xdr (c_finish minor c))) (\<lambda>args.
     op_bind (n4_call args) (\<lambda>reply. op_lift (reader_parse reply))))"

text \<open>
  The shape of every procedure: build the \<open>COMPOUND\<close>, run it, read the results in order.
\<close>

definition n4_build :: "builder \<Rightarrow> Compound nfs4_op" where
  "n4_build b = op_lift (map_err PE_Xdr (b new_Compound))"

definition n4_read :: "'a reader \<Rightarrow> bytes \<Rightarrow> 'a nfs4_op" where
  "n4_read r buf = op_lift (map_ok fst (r buf))"

definition n4_compound :: "builder \<Rightarrow> 'a reader \<Rightarrow> 'a nfs4_op" where
  "n4_compound b r = op_bind (n4_build b) (\<lambda>c. op_bind (nfs4_run c) (n4_read r))"

definition begin_ops :: "u32 list \<Rightarrow> 'a reader \<Rightarrow> 'a reader" where
  "begin_ops ops r = foldr (\<lambda>p k. rd_bind (begin_op p) (\<lambda>_. k)) ops r"


subsection \<open>Identity of the client\<close>

text \<open>
  \<open>boot_verifier\<close> and \<open>unique_owner\<close> read the clock (nanoseconds since the epoch) and the
  process id, which are arguments here; one argument per reading.
\<close>

definition boot_verifier :: "u64 \<Rightarrow> bytes" where
  "boot_verifier nanos = be_bytes 8 nanos"

definition nfs4_unique_owner :: "u32 \<Rightarrow> u64 \<Rightarrow> bytes" where
  "nfs4_unique_owner pid nanos =
     as_bytes (''libnfs-rs:'' @ show_nat (unat pid) @ '':'' @ show_nat (unat nanos))"

definition fresh_lock_owner :: "bytes nfs4_op" where
  "fresh_lock_owner =
     op_bind (n4_set (\<lambda>s. s\<lparr>n4_lock_counter := n4_lock_counter s + 1\<rparr>)) (\<lambda>_.
     n4_get (\<lambda>s. n4_owner s @ as_bytes ('':lock:'' @ show_nat (unat (n4_lock_counter s))))
       (\<lambda>owner. op_lift (Ok owner)))"

subsection \<open>Handshakes\<close>

definition encode_channel_attrs :: encoding where
  "encode_channel_attrs = struct_encode (map encode_u32 [0, 1048576, 1048576, 0, 8, 1, 0])"

definition skip_channel_attrs :: "unit reader" where
  "skip_channel_attrs = rd_bind (rd_decode (decode_items 6 decode_u32)) (\<lambda>_.
     rd_bind (rd_decode (decode_Vec decode_u32)) (\<lambda>_. rd_return ()))"

definition c_exchange_id :: "bytes \<Rightarrow> bytes \<Rightarrow> builder" where
  "c_exchange_id verifier owner = c_op_args OP_EXCHANGE_ID
     [encode_fixed verifier, encode_Bytes owner, encode_u32 0, encode_u32 0, encode_u32 0]"

definition rd_exchange_id :: "(u64 \<times> u32) reader" where
  "rd_exchange_id =
     rd_bind (begin_op OP_EXCHANGE_ID) (\<lambda>_.
     rd_bind (rd_decode decode_u64) (\<lambda>clientid.
     rd_bind (rd_decode decode_u32) (\<lambda>create_seqid.
     rd_bind (rd_decode decode_u32) (\<lambda>flags.
     rd_bind (rd_decode decode_u32) (\<lambda>state_protect.
     rd_bind (rd_decode decode_u64) (\<lambda>server_minor_id.
     rd_bind (rd_opaque usize_max) (\<lambda>server_major_id.
     rd_bind (rd_opaque usize_max) (\<lambda>server_scope.
     rd_bind (rd_decode decode_u32) (\<lambda>impl_id_count.
     rd_return (clientid, create_seqid))))))))))"

definition c_create_session :: "u64 \<Rightarrow> u32 \<Rightarrow> builder" where
  "c_create_session clientid create_seqid = c_op_args OP_CREATE_SESSION
     [encode_u64 clientid, encode_u32 create_seqid, encode_u32 0, encode_channel_attrs,
      encode_channel_attrs, encode_u32 0, encode_u32 1, encode_u32 0]"

definition rd_create_session :: "(bytes \<times> u32) reader" where
  "rd_create_session =
     rd_bind (begin_op OP_CREATE_SESSION) (\<lambda>_.
     rd_bind (rd_decode (decode_fixed 16)) (\<lambda>sessionid.
     rd_bind (rd_decode decode_u32) (\<lambda>csr_seq.
     rd_bind (rd_decode decode_u32) (\<lambda>csr_flags.
     rd_bind skip_channel_attrs (\<lambda>_.
     rd_bind skip_channel_attrs (\<lambda>_.
     rd_return (sessionid, csr_seq)))))))"

definition n4_compound_raw :: "builder \<Rightarrow> 'a reader \<Rightarrow> 'a nfs4_op" where
  "n4_compound_raw b r = op_bind (n4_build b) (\<lambda>c. op_bind (nfs4_run_raw c) (n4_read r))"

definition establish_session :: "u64 \<Rightarrow> unit nfs4_op" where
  "establish_session nanos =
     n4_get n4_owner (\<lambda>owner.
     op_bind (n4_compound_raw (c_exchange_id (boot_verifier nanos) owner) rd_exchange_id)
       (\<lambda>(clientid, create_seqid).
     op_bind (n4_set (\<lambda>s. s\<lparr>n4_clientid := clientid\<rparr>)) (\<lambda>_.
     op_bind (n4_compound_raw (c_create_session clientid create_seqid) rd_create_session)
       (\<lambda>(sessionid, csr_seq).
     op_bind (n4_set (\<lambda>s. s\<lparr>n4_sessionid := Some sessionid, n4_seq_id := csr_seq\<rparr>)) (\<lambda>_.
     n4_compound (c_op_args OP_RECLAIM_COMPLETE [encode_bool False])
       (begin_op OP_RECLAIM_COMPLETE))))))"

definition destroy_session :: "unit nfs4_op" where
  "destroy_session = n4_get n4_sessionid (\<lambda>sid.
     case sid of
       None \<Rightarrow> op_lift (Ok ())
     | Some sessionid \<Rightarrow>
         op_bind (n4_compound_raw (c_op_args OP_DESTROY_SESSION [encode_fixed sessionid])
           (begin_op OP_DESTROY_SESSION)) (\<lambda>_.
         n4_set (\<lambda>s. s\<lparr>n4_sessionid := None\<rparr>)))"

definition c_setclientid :: "bytes \<Rightarrow> bytes \<Rightarrow> builder" where
  "c_setclientid verifier cid = c_op_args OP_SETCLIENTID
     [encode_fixed verifier, encode_Bytes cid, encode_u32 0, encode_String [], encode_String [],       encode_u32 0]"

definition rd_setclientid :: "(u64 \<times> bytes) reader" where
  "rd_setclientid =
     rd_bind (begin_op OP_SETCLIENTID) (\<lambda>_.
     rd_bind (rd_decode decode_u64) (\<lambda>clientid.
     rd_bind (rd_decode (decode_fixed 8)) (\<lambda>confirm. rd_return (clientid, confirm))))"

definition c_setclientid_confirm :: "u64 \<Rightarrow> bytes \<Rightarrow> builder" where
  "c_setclientid_confirm clientid confirm =
     c_op_args OP_SETCLIENTID_CONFIRM [encode_u64 clientid, encode_fixed confirm]"

definition setclientid :: "u32 \<Rightarrow> u64 \<Rightarrow> u64 \<Rightarrow> unit nfs4_op" where
  "setclientid pid nanos nanos' =
     op_bind (n4_compound (c_setclientid (boot_verifier nanos) (nfs4_unique_owner pid nanos'))
       rd_setclientid) (\<lambda>(clientid, confirm).
     op_bind (n4_compound (c_setclientid_confirm clientid confirm) (begin_op OP_SETCLIENTID_CONFIRM)) (\<lambda>_.
     n4_set (\<lambda>s. s\<lparr>n4_clientid := clientid\<rparr>)))"

definition nfs4_from_client ::
  "u32 \<Rightarrow> u64 \<times> u64 \<times> u64 \<Rightarrow> RpcClient \<Rightarrow> u32 \<Rightarrow> (net, ProtoError, Nfs4) op" where
  "nfs4_from_client pid clock rpc minor n =
     (let (t0, t1, t2) = clock;
          client = \<lparr>n4_rpc = rpc, n4_minor = minor, n4_clientid = 0,
            n4_owner = nfs4_unique_owner pid t0, n4_open_seqid = 0, n4_lock_counter = 0,
            n4_sessionid = None, n4_seq_id = 0\<rparr> in
      case (if 1 \<le> minor then establish_session t1 else setclientid pid t1 t2) (client, n) of
        None \<Rightarrow> None
      | Some (r, client', n') \<Rightarrow> Some (map_ok (\<lambda>_. client') r, n'))"

definition nfs4_connect_minor ::
  "u32 \<Rightarrow> u64 \<times> u64 \<times> u64 \<Rightarrow> IpAddr \<Rightarrow> u16 \<Rightarrow> Credentials \<Rightarrow> Protocol \<Rightarrow> nat \<Rightarrow> u32 \<Rightarrow>
   (net, ProtoError, Nfs4) op" where
  "nfs4_connect_minor pid clock server port cr proto t minor =
     op_bind (op_map_err PE_Rpc (connect pid \<lparr>sa_ip = server, sa_port = port\<rparr> proto cr t)) (\<lambda>rpc.
     nfs4_from_client pid clock rpc minor)"

definition nfs4_connect ::
  "u32 \<Rightarrow> u64 \<times> u64 \<times> u64 \<Rightarrow> IpAddr \<Rightarrow> u16 \<Rightarrow> Credentials \<Rightarrow> Protocol \<Rightarrow> nat \<Rightarrow>
   (net, ProtoError, Nfs4) op" where
  "nfs4_connect pid clock server port cr proto t =
     nfs4_connect_minor pid clock server port cr proto t 0"

subsection \<open>Procedures\<close>

definition nfs4_renew :: "unit nfs4_op" where
  "nfs4_renew = n4_get n4_clientid (\<lambda>clientid. n4_compound (c_renew clientid) (begin_op OP_RENEW))"

definition nfs4_root_fh :: "NfsFh4 nfs4_op" where
  "nfs4_root_fh = n4_compound (c_then c_putrootfh c_getfh)
     (begin_ops [OP_PUTROOTFH, OP_GETFH] (rd_decode decode_NfsFh4))"

definition nfs4_getattr_bits :: "NfsFh4 \<Rightarrow> u32 list \<Rightarrow> Fattr4 nfs4_op" where
  "nfs4_getattr_bits fh bits = n4_compound (c_then (c_putfh fh) (c_getattr bits))
     (begin_ops [OP_PUTFH, OP_GETATTR] rd_fattr4)"

definition nfs4_getattr :: "NfsFh4 \<Rightarrow> Fattr4 nfs4_op" where
  "nfs4_getattr fh = nfs4_getattr_bits fh REQUEST_ATTRS"

definition STATVFS_ATTRS :: "u32 list" where
  "STATVFS_ATTRS = [FATTR4_FILES_AVAIL, FATTR4_FILES_FREE, FATTR4_FILES_TOTAL, FATTR4_SPACE_AVAIL,
     FATTR4_SPACE_FREE, FATTR4_SPACE_TOTAL]"

definition nfs4_statvfs :: "NfsFh4 \<Rightarrow> Fattr4 nfs4_op" where
  "nfs4_statvfs fh = nfs4_getattr_bits fh STATVFS_ATTRS"

definition nfs4_lookup :: "NfsFh4 \<Rightarrow> string \<Rightarrow> (NfsFh4 \<times> Fattr4) nfs4_op" where
  "nfs4_lookup dir name = n4_compound
     (c_then (c_then (c_then (c_putfh dir) (c_lookup name)) c_getfh) (c_getattr REQUEST_ATTRS))
     (begin_ops [OP_PUTFH, OP_LOOKUP, OP_GETFH] (rd_bind (rd_decode decode_NfsFh4) (\<lambda>fh.
      begin_ops [OP_GETATTR] (rd_bind rd_fattr4 (\<lambda>attrs. rd_return (fh, attrs))))))"

definition nfs4_access :: "NfsFh4 \<Rightarrow> u32 \<Rightarrow> u32 nfs4_op" where
  "nfs4_access fh bits = n4_compound (c_then (c_putfh fh) (c_access bits))
     (begin_ops [OP_PUTFH, OP_ACCESS] (rd_bind (rd_decode decode_u32) (\<lambda>supported. rd_decode decode_u32)))"

definition nfs4_readlink :: "NfsFh4 \<Rightarrow> string nfs4_op" where
  "nfs4_readlink fh = n4_compound (c_then (c_putfh fh) c_readlink)
     (begin_ops [OP_PUTFH, OP_READLINK] (rd_decode decode_String))"

definition delegation_granted :: string where
  "delegation_granted = ''el servidor concedi'' @ [CHR 0xC3, CHR 0xB3] @ '' una delegaci''
     @ [CHR 0xC3, CHR 0xB3] @ ''n (no soportado)''"

definition rd_open :: "(Stateid4 \<times> u32 \<times> NfsFh4) reader" where
  "rd_open = begin_ops [OP_PUTFH, OP_OPEN] (
     rd_bind (rd_decode decode_Stateid4) (\<lambda>stateid.
     rd_bind (rd_decode decode_ChangeInfo4) (\<lambda>cinfo.
     rd_bind (rd_decode decode_u32) (\<lambda>rflags.
     rd_bind (rd_decode (decode_Vec decode_u32)) (\<lambda>attrset.
     rd_bind (rd_decode decode_u32) (\<lambda>delegation_type.
     if delegation_type \<noteq> 0 then rd_fail (PE_Protocol delegation_granted)
     else begin_ops [OP_GETFH] (rd_bind (rd_decode decode_NfsFh4) (\<lambda>fh.
       rd_return (stateid, rflags, fh)))))))))"

definition advance_seqid :: "unit nfs4_op" where
  "advance_seqid = n4_set (\<lambda>s. s\<lparr>n4_open_seqid := n4_open_seqid s + 1\<rparr>)"

definition confirm_open :: "NfsFh4 \<Rightarrow> Stateid4 \<Rightarrow> u32 \<Rightarrow> Stateid4 nfs4_op" where
  "confirm_open fh stateid rflags =
     (if rflags AND OPEN4_RESULT_CONFIRM \<noteq> 0 then
        n4_get n4_open_seqid (\<lambda>confirm_seqid.
        op_bind (n4_compound (c_then (c_putfh fh) (c_open_confirm stateid confirm_seqid))
          (begin_ops [OP_PUTFH, OP_OPEN_CONFIRM] (rd_decode decode_Stateid4))) (\<lambda>stateid.
        op_bind advance_seqid (\<lambda>_. op_lift (Ok stateid))))
      else op_lift (Ok stateid))"

definition nfs4_open :: "NfsFh4 \<Rightarrow> string \<Rightarrow> u32 \<Rightarrow> bool \<Rightarrow> OpenResult nfs4_op" where
  "nfs4_open dir name share_access create =
     n4_get n4_open_seqid (\<lambda>seqid. n4_get n4_owner (\<lambda>owner. n4_get n4_clientid (\<lambda>clientid.
     op_bind (n4_compound (c_then (c_then (c_putfh dir)
         (c_open seqid clientid owner share_access create name)) c_getfh) rd_open)
       (\<lambda>(stateid, rflags, fh).
     op_bind advance_seqid (\<lambda>_.
     op_bind (confirm_open fh stateid rflags) (\<lambda>stateid.
     op_lift (Ok \<lparr>or_fh = fh, or_stateid = stateid\<rparr>)))))))"

definition nfs4_close :: "NfsFh4 \<Rightarrow> Stateid4 \<Rightarrow> unit nfs4_op" where
  "nfs4_close fh stateid = n4_get n4_open_seqid (\<lambda>seqid.
     op_bind (n4_compound (c_then (c_putfh fh) (c_close seqid stateid))
       (begin_ops [OP_PUTFH, OP_CLOSE] (rd_decode decode_Stateid4))) (\<lambda>_. advance_seqid))"

definition lock_type :: "bool \<Rightarrow> u32" where
  "lock_type exclusive = (if exclusive then WRITE_LT else READ_LT)"

definition nfs4_lock :: "NfsFh4 \<Rightarrow> Stateid4 \<Rightarrow> u64 \<Rightarrow> u64 \<Rightarrow> bool \<Rightarrow> LockGrant nfs4_op" where
  "nfs4_lock fh open_stateid offset len exclusive =
     op_bind fresh_lock_owner (\<lambda>lock_owner.
     n4_get n4_open_seqid (\<lambda>open_seqid. n4_get n4_clientid (\<lambda>clientid.
     op_bind (n4_compound (c_then (c_putfh fh) (c_lock_new (lock_type exclusive) offset len
         open_seqid open_stateid 0 clientid lock_owner))
       (begin_ops [OP_PUTFH, OP_LOCK] (rd_decode decode_Stateid4))) (\<lambda>stateid.
     op_bind advance_seqid (\<lambda>_.
     op_lift (Ok \<lparr>lg_stateid = stateid, lg_locktype = lock_type exclusive\<rparr>))))))"

definition nfs4_unlock :: "NfsFh4 \<Rightarrow> LockGrant \<Rightarrow> u64 \<Rightarrow> u64 \<Rightarrow> Stateid4 nfs4_op" where
  "nfs4_unlock fh grant offset len = n4_compound (c_then (c_putfh fh)
       (c_locku (lg_locktype grant) 1 (lg_stateid grant) offset len))
     (begin_ops [OP_PUTFH, OP_LOCKU] (rd_decode decode_Stateid4))"

definition nfs4_test_lock :: "NfsFh4 \<Rightarrow> u64 \<Rightarrow> u64 \<Rightarrow> bool \<Rightarrow> bool nfs4_op" where
  "nfs4_test_lock fh offset len exclusive =
     op_bind fresh_lock_owner (\<lambda>lock_owner. n4_get n4_clientid (\<lambda>clientid.
     op_bind (n4_build (c_then (c_putfh fh) (c_lockt (lock_type exclusive) offset len clientid lock_owner)))
       (\<lambda>c. op_match (nfs4_run c) (n4_read (begin_ops [OP_PUTFH, OP_LOCKT] (rd_return True)))
         (\<lambda>e. if e = PE_Nfs4 NFS4ERR_DENIED then Ok False else Err e))))"

definition nfs4_read :: "NfsFh4 \<Rightarrow> Stateid4 \<Rightarrow> u64 \<Rightarrow> u32 \<Rightarrow> ReadResult nfs4_op" where
  "nfs4_read fh stateid offset count = n4_compound (c_then (c_putfh fh) (c_read stateid offset count))
     (begin_ops [OP_PUTFH, OP_READ] (rd_bind (rd_decode decode_bool) (\<lambda>eof.
      rd_bind (rd_opaque usize_max) (\<lambda>data. rd_return \<lparr>rr_eof = eof, rr_data = data\<rparr>))))"

definition nfs4_write :: "NfsFh4 \<Rightarrow> Stateid4 \<Rightarrow> u64 \<Rightarrow> u32 \<Rightarrow> bytes \<Rightarrow> u32 nfs4_op" where
  "nfs4_write fh stateid offset stable_how data =
     n4_compound (c_then (c_putfh fh) (c_write stateid offset stable_how data))
     (begin_ops [OP_PUTFH, OP_WRITE] (rd_bind (rd_decode decode_u32) (\<lambda>count.
      rd_bind (rd_decode decode_u32) (\<lambda>committed.
      rd_bind (rd_decode (decode_fixed 8)) (\<lambda>verf. rd_return count)))))"

definition nfs4_commit :: "NfsFh4 \<Rightarrow> u64 \<Rightarrow> u32 \<Rightarrow> unit nfs4_op" where
  "nfs4_commit fh offset count = n4_compound (c_then (c_putfh fh) (c_commit offset count))
     (begin_ops [OP_PUTFH, OP_COMMIT] (rd_bind (rd_decode (decode_fixed 8)) (\<lambda>verf. rd_return ())))"

definition nfs4_setattr :: "NfsFh4 \<Rightarrow> SetAttr4 \<Rightarrow> unit nfs4_op" where
  "nfs4_setattr fh attrs = n4_compound (c_then (c_putfh fh) (c_setattr default_Stateid4 attrs))
     (begin_ops [OP_PUTFH, OP_SETATTR] (rd_bind (rd_decode (decode_Vec decode_u32)) (\<lambda>_. rd_return ())))"

definition rd_created :: "NfsFh4 reader" where
  "rd_created = begin_ops [OP_PUTFH, OP_CREATE] (rd_bind (rd_decode decode_ChangeInfo4) (\<lambda>cinfo.
     rd_bind (rd_decode (decode_Vec decode_u32)) (\<lambda>attrset.
     begin_ops [OP_GETFH] (rd_decode decode_NfsFh4))))"

definition nfs4_mkdir :: "NfsFh4 \<Rightarrow> string \<Rightarrow> NfsFh4 nfs4_op" where
  "nfs4_mkdir dir name = n4_compound (c_then (c_then (c_putfh dir) (c_create_dir name)) c_getfh) rd_created"

definition nfs4_symlink :: "NfsFh4 \<Rightarrow> string \<Rightarrow> string \<Rightarrow> NfsFh4 nfs4_op" where
  "nfs4_symlink dir name target =
     n4_compound (c_then (c_then (c_putfh dir) (c_create_symlink name target)) c_getfh) rd_created"

definition nfs4_remove :: "NfsFh4 \<Rightarrow> string \<Rightarrow> unit nfs4_op" where
  "nfs4_remove dir name = n4_compound (c_then (c_putfh dir) (c_remove name))
     (begin_ops [OP_PUTFH, OP_REMOVE] (rd_bind (rd_decode decode_ChangeInfo4) (\<lambda>_. rd_return ())))"

definition nfs4_link :: "NfsFh4 \<Rightarrow> NfsFh4 \<Rightarrow> string \<Rightarrow> unit nfs4_op" where
  "nfs4_link obj dir name =
     n4_compound (c_then (c_then (c_then (c_putfh obj) c_savefh) (c_putfh dir)) (c_link name))
     (begin_ops [OP_PUTFH, OP_SAVEFH, OP_PUTFH, OP_LINK]
       (rd_bind (rd_decode decode_ChangeInfo4) (\<lambda>_. rd_return ())))"

definition nfs4_rename :: "NfsFh4 \<Rightarrow> string \<Rightarrow> NfsFh4 \<Rightarrow> string \<Rightarrow> unit nfs4_op" where
  "nfs4_rename from_dir from_name to_dir to_name =
     n4_compound (c_then (c_then (c_then (c_putfh from_dir) c_savefh) (c_putfh to_dir))
       (c_rename from_name to_name))
     (begin_ops [OP_PUTFH, OP_SAVEFH, OP_PUTFH, OP_RENAME]
       (rd_bind (rd_decode decode_ChangeInfo4) (\<lambda>source.
        rd_bind (rd_decode decode_ChangeInfo4) (\<lambda>target. rd_return ()))))"

definition rd_entry4 :: "DirEntry4 reader" where
  "rd_entry4 = rd_bind (rd_decode decode_u64) (\<lambda>ck. rd_bind (rd_decode decode_String) (\<lambda>name.
     rd_bind rd_fattr4 (\<lambda>attrs. rd_return \<lparr>d4_cookie = ck, d4_name = name, d4_attrs = attrs\<rparr>)))"

definition rd_readdir :: "ReaddirResult reader" where
  "rd_readdir = begin_ops [OP_PUTFH, OP_READDIR] (rd_bind (rd_decode (decode_fixed 8)) (\<lambda>verf.
     rd_bind (rd_while rd_entry4) (\<lambda>entries.
     rd_bind (rd_decode decode_bool) (\<lambda>eof.
     rd_return \<lparr>rd_cookieverf = verf, rd_entries = entries, rd_eof = eof\<rparr>))))"

definition nfs4_readdir :: "NfsFh4 \<Rightarrow> u64 \<Rightarrow> bytes \<Rightarrow> u32 \<Rightarrow> ReaddirResult nfs4_op" where
  "nfs4_readdir dir ck cookieverf maxcount = n4_compound
     (c_then (c_putfh dir) (c_readdir ck cookieverf (maxcount div 2) maxcount REQUEST_ATTRS)) rd_readdir"

subsection \<open>Bytes of a request\<close>

lemma c_op_args_eq:
  assumes "xdr_encoder (struct_encode args)"
  shows "c_op_args p args c = map_ok (\<lambda>bs. c\<lparr>c_nops := c_nops c + 1,
    c_ops := c_ops c @ be_bytes 4 p @ bs\<rparr>) (struct_encode args [])"
proof -
  have "struct_encode args (c_ops c @ be_bytes 4 p)
      = map_ok (append (c_ops c @ be_bytes 4 p)) (struct_encode args [])"
    by (rule xdr_encoder.appends [OF assms])
  then show ?thesis
    by (simp add: c_op_args_def c_op_def c_then_def c_put_def encode_u32_def put_word_def)
qed

lemma c_op_args_Nil: "c_op p = c_op_args p []"
  by (auto simp: fun_eq_iff c_op_args_def c_then_def c_put_def enc_done_def c_op_def encode_u32_def)

lemma wire_String_Nil: "encode_String [] buf = Ok (buf @ w4 0)"
  by (simp add: enc_eval)

lemma decode_String_Nil: "decode_String (w4 0 @ rest) = Ok ([], rest)"
  using wire_rt_String [of "[]"] wire_String_Nil [of "[]"]
  by (simp add: valid_string_def as_bytes_def wire_rt_def)

lemma c_finish_eq: "c_finish minor c = Ok (w4 0 @ w4 minor @ w4 (c_nops c) @ c_ops c)"
  by (simp add: c_finish_def wire_String_Nil encode_u32_def put_word_def enc_seq_def enc_done_def
      encode_Raw_def put_slice_def)

lemma assemble_v41:
  assumes "n4_minor s \<noteq> 0" "n4_sessionid s = Some sid"
  shows "assemble c (s, n) = Some (Ok (w4 0 @ w4 (n4_minor s) @ w4 (c_nops c + 1)
      @ w4 53 @ sid @ replicate (padding (length sid)) 0 @ w4 (n4_seq_id s)
      @ w4 0 @ w4 0 @ w4 0 @ c_ops c),
      s\<lparr>n4_seq_id := n4_seq_id s + 1\<rparr>, n)"
  using assms
  by (simp add: assemble_def n4_get_def n4_set_def op_bind_def op_lift_def ok_or_def wire_String_Nil
      encode_u32_def put_word_def enc_seq_def enc_done_def encode_Raw_def put_slice_def encode_fixed_def
      put_bytes_def encode_bool_def nfs4_ops)

subsection \<open>Operations keep the RPC client in order\<close>

definition n4_ok :: "nfs4_state \<Rightarrow> bool" where
  "n4_ok s \<longleftrightarrow> client_ok (n4_rpc (fst s))"

definition builds :: "builder \<Rightarrow> bool" where
  "builds b \<longleftrightarrow> (\<forall>c. 4 dvd length (c_ops c) \<longrightarrow> b c \<noteq> Panic \<and>
     (\<forall>c'. b c = Ok c' \<longrightarrow> 4 dvd length (c_ops c')))"

named_theorems builds \<open>builders that append whole words\<close>

lemma builds_op_args [builds]:
  assumes "xdr_encoder (struct_encode args)"
  shows "builds (c_op_args p args)"
proof (cases "struct_encode args []")
  case (Ok bs)
  from xdr_encoder.aligned [OF assms Ok] Ok show ?thesis
    by (simp add: builds_def c_op_args_eq [OF assms])
next
  case Panic
  with xdr_encoder.enc_no_panic [OF assms] show ?thesis by blast
qed (simp add: builds_def c_op_args_eq [OF assms])

lemma builds_then [builds]: "builds a \<Longrightarrow> builds b \<Longrightarrow> builds (c_then a b)"
  unfolding builds_def c_then_def and_then_eq_Panic and_then_eq_Ok by blast

lemma builds_ops [builds]:
  "builds c_putrootfh" "builds (c_putfh fh)" "builds c_getfh" "builds c_savefh"
  "builds (c_getattr bits)" "builds (c_lookup name)" "builds (c_access m)" "builds c_readlink"
  "builds (c_read sid off cnt)" "builds (c_write sid off how data)" "builds (c_commit off cnt)"
  "builds (c_remove name)" "builds (c_rename name name2)" "builds (c_link name)" "builds (c_renew cid)"
  "builds (c_create_dir name)" "builds (c_create_symlink name name2)"
  "builds (c_open_confirm sid seqid)" "builds (c_close seqid sid)"
  "builds (c_lock_new ty off len oseq sid lseq cid owner)" "builds (c_locku ty lseq sid off len)"
  "builds (c_lockt ty off len cid owner)" "builds (c_setattr sid sattr)"
  "builds (c_readdir ck verf dc mx bits)" "builds (c_exchange_id verf owner)"
  "builds (c_create_session cid seqid)" "builds (c_setclientid verf owner)"
  "builds (c_setclientid_confirm cid verf)"
  unfolding c_putrootfh_def c_putfh_def c_getfh_def c_savefh_def c_getattr_def c_lookup_def c_access_def
    c_readlink_def c_read_def c_write_def c_commit_def c_remove_def c_rename_def c_link_def c_renew_def
    c_create_dir_def c_create_symlink_def c_open_confirm_def c_close_def c_lock_new_def c_locku_def
    c_lockt_def c_setattr_def c_readdir_def c_exchange_id_def c_create_session_def c_setclientid_def
    c_setclientid_confirm_def encode_channel_attrs_def c_op_args_Nil list.map
  by (intro builds xdr_enc)+

lemma builds_open [builds]: "builds (c_open seqid cid owner share create name)"
  unfolding c_open_def by (rule builds_op_args, rule xdr_encoder_fields) (simp add: xdr_enc)

lemma xdr_encoder_Raw: "4 dvd length bs \<Longrightarrow> xdr_encoder (encode_Raw bs)"
  by (rule xdr_encoder_put [of _ bs]) (simp_all add: encode_Raw_def put_slice_def)

lemma n4_call_safe: "4 dvd length args \<Longrightarrow> op_safe n4_ok (n4_call args)"
  using call_safe [OF _ xdr_encoder_Raw xdr_decoder_Bytes]
  by (fastforce simp: op_safe_def n4_ok_def n4_call_def split: option.splits)

lemma n4_get_safe [op_safe]: "(\<And>x. op_safe n4_ok (k x)) \<Longrightarrow> op_safe n4_ok (n4_get f k)"
  by (auto simp: op_safe_def n4_get_def)

lemma n4_set_safe [op_safe]: "(\<And>s. n4_rpc (f s) = n4_rpc s) \<Longrightarrow> op_safe n4_ok (n4_set f)"
  by (auto simp: op_safe_def n4_set_def n4_ok_def)

lemma reader_sequence: "compound_reader rd_sequence"
  unfolding rd_sequence_def by (intro reader xdr_dec)

lemma assemble_effect:
  assumes "n4_ok s" "assemble c s = Some (r, s')" "4 dvd length (c_ops c)"
  shows "n4_ok s' \<and> r \<noteq> Panic \<and> (\<forall>args. r = Ok args \<longrightarrow> 4 dvd length args)"
proof -
  obtain t n where s: "s = (t, n)" by (cases s)
  show ?thesis
  proof (cases "n4_minor t = 0 \<or> n4_sessionid t = None")
    case True
    with assms s show ?thesis
      by (auto simp: assemble_def n4_get_def op_lift_def c_finish_eq ok_or_def op_bind_def split: if_splits)
  next
    case False
    then obtain sid where sid: "n4_sessionid t = Some sid" "n4_minor t \<noteq> 0" by blast
    show ?thesis
      using assms(1,2) padding_aligns [of "length sid"] assms(3)
      unfolding s assemble_v41 [OF sid(2,1)] by (auto simp: n4_ok_def) presburger
  qed
qed

lemma run_attempt_safe: "4 dvd length (c_ops c) \<Longrightarrow> op_safe n4_ok (run_attempt c)"
  unfolding op_safe_def run_attempt_def op_bind_eq
  using assemble_effect op_safeD [OF n4_call_safe] by blast

lemma reader_parse_no_panic: "reader_parse buf \<noteq> Panic"
proof -
  have "compound_reader (rd_bind (rd_decode decode_u32) (\<lambda>status.
     rd_bind (rd_decode decode_String) (\<lambda>_. rd_bind (rd_decode decode_u32) (\<lambda>_.
     if status \<noteq> NFS4_OK then rd_fail (PE_Nfs4 status) else rd_return ()))))"
    by (intro reader xdr_dec)
  from compound_reader.no_panic [OF this] show ?thesis by (simp add: reader_parse_def)
qed

lemma run_loop_safe:
  "4 dvd length (c_ops c) \<Longrightarrow> n4_ok s \<Longrightarrow> run_loop attempts c s = Some (r, s') \<Longrightarrow> n4_ok s' \<and> r \<noteq> Panic"
proof (induction attempts c s rule: run_loop.induct)
  case (1 attempts c s)
  from "1.prems"(3) obtain r1 s1 where a: "run_attempt c s = Some (r1, s1)"
    by (subst (asm) run_loop.simps) (auto split: option.splits)
  note safe = op_safeD [OF run_attempt_safe [OF "1.prems"(1)] "1.prems"(2) a]
  show ?case
  proof (cases r1)
    case (Ok reply)
    note a = a [unfolded Ok]
    show ?thesis
    proof (cases "reader_parse reply")
      case (Ok buf)
      with "1.prems"(3) a safe compound_reader.no_panic [OF reader_sequence] show ?thesis
        by (subst (asm) run_loop.simps) (auto split: if_splits)
    next
      case (Err e)
      show ?thesis
      proof (cases "\<exists>code. e = PE_Nfs4 code \<and> is_delay code \<and> attempts + 1 < 6")
        case True
        then obtain code where "e = PE_Nfs4 code" "is_delay code \<and> attempts + 1 < 6" by blast
        with "1.IH" [OF a refl refl Err this "1.prems"(1)] safe "1.prems"(3) a Err show ?thesis
          by (subst (asm) (2) run_loop.simps) simp
      next
        case False
        with "1.prems"(3) a safe Err show ?thesis
          by (subst (asm) run_loop.simps) (auto split: ProtoError.splits)
      qed
    qed (use reader_parse_no_panic in blast)
  qed (use "1.prems"(3) a safe in \<open>subst (asm) run_loop.simps, simp\<close>)+
qed

lemma nfs4_run_safe: "4 dvd length (c_ops c) \<Longrightarrow> op_safe n4_ok (nfs4_run c)"
  unfolding op_safe_def nfs4_run_def using run_loop_safe by blast

lemma nfs4_run_raw_safe:
  assumes "4 dvd length (c_ops c)"
  shows "op_safe n4_ok (nfs4_run_raw c)"
proof -
  have "op_safe n4_ok (n4_call (w4 0 @ w4 minor @ w4 (c_nops c) @ c_ops c))" for minor
    using assms by (intro n4_call_safe) simp
  then show ?thesis
    unfolding nfs4_run_raw_def c_finish_eq map_err.simps op_lift_bind
    by (intro op_safe) (use reader_parse_no_panic in auto)
qed

lemma builds_new:
  assumes "builds b"
  shows "b new_Compound \<noteq> Panic \<and> (\<forall>c. b new_Compound = Ok c \<longrightarrow> 4 dvd length (c_ops c))"
proof -
  have "4 dvd length (c_ops new_Compound)" by (simp add: new_Compound_def)
  with assms show ?thesis unfolding builds_def by blast
qed

lemma n4_build_bind_safe:
  assumes "builds b" "\<And>c. 4 dvd length (c_ops c) \<Longrightarrow> op_safe n4_ok (f c)"
  shows "op_safe n4_ok (op_bind (n4_build b) f)"
proof (cases "b new_Compound")
  case (Ok c)
  with builds_new [OF assms(1)] assms(2) show ?thesis by (simp add: n4_build_def)
next
  case Panic
  with builds_new [OF assms(1)] show ?thesis by simp
qed (auto simp: n4_build_def op_safe_def op_bind_def op_lift_def)

lemma n4_read_safe: "compound_reader r \<Longrightarrow> op_safe n4_ok (n4_read r buf)"
  unfolding n4_read_def by (intro op_safe) (simp add: compound_reader.no_panic)

lemma n4_compound_safe [op_safe]:
  "builds b \<Longrightarrow> compound_reader r \<Longrightarrow> op_safe n4_ok (n4_compound b r)"
  unfolding n4_compound_def
  by (rule n4_build_bind_safe, assumption, intro op_safe nfs4_run_safe n4_read_safe)

lemma n4_compound_raw_safe [op_safe]:
  "builds b \<Longrightarrow> compound_reader r \<Longrightarrow> op_safe n4_ok (n4_compound_raw b r)"
  unfolding n4_compound_raw_def
  by (rule n4_build_bind_safe, assumption, intro op_safe nfs4_run_raw_safe n4_read_safe)

lemma reader_begin_ops [reader]: "compound_reader r \<Longrightarrow> compound_reader (begin_ops ps r)"
  by (induction ps) (auto simp: begin_ops_def intro: reader)

lemma reader_results [reader]:
  "compound_reader rd_open" "compound_reader rd_created" "compound_reader rd_entry4"
  "compound_reader skip_channel_attrs" "compound_reader rd_exchange_id" "compound_reader rd_setclientid"
  unfolding rd_open_def rd_created_def rd_entry4_def skip_channel_attrs_def rd_exchange_id_def
    rd_setclientid_def by (intro reader xdr_dec)+

interpretation entry4: compound_reader rd_entry4
  by (rule reader_results)

lemma reader_listing [reader]: "compound_reader rd_readdir" "compound_reader rd_create_session"
  unfolding rd_readdir_def rd_create_session_def by (intro reader xdr_dec entry4.while_reader)+

lemma advance_seqid_safe [op_safe]: "op_safe n4_ok advance_seqid"
  unfolding advance_seqid_def by (intro op_safe) simp

lemma fresh_lock_owner_safe [op_safe]: "op_safe n4_ok fresh_lock_owner"
  unfolding fresh_lock_owner_def by (intro op_safe; simp)

lemma handshake_safe [op_safe]:
  "op_safe n4_ok (establish_session nanos)" "op_safe n4_ok (setclientid pid nanos nanos')"
  "op_safe n4_ok destroy_session"
  unfolding establish_session_def setclientid_def destroy_session_def case_prod_beta
  by (intro op_safe builds reader xdr_enc; simp)+

lemma nfs4_test_lock_safe [op_safe]: "op_safe n4_ok (nfs4_test_lock fh off len excl)"
  unfolding nfs4_test_lock_def
  by (intro op_safe n4_build_bind_safe nfs4_run_safe n4_read_safe builds reader) auto

lemma nfs4_safe [op_safe]:
  "op_safe n4_ok nfs4_renew" "op_safe n4_ok nfs4_root_fh" "op_safe n4_ok (nfs4_getattr fh)"
  "op_safe n4_ok (nfs4_statvfs fh)" "op_safe n4_ok (nfs4_lookup fh name)"
  "op_safe n4_ok (nfs4_access fh m)" "op_safe n4_ok (nfs4_readlink fh)"
  "op_safe n4_ok (nfs4_close fh sid)" "op_safe n4_ok (nfs4_unlock fh grant off len)"
  "op_safe n4_ok (nfs4_read fh sid off cnt)" "op_safe n4_ok (nfs4_write fh sid off how data)"
  "op_safe n4_ok (nfs4_commit fh off cnt)" "op_safe n4_ok (nfs4_setattr fh sattr)"
  "op_safe n4_ok (nfs4_mkdir fh name)" "op_safe n4_ok (nfs4_symlink fh name name2)"
  "op_safe n4_ok (nfs4_remove fh name)" "op_safe n4_ok (nfs4_link fh fh2 name)"
  "op_safe n4_ok (nfs4_rename fh name fh2 name2)" "op_safe n4_ok (nfs4_readdir fh ck verf mx)"
  unfolding nfs4_renew_def nfs4_root_fh_def nfs4_getattr_def nfs4_statvfs_def nfs4_getattr_bits_def
    nfs4_lookup_def nfs4_access_def nfs4_readlink_def nfs4_close_def nfs4_unlock_def nfs4_read_def
    nfs4_write_def nfs4_commit_def nfs4_setattr_def nfs4_mkdir_def nfs4_symlink_def nfs4_remove_def
    nfs4_link_def nfs4_rename_def nfs4_readdir_def
  by (intro op_safe builds reader xdr_dec)+

lemma nfs4_lock_safe [op_safe]: "op_safe n4_ok (nfs4_lock fh sid off len excl)"
  unfolding nfs4_lock_def by (intro op_safe builds reader xdr_dec) simp

lemma nfs4_open_safe [op_safe]: "op_safe n4_ok (nfs4_open fh name share create)"
  unfolding nfs4_open_def confirm_open_def case_prod_beta by (intro op_safe builds reader xdr_dec; simp)

lemma nfs4_from_client_safe:
  assumes "client_ok rpc" "nfs4_from_client pid clock rpc minor n = Some (r, n')"
  shows "r \<noteq> Panic \<and> (\<forall>c. r = Ok c \<longrightarrow> client_ok (n4_rpc c))"
proof -
  obtain t0 t1 t2 where clock: "clock = (t0, t1, t2)" by (cases clock)
  let ?m = "if 1 \<le> minor then establish_session t1 else setclientid pid t1 t2"
  have "op_safe n4_ok ?m" by (intro op_safe)
  from op_safeD [OF this, of "(\<lparr>n4_rpc = rpc, n4_minor = minor, n4_clientid = 0,
      n4_owner = nfs4_unique_owner pid t0, n4_open_seqid = 0, n4_lock_counter = 0,
      n4_sessionid = None, n4_seq_id = 0\<rparr>, n)"] assms show ?thesis
    unfolding nfs4_from_client_def clock Let_def prod.case
    by (auto simp: n4_ok_def split: option.splits prod.splits)
qed

subsection \<open>The exchange of a COMPOUND\<close>

text \<open>
  \<open>delayed c s m s'\<close>: \<open>m\<close> attempts to send \<open>c\<close>, each answered with \<open>NFS4ERR_GRACE\<close> or
  \<open>NFS4ERR_DELAY\<close>, lead from \<open>s\<close> to \<open>s'\<close>.
\<close>

inductive delayed :: "Compound \<Rightarrow> nfs4_state \<Rightarrow> nat \<Rightarrow> nfs4_state \<Rightarrow> bool" for c where
  no_delay: "delayed c s 0 s"
| one_more: "run_attempt c s = Some (Ok reply, s1) \<Longrightarrow> reader_parse reply = Err (PE_Nfs4 code) \<Longrightarrow>
    is_delay code \<Longrightarrow> delayed c s1 m s' \<Longrightarrow> delayed c s (Suc m) s'"

definition run_result :: "Nfs4 \<Rightarrow> bytes \<Rightarrow> (bytes, ProtoError) result" where
  "run_result s reply = and_then (reader_parse reply) (\<lambda>buf.
     if 1 \<le> n4_minor s then map_ok snd (rd_sequence buf) else Ok buf)"

lemma run_loop_spec:
  assumes "run_loop attempts c s = Some (r, s')" "attempts < 6"
  shows "\<exists>m s1 r1. delayed c s m s1 \<and> attempts + m < 6 \<and> run_attempt c s1 = Some (r1, s') \<and>
    r = and_then r1 (run_result (fst s')) \<and>
    ((\<exists>reply code. r1 = Ok reply \<and> reader_parse reply = Err (PE_Nfs4 code) \<and> is_delay code) \<longrightarrow>
      attempts + m = 5)"
  using assms
proof (induction attempts c s rule: run_loop.induct)
  case (1 attempts c s)
  from "1.prems"(1) obtain r1 s1 where a: "run_attempt c s = Some (r1, s1)"
    by (subst (asm) run_loop.simps) (auto split: option.splits)
  show ?case
  proof (cases "\<exists>reply code. r1 = Ok reply \<and> reader_parse reply = Err (PE_Nfs4 code) \<and> is_delay code
      \<and> attempts + 1 < 6")
    case True
    then obtain reply code where d: "r1 = Ok reply" "reader_parse reply = Err (PE_Nfs4 code)"
      "is_delay code" "attempts + 1 < 6" by blast
    with "1.prems"(1) a have "run_loop (attempts + 1) c s1 = Some (r, s')"
      by (subst (asm) run_loop.simps) simp
    from "1.IH" [OF a [unfolded d(1)] refl refl d(2) refl conjI [OF d(3,4)] this d(4)]
    obtain m s2 r2 where IH: "delayed c s1 m s2" "attempts + 1 + m < 6" "run_attempt c s2 = Some (r2, s')"
      "r = and_then r2 (run_result (fst s'))"
      "(\<exists>reply code. r2 = Ok reply \<and> reader_parse reply = Err (PE_Nfs4 code) \<and> is_delay code) \<longrightarrow>
        attempts + 1 + m = 5" by blast
    from one_more [OF a [unfolded d(1)] d(2,3) IH(1)] IH show ?thesis
      by (intro exI [of _ "Suc m"] exI [of _ s2] exI [of _ r2]) simp
  next
    case False
    with "1.prems" a have "s' = s1 \<and> r = and_then r1 (run_result (fst s1))"
      by (subst (asm) run_loop.simps)
        (auto simp: run_result_def split: result.splits if_splits ProtoError.splits)
    with a False "1.prems"(2) no_delay show ?thesis
      by (intro exI [of _ 0] exI [of _ s] exI [of _ r1]) auto
  qed
qed

lemma n4_call_eq:
  "n4_call args (s, n) = (case rpc_exchange 100003 4 1 (encode_Raw args) (n4_rpc s, n) of
     None \<Rightarrow> None
   | Some (r, rpc', n') \<Rightarrow> Some (map_err PE_Rpc (decode_with decode_Bytes r), s\<lparr>n4_rpc := rpc'\<rparr>, n'))"
  by (auto simp: n4_call_def call_raw nfs4_ops nfs4_consts split: option.splits)

lemma run_attempt_v40:
  assumes "n4_minor s = 0"
  shows "run_attempt c (s, n) = n4_call (w4 0 @ w4 0 @ w4 (c_nops c) @ c_ops c) (s, n)"
  using assms by (simp add: run_attempt_def assemble_def n4_get_def c_finish_eq op_bind_def op_lift_def)

lemma decode_Bytes_zero: "decode_Bytes (w4 0 @ rest) = Ok ([], rest)"
  using wire_rt_Bytes [of "[]"] by (simp add: wire_rt_def enc_eval)

lemma reader_parse_empty: "reader_parse [] = Err (PE_Xdr (Truncated 4 0))"
  by (simp add: reader_parse_def rd_bind_def rd_decode_def decode_u32_def dec_bind_def ensure_def)

lemma run_status_ok:
  assumes "n4_minor s = 0" and "c_finish 0 c = Ok args"
    and "rpc_exchange 100003 4 1 (encode_Raw args) (n4_rpc s, n) = Some (Ok (w4 0 @ tail), rpc', n')"
  shows "nfs4_run c (s, n) = Some (Err (PE_Xdr (Truncated 4 0)), s\<lparr>n4_rpc := rpc'\<rparr>, n')"
proof -
  have "run_attempt c (s, n) = Some (Ok [], s\<lparr>n4_rpc := rpc'\<rparr>, n')"
    using assms(2,3) by (simp add: run_attempt_v40 [OF assms(1)] n4_call_eq c_finish_eq decode_Bytes_zero)
  then show ?thesis
    unfolding nfs4_run_def by (subst run_loop.simps) (simp add: reader_parse_empty)
qed

text \<open>
  Running a \<open>COMPOUND\<close> changes the RPC client and, with a session, the sequence number of the
  slot; everything else of the client's state stays.
\<close>

definition n4_same :: "Nfs4 \<Rightarrow> Nfs4 \<Rightarrow> bool" where
  "n4_same s t \<longleftrightarrow> n4_minor t = n4_minor s \<and> n4_clientid t = n4_clientid s \<and> n4_owner t = n4_owner s \<and>
     n4_open_seqid t = n4_open_seqid s \<and> n4_lock_counter t = n4_lock_counter s \<and>
     n4_sessionid t = n4_sessionid s \<and> (n4_minor s = 0 \<longrightarrow> n4_seq_id t = n4_seq_id s)"

lemma n4_same_refl [simp]: "n4_same s s"
  by (simp add: n4_same_def)

lemma n4_same_trans: "n4_same s t \<Longrightarrow> n4_same t u \<Longrightarrow> n4_same s u"
  by (simp add: n4_same_def)

lemma assemble_same: "assemble c s = Some (r, s') \<Longrightarrow> n4_same (fst s) (fst s')"
  by (cases s) (auto simp: assemble_def n4_get_def n4_set_def op_bind_eq op_lift_def n4_same_def split: if_splits)

lemma n4_call_same: "n4_call args s = Some (r, s') \<Longrightarrow> n4_same (fst s) (fst s')"
  by (cases s) (auto simp: n4_call_def n4_same_def split: option.splits)

lemma run_attempt_same: "run_attempt c s = Some (r, s') \<Longrightarrow> n4_same (fst s) (fst s')"
  unfolding run_attempt_def op_bind_eq
  by (elim disjE exE conjE) (blast intro: n4_same_trans assemble_same n4_call_same)+

lemma delayed_same: "delayed c s m s' \<Longrightarrow> n4_same (fst s) (fst s')"
  by (induction rule: delayed.induct) (auto intro: n4_same_trans run_attempt_same)

lemma run_same:
  assumes "nfs4_run c s = Some (r, s')"
  shows "n4_same (fst s) (fst s')"
  using run_loop_spec [of 0 c s r s'] assms
  by (auto simp: nfs4_run_def intro: n4_same_trans run_attempt_same delayed_same)

lemma n4_compound_same:
  assumes "n4_compound b r s = Some (v, s')"
  shows "n4_same (fst s) (fst s')"
  using assms unfolding n4_compound_def op_bind_eq n4_build_def n4_read_def op_lift_def
  by (auto dest: run_same)

text \<open>A successful \<open>COMPOUND\<close> uses an answer of the network.\<close>

lemma assemble_net: "assemble c s = Some (r, s') \<Longrightarrow> snd s' = snd s"
  by (cases s) (auto simp: assemble_def n4_get_def n4_set_def op_bind_eq op_lift_def split: if_splits)

lemma n4_call_answers:
  "n4_call args s = Some (Ok v, s') \<Longrightarrow> length (net_sends (snd s')) < length (net_sends (snd s))"
  by (cases s) (auto simp: n4_call_def split: option.splits dest: call_answers)

lemma run_attempt_answers:
  assumes "run_attempt c s = Some (Ok v, s')"
  shows "length (net_sends (snd s')) < length (net_sends (snd s))"
proof -
  from assms obtain args s1 where "assemble c s = Some (Ok args, s1)" "n4_call args s1 = Some (Ok v, s')"
    unfolding run_attempt_def op_bind_eq by blast
  from assemble_net [OF this(1)] n4_call_answers [OF this(2)] show ?thesis by simp
qed

lemma delayed_answers: "delayed c s m s' \<Longrightarrow> length (net_sends (snd s')) \<le> length (net_sends (snd s))"
  by (induction rule: delayed.induct) (auto dest: run_attempt_answers)

lemma n4_compound_answers:
  assumes "n4_compound b r s = Some (Ok v, s')"
  shows "length (net_sends (snd s')) < length (net_sends (snd s))"
proof -
  from assms obtain c buf where "nfs4_run c s = Some (Ok buf, s')"
    unfolding n4_compound_def op_bind_eq n4_build_def n4_read_def op_lift_def by auto
  then obtain m s1 r1 where d: "delayed c s m s1" "run_attempt c s1 = Some (r1, s')"
    "Ok buf = and_then r1 (run_result (fst s'))"
    using run_loop_spec [of 0 c s "Ok buf" s', OF _ zero_less_numeral] unfolding nfs4_run_def by blast
  from d(3) obtain reply where "r1 = Ok reply" by (cases r1) auto
  with delayed_answers [OF d(1)] run_attempt_answers [of c s1 reply s'] d(2) show ?thesis by simp
qed

end
