(* ===== verification/NFS4_Server.thy ===== *)
theory NFS4_Server
  imports NFS4
begin

text \<open>
  What a server and the NFSv4 client see of each other: the operations a server decodes from
  the requests, the results the client reads from an answer, and the properties of the
  procedures.
\<close>

subsection \<open>A server's reading of a COMPOUND\<close>

text \<open>
  The operations of RFC 7530 that the client sends, and the decoder of a server: the
  opcode selects the arguments. An attribute list is its bitmap and its opaque values.
\<close>

type_synonym raw_attrs = "u32 list \<times> bytes"

datatype argop4 =
    A_Access u32
  | A_Close u32 Stateid4
  | A_Commit u64 u32
  | A_CreateDir string raw_attrs
  | A_CreateLink string string raw_attrs
  | A_Getattr "u32 list"
  | A_Getfh
  | A_Link string
  | A_Lock u32 bool u64 u64 u32 Stateid4 u32 u64 bytes
  | A_Lockt u32 u64 u64 u64 bytes
  | A_Locku u32 u32 Stateid4 u64 u64
  | A_Lookup string
  | A_Open u32 u32 u32 u64 bytes "raw_attrs option" string
  | A_OpenConfirm Stateid4 u32
  | A_Putfh NfsFh4
  | A_Putrootfh
  | A_Read Stateid4 u64 u32
  | A_Readdir u64 bytes u32 u32 "u32 list"
  | A_Readlink
  | A_Remove string
  | A_Rename string string
  | A_Renew u64
  | A_Savefh
  | A_Setattr Stateid4 raw_attrs
  | A_Write Stateid4 u64 u32 bytes
  | A_Sequence bytes u32 u32 u32 bool

definition decode_raw_attrs :: "raw_attrs decoder" where
  "decode_raw_attrs = dec_bind (decode_Vec decode_u32) (\<lambda>bm. dec_bind decode_Bytes (\<lambda>vs.
     dec_return (bm, vs)))"

definition decode_create :: "argop4 decoder" where
  "decode_create = union_decode
     [(2, dec_bind decode_String (\<lambda>name. dec_bind decode_raw_attrs (\<lambda>a. dec_return (A_CreateDir name a)))),
      (5, dec_bind decode_String (\<lambda>target. dec_bind decode_String (\<lambda>name.
        dec_bind decode_raw_attrs (\<lambda>a. dec_return (A_CreateLink name target a)))))]"

definition decode_openhow :: "raw_attrs option decoder" where
  "decode_openhow = union_decode
     [(0, dec_return None),
      (1, union_decode [(0, dec_bind decode_raw_attrs (\<lambda>a. dec_return (Some a)))])]"

definition decode_open :: "argop4 decoder" where
  "decode_open =
     dec_bind decode_u32 (\<lambda>seqid. dec_bind decode_u32 (\<lambda>share. dec_bind decode_u32 (\<lambda>deny.
     dec_bind decode_u64 (\<lambda>cid. dec_bind decode_Bytes (\<lambda>owner. dec_bind decode_openhow (\<lambda>how.
     union_decode [(0, dec_bind decode_String (\<lambda>name.
       dec_return (A_Open seqid share deny cid owner how name)))]))))))"

definition decode_lock :: "argop4 decoder" where
  "decode_lock =
     dec_bind decode_u32 (\<lambda>ty. dec_bind decode_bool (\<lambda>reclaim. dec_bind decode_u64 (\<lambda>off.
     dec_bind decode_u64 (\<lambda>len. union_decode [(1, dec_bind decode_u32 (\<lambda>oseq.
     dec_bind decode_Stateid4 (\<lambda>sid. dec_bind decode_u32 (\<lambda>lseq. dec_bind decode_u64 (\<lambda>cid.
     dec_bind decode_Bytes (\<lambda>owner. dec_return (A_Lock ty reclaim off len oseq sid lseq cid owner)))))))]))))"

definition argop4_arms :: "(u32 \<times> argop4 decoder) list" where
  "argop4_arms =
     [(3, dec_bind decode_u32 (\<lambda>m. dec_return (A_Access m))),
      (4, dec_bind decode_u32 (\<lambda>seqid. dec_bind decode_Stateid4 (\<lambda>sid. dec_return (A_Close seqid sid)))),
      (5, dec_bind decode_u64 (\<lambda>off. dec_bind decode_u32 (\<lambda>cnt. dec_return (A_Commit off cnt)))),
      (6, decode_create),
      (9, dec_bind (decode_Vec decode_u32) (\<lambda>bm. dec_return (A_Getattr bm))),
      (10, dec_return A_Getfh),
      (11, dec_bind decode_String (\<lambda>name. dec_return (A_Link name))),
      (12, decode_lock),
      (13, dec_bind decode_u32 (\<lambda>ty. dec_bind decode_u64 (\<lambda>off. dec_bind decode_u64 (\<lambda>len.
         dec_bind decode_u64 (\<lambda>cid. dec_bind decode_Bytes (\<lambda>owner.
         dec_return (A_Lockt ty off len cid owner))))))),
      (14, dec_bind decode_u32 (\<lambda>ty. dec_bind decode_u32 (\<lambda>seqid. dec_bind decode_Stateid4 (\<lambda>sid.
         dec_bind decode_u64 (\<lambda>off. dec_bind decode_u64 (\<lambda>len.
         dec_return (A_Locku ty seqid sid off len))))))),
      (15, dec_bind decode_String (\<lambda>name. dec_return (A_Lookup name))),
      (18, decode_open),
      (20, dec_bind decode_Stateid4 (\<lambda>sid. dec_bind decode_u32 (\<lambda>seqid.
         dec_return (A_OpenConfirm sid seqid)))),
      (22, dec_bind decode_NfsFh4 (\<lambda>fh. dec_return (A_Putfh fh))),
      (24, dec_return A_Putrootfh),
      (25, dec_bind decode_Stateid4 (\<lambda>sid. dec_bind decode_u64 (\<lambda>off. dec_bind decode_u32 (\<lambda>cnt.
         dec_return (A_Read sid off cnt))))),
      (26, dec_bind decode_u64 (\<lambda>ck. dec_bind (decode_fixed 8) (\<lambda>verf. dec_bind decode_u32 (\<lambda>dc.
         dec_bind decode_u32 (\<lambda>mx. dec_bind (decode_Vec decode_u32) (\<lambda>bm.
         dec_return (A_Readdir ck verf dc mx bm))))))),
      (27, dec_return A_Readlink),
      (28, dec_bind decode_String (\<lambda>name. dec_return (A_Remove name))),
      (29, dec_bind decode_String (\<lambda>old. dec_bind decode_String (\<lambda>new. dec_return (A_Rename old new)))),
      (30, dec_bind decode_u64 (\<lambda>cid. dec_return (A_Renew cid))),
      (32, dec_return A_Savefh),
      (34, dec_bind decode_Stateid4 (\<lambda>sid. dec_bind decode_raw_attrs (\<lambda>a. dec_return (A_Setattr sid a)))),
      (38, dec_bind decode_Stateid4 (\<lambda>sid. dec_bind decode_u64 (\<lambda>off. dec_bind decode_u32 (\<lambda>how.
         dec_bind decode_Bytes (\<lambda>data. dec_return (A_Write sid off how data)))))),
      (53, dec_bind (decode_fixed 16) (\<lambda>sid. dec_bind decode_u32 (\<lambda>seqid. dec_bind decode_u32 (\<lambda>slot.
         dec_bind decode_u32 (\<lambda>high. dec_bind decode_bool (\<lambda>cache.
         dec_return (A_Sequence sid seqid slot high cache)))))))]"

definition decode_argop4 :: "argop4 decoder" where
  "decode_argop4 = union_decode argop4_arms"

definition decode_COMPOUND4args :: "(string \<times> u32 \<times> argop4 list) decoder" where
  "decode_COMPOUND4args =
     dec_bind decode_String (\<lambda>tag. dec_bind decode_u32 (\<lambda>minor. dec_bind decode_u32 (\<lambda>n.
     dec_bind (decode_items (unat n) decode_argop4) (\<lambda>ops. dec_return (tag, minor, ops)))))"

text \<open>
  \<open>makes b ops\<close>: the builder \<open>b\<close> appends the operations \<open>ops\<close>, counts them, and does not
  panic.
\<close>

definition makes :: "builder \<Rightarrow> argop4 list \<Rightarrow> bool" where
  "makes b ops \<longleftrightarrow> (\<forall>c. b c \<noteq> Panic \<and> (\<forall>c'. b c = Ok c' \<longrightarrow>
     (\<exists>bs. c_ops c' = c_ops c @ bs \<and> 4 dvd length bs \<and> c_nops c' = c_nops c + of_nat (length ops) \<and>
       (\<forall>rest. decode_items (length ops) decode_argop4 (bs @ rest) = Ok (ops, rest)))))"

named_theorems makes \<open>the operations that a builder appends\<close>

lemma makes_op:
  assumes "map_of argop4_arms p = Some arm" "xdr_encoder (struct_encode args)"
    "wire_rt (struct_encode args) arm v"
  shows "makes (c_op_args p args) [v]"
proof -
  have "decode_argop4 ((be_bytes 4 p @ bs) @ rest) = Ok (v, rest)"
    if "struct_encode args [] = Ok bs" for bs rest
    using assms(1,3) that by (simp add: decode_argop4_def union_decode_def dec_bind_def wire_rt_def)
  then show ?thesis
    using assms(2) xdr_encoder.enc_no_panic [OF assms(2)] xdr_encoder.aligned [OF assms(2)]
    by (auto simp: makes_def c_op_args_eq dec_bind_def dec_return_def)
qed

lemma decode_items_append:
  assumes "decode_items n dec (a @ b) = Ok (xs, b)" "decode_items m dec b = Ok (ys, rest)"
  shows "decode_items (n + m) dec (a @ b) = Ok (xs @ ys, rest)"
proof -
  have "decode_items n dec buf = Ok (xs, mid) \<Longrightarrow> decode_items m dec mid = Ok (ys, rest) \<Longrightarrow>
      decode_items (n + m) dec buf = Ok (xs @ ys, rest)" for buf mid
    by (induction n arbitrary: buf xs) (fastforce simp: dec_bind_eq dec_return_def)+
  with assms show ?thesis by blast
qed

lemma makes_then [makes]:
  assumes "makes a xs" "makes b ys"
  shows "makes (c_then a b) (xs @ ys)"
  unfolding makes_def
proof (intro allI conjI impI)
  fix c
  show "c_then a b c \<noteq> Panic" using assms by (auto simp: makes_def c_then_def)
  fix c'
  assume "c_then a b c = Ok c'"
  then obtain d where d: "a c = Ok d" "b d = Ok c'" by (auto simp: c_then_def)
  from assms(1) d(1) obtain as where as: "c_ops d = c_ops c @ as" "4 dvd length as"
    "c_nops d = c_nops c + of_nat (length xs)"
    "\<And>rest. decode_items (length xs) decode_argop4 (as @ rest) = Ok (xs, rest)"
    unfolding makes_def by blast
  from assms(2) d(2) obtain bs where bs: "c_ops c' = c_ops d @ bs" "4 dvd length bs"
    "c_nops c' = c_nops d + of_nat (length ys)"
    "\<And>rest. decode_items (length ys) decode_argop4 (bs @ rest) = Ok (ys, rest)"
    unfolding makes_def by blast
  show "\<exists>ws. c_ops c' = c_ops c @ ws \<and> 4 dvd length ws \<and> c_nops c' = c_nops c + of_nat (length (xs @ ys)) \<and>
      (\<forall>rest. decode_items (length (xs @ ys)) decode_argop4 (ws @ rest) = Ok (xs @ ys, rest))"
    using as bs by (intro exI [of _ "as @ bs"]) (simp add: decode_items_append)
qed


lemma dec_bind_assoc: "dec_bind (dec_bind d f) k = dec_bind d (\<lambda>x. dec_bind (f x) k)"
proof
  fix buf
  show "dec_bind (dec_bind d f) k buf = dec_bind d (\<lambda>x. dec_bind (f x) k) buf"
    by (cases "d buf") (auto simp: dec_bind_def)
qed

lemma dec_bind_return: "dec_bind (dec_return x) k = k x"
  by (auto simp: fun_eq_iff dec_bind_def dec_return_def)

lemmas dec_flat = dec_bind_assoc dec_bind_return

lemma wire_rt_tagged_seq:
  "map_of arms d = Some dec \<Longrightarrow> xdr_encoder e \<Longrightarrow> wire_rt e dec w \<Longrightarrow>
    wire_rt (enc_seq (encode_u32 d) e) (union_decode arms) w"
  by (auto simp: wire_rt_def enc_seq_Ok_iff union_decode_def dec_bind_def)

lemmas wire_rt_tagged = wire_rt_tagged_seq [where e = "struct_encode fs" for fs,
    folded struct_encode.simps(2)]

lemma empty_opaque: "encode_u32 0 = encode_Bytes []"
  by (simp add: fun_eq_iff enc_eval)

lemma makes_plain [makes]:
  "makes c_putrootfh [A_Putrootfh]" "makes (c_putfh fh) [A_Putfh fh]" "makes c_getfh [A_Getfh]"
  "makes c_savefh [A_Savefh]" "makes (c_access m) [A_Access m]" "makes c_readlink [A_Readlink]"
  "makes (c_commit off cnt) [A_Commit off cnt]" "makes (c_renew cid) [A_Renew cid]"
  "makes (c_getattr bits) [A_Getattr (build_bitmap bits)]"
  "makes (c_lockt ty off len cid owner) [A_Lockt ty off len cid owner]"
  unfolding c_putrootfh_def c_putfh_def c_getfh_def c_savefh_def c_access_def c_readlink_def
    c_commit_def c_renew_def c_getattr_def c_lockt_def c_op_args_Nil encode_bitmap_def
  by (rule makes_op, simp add: argop4_arms_def nfs4_ops, intro xdr_enc,
      (rule xdr_rt xdr_enc wire_rt_u32_Vec refl | simp)+)+


lemma makes_named [makes]:
  assumes "valid_string name" "valid_string name2"
  shows "makes (c_lookup name) [A_Lookup name]" "makes (c_remove name) [A_Remove name]"
    "makes (c_link name) [A_Link name]" "makes (c_rename name name2) [A_Rename name name2]"
  unfolding c_lookup_def c_remove_def c_link_def c_rename_def
  by (rule makes_op, simp add: argop4_arms_def nfs4_ops, intro xdr_enc,
      (rule xdr_rt xdr_enc refl | simp add: assms)+)+

lemma makes_stateid [makes]:
  assumes "ok_Stateid4 sid"
  shows "makes (c_read sid off cnt) [A_Read sid off cnt]"
    "makes (c_write sid off how data) [A_Write sid off how data]"
    "makes (c_open_confirm sid seqid) [A_OpenConfirm sid seqid]"
    "makes (c_close seqid sid) [A_Close seqid sid]"
    "makes (c_locku ty seqid sid off len) [A_Locku ty seqid sid off len]"
  unfolding c_read_def c_write_def c_open_confirm_def c_close_def c_locku_def
  by (rule makes_op, simp add: argop4_arms_def nfs4_ops, intro xdr_enc,
      (rule xdr_rt xdr_enc refl | simp add: assms)+)+

lemma makes_readdir [makes]:
  assumes "length verf = 8"
  shows "makes (c_readdir ck verf dc mx bits) [A_Readdir ck verf dc mx (build_bitmap bits)]"
  unfolding c_readdir_def encode_bitmap_def
  by (rule makes_op, simp add: argop4_arms_def nfs4_ops, intro xdr_enc,
      (rule xdr_rt xdr_enc wire_rt_u32_Vec refl | simp add: assms)+)

lemma enc_seq_done: "enc_seq a enc_done = a"
proof
  show "enc_seq a enc_done buf = a buf" for buf
    by (cases "a buf") (simp_all add: enc_seq_def enc_done_def)
qed

lemma enc_seq_assoc: "enc_seq (enc_seq a b) c = enc_seq a (enc_seq b c)"
proof
  show "enc_seq (enc_seq a b) c buf = enc_seq a (enc_seq b c) buf" for buf
    by (cases "a buf") (simp_all add: enc_seq_def)
qed

lemma makes_setattr [makes]:
  assumes "ok_Stateid4 sid" "struct_encode (map snd (attr_values (set_fattr4 a))) [] = Ok vs"
  shows "makes (c_setattr sid a) [A_Setattr sid (build_bitmap (map fst (attr_values (set_fattr4 a))), vs)]"
proof -
  have "encode_setattr_fattr4 a
      = enc_seq (encode_bitmap (map fst (attr_values (set_fattr4 a)))) (encode_Bytes vs)"
    using assms(2) unfolding setattr_fattr4_eq encode_fattr4_def set_fattr4_def by (simp add: fun_eq_iff)
  then have e: "struct_encode [encode_Stateid4 sid, encode_setattr_fattr4 a]
     = struct_encode [encode_Stateid4 sid, encode_bitmap (map fst (attr_values (set_fattr4 a))), encode_Bytes vs]"
    by (simp add: enc_seq_assoc)
  show ?thesis
    unfolding c_setattr_def
    by (rule makes_op, simp add: argop4_arms_def nfs4_ops, intro xdr_enc,
        unfold e encode_bitmap_def decode_raw_attrs_def dec_flat)
      (rule xdr_rt xdr_enc wire_rt_u32_Vec refl | simp add: assms)+
qed

lemma makes_lock [makes]:
  assumes "ok_Stateid4 sid"
  shows "makes (c_lock_new ty off len oseq sid lseq cid owner) [A_Lock ty False off len oseq sid lseq cid owner]"
proof -
  have b: "encode_bool True = encode_u32 1" by (simp add: fun_eq_iff enc_eval)
  show ?thesis
    unfolding c_lock_new_def b
    by (rule makes_op, simp add: argop4_arms_def nfs4_ops, intro xdr_enc, unfold decode_lock_def)
      (rule xdr_rt xdr_enc wire_rt_bool wire_rt_tagged refl | simp add: assms)+
qed

lemma makes_create [makes]:
  assumes "valid_string name" "valid_string target"
  shows "makes (c_create_dir name) [A_CreateDir name ([0], [])]"
    "makes (c_create_symlink name target) [A_CreateLink name target ([0], [])]"
proof -
  have b: "build_bitmap [] = [0]" by (simp add: build_bitmap_def)
  show "makes (c_create_dir name) [A_CreateDir name ([0], [])]"
    unfolding c_create_dir_def empty_opaque encode_bitmap_def b
    by (rule makes_op, simp add: argop4_arms_def nfs4_ops, intro xdr_enc,
        unfold decode_create_def decode_raw_attrs_def dec_flat NF4DIR_def)
      (rule xdr_rt xdr_enc wire_rt_u32_Vec wire_rt_tagged refl | simp add: assms)+
  show "makes (c_create_symlink name target) [A_CreateLink name target ([0], [])]"
    unfolding c_create_symlink_def empty_opaque encode_bitmap_def b
    by (rule makes_op, simp add: argop4_arms_def nfs4_ops, intro xdr_enc,
        unfold decode_create_def decode_raw_attrs_def dec_flat NF4LNK_def)
      (rule xdr_rt xdr_enc wire_rt_u32_Vec wire_rt_tagged refl | simp add: assms)+
qed

lemma enc_done_seq: "enc_seq enc_done a = a"
  by (simp add: fun_eq_iff enc_seq_def enc_done_def)

lemma struct_encode_append: "struct_encode (fs @ gs) = enc_seq (struct_encode fs) (struct_encode gs)"
  by (induction fs) (simp_all add: enc_seq_assoc enc_done_seq)

lemma wire_rt_openhow:
  "wire_rt (struct_encode (if create
      then [encode_u32 OPEN4_CREATE, encode_u32 UNCHECKED4, encode_bitmap [], encode_Bytes []]
      else [encode_u32 OPEN4_NOCREATE])) decode_openhow (if create then Some ([0], []) else None)"
proof -
  have b: "build_bitmap [] = [0]" by (simp add: build_bitmap_def)
  show ?thesis
    unfolding decode_openhow_def decode_raw_attrs_def dec_flat encode_bitmap_def b nfs4_consts
    by (cases create; simp only: if_True if_False; (rule wire_rt_tagged, simp, intro xdr_enc)+)
      (rule xdr_rt xdr_enc wire_rt_u32_Vec refl | simp)+
qed

lemma makes_open [makes]:
  assumes "valid_string name"
  shows "makes (c_open seqid cid owner share create name)
    [A_Open seqid share 0 cid owner (if create then Some ([0], []) else None) name]"
  unfolding c_open_def empty_opaque
proof (rule makes_op)
  show "map_of argop4_arms OP_OPEN = Some decode_open" by (simp add: argop4_arms_def nfs4_ops)
  let ?how = "if create
      then [encode_u32 OPEN4_CREATE, encode_u32 UNCHECKED4, encode_bitmap [], encode_Bytes []]
      else [encode_u32 OPEN4_NOCREATE]"
  have e: "xdr_encoder (struct_encode ?how)" by (rule xdr_encoder_fields) (simp add: xdr_enc)
  show "xdr_encoder (struct_encode ([encode_u32 seqid, encode_u32 share, encode_u32 OPEN4_SHARE_DENY_NONE,
      encode_u64 cid, encode_Bytes owner] @ ?how @ [encode_u32 CLAIM_NULL, encode_String name]))"
    by (rule xdr_encoder_fields) (simp add: xdr_enc)
  have "OPEN4_SHARE_DENY_NONE = 0" "CLAIM_NULL = 0" by (simp_all add: nfs4_consts)
  then show "wire_rt (struct_encode ([encode_u32 seqid, encode_u32 share, encode_u32 OPEN4_SHARE_DENY_NONE,
      encode_u64 cid, encode_Bytes owner] @ ?how @ [encode_u32 CLAIM_NULL, encode_String name])) decode_open
      (A_Open seqid share 0 cid owner (if create then Some ([0], []) else None) name)"
    unfolding struct_encode_append struct_encode.simps enc_seq_assoc enc_done_seq decode_open_def
    by (simp only:) ((rule wire_rt_seq, rule xdr_rt wire_rt_openhow, (rule xdr_enc e)+)+,
        rule wire_rt_tagged_seq, simp, intro xdr_enc, (rule xdr_rt xdr_enc refl assms)+)
qed

subsection \<open>Whole requests\<close>

lemma makes_new:
  assumes "makes b ops" "b new_Compound = Ok c"
  obtains "4 dvd length (c_ops c)" "c_nops c = of_nat (length ops)"
    "\<And>rest. decode_items (length ops) decode_argop4 (c_ops c @ rest) = Ok (ops, rest)"
  using assms unfolding makes_def by (fastforce simp: new_Compound_def)

lemma finish_server_view:
  assumes "makes b ops" "b new_Compound = Ok c" "length ops < 2 ^ 32" "c_finish minor c = Ok args"
  shows "decode_COMPOUND4args args = Ok (([], minor, ops), [])"
proof -
  from makes_new [OF assms(1,2)] have n: "c_nops c = of_nat (length ops)"
    "decode_items (length ops) decode_argop4 (c_ops c) = Ok (ops, [])"
    by (metis append_Nil2)+
  moreover have "unat (of_nat (length ops) :: u32) = length ops"
    using assms(3) by (simp add: unat_of_nat)
  ultimately show ?thesis
    using assms(4) decode_String_Nil
    by (auto simp: c_finish_eq decode_COMPOUND4args_def dec_bind_def dec_return_def)
qed

lemma sequence_server_view:
  assumes "makes b ops" "b new_Compound = Ok c" "length ops + 1 < 2 ^ 32"
    and "n4_minor s \<noteq> 0" "n4_sessionid s = Some sid" "length sid = 16"
    and "assemble c (s, n) = Some (Ok args, s')"
  shows "decode_COMPOUND4args args =
      Ok (([], n4_minor s, A_Sequence sid (n4_seq_id s) 0 0 False # ops), [])
    \<and> s' = (s\<lparr>n4_seq_id := n4_seq_id s + 1\<rparr>, n)"
proof -
  from makes_new [OF assms(1,2)] have n: "c_nops c = of_nat (length ops)"
    "decode_items (length ops) decode_argop4 (c_ops c) = Ok (ops, [])"
    by (metis append_Nil2)+
  have u: "unat (of_nat (length ops) + 1 :: u32) = Suc (length ops)"
  proof -
    have "of_nat (length ops) + 1 = (of_nat (Suc (length ops)) :: u32)" by simp
    then show ?thesis using assms(3) by (simp only: unat_of_nat) simp
  qed
  have "decode_fixed 16 (sid @ rest) = Ok (sid, rest)" for rest
    using assms(6) by (simp add: decode_fixed_eq padding_def)
  moreover have "decode_bool (w4 0 @ rest) = Ok (False, rest)" for rest
    by (simp add: decode_bool_def dec_bind_def dec_return_def)
  ultimately show ?thesis
    using assms(6,7) n u decode_String_Nil unfolding assemble_v41 [OF assms(4,5)]
    by (auto simp: padding_def decode_COMPOUND4args_def decode_argop4_def union_decode_def
        argop4_arms_def dec_bind_def dec_return_def)
qed

subsection \<open>Answers\<close>

definition op_ok :: "u32 \<Rightarrow> bytes" where
  "op_ok p = w4 p @ w4 0"

lemma begin_op_ok [simp]: "begin_op p (op_ok p @ rest) = Ok ((), rest)"
  by (simp add: begin_op_def op_ok_def rd_bind_def rd_decode_def rd_return_def nfs4_ops)

lemma begin_op_failed: "status \<noteq> 0 \<Longrightarrow> begin_op p (w4 p @ w4 status @ rest) = Err (PE_Nfs4 status)"
  by (simp add: begin_op_def rd_bind_def rd_decode_def rd_fail_def nfs4_ops)

lemma begin_ops_simps [simp]:
  "begin_ops [] r = r"
  "begin_ops (p # ps) r (op_ok p @ rest) = begin_ops ps r rest"
  by (simp_all add: begin_ops_def)

lemma reader_parse_reply: "reader_parse (w4 status @ w4 0 @ w4 cnt @ results) =
    (if status = 0 then Ok results else Err (PE_Nfs4 status))"
  by (simp add: reader_parse_def rd_bind_def rd_decode_def decode_String_Nil nfs4_ops rd_fail_def rd_return_def)

lemma rd_decode_rt: "wire_rt e dec v \<Longrightarrow> e [] = Ok bs \<Longrightarrow> rd_decode dec (bs @ rest) = Ok (v, rest)"
  by (simp add: wire_rt_def rd_decode_def)

text \<open>A reply that reaches the client inside an opaque.\<close>

lemma run_framed:
  assumes "n4_minor s = 0" "encode_Bytes (w4 status @ w4 0 @ w4 cnt @ results) [] = Ok body"
    and "rpc_exchange 100003 4 1 (encode_Raw (w4 0 @ w4 0 @ w4 (c_nops c) @ c_ops c)) (n4_rpc s, n)
      = Some (Ok body, rpc', n')" "\<not> is_delay status"
  shows "nfs4_run c (s, n) =
    Some (if status = 0 then Ok results else Err (PE_Nfs4 status), s\<lparr>n4_rpc := rpc'\<rparr>, n')"
proof -
  have "decode_Bytes (body @ []) = Ok (w4 status @ w4 0 @ w4 cnt @ results, [])"
    using wire_rt_Bytes assms(2) unfolding wire_rt_def by blast
  then have "run_attempt c (s, n) = Some (Ok (w4 status @ w4 0 @ w4 cnt @ results), s\<lparr>n4_rpc := rpc'\<rparr>, n')"
    using assms(3) by (simp add: run_attempt_v40 [OF assms(1)] n4_call_eq)
  then show ?thesis
    unfolding nfs4_run_def using assms(1,4)
    by (subst run_loop.simps) (simp add: reader_parse_reply)
qed

lemma n4_compound_run:
  assumes "b new_Compound = Ok c" "nfs4_run c s = Some (Ok buf, s')"
  shows "n4_compound b r s = Some (map_ok fst (r buf), s')"
  using assms by (simp add: n4_compound_def n4_build_def op_bind_def op_lift_def n4_read_def)

lemma n4_compound_failed:
  assumes "b new_Compound = Ok c" "nfs4_run c s = Some (Err e, s')"
  shows "n4_compound b r s = Some (Err e, s')"
  using assms by (simp add: n4_compound_def n4_build_def op_bind_def op_lift_def)

subsection \<open>Properties\<close>

lemma makes_thenI: "makes a xs \<Longrightarrow> makes b ys \<Longrightarrow> zs = xs @ ys \<Longrightarrow> makes (c_then a b) zs"
  using makes_then by blast


text \<open>
  C36: no successful answer of an RFC 7530 server is understood. The answer begins with the
  status word 0, which the client reads as the length of an empty opaque, so every procedure
  of NFSv4.0 fails with a truncated buffer, and nothing of its state but the RPC client changes.
\<close>

theorem nfs4_success_unreadable:
  assumes "n4_minor s = 0" "b new_Compound = Ok c" "c_finish 0 c = Ok args"
    and "rpc_exchange 100003 4 1 (encode_Raw args) (n4_rpc s, n) = Some (Ok (w4 0 @ tail), rpc', n')"
  shows "n4_compound b r (s, n) = Some (Err (PE_Xdr (Truncated 4 0)), s\<lparr>n4_rpc := rpc'\<rparr>, n')"
  by (rule n4_compound_failed, rule assms(2), rule run_status_ok [OF assms(1,3,4)])

definition ex_fh4 :: NfsFh4 where
  "ex_fh4 = \<lparr>fh4_data = [1, 2, 3, 4]\<rparr>"

definition ex_nfs4 :: Nfs4 where
  "ex_nfs4 = \<lparr>n4_rpc = ex_client Udp, n4_minor = 0, n4_clientid = 7, n4_owner = [1], n4_open_seqid = 5,
     n4_lock_counter = 0, n4_sessionid = None, n4_seq_id = 0\<rparr>"

lemmas c_eval = c_then_def c_op_args_def c_op_def c_put_def new_Compound_def enc_eval encode_access_def
  encode_NfsFh4_def ex_fh4_def

text \<open>The request of a \<open>LOOKUP\<close> with its bytes, for the examples.\<close>

definition ex_lookup_ops :: builder where
  "ex_lookup_ops = c_then (c_then (c_then (c_putfh ex_fh4) (c_lookup ''a'')) c_getfh) (c_getattr REQUEST_ATTRS)"

lemma ex_lookup_ops_built: "\<exists>c. ex_lookup_ops new_Compound = Ok c \<and> 4 dvd length (c_ops c) \<and> length (c_ops c) \<le> 2 ^ 10"
proof -
  have n: "length (build_bitmap REQUEST_ATTRS) \<le> 2"
    by (rule build_bitmap_two) (simp add: REQUEST_ATTRS_def nfs4_attrs)
  then have "\<exists>ms. encode_bitmap REQUEST_ATTRS [] = Ok ms \<and> length ms \<le> 12"
    by (cases "build_bitmap REQUEST_ATTRS"; cases "tl (build_bitmap REQUEST_ATTRS)")
      (auto simp: encode_bitmap_def enc_eval)
  then obtain ms where ms: "encode_bitmap REQUEST_ATTRS [] = Ok ms" "length ms \<le> 12" by blast
  have "encode_bitmap REQUEST_ATTRS buf = Ok (buf @ ms)" for buf
    using xdr_encoder.appends [OF xdr_encoder_bitmap, of REQUEST_ATTRS buf] ms(1) by simp
  then have "\<exists>c. ex_lookup_ops new_Compound = Ok c \<and> length (c_ops c) \<le> 2 ^ 10"
    using ms(2) by (simp add: ex_lookup_ops_def c_putfh_def c_lookup_def c_getfh_def c_getattr_def c_eval)
  moreover have "builds ex_lookup_ops" unfolding ex_lookup_ops_def by (intro builds)
  ultimately show ?thesis using builds_new by blast
qed

abbreviation ex_lookup_net :: net where
  "ex_lookup_net \<equiv> ex_served (ex_client Udp) (w4 0 @ w4 0 @ w4 4 @ op_ok 22)"

lemma ex_lookup_exchange:
  "\<exists>c args rpc' n'. ex_lookup_ops new_Compound = Ok c \<and> c_finish 0 c = Ok args \<and>
    rpc_exchange 100003 4 1 (encode_Raw args) (n4_rpc ex_nfs4, ex_lookup_net)
      = Some (Ok (w4 0 @ w4 0 @ w4 4 @ op_ok 22), rpc', n')"
proof -
  from ex_lookup_ops_built obtain c where c: "ex_lookup_ops new_Compound = Ok c" "4 dvd length (c_ops c)"
    "length (c_ops c) \<le> 2 ^ 10" by blast
  let ?args = "w4 0 @ w4 0 @ w4 (c_nops c) @ c_ops c"
  have e: "xdr_encoder (encode_Raw ?args)" "encode_Raw ?args [] = Ok ?args" "length ?args \<le> 2 ^ 20"
    "length (w4 0 @ w4 0 @ w4 4 @ op_ok 22) \<le> 2 ^ 20"
    using c by (auto intro: xdr_encoder_Raw simp: encode_Raw_def put_slice_def op_ok_def)
  from ex_exchange [OF e, where prog = 100003 and vers = 4 and proc = 1 and p = Udp]
  obtain rpc' n' where "rpc_exchange 100003 4 1 (encode_Raw ?args) (n4_rpc ex_nfs4, ex_lookup_net)
      = Some (Ok (w4 0 @ w4 0 @ w4 4 @ op_ok 22), rpc', n')" by (auto simp: ex_nfs4_def)
  with c(1) show ?thesis by (auto simp: c_finish_eq)
qed

theorem nfs4_success_unreadable_example:
  "\<exists>rpc' n'. n4_compound ex_lookup_ops rd_fattr4 (ex_nfs4, ex_lookup_net)
      = Some (Err (PE_Xdr (Truncated 4 0)), ex_nfs4\<lparr>n4_rpc := rpc'\<rparr>, n')"
proof -
  from ex_lookup_exchange obtain c args rpc' n' where x: "ex_lookup_ops new_Compound = Ok c" "c_finish 0 c = Ok args"
    "rpc_exchange 100003 4 1 (encode_Raw args) (n4_rpc ex_nfs4, ex_lookup_net)
      = Some (Ok (w4 0 @ w4 0 @ w4 4 @ op_ok 22), rpc', n')" by blast
  from nfs4_success_unreadable [where b = ex_lookup_ops and r = rd_fattr4, OF _ x] show ?thesis
    by (auto simp: ex_nfs4_def)
qed

subsection \<open>Seqids\<close>

lemma n4_compound_fields:
  assumes "n4_compound b r s = Some (v, s')"
  shows "n4_open_seqid (fst s') = n4_open_seqid (fst s)" "n4_lock_counter (fst s') = n4_lock_counter (fst s)"
  using n4_compound_same [OF assms] by (simp_all add: n4_same_def)

lemma advance_after:
  assumes "op_bind (n4_compound b r) (\<lambda>x. op_bind advance_seqid (\<lambda>_. op_lift (Ok (g x)))) s = Some (v, s')"
  shows "n4_open_seqid (fst s') = n4_open_seqid (fst s) + of_bool (is_ok v) \<and>
    n4_lock_counter (fst s') = n4_lock_counter (fst s)"
  using assms n4_compound_fields [of b r s]
  by (cases "n4_compound b r s") (auto simp: op_bind_eq advance_seqid_def n4_set_def op_lift_def)

lemma op_lift_unit: "op_bind m (\<lambda>_. op_lift (Ok ())) = m" for m :: "('s, 'e, unit) op"
  by (auto simp: fun_eq_iff op_bind_def op_lift_def split: option.splits result.splits)

lemma confirm_seqid:
  assumes "confirm_open fh sid flags s = Some (v, s')"
  shows "n4_open_seqid (fst s') = n4_open_seqid (fst s)
    + of_bool (flags AND OPEN4_RESULT_CONFIRM \<noteq> 0 \<and> is_ok v)"
  using assms
  by (cases s) (auto simp: confirm_open_def n4_get_def op_lift_def split: if_splits
      dest!: advance_after [where g = "\<lambda>x. x"])



text \<open>A reply in an opaque, over the network of the examples.\<close>

definition framed :: "bytes \<Rightarrow> bytes" where
  "framed reply = w4 (of_nat (length reply)) @ reply @ replicate (padding (length reply)) 0"

lemma encode_Bytes_framed: "length reply \<le> 2 ^ 10 \<Longrightarrow> encode_Bytes reply [] = Ok (framed reply)"
  by (simp add: framed_def enc_eval)

definition idle :: "RpcClient \<Rightarrow> bool" where
  "idle c \<longleftrightarrow> client_ok c \<and> pending c = [] \<and> reassembler c = new_reassembler \<and> cred c = Cred_None"

lemma idle_simps [simp]: "idle (ex_client p)" "idle (c\<lparr>next_xid := x\<rparr>) = idle c"
  by (cases p; simp add: idle_def ex_client_def client_ok_def)+

text \<open>A conversation of several \<open>COMPOUND\<close>s on one connection.\<close>

lemma served_run:
  assumes "idle (n4_rpc s)" "n4_minor s = 0" "net_sends n = None # ss"
    and "net_recvs n = Recv_Data (answer_to (n4_rpc s) (framed (w4 status @ w4 0 @ w4 cnt @ results))) # evs"
    and "4 dvd length (c_ops c)" "length (c_ops c) \<le> 2 ^ 10" "length results \<le> 2 ^ 9" "\<not> is_delay status"
  shows "\<exists>acts. nfs4_run c (s, n) = Some (if status = 0 then Ok results else Err (PE_Nfs4 status),
    s\<lparr>n4_rpc := (n4_rpc s)\<lparr>next_xid := next_xid (n4_rpc s) + 1\<rparr>\<rparr>,
    n\<lparr>net_sends := ss, net_log := net_log n @ acts, net_recvs := evs\<rparr>)"
proof -
  let ?args = "w4 0 @ w4 0 @ w4 (c_nops c) @ c_ops c"
  let ?reply = "w4 status @ w4 0 @ w4 cnt @ results"
  have e: "xdr_encoder (encode_Raw ?args)" "encode_Raw ?args [] = Ok ?args" "length ?args \<le> 2 ^ 20"
    using assms(5,6) by (auto intro: xdr_encoder_Raw simp: encode_Raw_def put_slice_def)
  have len: "length (framed ?reply) \<le> 2 ^ 20"
    using assms(7) padding_lt [of "length ?reply"] by (simp add: framed_def)
  have idle: "client_ok (n4_rpc s)" "pending (n4_rpc s) = []" "reassembler (n4_rpc s) = new_reassembler"
    "cred (n4_rpc s) = Cred_None" using assms(1) by (simp_all add: idle_def)
  from exchange_next [OF idle e len assms(3,4), where prog = 100003 and vers = 4 and proc = 1]
  obtain acts where "rpc_exchange 100003 4 1 (encode_Raw ?args) (n4_rpc s, n) = Some (Ok (framed ?reply),
      (n4_rpc s)\<lparr>next_xid := next_xid (n4_rpc s) + 1\<rparr>,
      n\<lparr>net_sends := ss, net_log := net_log n @ acts, net_recvs := evs\<rparr>)" by blast
  moreover have "encode_Bytes ?reply [] = Ok (framed ?reply)"
    using assms(7) by (intro encode_Bytes_framed) simp
  ultimately show ?thesis using run_framed [OF assms(2) _ _ assms(8)] by blast
qed

lemma served_compound:
  assumes "idle (n4_rpc s)" "n4_minor s = 0" "net_sends n = None # ss"
    and "net_recvs n = Recv_Data (answer_to (n4_rpc s) (framed (w4 0 @ w4 0 @ w4 cnt @ results))) # evs"
    and "builds b" "\<exists>c. b new_Compound = Ok c \<and> length (c_ops c) \<le> 2 ^ 10" "length results \<le> 2 ^ 9"
    and "r results = Ok (v, rest)"
  shows "\<exists>acts. n4_compound b r (s, n) = Some (Ok v,
    s\<lparr>n4_rpc := (n4_rpc s)\<lparr>next_xid := next_xid (n4_rpc s) + 1\<rparr>\<rparr>,
    n\<lparr>net_sends := ss, net_log := net_log n @ acts, net_recvs := evs\<rparr>)"
proof -
  from assms(5,6) obtain c where c: "b new_Compound = Ok c" "4 dvd length (c_ops c)" "length (c_ops c) \<le> 2 ^ 10"
    using builds_new by blast
  have "\<not> is_delay 0" by (simp add: is_delay_def nfs4_consts)
  from served_run [OF assms(1-4) c(2,3) assms(7) this]
  obtain acts where "nfs4_run c (s, n) = Some (Ok results,
      s\<lparr>n4_rpc := (n4_rpc s)\<lparr>next_xid := next_xid (n4_rpc s) + 1\<rparr>\<rparr>,
      n\<lparr>net_sends := ss, net_log := net_log n @ acts, net_recvs := evs\<rparr>)" by auto
  from n4_compound_run [of b, OF c(1) this, where r = r] assms(8) show ?thesis by auto
qed

lemma ex_run:
  assumes "4 dvd length (c_ops c)" "length (c_ops c) \<le> 2 ^ 10" "length results \<le> 2 ^ 9" "\<not> is_delay status"
  shows "\<exists>rpc' n'. nfs4_run c (ex_nfs4, ex_served (ex_client Udp) (framed (w4 status @ w4 0 @ w4 cnt @ results)))
    = Some (if status = 0 then Ok results else Err (PE_Nfs4 status), ex_nfs4\<lparr>n4_rpc := rpc'\<rparr>, n')"
  using served_run [OF _ _ _ _ assms, where s = ex_nfs4 and evs = "[]" and ss = "[]" and cnt = cnt
      and n = "ex_served (ex_client Udp) (framed (w4 status @ w4 0 @ w4 cnt @ results))"]
  by (auto simp: ex_nfs4_def ex_served_def)




text \<open>
  What \<open>LOOKUP\<close> makes of the results. When the reply reaches the client inside an
  opaque, a reply of status 0 with the results of the four operations gives the handle and
  the attributes the server sent; any other status (but the two that are retried) is the
  error of the call.
\<close>

theorem nfs4_lookup_answer:
  assumes "n4_minor s = 0" "ok_Fattr4 attrs" "encode_NfsFh4 fh [] = Ok fb" "encode_fattr4 attrs [] = Ok ab"
    and "c_then (c_then (c_then (c_putfh dir) (c_lookup name)) c_getfh) (c_getattr REQUEST_ATTRS)
      new_Compound = Ok c" "c_finish 0 c = Ok args"
    and "rpc_exchange 100003 4 1 (encode_Raw args) (n4_rpc s, n) = Some (Ok body, rpc', n')"
    and "encode_Bytes (w4 status @ w4 0 @ w4 cnt @ results) [] = Ok body" "\<not> is_delay status"
    and "status = 0 \<longrightarrow> results = op_ok 22 @ op_ok 15 @ op_ok 10 @ fb @ op_ok 9 @ ab"
  shows "nfs4_lookup dir name (s, n) =
    Some (if status = 0 then Ok (fh, attrs) else Err (PE_Nfs4 status), s\<lparr>n4_rpc := rpc'\<rparr>, n')"
proof -
  let ?b = "c_then (c_then (c_then (c_putfh dir) (c_lookup name)) c_getfh) (c_getattr REQUEST_ATTRS)"
  have run: "nfs4_run c (s, n) =
      Some (if status = 0 then Ok results else Err (PE_Nfs4 status), s\<lparr>n4_rpc := rpc'\<rparr>, n')"
    using assms(1,6-9) by (intro run_framed) (simp_all add: c_finish_eq)
  show ?thesis
  proof (cases "status = 0")
    case True
    have "rd_decode decode_NfsFh4 (fb @ rest) = Ok (fh, rest)" for rest
      by (rule rd_decode_rt [OF wire_rt_NfsFh4 assms(3)])
    moreover have "rd_fattr4 ab = Ok (attrs, [])"
      using rd_fattr4_encoded [OF assms(2,4), of "[]"] by simp
    ultimately show ?thesis
      unfolding nfs4_lookup_def using assms(10) True
      by (subst n4_compound_run [where b = ?b, OF assms(5) run [unfolded if_P [OF True]]])
        (simp add: nfs4_ops rd_bind_def rd_return_def)
  next
    case False
    then show ?thesis
      unfolding nfs4_lookup_def
      by (subst n4_compound_failed [where b = ?b, OF assms(5) run [unfolded if_not_P [OF False]]]) simp
  qed
qed

definition ex_attrs :: Fattr4 where
  "ex_attrs = default_Fattr4\<lparr>f4_ftype := Some 1, f4_size := Some 42\<rparr>"

theorem nfs4_lookup_answer_example:
  "\<exists>fb ab s'. encode_NfsFh4 ex_fh4 [] = Ok fb \<and> encode_fattr4 ex_attrs [] = Ok ab \<and>
    nfs4_lookup ex_fh4 ''a'' (ex_nfs4, ex_served (ex_client Udp) (framed (w4 0 @ w4 0 @ w4 4 @
      op_ok 22 @ op_ok 15 @ op_ok 10 @ fb @ op_ok 9 @ ab))) = Some (Ok (ex_fh4, ex_attrs), s')"
proof -
  from ex_lookup_ops_built obtain c where c: "ex_lookup_ops new_Compound = Ok c" "4 dvd length (c_ops c)"
    "length (c_ops c) \<le> 2 ^ 10" by blast
  have fb: "encode_NfsFh4 ex_fh4 [] = Ok (w4 4 @ [1, 2, 3, 4])" by (simp add: c_eval)
  have "build_bitmap [1, 4] = [18]" by (simp add: build_bitmap_def mark_bit_def)
  then have "\<exists>ab. encode_fattr4 ex_attrs [] = Ok ab \<and> length ab \<le> 100"
    by (simp add: ex_attrs_def encode_fattr4_def attr_values_def opt_attr_def default_Fattr4_def nfs4_attrs
        encode_bitmap_def enc_eval)
  then obtain ab where ab: "encode_fattr4 ex_attrs [] = Ok ab" "length ab \<le> 100" by blast
  let ?args = "w4 0 @ w4 0 @ w4 (c_nops c) @ c_ops c"
  let ?reply = "w4 0 @ w4 0 @ w4 4 @ op_ok 22 @ op_ok 15 @ op_ok 10 @ (w4 4 @ [1, 2, 3, 4]) @ op_ok 9 @ ab"
  have e: "xdr_encoder (encode_Raw ?args)" "encode_Raw ?args [] = Ok ?args" "length ?args \<le> 2 ^ 20"
    "length (framed ?reply) \<le> 2 ^ 20"
    using c ab padding_lt [of "length ?reply"]
    by (auto intro: xdr_encoder_Raw simp: encode_Raw_def put_slice_def framed_def op_ok_def)
  from ex_exchange [OF e, where prog = 100003 and vers = 4 and proc = 1 and p = Udp]
  obtain rpc' n' where x: "rpc_exchange 100003 4 1 (encode_Raw ?args)
      (n4_rpc ex_nfs4, ex_served (ex_client Udp) (framed ?reply)) = Some (Ok (framed ?reply), rpc', n')"
    by (auto simp: ex_nfs4_def)
  have m: "n4_minor ex_nfs4 = 0" "ok_Fattr4 ex_attrs" "\<not> is_delay 0"
    by (simp_all add: ex_nfs4_def ok_Fattr4_def ex_attrs_def default_Fattr4_def is_delay_def nfs4_consts)
  have fr: "encode_Bytes ?reply [] = Ok (framed ?reply)"
    using ab(2) by (intro encode_Bytes_framed) (simp add: op_ok_def)
  have "c_finish 0 c = Ok ?args" by (rule c_finish_eq)
  from nfs4_lookup_answer [OF m(1,2) fb ab(1) c(1) [unfolded ex_lookup_ops_def] this x fr m(3)] fb ab(1)
  show ?thesis by auto
qed

end
