(* ===== verification/NFS4_Wire.thy ===== *)
theory NFS4_Wire
  imports NFS4_Server Proto_Server
begin

text \<open>
  What an NFSv4 server receives (\<open>nfs-proto/src/nfs4.rs\<close> over \<open>nfs-rpc\<close>): the procedures of the client as values,
  the operations of the \<open>COMPOUND\<close> each stands for, and the property that these and no others are transmitted,
  in both minor versions and over all repetitions.
\<close>

subsection \<open>Messages\<close>

definition compound_arms :: "(u32 \<times> argop4 list) arms" where
  "compound_arms = [((100003, 4, 1), read_as decode_COMPOUND4args snd)]"

text \<open>The operations as they are sent: version 4.1 puts \<open>SEQUENCE\<close> with the session in front.\<close>

definition framed :: "Nfs4 \<Rightarrow> argop4 list \<Rightarrow> argop4 list \<Rightarrow> bool" where
  "framed s ops sent \<longleftrightarrow> (if n4_minor s = 0 then sent = ops
     else \<exists>sid seq. n4_sessionid s = Some sid \<and> sent = A_Sequence sid seq 0 0 False # ops)"

text \<open>\<open>talks P s n s' n'\<close>: from \<open>s\<close> to \<open>s'\<close> every message sent is a \<open>COMPOUND\<close> of operations that satisfy \<open>P\<close>.\<close>

definition same_peer :: "Nfs4 \<Rightarrow> Nfs4 \<Rightarrow> bool" where
  "same_peer s t \<longleftrightarrow> n4_minor t = n4_minor s \<and> n4_sessionid t = n4_sessionid s \<and>
     protocol (n4_rpc t) = protocol (n4_rpc s) \<and> cred (n4_rpc t) = cred (n4_rpc s)"

definition says :: "(argop4 list \<Rightarrow> bool) \<Rightarrow> Nfs4 \<Rightarrow> bytes \<Rightarrow> bool" where
  "says P s bs \<longleftrightarrow> (\<exists>message h ops sent. bs = wire (n4_rpc s) message \<and>
     read_call compound_arms message = Some (h, n4_minor s, sent) \<and> framed s ops sent \<and> P ops \<and>
     ch_mtype h = 0 \<and> ch_rpcvers h = 2 \<and> ch_cred h = cred_auth (cred (n4_rpc s)))"

definition talks :: "(argop4 list \<Rightarrow> bool) \<Rightarrow> nfs4_state \<Rightarrow> nfs4_state \<Rightarrow> bool" where
  "talks P s t \<longleftrightarrow> same_peer (fst s) (fst t) \<and> client_ok (n4_rpc (fst t)) \<and>
     (\<exists>acts. net_log (snd t) = net_log (snd s) @ acts \<and> (\<forall>bs. Sent bs \<in> set acts \<longrightarrow> says P (fst s) bs))"

lemma says_peer: "same_peer s t \<Longrightarrow> says P t bs \<longleftrightarrow> says P s bs"
  by (auto simp: says_def same_peer_def framed_def wire_def)

lemma talks_refl: "client_ok (n4_rpc (fst s)) \<Longrightarrow> talks P s s"
  by (simp add: talks_def same_peer_def)

lemma talks_trans:
  assumes "talks P s t" "talks P t u"
  shows "talks P s u"
proof -
  from assms obtain as bs where "net_log (snd t) = net_log (snd s) @ as" "net_log (snd u) = net_log (snd t) @ bs"
    "\<forall>b. Sent b \<in> set as \<longrightarrow> says P (fst s) b" "\<forall>b. Sent b \<in> set bs \<longrightarrow> says P (fst t) b"
    unfolding talks_def by blast
  moreover have peer: "same_peer (fst s) (fst t)" "same_peer (fst t) (fst u)" "client_ok (n4_rpc (fst u))"
    using assms by (simp_all add: talks_def)
  ultimately show ?thesis
    unfolding talks_def using says_peer [OF peer(1)]
    by (intro conjI exI [of _ "as @ bs"]) (auto simp: same_peer_def)
qed

lemma talks_mono: "talks P s t \<Longrightarrow> (\<And>ops. P ops \<Longrightarrow> Q ops) \<Longrightarrow> talks Q s t"
  unfolding talks_def says_def by blast

text \<open>A session id has 16 bytes, as it is read from the answer to \<open>CREATE_SESSION\<close>.\<close>

definition peer_ok :: "Nfs4 \<Rightarrow> bool" where
  "peer_ok s \<longleftrightarrow> client_ok (n4_rpc s) \<and> pred_option (\<lambda>sid. length sid = 16) (n4_sessionid s)"

lemma talks_peer_ok: "talks P s t \<Longrightarrow> peer_ok (fst s) \<Longrightarrow> peer_ok (fst t)"
  by (simp add: talks_def peer_ok_def same_peer_def)

subsection \<open>A \<open>COMPOUND\<close>\<close>

lemma n4_call_talks:
  assumes "client_ok (n4_rpc s)" "4 dvd length args" "n4_call args (s, n) = Some (r, s', n')"
    and "decode_COMPOUND4args args = Ok ((tag, n4_minor s, sent), [])" "framed s ops sent"
  shows "talks ((=) ops) (s, n) (s', n')"
proof -
  from assms(3) obtain r0 rpc' where x: "rpc_exchange 100003 4 1 (encode_Raw args) (n4_rpc s, n) = Some (r0, rpc', n')"
    and s': "s' = s\<lparr>n4_rpc := rpc'\<rparr>" by (auto simp: n4_call_eq split: option.splits)
  have raw: "encode_Raw args [] = Ok args" by (simp add: encode_Raw_def put_slice_def)
  from exchange_sends [OF assms(1) xdr_encoder_Raw [OF assms(2)] x] obtain acts where
    same: "client_ok rpc'" "cred rpc' = cred (n4_rpc s)" "protocol rpc' = protocol (n4_rpc s)"
    and acts: "net_log n' = net_log n @ acts" "\<forall>bs. Sent bs \<in> set acts \<longrightarrow> (\<exists>header ab. encode_Raw args [] = Ok ab \<and>
      encode_call (next_xid (n4_rpc s)) 100003 4 1 (cred (n4_rpc s)) [] = Ok header \<and>
      bs = wire (n4_rpc s) (header @ ab))" by blast
  have "says ((=) ops) s bs" if "Sent bs \<in> set acts" for bs
  proof -
    from acts(2) that raw obtain header where m:
      "encode_call (next_xid (n4_rpc s)) 100003 4 1 (cred (n4_rpc s)) [] = Ok header"
      "bs = wire (n4_rpc s) (header @ args)" by auto
    from encode_call_server_view [OF m(1), of args] assms(4)
    have "read_call compound_arms (header @ args) = Some (\<lparr>ch_xid = next_xid (n4_rpc s), ch_mtype = 0, ch_rpcvers = 2,
        ch_prog = 100003, ch_vers = 4, ch_proc = 1, ch_cred = cred_auth (cred (n4_rpc s)), ch_verf = (0, [])\<rparr>, n4_minor s, sent)"
      by (simp add: read_call_def compound_arms_def msg_consts dec_bind_def dec_return_def)
    with m(2) assms(5) show ?thesis unfolding says_def by fastforce
  qed
  with acts(1) same s' show ?thesis by (auto simp: talks_def same_peer_def)
qed

lemma attempt_talks:
  assumes "makes b ops" "b new_Compound = Ok c" "length ops + 1 < 2 ^ 32" "peer_ok s"
    and "run_attempt c (s, n) = Some (r, t)"
  shows "talks ((=) ops) (s, n) t"
proof -
  have ok: "client_ok (n4_rpc s)" using assms(4) by (simp add: peer_ok_def)
  from makes_new [OF assms(1,2)] have dvd: "4 dvd length (c_ops c)" by blast
  obtain s' n' where t: "t = (s', n')" by (cases t)
  show ?thesis
  proof (cases "n4_minor s = 0")
    case True
    let ?args = "w4 0 @ w4 0 @ w4 (c_nops c) @ c_ops c"
    have "decode_COMPOUND4args ?args = Ok (([], 0, ops), [])"
      using finish_server_view [OF assms(1,2) _ c_finish_eq] assms(3) by simp
    with n4_call_talks [OF ok, of ?args n r s' n' "[]" ops ops] dvd assms(5) True t show ?thesis
      by (simp add: run_attempt_v40 framed_def)
  next
    case minor: False
    show ?thesis
    proof (cases "n4_sessionid s")
      case None
      with assms(5) minor ok show ?thesis
        by (auto simp: run_attempt_def assemble_def n4_get_def op_bind_def op_lift_def ok_or_def intro: talks_refl)
    next
      case (Some sid)
      have sid: "length sid = 16" using assms(4) Some by (simp add: peer_ok_def)
      from assemble_v41 [OF minor Some] obtain args where a: "assemble c (s, n) = Some (Ok args, s\<lparr>n4_seq_id := n4_seq_id s + 1\<rparr>, n)"
        "4 dvd length args" using dvd sid by (simp add: padding_def)
      let ?s = "s\<lparr>n4_seq_id := n4_seq_id s + 1\<rparr>"
      from sequence_server_view [OF assms(1,2,3) minor Some sid a(1)]
      have d: "decode_COMPOUND4args args = Ok (([], n4_minor ?s, A_Sequence sid (n4_seq_id s) 0 0 False # ops), [])" by simp
      from a(1) assms(5) t have c: "n4_call args (?s, n) = Some (r, s', n')" by (simp add: run_attempt_def)
      have "framed ?s ops (A_Sequence sid (n4_seq_id s) 0 0 False # ops)" using minor Some by (simp add: framed_def)
      from n4_call_talks [OF _ a(2) c d this] ok have "talks ((=) ops) (?s, n) (s', n')" by simp
      moreover have "says P ?s bs \<longleftrightarrow> says P s bs" for P bs by (rule says_peer) (simp add: same_peer_def)
      ultimately show ?thesis by (simp add: t talks_def same_peer_def)
    qed
  qed
qed


lemma run_talks:
  assumes "makes b ops" "b new_Compound = Ok c" "length ops + 1 < 2 ^ 32"
  shows "peer_ok (fst s) \<Longrightarrow> run_loop k c s = Some (r, t) \<Longrightarrow> talks ((=) ops) s t"
  using assms(2)
proof (induction k c s rule: run_loop.induct)
  case (1 k c s)
  obtain s0 n0 where s: "s = (s0, n0)" by (cases s)
  from "1.prems"(2) obtain r1 s1 where a: "run_attempt c s = Some (r1, s1)"
    by (subst (asm) run_loop.simps) (auto split: option.splits)
  have here: "talks ((=) ops) s s1"
    using attempt_talks [OF assms(1) "1.prems"(3) assms(3)] "1.prems"(1) a s by simp
  show ?case
  proof (cases "\<exists>reply code. r1 = Ok reply \<and> reader_parse reply = Err (PE_Nfs4 code) \<and> is_delay code \<and> k + 1 < 6")
    case True
    then obtain reply code where d: "r1 = Ok reply" "reader_parse reply = Err (PE_Nfs4 code)" "is_delay code \<and> k + 1 < 6"
      by blast
    with a "1.prems"(2) have again: "run_loop (k + 1) c s1 = Some (r, t)" by (subst (asm) run_loop.simps) simp
    have "talks ((=) ops) s1 t"
      using "1.IH" [OF a [unfolded d(1)] refl refl d(2) refl d(3) talks_peer_ok [OF here "1.prems"(1)] again "1.prems"(3)] .
    with here show ?thesis by (rule talks_trans)
  next
    case False
    with a "1.prems"(2) have "t = s1"
      by (subst (asm) run_loop.simps) (auto split: result.splits ProtoError.splits if_splits)
    with here show ?thesis by simp
  qed
qed

subsection \<open>Operations of the client\<close>

definition op_talks :: "(argop4 list \<Rightarrow> bool) \<Rightarrow> 'a nfs4_op \<Rightarrow> nfs4_state \<Rightarrow> bool" where
  "op_talks P m s \<longleftrightarrow> peer_ok (fst s) \<longrightarrow> (\<forall>r t. m s = Some (r, t) \<longrightarrow> talks P s t)"

named_theorems op_talks \<open>the messages of an operation\<close>

lemma op_talks_bind:
  assumes "op_talks P m s" "\<And>x t. m s = Some (Ok x, t) \<Longrightarrow> op_talks P (f x) t"
  shows "op_talks P (op_bind m f) s"
  unfolding op_talks_def
proof (intro allI impI)
  fix r u
  assume ok: "peer_ok (fst s)" and "op_bind m f s = Some (r, u)"
  then consider x t where "m s = Some (Ok x, t)" "f x t = Some (r, u)" | r' where "m s = Some (r', u)"
    unfolding op_bind_eq by blast
  then show "talks P s u"
  proof cases
    case 1
    have here: "talks P s t" using assms(1) ok 1(1) unfolding op_talks_def by blast
    moreover have "talks P t u"
      using assms(2) [OF 1(1)] 1(2) talks_peer_ok [OF here ok] unfolding op_talks_def by blast
    ultimately show ?thesis by (rule talks_trans)
  next
    case 2
    then show ?thesis using assms(1) ok unfolding op_talks_def by blast
  qed
qed

lemma op_talks_lift: "op_talks P (op_lift v) s"
  by (auto simp: op_talks_def op_lift_def peer_ok_def intro: talks_refl)

lemma op_talks_get: "op_talks P (k (f (fst s))) s \<Longrightarrow> op_talks P (n4_get f k) s"
  by (cases s) (simp add: op_talks_def n4_get_def)

lemma op_talks_set: "same_peer (fst s) (f (fst s)) \<Longrightarrow> n4_rpc (f (fst s)) = n4_rpc (fst s) \<Longrightarrow> op_talks P (n4_set f) s"
  by (cases s) (auto simp: op_talks_def n4_set_def talks_def peer_ok_def)

lemma op_talks_void: "op_talks P m s \<Longrightarrow> op_talks P (op_void m) s"
  unfolding op_void_def by (rule op_talks_bind, assumption, rule op_talks_lift)

lemma op_talks_run:
  assumes "makes b ops" "b new_Compound = Ok c" "length ops + 1 < 2 ^ 32" "P ops"
  shows "op_talks P (nfs4_run c) s"
proof -
  have "talks P s t" if "peer_ok (fst s)" "run_loop 0 c s = Some (r, t)" for r t
    using run_talks [OF assms(1-3) that] by (rule talks_mono) (use assms(4) in simp)
  then show ?thesis by (simp add: op_talks_def nfs4_run_def)
qed

lemma op_talks_build:
  assumes "\<And>c. b new_Compound = Ok c \<Longrightarrow> op_talks P (f c) s"
  shows "op_talks P (op_bind (n4_build b) f) s"
  by (rule op_talks_bind, unfold n4_build_def, rule op_talks_lift) (use assms in \<open>auto simp: op_lift_def\<close>)

lemma op_talks_compound:
  assumes "makes b ops" "length ops + 1 < 2 ^ 32" "P ops"
  shows "op_talks P (n4_compound b r) s"
  unfolding n4_compound_def n4_read_def
  by (rule op_talks_build, rule op_talks_bind, rule op_talks_run [where b = b and ops = ops])
    (use assms in \<open>auto intro: op_talks_lift\<close>)

subsection \<open>Requests\<close>

datatype request4 =
    Q_Renew
  | Q_Root
  | Q_Getattr NfsFh4
  | Q_Statvfs NfsFh4
  | Q_Lookup NfsFh4 string
  | Q_Access NfsFh4 u32
  | Q_Readlink NfsFh4
  | Q_Open NfsFh4 string u32 bool
  | Q_Close NfsFh4 Stateid4
  | Q_Lock NfsFh4 Stateid4 u64 u64 bool
  | Q_Unlock NfsFh4 LockGrant u64 u64
  | Q_Test NfsFh4 u64 u64 bool
  | Q_Read NfsFh4 Stateid4 u64 u32
  | Q_Write NfsFh4 Stateid4 u64 u32 bytes
  | Q_Commit NfsFh4 u64 u32
  | Q_Setattr NfsFh4 SetAttr4
  | Q_Mkdir NfsFh4 string
  | Q_Symlink NfsFh4 string string
  | Q_Remove NfsFh4 string
  | Q_Link NfsFh4 NfsFh4 string
  | Q_Rename NfsFh4 string NfsFh4 string
  | Q_Readdir NfsFh4 u64 bytes u32

text \<open>The procedure of the client.\<close>

fun run4 :: "request4 \<Rightarrow> unit nfs4_op" where
  "run4 Q_Renew = nfs4_renew"
| "run4 Q_Root = op_void nfs4_root_fh"
| "run4 (Q_Getattr fh) = op_void (nfs4_getattr fh)"
| "run4 (Q_Statvfs fh) = op_void (nfs4_statvfs fh)"
| "run4 (Q_Lookup dir name) = op_void (nfs4_lookup dir name)"
| "run4 (Q_Access fh bits) = op_void (nfs4_access fh bits)"
| "run4 (Q_Readlink fh) = op_void (nfs4_readlink fh)"
| "run4 (Q_Open dir name share create) = op_void (nfs4_open dir name share create)"
| "run4 (Q_Close fh sid) = nfs4_close fh sid"
| "run4 (Q_Lock fh sid off len excl) = op_void (nfs4_lock fh sid off len excl)"
| "run4 (Q_Unlock fh grant off len) = op_void (nfs4_unlock fh grant off len)"
| "run4 (Q_Test fh off len excl) = op_void (nfs4_test_lock fh off len excl)"
| "run4 (Q_Read fh sid off cnt) = op_void (nfs4_read fh sid off cnt)"
| "run4 (Q_Write fh sid off how data) = op_void (nfs4_write fh sid off how data)"
| "run4 (Q_Commit fh off cnt) = nfs4_commit fh off cnt"
| "run4 (Q_Setattr fh attrs) = nfs4_setattr fh attrs"
| "run4 (Q_Mkdir dir name) = op_void (nfs4_mkdir dir name)"
| "run4 (Q_Symlink dir name target) = op_void (nfs4_symlink dir name target)"
| "run4 (Q_Remove dir name) = nfs4_remove dir name"
| "run4 (Q_Link fh dir name) = nfs4_link fh dir name"
| "run4 (Q_Rename dir name dir2 name2) = nfs4_rename dir name dir2 name2"
| "run4 (Q_Readdir dir ck verf mx) = op_void (nfs4_readdir dir ck verf mx)"

text \<open>
  The operations of RFC 7530 that a procedure stands for, in the state of the client. \<open>OPEN\<close> carries the
  seqid, clientid and owner that the client holds and may be followed by its confirmation under the next
  seqid; every lock has a new owner.
\<close>

definition lock_owner_of :: "Nfs4 \<Rightarrow> bytes" where
  "lock_owner_of s = n4_owner s @ as_bytes ('':lock:'' @ show_nat (unat (n4_lock_counter s + 1)))"

abbreviation all_attrs :: argop4 where
  "all_attrs \<equiv> A_Getattr (build_bitmap REQUEST_ATTRS)"

fun ops4 :: "request4 \<Rightarrow> Nfs4 \<Rightarrow> argop4 list \<Rightarrow> bool" where
  "ops4 Q_Renew s ops = (ops = [A_Renew (n4_clientid s)])"
| "ops4 Q_Root s ops = (ops = [A_Putrootfh, A_Getfh])"
| "ops4 (Q_Getattr fh) s ops = (ops = [A_Putfh fh, all_attrs])"
| "ops4 (Q_Statvfs fh) s ops = (ops = [A_Putfh fh, A_Getattr (build_bitmap STATVFS_ATTRS)])"
| "ops4 (Q_Lookup dir name) s ops = (ops = [A_Putfh dir, A_Lookup name, A_Getfh, all_attrs])"
| "ops4 (Q_Access fh bits) s ops = (ops = [A_Putfh fh, A_Access bits])"
| "ops4 (Q_Readlink fh) s ops = (ops = [A_Putfh fh, A_Readlink])"
| "ops4 (Q_Open dir name share create) s ops =
     (ops = [A_Putfh dir, A_Open (n4_open_seqid s) share 0 (n4_clientid s) (n4_owner s)
         (if create then Some ([0], []) else None) name, A_Getfh] \<or>
      (\<exists>fh sid. ops = [A_Putfh fh, A_OpenConfirm sid (n4_open_seqid s + 1)]))"
| "ops4 (Q_Close fh sid) s ops = (ops = [A_Putfh fh, A_Close (n4_open_seqid s) sid])"
| "ops4 (Q_Lock fh sid off len excl) s ops = (ops = [A_Putfh fh, A_Lock (if excl then 2 else 1) False off len
     (n4_open_seqid s) sid 0 (n4_clientid s) (lock_owner_of s)])"
| "ops4 (Q_Unlock fh grant off len) s ops =
     (ops = [A_Putfh fh, A_Locku (lg_locktype grant) 1 (lg_stateid grant) off len])"
| "ops4 (Q_Test fh off len excl) s ops =
     (ops = [A_Putfh fh, A_Lockt (if excl then 2 else 1) off len (n4_clientid s) (lock_owner_of s)])"
| "ops4 (Q_Read fh sid off cnt) s ops = (ops = [A_Putfh fh, A_Read sid off cnt])"
| "ops4 (Q_Write fh sid off how data) s ops = (ops = [A_Putfh fh, A_Write sid off how data])"
| "ops4 (Q_Commit fh off cnt) s ops = (ops = [A_Putfh fh, A_Commit off cnt])"
| "ops4 (Q_Setattr fh attrs) s ops = (\<exists>vs. struct_encode (map snd (attr_values (set_fattr4 attrs))) [] = Ok vs \<and>
     ops = [A_Putfh fh, A_Setattr default_Stateid4 (build_bitmap (map fst (attr_values (set_fattr4 attrs))), vs)])"
| "ops4 (Q_Mkdir dir name) s ops = (ops = [A_Putfh dir, A_CreateDir name ([0], []), A_Getfh])"
| "ops4 (Q_Symlink dir name target) s ops = (ops = [A_Putfh dir, A_CreateLink name target ([0], []), A_Getfh])"
| "ops4 (Q_Remove dir name) s ops = (ops = [A_Putfh dir, A_Remove name])"
| "ops4 (Q_Link fh dir name) s ops = (ops = [A_Putfh fh, A_Savefh, A_Putfh dir, A_Link name])"
| "ops4 (Q_Rename dir name dir2 name2) s ops = (ops = [A_Putfh dir, A_Savefh, A_Putfh dir2, A_Rename name name2])"
| "ops4 (Q_Readdir dir ck verf mx) s ops =
     (ops = [A_Putfh dir, A_Readdir ck verf (mx div 2) mx (build_bitmap REQUEST_ATTRS)])"

text \<open>The requests that can be made in Rust: strings are UTF-8, stateids and verifiers have their fixed lengths.\<close>

fun ok_request4 :: "request4 \<Rightarrow> bool" where
  "ok_request4 (Q_Lookup dir name) = valid_string name"
| "ok_request4 (Q_Open dir name share create) = valid_string name"
| "ok_request4 (Q_Close fh sid) = ok_Stateid4 sid"
| "ok_request4 (Q_Lock fh sid off len excl) = ok_Stateid4 sid"
| "ok_request4 (Q_Unlock fh grant off len) = ok_Stateid4 (lg_stateid grant)"
| "ok_request4 (Q_Read fh sid off cnt) = ok_Stateid4 sid"
| "ok_request4 (Q_Write fh sid off how data) = ok_Stateid4 sid"
| "ok_request4 (Q_Mkdir dir name) = valid_string name"
| "ok_request4 (Q_Symlink dir name target) = (valid_string name \<and> valid_string target)"
| "ok_request4 (Q_Remove dir name) = valid_string name"
| "ok_request4 (Q_Link fh dir name) = valid_string name"
| "ok_request4 (Q_Rename dir name dir2 name2) = (valid_string name \<and> valid_string name2)"
| "ok_request4 (Q_Readdir dir ck verf mx) = (length verf = 8)"
| "ok_request4 _ = True"


subsection \<open>Every procedure\<close>

lemma setattr_values: "\<exists>vs. struct_encode (map snd (attr_values (set_fattr4 a))) [] = Ok vs"
  by (cases "s4_size a"; cases "s4_mode a")
    (simp_all add: attr_values_def opt_attr_def default_Fattr4_def set_fattr4_def enc_eval)

lemma decode_Stateid4_ok: "decode_Stateid4 buf = Ok (sid, rest) \<Longrightarrow> ok_Stateid4 sid"
  by (auto simp: decode_Stateid4_def dec_bind_eq dec_return_def decode_fixed_eq ok_Stateid4_def split: if_splits)

lemma rd_open_stateid: "rd_open buf = Ok ((sid, flags, fh), rest) \<Longrightarrow> ok_Stateid4 sid"
  by (auto simp: rd_open_def begin_ops_def rd_bind_def rd_decode_def rd_return_def rd_fail_def
      dest: decode_Stateid4_ok split: if_splits)


lemma valid_empty: "valid_string []"
  by (simp add: valid_string_def as_bytes_def)

lemmas makes_rules = makes_thenI makes_plain makes_readdir makes_open makes_lock makes_stateid
  makes_named(1-3) [OF _ valid_empty] makes_named(4) makes_create(1) [OF _ valid_empty] makes_create(2)

lemmas one_compound = nfs4_root_fh_def nfs4_getattr_def nfs4_getattr_bits_def nfs4_statvfs_def nfs4_lookup_def
  nfs4_access_def nfs4_readlink_def nfs4_unlock_def nfs4_read_def nfs4_write_def nfs4_commit_def nfs4_mkdir_def
  nfs4_symlink_def nfs4_remove_def nfs4_link_def nfs4_rename_def nfs4_readdir_def

lemma fresh_owner_talks: "op_talks P fresh_lock_owner s"
  unfolding fresh_lock_owner_def
  by (intro op_talks_bind op_talks_set op_talks_get op_talks_lift) (simp_all add: same_peer_def)

lemma fresh_owner_Ok:
  "fresh_lock_owner s = Some (Ok owner, t) \<Longrightarrow> owner = lock_owner_of (fst s) \<and>
    n4_open_seqid (fst t) = n4_open_seqid (fst s) \<and> n4_clientid (fst t) = n4_clientid (fst s)"
  by (cases s) (auto simp: fresh_lock_owner_def n4_set_def n4_get_def op_lift_def lock_owner_of_def)

lemma advance_talks: "op_talks P advance_seqid s"
  unfolding advance_seqid_def by (rule op_talks_set) (simp_all add: same_peer_def)

lemma op_talks_match:
  assumes "op_talks P m s" "\<And>x t. m s = Some (Ok x, t) \<Longrightarrow> op_talks P (f x) t"
  shows "op_talks P (op_match m f g) s"
  unfolding op_talks_def
proof (intro allI impI)
  fix r u
  assume ok: "peer_ok (fst s)" and "op_match m f g s = Some (r, u)"
  then consider x t where "m s = Some (Ok x, t)" "f x t = Some (r, u)" | r' where "m s = Some (r', u)"
    unfolding op_match_eq by blast
  then show "talks P s u"
  proof cases
    case 1
    then have "op_bind m f s = Some (r, u)" by simp
    with op_talks_bind [of P m s f] assms ok show ?thesis unfolding op_talks_def by blast
  next
    case 2
    then show ?thesis using assms(1) ok unfolding op_talks_def by blast
  qed
qed

lemma compound_Ok_seqid:
  "n4_compound b r s = Some (Ok x, t) \<Longrightarrow> n4_open_seqid (fst t) = n4_open_seqid (fst s)"
  using n4_compound_same by (fastforce simp: n4_same_def)

lemma open_talks:
  assumes "valid_string name"
  shows "op_talks (ops4 (Q_Open dir name share create) (fst s)) (nfs4_open dir name share create) s"
  unfolding nfs4_open_def
proof (intro op_talks_get op_talks_bind)
  let ?b = "c_then (c_then (c_putfh dir) (c_open (n4_open_seqid (fst s)) (n4_clientid (fst s)) (n4_owner (fst s)) share create name)) c_getfh"
  let ?P = "ops4 (Q_Open dir name share create) (fst s)"
  have "makes ?b [A_Putfh dir, A_Open (n4_open_seqid (fst s)) share 0 (n4_clientid (fst s)) (n4_owner (fst s))
      (if create then Some ([0], []) else None) name, A_Getfh]"
    by (rule makes_thenI makes_plain makes_open assms refl)+ simp_all
  then show "op_talks ?P (n4_compound ?b rd_open) s" by (rule op_talks_compound) simp_all
  fix x t
  assume run: "n4_compound ?b rd_open s = Some (Ok x, t)"
  obtain sid flags fh where x: "x = (sid, flags, fh)" by (cases x)
  from run x obtain buf rest where "rd_open buf = Ok ((sid, flags, fh), rest)"
    by (auto simp: n4_compound_def op_bind_eq n4_read_def op_lift_def)
  then have sid: "ok_Stateid4 sid" by (rule rd_open_stateid)
  show "op_talks ?P (case x of (stateid, rflags, fh) \<Rightarrow> op_bind advance_seqid (\<lambda>_.
      op_bind (confirm_open fh stateid rflags) (\<lambda>stateid. op_lift (Ok \<lparr>or_fh = fh, or_stateid = stateid\<rparr>)))) t"
    unfolding x prod.case
  proof (rule op_talks_bind [OF advance_talks], rule op_talks_bind)
    fix y u
    assume "advance_seqid t = Some (Ok y, u)"
    then have seq: "n4_open_seqid (fst u) = n4_open_seqid (fst s) + 1"
      using compound_Ok_seqid [OF run] by (cases t) (auto simp: advance_seqid_def n4_set_def)
    have "op_talks ?P (n4_compound (c_then (c_putfh fh) (c_open_confirm sid (n4_open_seqid (fst u)))) r) u" for r :: "'x reader"
      by (rule op_talks_compound [where ops = "[A_Putfh fh, A_OpenConfirm sid (n4_open_seqid (fst u))]"],
          (rule makes_thenI makes_plain makes_stateid sid refl)+) (simp_all add: seq)
    then show "op_talks ?P (confirm_open fh sid flags) u"
      unfolding confirm_open_def
      by (auto intro!: op_talks_lift op_talks_get op_talks_bind advance_talks)
    show "op_talks ?P (op_lift (Ok \<lparr>or_fh = fh, or_stateid = z\<rparr>)) v" for z v by (rule op_talks_lift)
  qed
qed


lemma lock_talks:
  assumes "ok_Stateid4 sid"
  shows "op_talks (ops4 (Q_Lock fh sid off len excl) (fst s)) (nfs4_lock fh sid off len excl) s"
  unfolding nfs4_lock_def
proof (rule op_talks_bind [OF fresh_owner_talks], intro op_talks_get op_talks_bind)
  let ?P = "ops4 (Q_Lock fh sid off len excl) (fst s)"
  fix owner t and r :: "Stateid4 reader"
  assume "fresh_lock_owner s = Some (Ok owner, t)"
  note same = fresh_owner_Ok [OF this]
  let ?b = "c_then (c_putfh fh) (c_lock_new (lock_type excl) off len (n4_open_seqid (fst t)) sid 0
    (n4_clientid (fst t)) owner)"
  have "makes ?b [A_Putfh fh, A_Lock (lock_type excl) False off len (n4_open_seqid (fst t)) sid 0
      (n4_clientid (fst t)) owner]"
    by (rule makes_thenI makes_plain makes_lock assms refl)+ simp
  then show "op_talks ?P (n4_compound ?b r) t"
    by (rule op_talks_compound) (simp_all add: same lock_type_def nfs4_consts)
qed (rule advance_talks op_talks_lift)+

lemma test_lock_talks:
  "op_talks (ops4 (Q_Test fh off len excl) (fst s)) (nfs4_test_lock fh off len excl) s"
  unfolding nfs4_test_lock_def
proof (rule op_talks_bind [OF fresh_owner_talks], intro op_talks_get op_talks_build op_talks_match)
  let ?P = "ops4 (Q_Test fh off len excl) (fst s)"
  fix owner t c
  assume "fresh_lock_owner s = Some (Ok owner, t)"
  note same = fresh_owner_Ok [OF this]
  let ?b = "c_then (c_putfh fh) (c_lockt (lock_type excl) off len (n4_clientid (fst t)) owner)"
  assume c: "?b new_Compound = Ok c"
  have "makes ?b [A_Putfh fh, A_Lockt (lock_type excl) off len (n4_clientid (fst t)) owner]"
    by (rule makes_thenI makes_plain refl)+ simp
  then show "op_talks ?P (nfs4_run c) t"
    by (rule op_talks_run [where b = ?b, OF _ c]) (simp_all add: same lock_type_def nfs4_consts)
qed (unfold n4_read_def, rule op_talks_lift)

lemma run4_talks:
  assumes "ok_request4 req"
  shows "op_talks (ops4 req (fst s)) (run4 req) s"
  using assms
proof (cases req)
  case Q_Renew
  show ?thesis
    unfolding Q_Renew run4.simps nfs4_renew_def
    by (rule op_talks_get, rule op_talks_compound, rule makes_plain) simp_all
next
  case (Q_Open dir name share create)
  with assms show ?thesis by (simp add: op_talks_void open_talks del: ops4.simps)
next
  case (Q_Close fh sid)
  show ?thesis
    unfolding Q_Close run4.simps nfs4_close_def
    by (rule op_talks_get, rule op_talks_bind [OF _ advance_talks], rule op_talks_compound)
      ((rule makes_rules refl | use assms Q_Close in simp)+)
next
  case (Q_Lock fh sid off len excl)
  with assms show ?thesis by (simp add: op_talks_void lock_talks del: ops4.simps)
next
  case (Q_Test fh off len excl)
  then show ?thesis by (simp add: op_talks_void test_lock_talks del: ops4.simps)
next
  case (Q_Setattr fh attrs)
  obtain vs where vs: "struct_encode (map snd (attr_values (set_fattr4 attrs))) [] = Ok vs"
    using setattr_values by blast
  show ?thesis
    unfolding Q_Setattr run4.simps nfs4_setattr_def
    by (rule op_talks_compound, (rule makes_thenI makes_plain makes_setattr [OF _ vs] refl)+) (simp_all add: vs)
qed (simp only: run4.simps one_compound ok_request4.simps, (rule op_talks_void)?, rule op_talks_compound,
    (rule makes_rules refl | simp; fail)+)+


text \<open>
  C34: an NFSv4 server that reads the messages of a procedure gets exactly the operations that the procedure
  stands for, with the arguments of the call, the credential of the client and, in version 4.1,
  \<open>SEQUENCE\<close> with its session in front: these and no others are transmitted, over all repetitions after
  \<open>NFS4ERR_DELAY\<close> and all retransmissions, whether the procedure then succeeds or fails. \<open>OPEN\<close> and \<open>CLOSE\<close>
  carry the seqid the client holds, \<open>OPEN_CONFIRM\<close> the next one, and a lock names a new owner.
\<close>

theorem nfs4_requests_read:
  assumes "peer_ok s" "ok_request4 req" "run4 req (s, n) = Some (r, s', n')"
  shows "\<exists>acts. net_log n' = net_log n @ acts \<and> (\<forall>bs. Sent bs \<in> set acts \<longrightarrow>
    (\<exists>message h ops sent. bs = wire (n4_rpc s) message \<and>
       read_call compound_arms message = Some (h, n4_minor s, sent) \<and> framed s ops sent \<and> ops4 req s ops \<and>
       ch_mtype h = 0 \<and> ch_rpcvers h = 2 \<and> ch_cred h = cred_auth (cred (n4_rpc s))))"
proof -
  have "talks (ops4 req s) (s, n) (s', n')"
    using run4_talks [OF assms(2), of "(s, n)"] assms(1,3) by (simp add: op_talks_def)
  then show ?thesis unfolding talks_def says_def fst_conv snd_conv by blast
qed

theorem nfs4_requests_read_example:
  "\<exists>r s' n' acts. run4 (Q_Lookup ex_fh4 ''a'') (ex_nfs4, ex_lookup_net) = Some (r, s', n') \<and>
    net_log n' = net_log ex_lookup_net @ acts \<and>
    (\<forall>bs. Sent bs \<in> set acts \<longrightarrow> (\<exists>message h. bs = wire (ex_client Udp) message \<and>
      read_call compound_arms message = Some (h, 0, [A_Putfh ex_fh4, A_Lookup ''a'', A_Getfh, all_attrs])))"
proof -
  from ex_lookup_exchange obtain c args rpc' n' where x: "ex_lookup_ops new_Compound = Ok c" "c_finish 0 c = Ok args"
    "rpc_exchange 100003 4 1 (encode_Raw args) (n4_rpc ex_nfs4, ex_lookup_net)
      = Some (Ok (w4 0 @ w4 0 @ w4 4 @ op_ok 22), rpc', n')" by blast
  have "n4_minor ex_nfs4 = 0" by (simp add: ex_nfs4_def)
  from run_status_ok [OF this x(2,3)]
  have "n4_compound ex_lookup_ops rd (ex_nfs4, ex_lookup_net)
      = Some (Err (PE_Xdr (Truncated 4 0)), ex_nfs4\<lparr>n4_rpc := rpc'\<rparr>, n')" for rd :: "(NfsFh4 \<times> Fattr4) reader"
    by (rule n4_compound_failed [where b = ex_lookup_ops, OF x(1)])
  then have "nfs4_lookup ex_fh4 ''a'' (ex_nfs4, ex_lookup_net)
      = Some (Err (PE_Xdr (Truncated 4 0)), ex_nfs4\<lparr>n4_rpc := rpc'\<rparr>, n')"
    by (simp add: nfs4_lookup_def ex_lookup_ops_def)
  then have run: "run4 (Q_Lookup ex_fh4 ''a'') (ex_nfs4, ex_lookup_net)
      = Some (Err (PE_Xdr (Truncated 4 0)), ex_nfs4\<lparr>n4_rpc := rpc'\<rparr>, n')"
    by (simp add: op_void_def op_bind_def)
  have "peer_ok ex_nfs4" "ok_request4 (Q_Lookup ex_fh4 ''a'')"
    by (simp_all add: peer_ok_def ex_nfs4_def ex_client_def client_ok_def valid_string_def) code_simp
  from nfs4_requests_read [OF this run] obtain acts where a: "net_log n' = net_log ex_lookup_net @ acts"
    "\<forall>bs. Sent bs \<in> set acts \<longrightarrow> (\<exists>message h. bs = wire (ex_client Udp) message \<and>
      read_call compound_arms message = Some (h, 0, [A_Putfh ex_fh4, A_Lookup ''a'', A_Getfh, all_attrs]))"
    by (fastforce simp: framed_def ex_nfs4_def)
  with run show ?thesis by blast
qed

end
