(* ===== verification/Connect.thy ===== *)
theory Connect
  imports Portmap Mount
begin

text \<open>
  The mount flow (\<open>nfs-proto/src/connect.rs\<close>): portmapper, mount daemon, portmapper again
  for the NFS port. Its state is the network; each step opens a client of its own. The name
  service (\<open>to_socket_addrs\<close>) is a parameter.
\<close>

subsection \<open>Definitions\<close>

definition NFS_PROGRAM :: u32 where "NFS_PROGRAM = 100003"
definition NFS_VERSION3 :: u32 where "NFS_VERSION3 = 3"
definition PORTMAP_PORT :: u16 where "PORTMAP_PORT = 111"
definition NFS_PORT :: u16 where "NFS_PORT = 2049"

record MountOptions =
  mo_protocol :: Protocol
  mo_cred :: Credentials
  mo_timeout :: nat
  mo_portmap_port :: u16
  mo_mount_port :: "u16 option"
  mo_nfs_port :: "u16 option"

definition default_MountOptions :: MountOptions where
  "default_MountOptions = \<lparr>mo_protocol = Tcp, mo_cred = unix 0 0, mo_timeout = DEFAULT_TIMEOUT,
     mo_portmap_port = PORTMAP_PORT, mo_mount_port = None, mo_nfs_port = None\<rparr>"

record MountInfo =
  mi_server :: IpAddr
  mi_root_fh :: bytes
  mi_auth_flavors :: "u32 list"
  mi_nfs_port :: u16

definition ipproto :: "Protocol \<Rightarrow> u32" where
  "ipproto p = (case p of Tcp \<Rightarrow> IPPROTO_TCP | Udp \<Rightarrow> IPPROTO_UDP)"

type_synonym resolver = "string \<Rightarrow> u16 \<Rightarrow> (SocketAddr list, ErrorKind) result"

definition resolve_server :: "resolver \<Rightarrow> string \<Rightarrow> u16 \<Rightarrow> (SocketAddr, ProtoError) result" where
  "resolve_server lookup server port =
     and_then (map_err PE_Io (lookup server port)) (\<lambda>addrs.
       ok_or (case addrs of [] \<Rightarrow> None | a # _ \<Rightarrow> Some a) (Unresolvable server))"

definition connect_port ::
  "u32 \<Rightarrow> IpAddr \<Rightarrow> u16 \<Rightarrow> MountOptions \<Rightarrow> (net, ProtoError, RpcClient) op" where
  "connect_port pid ip port opts =
     op_map_err PE_Rpc (connect pid \<lparr>sa_ip = ip, sa_port = port\<rparr> (mo_protocol opts)
       (mo_cred opts) (mo_timeout opts))"

text \<open>A procedure run on a client that is dropped afterwards.\<close>

definition on_client :: "RpcClient \<Rightarrow> 'a proto_op \<Rightarrow> (net, ProtoError, 'a) op" where
  "on_client c m n = map_option (\<lambda>(r, c', n'). (r, n')) (m (c, n))"

text \<open>The port of a service: the fixed one, or the portmapper's answer.\<close>

definition service_port ::
  "u32 \<Rightarrow> IpAddr \<Rightarrow> MountOptions \<Rightarrow> u16 option \<Rightarrow> u32 \<Rightarrow> u32 \<Rightarrow> (net, ProtoError, u16) op" where
  "service_port pid ip opts fixed prog vers =
     (case fixed of
        Some p \<Rightarrow> op_lift (Ok p)
      | None \<Rightarrow> op_bind (connect_port pid ip (mo_portmap_port opts) opts) (\<lambda>pm.
          on_client pm (getport prog vers (ipproto (mo_protocol opts)))))"

definition mount ::
  "resolver \<Rightarrow> u32 \<Rightarrow> string \<Rightarrow> string \<Rightarrow> MountOptions \<Rightarrow> (net, ProtoError, MountInfo) op" where
  "mount lookup pid server export opts =
     op_bind (op_lift (resolve_server lookup server (mo_portmap_port opts))) (\<lambda>server_addr.
     let ip = sa_ip server_addr in
     op_bind (service_port pid ip opts (mo_mount_port opts) MOUNT_PROGRAM MOUNT_VERSION3) (\<lambda>mport.
     op_bind (connect_port pid ip mport opts) (\<lambda>mountd.
     op_bind (on_client mountd (mnt export)) (\<lambda>ok.
     op_bind (service_port pid ip opts (mo_nfs_port opts) NFS_PROGRAM NFS_VERSION3) (\<lambda>nport.
     op_lift (Ok \<lparr>mi_server = ip, mi_root_fh = fhandle ok, mi_auth_flavors = auth_flavors ok,
       mi_nfs_port = nport\<rparr>))))))"

subsection \<open>Where the flow connects\<close>

definition only_to :: "IpAddr \<Rightarrow> net \<Rightarrow> net \<Rightarrow> bool" where
  "only_to ip n n' \<longleftrightarrow> (\<exists>acts. net_log n' = net_log n @ acts \<and>
     (\<forall>a p. Opened a p \<in> set acts \<longrightarrow> sa_ip a = ip))"

lemma only_to_refl: "net_log n' = net_log n \<Longrightarrow> only_to ip n n'"
  by (simp add: only_to_def)

lemma only_to_trans: "only_to ip a b \<Longrightarrow> only_to ip b c \<Longrightarrow> only_to ip a c"
  by (force simp: only_to_def)

lemma only_to_bind:
  assumes "\<And>n r n'. m n = Some (r, n') \<Longrightarrow> only_to ip n n' \<and> (\<forall>x. r = Ok x \<longrightarrow> P x)"
    and "\<And>x n r n'. P x \<Longrightarrow> f x n = Some (r, n') \<Longrightarrow> only_to ip n n' \<and> (\<forall>y. r = Ok y \<longrightarrow> Q y)"
    and "op_bind m f n = Some (r, n')"
  shows "only_to ip n n' \<and> (\<forall>y. r = Ok y \<longrightarrow> Q y)"
  using assms(3) unfolding op_bind_eq
proof (elim disjE exE conjE)
  fix x s assume "m n = Some (Ok x, s)" "f x s = Some (r, n')"
  with assms(1) [of n "Ok x" s] assms(2) [of x s r n'] show ?thesis
    by (auto intro: only_to_trans)
qed (use assms(1) in fastforce)+

lemma connect_port_only:
  assumes "connect_port pid ip port opts n = Some (r, n')"
  shows "only_to ip n n' \<and> (\<forall>c. r = Ok c \<longrightarrow> client_ok c \<and> sa_ip (addr c) = ip)"
proof -
  obtain r0 where r0: "connect pid \<lparr>sa_ip = ip, sa_port = port\<rparr> (mo_protocol opts) (mo_cred opts)
      (mo_timeout opts) n = Some (r0, n')" "r = map_err PE_Rpc r0"
    using assms by (auto simp: connect_port_def op_map_err_eq)
  then have "only_to ip n n'"
    by (cases "net_opens n"; cases "hd (net_opens n)"; cases "net_clock n")
      (auto simp: connect_def op_bind_def open_socket_def seed_xid_def only_to_def)
  with r0 connect_client_ok show ?thesis by fastforce
qed

lemma proto_call_only:
  assumes "xdr_encoder args" "xdr_decoder dec" "client_ok c" "sa_ip (addr c) = ip"
    and "on_client c (proto_call prog vers proc args dec finish) n = Some (r, n')"
  shows "only_to ip n n'"
proof -
  from assms(5) obtain c' r0 where
    "call prog vers proc args dec (c, n) = Some (r0, c', n')"
    by (auto simp: on_client_def proto_call_def op_bind_def op_map_err_def op_lift_def
        split: option.splits result.splits prod.splits)
  from assms(1) this show ?thesis
  proof (cases rule: call_Some)
    case (loop message)
    from call_loop_actions [OF _ assms(2) _ loop(2)] assms(3) obtain acts where
      "net_log n' = net_log n @ acts" "call_actions c message (MAX_ATTEMPTS - 0) acts"
      by (auto simp: MAX_ATTEMPTS_def)
    with assms(4) show ?thesis
      unfolding only_to_def call_actions_def by blast
  qed (simp add: only_to_refl)
qed

lemma service_port_only:
  assumes "service_port pid ip opts fixed prog vers n = Some (r, n')"
  shows "only_to ip n n' \<and> (\<forall>p. r = Ok p \<longrightarrow> (case fixed of None \<Rightarrow> True | Some q \<Rightarrow> p = q))"
proof (cases fixed)
  case None
  from None assms have "op_bind (connect_port pid ip (mo_portmap_port opts) opts) (\<lambda>pm.
      on_client pm (getport prog vers (ipproto (mo_protocol opts)))) n = Some (r, n')"
    by (simp add: service_port_def)
  then have "only_to ip n n' \<and> (\<forall>y. r = Ok y \<longrightarrow> True)"
    by (rule only_to_bind [rotated 2, where P = "\<lambda>c. client_ok c \<and> sa_ip (addr c) = ip"])
      (auto dest: connect_port_only simp: getport_def intro: proto_call_only [OF xdr_encoder_Mapping
          xdr_decoder_words(1)])
  with None show ?thesis by simp
qed (use assms in \<open>auto simp: service_port_def op_lift_def only_to_refl\<close>)

lemma mnt_only:
  assumes "client_ok c" "sa_ip (addr c) = ip" "on_client c (mnt path) n = Some (r, n')"
  shows "only_to ip n n' \<and> (\<forall>ok. r = Ok ok \<longrightarrow> length (fhandle ok) \<le> 64)"
proof
  show "only_to ip n n'"
    by (rule proto_call_only [OF xdr_encoder_opaques(1) xdr_decoder_Mountres3 assms(1,2)])
      (use assms(3) in \<open>simp add: mnt_def\<close>)
  show "\<forall>ok. r = Ok ok \<longrightarrow> length (fhandle ok) \<le> 64"
  proof (intro allI impI)
    fix ok assume r: "r = Ok ok"
    with assms(3) obtain c' where "mnt path (c, n) = Some (Ok ok, c', n')"
      by (auto simp: on_client_def)
    then obtain body v rest where "decode_Mountres3 body = Ok (v, rest)"
      "(case v of Mount_Ok ok \<Rightarrow> Ok ok | Mount_Err code \<Rightarrow> Err (PE_Mount code)) = Ok ok"
      unfolding mnt_def by (rule proto_call_Ok)
    then show "length (fhandle ok) \<le> 64"
      using decode_Mountres3_bound by (auto split: Mountres3.splits)
  qed
qed

text \<open>
  C23: the mount flow talks to one host only, the first address of the name service,
  reconnections included; what it returns is that host, a root handle of at most 64 bytes,
  and the port that the options fix, if they fix one.
\<close>

theorem mount_one_host:
  assumes "lookup server (mo_portmap_port opts) = Ok (a # others)"
    and "mount lookup pid server export opts n = Some (r, n')"
  shows "only_to (sa_ip a) n n' \<and> (\<forall>info. r = Ok info \<longrightarrow>
    mi_server info = sa_ip a \<and> length (mi_root_fh info) \<le> 64 \<and>
    (\<forall>p. mo_nfs_port opts = Some p \<longrightarrow> mi_nfs_port info = p))"
proof -
  define good where "good info \<longleftrightarrow> mi_server info = sa_ip a \<and> length (mi_root_fh info) \<le> 64 \<and>
    (\<forall>p. mo_nfs_port opts = Some p \<longrightarrow> mi_nfs_port info = p)" for info :: MountInfo
  have res: "resolve_server lookup server (mo_portmap_port opts) = Ok a"
    using assms(1) by (simp add: resolve_server_def ok_or_def)
  have last: "only_to (sa_ip a) n n' \<and> (\<forall>y. r = Ok y \<longrightarrow> good y)"
    if "length (fhandle ok) \<le> 64" and "op_bind (service_port pid (sa_ip a) opts (mo_nfs_port opts)
        NFS_PROGRAM NFS_VERSION3) (\<lambda>nport. op_lift (Ok \<lparr>mi_server = sa_ip a,
        mi_root_fh = fhandle ok, mi_auth_flavors = auth_flavors ok, mi_nfs_port = nport\<rparr>)) n
        = Some (r, n')" for ok n r n'
    using that(2) by (rule only_to_bind [rotated 2, OF _ service_port_only])
      (use that(1) in \<open>auto simp: op_lift_def good_def only_to_refl\<close>)
  have "only_to (sa_ip a) n n' \<and> (\<forall>y. r = Ok y \<longrightarrow> good y)"
    using assms(2) unfolding mount_def res op_lift_bind Let_def
  proof (rule only_to_bind [rotated 2, where P = "\<lambda>_. True"])
    fix mport :: u16 and n r n'
    assume "op_bind (connect_port pid (sa_ip a) mport opts) (\<lambda>mountd.
      op_bind (on_client mountd (mnt export)) (\<lambda>ok.
      op_bind (service_port pid (sa_ip a) opts (mo_nfs_port opts) NFS_PROGRAM NFS_VERSION3)
        (\<lambda>nport. op_lift (Ok \<lparr>mi_server = sa_ip a, mi_root_fh = fhandle ok,
           mi_auth_flavors = auth_flavors ok, mi_nfs_port = nport\<rparr>)))) n = Some (r, n')"
    then show "only_to (sa_ip a) n n' \<and> (\<forall>y. r = Ok y \<longrightarrow> good y)"
      by (rule only_to_bind [rotated 2, where P = "\<lambda>c. client_ok c \<and> sa_ip (addr c) = sa_ip a"])
        (erule connect_port_only,
          erule only_to_bind [rotated 2, where P = "\<lambda>ok. length (fhandle ok) \<le> 64"],
          auto dest: mnt_only last)
  qed (use service_port_only in blast)
  then show ?thesis by (simp add: good_def)
qed

text \<open>A client just connected, when the clock gives no seed.\<close>

definition fresh_client :: "u32 \<Rightarrow> SocketAddr \<Rightarrow> Protocol \<Rightarrow> RpcClient" where
  "fresh_client pid a p = \<lparr>addr = a, protocol = p, cred = Cred_None, timeout = 5,
     socket = (case p of Tcp \<Rightarrow> Sock_Tcp | Udp \<Rightarrow> Sock_Udp), reassembler = new_reassembler,
     pending = [], next_xid = pid, auto_reconnect = True\<rparr>"

lemma connect_fresh:
  "net_opens n = None # os \<Longrightarrow> net_clock n = [] \<Longrightarrow> connect pid a p Cred_None 5 n =
    Some (Ok (fresh_client pid a p), n\<lparr>net_opens := os, net_log := net_log n @ [Opened a p]\<rparr>)"
  by (simp add: connect_def op_bind_def open_socket_def seed_xid_def fresh_client_def)

lemma fresh_client_sel [simp]:
  "client_ok (fresh_client pid a p)" "pending (fresh_client pid a p) = []"
  "cred (fresh_client pid a p) = Cred_None" "reassembler (fresh_client pid a p) = new_reassembler"
  "next_xid (fresh_client pid a p) = pid"
  by (cases p; simp add: fresh_client_def client_ok_def)+

definition ex_addr :: "u16 \<Rightarrow> SocketAddr" where
  "ex_addr port = \<lparr>sa_ip = V4 0x0A000001, sa_port = port\<rparr>"

definition ex_lookup :: resolver where
  "ex_lookup server port = Ok [ex_addr port]"

definition ex_opts :: MountOptions where
  "ex_opts = default_MountOptions\<lparr>mo_cred := Cred_None, mo_timeout := 5, mo_mount_port := Some 635,
     mo_nfs_port := Some 2049\<rparr>"

definition ex_root_reply :: bytes where
  "ex_root_reply = (case to_bytes encode_Mountres3 (Mount_Ok ex_root) of Ok b \<Rightarrow> b | _ \<Rightarrow> [])"

definition ex_mount_net :: net where
  "ex_mount_net = \<lparr>net_opens = [None, None, Some TimedOut],
     net_sends = [None, Some TimedOut],
     net_recvs = [Recv_Data (answer_to (fresh_client 7 (ex_addr 635) Tcp) ex_root_reply)],
     net_clock = [], net_log = []\<rparr>"

definition ex_info :: MountInfo where
  "ex_info = \<lparr>mi_server = V4 0x0A000001, mi_root_fh = [1, 2, 3, 4], mi_auth_flavors = [1],
     mi_nfs_port = 2049\<rparr>"

lemma ex_mnt:
  assumes "net_sends n = None # ss"
    and "net_recvs n = [Recv_Data (answer_to (fresh_client pid a p) ex_root_reply)]"
  shows "\<exists>c' evs' acts. mnt ''/export'' (fresh_client pid a p, n) = Some (Ok ex_root, c',
    n\<lparr>net_sends := ss, net_log := net_log n @ acts, net_recvs := evs'\<rparr>)"
proof -
  have ab: "\<exists>ab. encode_String ''/export'' [] = Ok ab \<and> length ab \<le> 2 ^ 20"
    by (simp add: enc_eval)
  have body: "to_bytes encode_Mountres3 (Mount_Ok ex_root) = Ok ex_root_reply" "length ex_root_reply \<le> 2 ^ 20"
    using ex_root_bytes by (auto simp: ex_root_reply_def)
  from exchange_served [OF fresh_client_sel(1,2,4,3) xdr_encoder_opaques(1) _ _ body(2) assms,
      where prog = 100005 and vers = 3 and proc = 1] ab
  obtain c' evs' acts where x: "rpc_exchange 100005 3 1 (encode_String ''/export'') (fresh_client pid a p, n)
    = Some (Ok ex_root_reply, c', n\<lparr>net_sends := ss, net_log := net_log n @ acts, net_recvs := evs'\<rparr>)"
    by blast
  have "decode_Mountres3 ex_root_reply = Ok (Mount_Ok ex_root, [])"
    using wire_rt_Mountres3 [of "Mount_Ok ex_root"] body(1)
    unfolding wire_rt_def to_bytes_def mountres3_ok_def by (metis Mountres3.simps(5) append_Nil2)
  then show ?thesis
    unfolding mnt_def MOUNT_PROGRAM_def MOUNT_VERSION3_def MOUNTPROC3_MNT_def
    by (subst proto_call_answer [OF x, where rest = "[]"]) auto
qed

lemma ex_mount: "\<exists>evs' acts. mount ex_lookup 7 ''srv'' ''/export'' ex_opts ex_mount_net = Some (Ok ex_info,
    ex_mount_net\<lparr>net_opens := [None, Some TimedOut], net_sends := [Some TimedOut],
      net_log := acts, net_recvs := evs'\<rparr>)"
proof -
  let ?n = "ex_mount_net\<lparr>net_opens := [None, Some TimedOut],
    net_log := net_log ex_mount_net @ [Opened (ex_addr 635) Tcp]\<rparr>"
  have c: "connect 7 (ex_addr 635) Tcp Cred_None 5 ex_mount_net = Some (Ok (fresh_client 7 (ex_addr 635) Tcp), ?n)"
    by (rule connect_fresh) (simp_all add: ex_mount_net_def)
  obtain c' evs' acts where m: "mnt ''/export'' (fresh_client 7 (ex_addr 635) Tcp, ?n) = Some (Ok ex_root, c',
      ?n\<lparr>net_sends := [Some TimedOut], net_log := net_log ?n @ acts, net_recvs := evs'\<rparr>)"
    using ex_mnt [of ?n "[Some TimedOut]" 7 "ex_addr 635" Tcp] by (auto simp: ex_mount_net_def)
  have r: "resolve_server ex_lookup ''srv'' (mo_portmap_port ex_opts) = Ok (ex_addr 111)"
    by (simp add: resolve_server_def ex_lookup_def ok_or_def ex_opts_def default_MountOptions_def PORTMAP_PORT_def)
  have p: "service_port 7 ip ex_opts (mo_mount_port ex_opts) prog vers = op_lift (Ok 635)"
    "service_port 7 ip ex_opts (mo_nfs_port ex_opts) prog vers = op_lift (Ok 2049)" for ip prog vers
    by (simp_all add: service_port_def ex_opts_def)
  have c': "connect_port 7 (sa_ip (ex_addr 111)) 635 ex_opts ex_mount_net = Some (Ok (fresh_client 7 (ex_addr 635) Tcp), ?n)"
    using c by (simp add: connect_port_def ex_opts_def default_MountOptions_def ex_addr_def)
  have "on_client (fresh_client 7 (ex_addr 635) Tcp) (mnt ''/export'') ?n = Some (Ok ex_root,
      ?n\<lparr>net_sends := [Some TimedOut], net_log := net_log ?n @ acts, net_recvs := evs'\<rparr>)"
    unfolding on_client_def m by simp
  with c' have "mount ex_lookup 7 ''srv'' ''/export'' ex_opts ex_mount_net = Some (Ok ex_info,
      ?n\<lparr>net_sends := [Some TimedOut], net_log := net_log ?n @ acts, net_recvs := evs'\<rparr>)"
    unfolding mount_def r op_lift_bind Let_def p
    by (simp add: op_lift_def ex_info_def ex_addr_def ex_root_def)
  then show ?thesis by (auto simp: ex_mount_net_def)
qed

theorem mount_one_host_example:
  "\<exists>n'. mount ex_lookup 7 ''srv'' ''/export'' ex_opts ex_mount_net = Some (Ok ex_info, n')
    \<and> only_to (V4 0x0A000001) ex_mount_net n' \<and> mi_server ex_info = V4 0x0A000001"
proof -
  obtain n' where m: "mount ex_lookup 7 ''srv'' ''/export'' ex_opts ex_mount_net = Some (Ok ex_info, n')"
    using ex_mount by blast
  have "ex_lookup ''srv'' (mo_portmap_port ex_opts) = Ok (ex_addr (mo_portmap_port ex_opts) # [])"
    by (simp add: ex_lookup_def)
  from mount_one_host [OF this m] m show ?thesis by (auto simp: ex_addr_def)
qed

end
