(* ===== verification/VFS_Base.thy ===== *)
theory VFS_Base
  imports Connect NFS3 NLM NFS4_Server
begin

text \<open>
  The vocabulary of the file system layer (crate \<open>nfs-client\<close>): its errors
  (\<open>error.rs\<close>), the version-independent attributes (\<open>attr.rs\<close>) and the interface
  \<open>Backend\<close> (\<open>backend.rs\<close>). The trait object is the record of its operations
  (\<open>Backend\<close>); what every implementation promises is the locale \<open>vfs_backend\<close>.
\<close>

subsection \<open>Errors (error.rs)\<close>

datatype NfsError =
    NotFound
  | NotADirectory
  | IsADirectory
  | AlreadyExists
  | PermissionDenied
  | NotEmpty
  | NameTooLong
  | NoSpace
  | ReadOnly
  | Stale
  | InvalidArgument
  | TooManySymlinks
  | Locked
  | InvalidPath string
  | InvalidUrl string
  | NE_Io ErrorKind
  | NE_Proto ProtoError

definition from_nfsstat3 :: "u32 \<Rightarrow> NfsError" where
  "from_nfsstat3 code =
     (if code = NFS3ERR_NOENT then NotFound
      else if code = NFS3ERR_NOTDIR then NotADirectory
      else if code = NFS3ERR_ISDIR then IsADirectory
      else if code = NFS3ERR_EXIST then AlreadyExists
      else if code = NFS3ERR_PERM \<or> code = NFS3ERR_ACCES then PermissionDenied
      else if code = NFS3ERR_NOTEMPTY then NotEmpty
      else if code = NFS3ERR_NAMETOOLONG then NameTooLong
      else if code = NFS3ERR_NOSPC then NoSpace
      else if code = NFS3ERR_ROFS then ReadOnly
      else if code = NFS3ERR_STALE then Stale
      else if code = NFS3ERR_INVAL then InvalidArgument
      else NE_Proto (PE_Nfs3 code))"

definition from_nfsstat4 :: "u32 \<Rightarrow> NfsError" where
  "from_nfsstat4 code =
     (if code = 2 then NotFound
      else if code = 20 then NotADirectory
      else if code = 17 then AlreadyExists
      else if code = 13 then PermissionDenied
      else if code = 66 then NotEmpty
      else if code = 70 then Stale
      else if code = 22 then InvalidArgument
      else if code = 10010 then Locked
      else NE_Proto (PE_Nfs4 code))"

definition from_ProtoError :: "ProtoError \<Rightarrow> NfsError" where
  "from_ProtoError err =
     (case err of
        PE_Nfs3 code \<Rightarrow> from_nfsstat3 code
      | PE_Nfs4 code \<Rightarrow> from_nfsstat4 code
      | PE_Io e \<Rightarrow> NE_Io e
      | PE_Nlm stat \<Rightarrow> if stat = 1 then Locked else NE_Proto err
      | _ \<Rightarrow> NE_Proto err)"

definition from_RpcError :: "RpcError \<Rightarrow> NfsError" where
  "from_RpcError err = from_ProtoError (PE_Rpc err)"

subsection \<open>Attributes (attr.rs)\<close>

datatype FileType = Regular | Directory | Symlink | Block | CharDev | SocketFile | FifoFile | Unknown

definition from_nfs :: "u32 \<Rightarrow> FileType" where
  "from_nfs v =
     (if v = 1 then Regular else if v = 2 then Directory else if v = 3 then Block
      else if v = 4 then CharDev else if v = 5 then Symlink else if v = 6 then SocketFile
      else if v = 7 then FifoFile else Unknown)"

record Timestamp =
  ts_secs :: i64
  ts_nsecs :: u32

record Attr =
  at_file_type :: FileType
  at_mode :: u32
  at_nlink :: u32
  at_uid :: u32
  at_gid :: u32
  at_size :: u64
  at_used :: u64
  at_fileid :: u64
  at_fsid :: u64
  at_rdev :: "u32 \<times> u32"
  at_atime :: Timestamp
  at_mtime :: Timestamp
  at_ctime :: Timestamp

definition is_dir :: "Attr \<Rightarrow> bool" where "is_dir a \<longleftrightarrow> at_file_type a = Directory"
definition is_file :: "Attr \<Rightarrow> bool" where "is_file a \<longleftrightarrow> at_file_type a = Regular"
definition is_symlink :: "Attr \<Rightarrow> bool" where "is_symlink a \<longleftrightarrow> at_file_type a = Symlink"

definition from_fattr3 :: "Fattr3 \<Rightarrow> Attr" where
  "from_fattr3 a =
     \<lparr>at_file_type = from_nfs (fa_ftype a), at_mode = fa_mode a, at_nlink = fa_nlink a,
      at_uid = fa_uid a, at_gid = fa_gid a, at_size = fa_size a, at_used = fa_used a,
      at_fileid = fa_fileid a, at_fsid = fa_fsid a,
      at_rdev = (specdata1 (fa_rdev a), specdata2 (fa_rdev a)),
      at_atime = \<lparr>ts_secs = ucast (nt_seconds (fa_atime a)), ts_nsecs = nt_nseconds (fa_atime a)\<rparr>,
      at_mtime = \<lparr>ts_secs = ucast (nt_seconds (fa_mtime a)), ts_nsecs = nt_nseconds (fa_mtime a)\<rparr>,
      at_ctime = \<lparr>ts_secs = ucast (nt_seconds (fa_ctime a)), ts_nsecs = nt_nseconds (fa_ctime a)\<rparr>\<rparr>"

record SetAttr =
  se_mode :: "u32 option"
  se_uid :: "u32 option"
  se_gid :: "u32 option"
  se_size :: "u64 option"
  se_atime :: "Timestamp option"
  se_mtime :: "Timestamp option"

definition default_SetAttr :: SetAttr where
  "default_SetAttr = \<lparr>se_mode = None, se_uid = None, se_gid = None, se_size = None,
     se_atime = None, se_mtime = None\<rparr>"

definition client_time :: "Timestamp option \<Rightarrow> SetTime" where
  "client_time t = (case t of
     None \<Rightarrow> DontChange
   | Some t \<Rightarrow> ToClientTime \<lparr>nt_seconds = ucast (ts_secs t), nt_nseconds = ts_nsecs t\<rparr>)"

definition to_sattr3 :: "SetAttr \<Rightarrow> Sattr3" where
  "to_sattr3 s = \<lparr>sa3_mode = se_mode s, sa3_uid = se_uid s, sa3_gid = se_gid s, sa3_size = se_size s,
     sa3_atime = client_time (se_atime s), sa3_mtime = client_time (se_mtime s)\<rparr>"

record DirEntry =
  de_name :: string
  de_fileid :: u64
  de_attr :: "Attr option"

record StatVfs =
  sv_block_size :: u32
  sv_total_blocks :: u64
  sv_free_blocks :: u64
  sv_avail_blocks :: u64
  sv_total_files :: u64
  sv_free_files :: u64
  sv_avail_files :: u64

subsection \<open>The interface of a backend (backend.rs)\<close>

type_synonym ObjId = bytes

record OpenFile =
  of_fh :: ObjId
  of_stateid :: "Stateid4 option"
  of_writable :: bool

datatype LockToken = Lock_V3 u64 u64 | Lock_V4 LockGrant u64 u64

record OpenOpts =
  oo_write :: bool
  oo_create :: bool
  oo_exclusive :: bool
  oo_mode :: u32

type_synonym ('s, 'a) vfs_op = "('s, NfsError, 'a) op"

record 's Backend =
  b_version :: u32
  b_pref_read :: "'s \<Rightarrow> u32"
  b_pref_write :: "'s \<Rightarrow> u32"
  b_getattr :: "ObjId \<Rightarrow> ('s, Attr) vfs_op"
  b_lookup :: "ObjId \<Rightarrow> string \<Rightarrow> ('s, ObjId \<times> Attr) vfs_op"
  b_open :: "ObjId \<Rightarrow> string \<Rightarrow> OpenOpts \<Rightarrow> ('s, OpenFile) vfs_op"
  b_close :: "OpenFile \<Rightarrow> ('s, unit) vfs_op"
  b_pread :: "OpenFile \<Rightarrow> u64 \<Rightarrow> u32 \<Rightarrow> ('s, bytes \<times> bool) vfs_op"
  b_pwrite :: "OpenFile \<Rightarrow> u64 \<Rightarrow> bytes \<Rightarrow> ('s, u32) vfs_op"
  b_commit :: "OpenFile \<Rightarrow> ('s, unit) vfs_op"
  b_mkdir :: "ObjId \<Rightarrow> string \<Rightarrow> u32 \<Rightarrow> ('s, ObjId) vfs_op"
  b_rmdir :: "ObjId \<Rightarrow> string \<Rightarrow> ('s, unit) vfs_op"
  b_remove :: "ObjId \<Rightarrow> string \<Rightarrow> ('s, unit) vfs_op"
  b_rename :: "ObjId \<Rightarrow> string \<Rightarrow> ObjId \<Rightarrow> string \<Rightarrow> ('s, unit) vfs_op"
  b_symlink :: "ObjId \<Rightarrow> string \<Rightarrow> string \<Rightarrow> ('s, unit) vfs_op"
  b_readlink :: "ObjId \<Rightarrow> ('s, string) vfs_op"
  b_link :: "ObjId \<Rightarrow> ObjId \<Rightarrow> string \<Rightarrow> ('s, unit) vfs_op"
  b_setattr :: "ObjId \<Rightarrow> SetAttr \<Rightarrow> ('s, unit) vfs_op"
  b_readdir :: "ObjId \<Rightarrow> ('s, DirEntry list) vfs_op"
  b_statvfs :: "ObjId \<Rightarrow> ('s, StatVfs) vfs_op"
  b_access :: "ObjId \<Rightarrow> u32 \<Rightarrow> ('s, u32) vfs_op"
  b_lock :: "OpenFile \<Rightarrow> u64 \<Rightarrow> u64 \<Rightarrow> bool \<Rightarrow> ('s, LockToken) vfs_op"
  b_unlock :: "OpenFile \<Rightarrow> LockToken \<Rightarrow> ('s, unit) vfs_op"
  b_test_lock :: "OpenFile \<Rightarrow> u64 \<Rightarrow> u64 \<Rightarrow> bool \<Rightarrow> ('s, bool) vfs_op"

definition clamp_pref :: "u32 \<Rightarrow> u32" where
  "clamp_pref v = (if v < 32 * 1024 then 32 * 1024 else if v > 1024 * 1024 then 1024 * 1024 else v)"

lemma clamp_pref_bounds: "32 * 1024 \<le> clamp_pref v \<and> clamp_pref v \<le> 1024 * 1024"
  by (auto simp: clamp_pref_def not_less)

subsection \<open>The promise of a backend\<close>

text \<open>
  The promise of a backend: every operation keeps the invariant of the backend's state and
  does not panic, and the preferred transfer sizes are positive.
\<close>

locale vfs_backend =
  fixes be :: "'s Backend" and inv :: "'s \<Rightarrow> bool"
  assumes pref_pos: "inv s \<Longrightarrow> 0 < b_pref_read be s \<and> 0 < b_pref_write be s"
    and getattr_safe: "op_safe inv (b_getattr be fh)"
    and lookup_safe: "op_safe inv (b_lookup be fh name)"
    and open_safe: "op_safe inv (b_open be fh name opts)"
    and close_safe: "op_safe inv (b_close be file)"
    and pread_safe: "op_safe inv (b_pread be file off cnt)"
    and pwrite_safe: "op_safe inv (b_pwrite be file off data)"
    and commit_safe: "op_safe inv (b_commit be file)"
    and mkdir_safe: "op_safe inv (b_mkdir be fh name md)"
    and rmdir_safe: "op_safe inv (b_rmdir be fh name)"
    and remove_safe: "op_safe inv (b_remove be fh name)"
    and rename_safe: "op_safe inv (b_rename be fh name fh2 name2)"
    and symlink_safe: "op_safe inv (b_symlink be fh name target)"
    and readlink_safe: "op_safe inv (b_readlink be fh)"
    and link_safe: "op_safe inv (b_link be fh fh2 name)"
    and setattr_safe: "op_safe inv (b_setattr be fh sattr)"
    and readdir_safe: "op_safe inv (b_readdir be fh)"
    and statvfs_safe: "op_safe inv (b_statvfs be fh)"
    and access_safe: "op_safe inv (b_access be fh bits)"
    and lock_safe: "op_safe inv (b_lock be file off len excl)"
    and unlock_safe: "op_safe inv (b_unlock be file token)"
    and test_lock_safe: "op_safe inv (b_test_lock be file off len excl)"

end
