(* ===== verification/Backend_V3.thy ===== *)
theory Backend_V3
  imports VFS_Base
begin

text \<open>
  The NFSv3 backend (\<open>nfs-client/src/backend_v3.rs\<close>): its state (the NFS client, the
  negotiated sizes, the lock manager client opened on demand), every operation of the
  interface \<open>Backend\<close>, and the proof that it keeps the promise of \<open>vfs_backend\<close>.
\<close>

subsection \<open>State\<close>

record NlmConfig =
  nc_server :: IpAddr
  nc_protocol :: Protocol
  nc_cred :: Credentials
  nc_timeout :: nat
  nc_portmap_port :: u16

record V3Backend =
  v3_nfs :: RpcClient
  v3_rsize :: u32
  v3_wsize :: u32
  v3_nlm_config :: NlmConfig
  v3_nlm :: "RpcClient option"
  v3_lock_owner :: bytes
  v3_svid :: i32

type_synonym v3_state = "V3Backend \<times> net"

text \<open>A call of \<open>self.nfs\<close> followed by \<open>?\<close>.\<close>

definition on_nfs :: "'a proto_op \<Rightarrow> (v3_state, 'a) vfs_op" where
  "on_nfs m = (\<lambda>(b, n).
     case m (v3_nfs b, n) of
       None \<Rightarrow> None
     | Some (r, c', n') \<Rightarrow> Some (map_err from_ProtoError r, b\<lparr>v3_nfs := c'\<rparr>, n'))"

definition mk_fh :: "ObjId \<Rightarrow> NfsFh3" where
  "mk_fh fh = \<lparr>fh_data = fh\<rparr>"

text \<open>\<open>unique_owner\<close>: the process id and the clock are given by the system.\<close>

definition unique_owner :: "u32 \<Rightarrow> u64 \<Rightarrow> bytes" where
  "unique_owner pid nanos =
     as_bytes (''libnfs-rs:'' @ show_nat (unat pid) @ '':'' @ show_nat (unat nanos))"

definition v3_new :: "u32 \<Rightarrow> u64 \<Rightarrow> RpcClient \<Rightarrow> ObjId \<Rightarrow> NlmConfig \<Rightarrow> (net, NfsError, V3Backend) op" where
  "v3_new pid nanos nfs root config n =
     (case nfs3_fsinfo (mk_fh root) (nfs, n) of
        None \<Rightarrow> None
      | Some (Panic, s') \<Rightarrow> Some (Panic, snd s')
      | Some (r, nfs', n') \<Rightarrow>
          let (rsize, wsize) = (case r of
                Ok info \<Rightarrow> (clamp_pref (fsi_rtpref info), clamp_pref (fsi_wtpref info))
              | _ \<Rightarrow> (64 * 1024, 64 * 1024))
          in Some (Ok \<lparr>v3_nfs = nfs', v3_rsize = rsize, v3_wsize = wsize, v3_nlm_config = config,
               v3_nlm = None, v3_lock_owner = unique_owner pid nanos, v3_svid = pid\<rparr>, n'))"

subsection \<open>The lock manager on demand\<close>

definition on_net :: "(net, NfsError, 'a) op \<Rightarrow> (v3_state, 'a) vfs_op" where
  "on_net m = (\<lambda>(b, n). map_option (\<lambda>(r, n'). (r, b, n')) (m n))"

definition nlm_connect :: "u32 \<Rightarrow> NlmConfig \<Rightarrow> (net, NfsError, RpcClient) op" where
  "nlm_connect pid cfg =
     (let prot = (case nc_protocol cfg of Tcp \<Rightarrow> IPPROTO_TCP | Udp \<Rightarrow> IPPROTO_UDP);
          pm_addr = \<lparr>sa_ip = nc_server cfg, sa_port = nc_portmap_port cfg\<rparr> in
      op_bind (op_map_err from_RpcError
          (connect pid pm_addr (nc_protocol cfg) (nc_cred cfg) (nc_timeout cfg))) (\<lambda>pm.
      op_bind (op_map_err from_ProtoError (on_client pm (getport NLM_PROGRAM NLM_VERSION4 prot))) (\<lambda>port.
      op_map_err from_RpcError (connect pid \<lparr>sa_ip = nc_server cfg, sa_port = port\<rparr>
        (nc_protocol cfg) (nc_cred cfg) (nc_timeout cfg)))))"

definition ensure_nlm :: "u32 \<Rightarrow> (v3_state, unit) vfs_op" where
  "ensure_nlm pid = (\<lambda>(b, n).
     if v3_nlm b = None then
       op_bind (on_net (nlm_connect pid (v3_nlm_config b)))
         (\<lambda>client (b, n). Some (Ok (), b\<lparr>v3_nlm := Some client\<rparr>, n)) (b, n)
     else Some (Ok (), b, n))"

definition on_nlm :: "'a proto_op \<Rightarrow> (v3_state, 'a) vfs_op" where
  "on_nlm m = (\<lambda>(b, n).
     case v3_nlm b of
       None \<Rightarrow> Some (Panic, b, n)
     | Some c \<Rightarrow>
         (case m (c, n) of
            None \<Rightarrow> None
          | Some (r, c', n') \<Rightarrow> Some (map_err from_ProtoError r, b\<lparr>v3_nlm := Some c'\<rparr>, n')))"

definition NLM_CALLER :: string where "NLM_CALLER = ''libnfs-rs''"

subsection \<open>Operations\<close>

definition v3_getattr :: "ObjId \<Rightarrow> (v3_state, Attr) vfs_op" where
  "v3_getattr fh = op_bind (on_nfs (nfs3_getattr (mk_fh fh))) (\<lambda>a. op_lift (Ok (from_fattr3 a)))"

definition v3_lookup :: "ObjId \<Rightarrow> string \<Rightarrow> (v3_state, ObjId \<times> Attr) vfs_op" where
  "v3_lookup dir name = op_bind (on_nfs (nfs3_lookup (mk_fh dir) name)) (\<lambda>res.
     case lo_obj_attributes res of
       Some a \<Rightarrow> op_lift (Ok (fh_data (lo_object res), from_fattr3 a))
     | None \<Rightarrow> op_bind (on_nfs (nfs3_getattr (lo_object res))) (\<lambda>a.
         op_lift (Ok (fh_data (lo_object res), from_fattr3 a))))"

definition v3_open :: "ObjId \<Rightarrow> string \<Rightarrow> OpenOpts \<Rightarrow> (v3_state, OpenFile) vfs_op" where
  "v3_open dir name opts =
     op_bind
       (if oo_create opts then
          let how = (if oo_exclusive opts then Guarded (unchanged\<lparr>sa3_mode := Some (oo_mode opts)\<rparr>)
                     else Unchecked (unchanged\<lparr>sa3_mode := Some (oo_mode opts)\<rparr>)) in
          op_bind (on_nfs (nfs3_create (mk_fh dir) name how)) (\<lambda>res.
            op_lift (map_ok fh_data (ok_or (co_obj res)
              (NE_Proto (PE_Protocol (''CREATE no devolvi'' @ [CHR 0xC3, CHR 0xB3] @ '' file handle''))))))
        else op_bind (on_nfs (nfs3_lookup (mk_fh dir) name)) (\<lambda>res.
          op_lift (Ok (fh_data (lo_object res)))))
       (\<lambda>fh. op_lift (Ok \<lparr>of_fh = fh, of_stateid = None, of_writable = oo_write opts\<rparr>))"

definition v3_close :: "OpenFile \<Rightarrow> (v3_state, unit) vfs_op" where
  "v3_close file = op_lift (Ok ())"

definition v3_pread :: "OpenFile \<Rightarrow> u64 \<Rightarrow> u32 \<Rightarrow> (v3_state, bytes \<times> bool) vfs_op" where
  "v3_pread file offset count = op_bind (on_nfs (nfs3_read (mk_fh (of_fh file)) offset count))
     (\<lambda>res. op_lift (Ok (ro_data res, ro_eof res)))"

definition UNSTABLE :: u32 where "UNSTABLE = 0"

definition v3_pwrite :: "OpenFile \<Rightarrow> u64 \<Rightarrow> bytes \<Rightarrow> (v3_state, u32) vfs_op" where
  "v3_pwrite file offset data =
     op_bind (on_nfs (nfs3_write (mk_fh (of_fh file)) offset UNSTABLE data))
       (\<lambda>res. op_lift (Ok (wo_count res)))"

definition v3_commit :: "OpenFile \<Rightarrow> (v3_state, unit) vfs_op" where
  "v3_commit file = op_bind (on_nfs (nfs3_commit (mk_fh (of_fh file)) 0 0)) (\<lambda>_. op_lift (Ok ()))"

definition v3_mkdir :: "ObjId \<Rightarrow> string \<Rightarrow> u32 \<Rightarrow> (v3_state, ObjId) vfs_op" where
  "v3_mkdir dir name mode =
     op_bind (on_nfs (nfs3_mkdir (mk_fh dir) name (unchanged\<lparr>sa3_mode := Some mode\<rparr>))) (\<lambda>res.
       case co_obj res of
         Some fh \<Rightarrow> op_lift (Ok (fh_data fh))
       | None \<Rightarrow> op_bind (on_nfs (nfs3_lookup (mk_fh dir) name)) (\<lambda>res.
           op_lift (Ok (fh_data (lo_object res)))))"

definition v3_rmdir :: "ObjId \<Rightarrow> string \<Rightarrow> (v3_state, unit) vfs_op" where
  "v3_rmdir dir name = op_bind (on_nfs (nfs3_rmdir (mk_fh dir) name)) (\<lambda>_. op_lift (Ok ()))"

definition v3_remove :: "ObjId \<Rightarrow> string \<Rightarrow> (v3_state, unit) vfs_op" where
  "v3_remove dir name = op_bind (on_nfs (nfs3_remove (mk_fh dir) name)) (\<lambda>_. op_lift (Ok ()))"

definition v3_rename :: "ObjId \<Rightarrow> string \<Rightarrow> ObjId \<Rightarrow> string \<Rightarrow> (v3_state, unit) vfs_op" where
  "v3_rename from_dir from_name to_dir to_name =
     op_bind (on_nfs (nfs3_rename (mk_fh from_dir) from_name (mk_fh to_dir) to_name))
       (\<lambda>_. op_lift (Ok ()))"

definition v3_symlink :: "ObjId \<Rightarrow> string \<Rightarrow> string \<Rightarrow> (v3_state, unit) vfs_op" where
  "v3_symlink dir name target =
     op_bind (on_nfs (nfs3_symlink (mk_fh dir) name target unchanged)) (\<lambda>_. op_lift (Ok ()))"

definition v3_readlink :: "ObjId \<Rightarrow> (v3_state, string) vfs_op" where
  "v3_readlink fh = op_bind (on_nfs (nfs3_readlink (mk_fh fh))) (\<lambda>res. op_lift (Ok (rl_data res)))"

definition v3_link :: "ObjId \<Rightarrow> ObjId \<Rightarrow> string \<Rightarrow> (v3_state, unit) vfs_op" where
  "v3_link fh dir name = op_bind (on_nfs (nfs3_link (mk_fh fh) (mk_fh dir) name)) (\<lambda>_. op_lift (Ok ()))"

definition v3_setattr :: "ObjId \<Rightarrow> SetAttr \<Rightarrow> (v3_state, unit) vfs_op" where
  "v3_setattr fh attr = op_bind (on_nfs (nfs3_setattr (mk_fh fh) (to_sattr3 attr) None))
     (\<lambda>_. op_lift (Ok ()))"

definition v3_statvfs :: "ObjId \<Rightarrow> (v3_state, StatVfs) vfs_op" where
  "v3_statvfs fh = op_bind (on_nfs (nfs3_fsstat (mk_fh fh))) (\<lambda>s.
     op_lift (Ok \<lparr>sv_block_size = 1, sv_total_blocks = fss_tbytes s, sv_free_blocks = fss_fbytes s,
       sv_avail_blocks = fss_abytes s, sv_total_files = fss_tfiles s, sv_free_files = fss_ffiles s,
       sv_avail_files = fss_afiles s\<rparr>))"

definition v3_access :: "ObjId \<Rightarrow> u32 \<Rightarrow> (v3_state, u32) vfs_op" where
  "v3_access fh bits = op_bind (on_nfs (nfs3_access (mk_fh fh) bits)) (\<lambda>res.
     op_lift (Ok (ao_access res)))"

definition v3_lock :: "u32 \<Rightarrow> OpenFile \<Rightarrow> u64 \<Rightarrow> u64 \<Rightarrow> bool \<Rightarrow> (v3_state, LockToken) vfs_op" where
  "v3_lock pid file offset len exclusive = (\<lambda>(b, n).
     op_bind (ensure_nlm pid) (\<lambda>_.
     op_bind (on_nlm (nlm_lock NLM_CALLER (of_fh file) (v3_lock_owner b) (v3_svid b) offset len exclusive))
       (\<lambda>_. op_lift (Ok (Lock_V3 offset len)))) (b, n))"

definition v3_unlock :: "u32 \<Rightarrow> OpenFile \<Rightarrow> LockToken \<Rightarrow> (v3_state, unit) vfs_op" where
  "v3_unlock pid file token = (\<lambda>(b, n).
     case token of
       Lock_V3 offset len \<Rightarrow>
         op_bind (ensure_nlm pid) (\<lambda>_.
         on_nlm (nlm_unlock NLM_CALLER (of_fh file) (v3_lock_owner b) (v3_svid b) offset len)) (b, n)
     | Lock_V4 _ _ _ \<Rightarrow> Some (Ok (), b, n))"

definition v3_test_lock :: "u32 \<Rightarrow> OpenFile \<Rightarrow> u64 \<Rightarrow> u64 \<Rightarrow> bool \<Rightarrow> (v3_state, bool) vfs_op" where
  "v3_test_lock pid file offset len exclusive = (\<lambda>(b, n).
     op_bind (ensure_nlm pid) (\<lambda>_.
     op_bind (on_nlm (nlm_test NLM_CALLER (of_fh file) (v3_lock_owner b) (v3_svid b) offset len exclusive))
       (\<lambda>res. op_lift (case res of
          Granted \<Rightarrow> Ok True
        | Denied _ \<Rightarrow> Ok False
        | Other stat \<Rightarrow> Err (NE_Proto (PE_Nlm stat))))) (b, n))"

text \<open>
  The paging loop of \<open>readdir\<close>. A server that never ends the listing keeps the loop
  going; every page uses an answer of the network, so the loop ends with the script.
\<close>

definition dir_entry :: "EntryPlus3 \<Rightarrow> DirEntry" where
  "dir_entry e = \<lparr>de_name = ep_name e, de_fileid = ep_fileid e,
     de_attr = map_option from_fattr3 (ep_name_attributes e)\<rparr>"

definition last_cookie :: "u64 \<Rightarrow> EntryPlus3 list \<Rightarrow> u64" where
  "last_cookie ck entries = fold (\<lambda>e _. ep_cookie e) entries ck"

function readdir_loop ::
  "ObjId \<Rightarrow> DirEntry list \<Rightarrow> u64 \<Rightarrow> bytes \<Rightarrow> (v3_state, DirEntry list) vfs_op" where
  "readdir_loop dir out ck verf s =
     (case on_nfs (nfs3_readdirplus (mk_fh dir) ck verf 8192 32768) s of
        None \<Rightarrow> None
      | Some (Err e, s') \<Rightarrow> Some (Err e, s')
      | Some (Panic, s') \<Rightarrow> Some (Panic, s')
      | Some (Ok page, s') \<Rightarrow>
          let out' = out @ map dir_entry (rpo_entries page) in
          if rpo_eof page \<or> rpo_entries page = [] then Some (Ok out', s')
          else readdir_loop dir out' (last_cookie ck (rpo_entries page)) (rpo_cookieverf page) s')"
  by pat_completeness auto
termination
  by (relation "measure (\<lambda>(dir, out, ck, verf, b, n). length (net_sends n))")
    (auto simp: on_nfs_def nfs3_readdirplus_def nfs3_call_def split: option.splits
      dest!: proto_call_answers)

declare readdir_loop.simps [simp del]

definition v3_readdir :: "ObjId \<Rightarrow> (v3_state, DirEntry list) vfs_op" where
  "v3_readdir dir = readdir_loop dir [] 0 (replicate 8 0)"

definition v3_backend :: "u32 \<Rightarrow> v3_state Backend" where
  "v3_backend pid =
     \<lparr>b_version = 3, b_pref_read = (\<lambda>(b, n). v3_rsize b), b_pref_write = (\<lambda>(b, n). v3_wsize b),
      b_getattr = v3_getattr, b_lookup = v3_lookup, b_open = v3_open, b_close = v3_close,
      b_pread = v3_pread, b_pwrite = v3_pwrite, b_commit = v3_commit, b_mkdir = v3_mkdir,
      b_rmdir = v3_rmdir, b_remove = v3_remove, b_rename = v3_rename, b_symlink = v3_symlink,
      b_readlink = v3_readlink, b_link = v3_link, b_setattr = v3_setattr, b_readdir = v3_readdir,
      b_statvfs = v3_statvfs, b_access = v3_access, b_lock = v3_lock pid,
      b_unlock = v3_unlock pid, b_test_lock = v3_test_lock pid\<rparr>"

text \<open>A backend without a lock manager yet, for the examples.\<close>

definition ex_v3 :: V3Backend where
  "ex_v3 = \<lparr>v3_nfs = ex_client Udp, v3_rsize = 4096, v3_wsize = 4096,
     v3_nlm_config = \<lparr>nc_server = V4 0x0A000001, nc_protocol = Udp, nc_cred = Cred_None,
       nc_timeout = 5, nc_portmap_port = 111\<rparr>,
     v3_nlm = None, v3_lock_owner = [], v3_svid = 0\<rparr>"

subsection \<open>The promise of the interface\<close>

definition cok :: "RpcClient \<times> net \<Rightarrow> bool" where
  "cok s \<longleftrightarrow> client_ok (fst s)"

definition v3_inv :: "v3_state \<Rightarrow> bool" where
  "v3_inv s \<longleftrightarrow> client_ok (v3_nfs (fst s)) \<and> pred_option client_ok (v3_nlm (fst s))
     \<and> 0 < v3_rsize (fst s) \<and> 0 < v3_wsize (fst s)"

lemma proto_call_op_safe [op_safe]:
  "xdr_encoder args \<Longrightarrow> xdr_decoder dec \<Longrightarrow> (\<And>v. finish v \<noteq> Panic) \<Longrightarrow>
    op_safe cok (proto_call prog vers proc args dec finish)"
  using proto_call_safe unfolding op_safe_def cok_def by blast

lemma nfs3_call_safe:
  "xdr_encoder args \<Longrightarrow> xdr_decoder dec \<Longrightarrow> op_safe cok (nfs3_call proc args dec)"
  unfolding nfs3_call_def
  by (intro op_safe xdr_dec) (auto simp: into_result_def split: Nfs3Result.splits)

lemma nfs3_safe [op_safe]:
  "op_safe cok (nfs3_getattr fh)" "op_safe cok (nfs3_setattr fh sattr guard)"
  "op_safe cok (nfs3_lookup fh name)" "op_safe cok (nfs3_access fh bits)"
  "op_safe cok (nfs3_readlink fh)" "op_safe cok (nfs3_read fh off cnt)"
  "op_safe cok (nfs3_write fh off how data)" "op_safe cok (nfs3_create fh name crhow)"
  "op_safe cok (nfs3_mkdir fh name attr)" "op_safe cok (nfs3_symlink fh name target attr)"
  "op_safe cok (nfs3_mknod fh name what)" "op_safe cok (nfs3_remove fh name)"
  "op_safe cok (nfs3_rmdir fh name)" "op_safe cok (nfs3_rename fh name fh2 name2)"
  "op_safe cok (nfs3_link fh fh2 name)" "op_safe cok (nfs3_readdir fh ck vf cnt)"
  "op_safe cok (nfs3_readdirplus fh ck vf cnt mx)" "op_safe cok (nfs3_fsstat fh)"
  "op_safe cok (nfs3_fsinfo fh)" "op_safe cok (nfs3_pathconf fh)" "op_safe cok (nfs3_commit fh off cnt)"
  unfolding nfs3_procedures by (intro nfs3_call_safe xdr_enc xdr_dec)+

lemma nlm_safe [op_safe]:
  "op_safe cok (nlm_lock caller fh owner svid off len excl)"
  "op_safe cok (nlm_unlock caller fh owner svid off len)"
  "op_safe cok (nlm_test caller fh owner svid off len excl)"
  "op_safe cok (getport prog vers prot)"
  unfolding nlm_lock_def nlm_unlock_def nlm_test_def getport_def
  by (intro op_safe xdr_enc xdr_dec; simp add: stat_to_result_def)+

lemma on_nfs_safe [op_safe]: "op_safe cok m \<Longrightarrow> op_safe v3_inv (on_nfs m)"
  by (fastforce simp: op_safe_def on_nfs_def v3_inv_def cok_def split: option.splits)

lemma connect_safe: "connect pid a p cr t n = Some (r, n') \<Longrightarrow> r \<noteq> Panic"
  by (auto simp: connect_def op_bind_eq open_socket_def Let_def
      split: list.splits option.splits prod.splits)

lemma nlm_connect_safe:
  assumes "nlm_connect pid cfg n = Some (r, n')"
  shows "r \<noteq> Panic \<and> (\<forall>c. r = Ok c \<longrightarrow> client_ok c)"
proof -
  have np: "on_client pm (getport NLM_PROGRAM NLM_VERSION4 prot) n = Some (r, n') \<Longrightarrow> client_ok pm \<Longrightarrow>
      r \<noteq> Panic" for pm prot n r n'
    using op_safeD [OF nlm_safe(4) [of NLM_PROGRAM NLM_VERSION4 prot], of "(pm, n)"]
    by (fastforce simp: on_client_def cok_def)
  show ?thesis
    using assms unfolding nlm_connect_def Let_def
    by (auto simp: op_bind_eq op_map_err_eq dest: connect_safe connect_client_ok np)
qed

lemma ensure_nlm_effect:
  assumes "v3_inv s" "ensure_nlm pid s = Some (r, s')"
  shows "v3_inv s' \<and> r \<noteq> Panic \<and> (is_ok r \<longrightarrow> v3_nlm (fst s') \<noteq> None)"
  using assms nlm_connect_safe
  by (cases s) (fastforce simp: ensure_nlm_def on_net_def op_bind_eq v3_inv_def split: if_splits)

lemma on_nlm_safe: "op_safe cok m \<Longrightarrow> op_safe (\<lambda>s. v3_inv s \<and> v3_nlm (fst s) \<noteq> None) (on_nlm m)"
  unfolding op_safe_def
proof (intro allI impI)
  fix s r s'
  assume m: "\<forall>s r s'. cok s \<longrightarrow> m s = Some (r, s') \<longrightarrow> cok s' \<and> r \<noteq> Panic"
    and inv: "v3_inv s \<and> v3_nlm (fst s) \<noteq> None" and run: "on_nlm m s = Some (r, s')"
  obtain b n where s: "s = (b, n)" by (cases s)
  from inv s obtain c where c: "v3_nlm b = Some c" "client_ok c" by (auto simp: v3_inv_def)
  with run s obtain r0 c' n' where r0: "m (c, n) = Some (r0, c', n')"
    "r = map_err from_ProtoError r0" "s' = (b\<lparr>v3_nlm := Some c'\<rparr>, n')"
    by (auto simp: on_nlm_def split: option.splits)
  have "cok (c, n)" using c(2) by (simp add: cok_def)
  with m r0(1) have "cok (c', n') \<and> r0 \<noteq> Panic" by blast
  then have "client_ok c'" "r0 \<noteq> Panic" by (simp_all add: cok_def)
  with r0 inv s show "(v3_inv s' \<and> v3_nlm (fst s') \<noteq> None) \<and> r \<noteq> Panic"
    by (simp add: v3_inv_def)
qed

lemma ensured_safe [op_safe]:
  assumes "op_safe (\<lambda>s. v3_inv s \<and> v3_nlm (fst s) \<noteq> None) m"
  shows "op_safe v3_inv (op_bind (ensure_nlm pid) (\<lambda>_. m))"
  unfolding op_safe_def op_bind_eq
proof (intro allI impI, elim disjE exE conjE)
  fix s r s'' x s'
  assume "v3_inv s" "ensure_nlm pid s = Some (Ok x, s')" "m s' = Some (r, s'')"
  note run = this(3) and eff = ensure_nlm_effect [OF this(1,2)]
  have "v3_inv s' \<and> v3_nlm (fst s') \<noteq> None" using eff by simp
  from op_safeD [OF assms this run] show "v3_inv s'' \<and> r \<noteq> Panic" by blast
qed (auto dest: ensure_nlm_effect)

lemma op_safe_split: "(\<And>b n. op_safe I (f b n)) \<Longrightarrow> op_safe I (\<lambda>(b, n). f b n (b, n))"
  by (auto simp: op_safe_def)

lemma readdir_loop_step:
  assumes "on_nfs (nfs3_readdirplus (mk_fh dir) ck verf 8192 32768) s = Some (r, s')"
  shows "readdir_loop dir out ck verf s =
    (case r of
       Err e \<Rightarrow> Some (Err e, s')
     | Panic \<Rightarrow> Some (Panic, s')
     | Ok page \<Rightarrow>
         if rpo_eof page \<or> rpo_entries page = []
         then Some (Ok (out @ map dir_entry (rpo_entries page)), s')
         else readdir_loop dir (out @ map dir_entry (rpo_entries page))
           (last_cookie ck (rpo_entries page)) (rpo_cookieverf page) s')"
  using assms by (cases r) (simp_all add: readdir_loop.simps [of dir out ck verf s] Let_def)

lemma readdir_loop_safe: "op_safe v3_inv (readdir_loop dir out ck verf)"
proof -
  have "v3_inv s \<Longrightarrow> readdir_loop dir out ck verf s = Some (r, s') \<Longrightarrow> v3_inv s' \<and> r \<noteq> Panic" for s r s'
  proof (induction dir out ck verf s rule: readdir_loop.induct)
    case (1 dir out ck verf s)
    from "1.prems"(2) obtain r1 s1 where
      m: "on_nfs (nfs3_readdirplus (mk_fh dir) ck verf 8192 32768) s = Some (r1, s1)"
      by (subst (asm) readdir_loop.simps) (auto split: option.splits)
    from op_safeD [OF on_nfs_safe [OF nfs3_safe(17)] "1.prems"(1) m]
    have s1: "v3_inv s1" "r1 \<noteq> Panic" by auto
    note step = "1.prems"(2) [unfolded readdir_loop_step [OF m]]
    show ?case
    proof (cases r1)
      case (Ok page)
      show ?thesis
      proof (cases "rpo_eof page \<or> rpo_entries page = []")
        case False
        with step Ok have "readdir_loop dir (out @ map dir_entry (rpo_entries page))
            (last_cookie ck (rpo_entries page)) (rpo_cookieverf page) s1 = Some (r, s')" by simp
        then show ?thesis by (rule "1.IH" [OF m refl Ok refl False s1(1)])
      qed (use step Ok s1 in auto)
    qed (use step s1 in auto)
  qed
  then show ?thesis by (auto simp: op_safe_def)
qed

lemma v3_backend_sel [simp]:
  "b_getattr (v3_backend pid) = v3_getattr" "b_lookup (v3_backend pid) = v3_lookup"
  "b_open (v3_backend pid) = v3_open" "b_close (v3_backend pid) = v3_close"
  "b_pread (v3_backend pid) = v3_pread" "b_pwrite (v3_backend pid) = v3_pwrite"
  "b_commit (v3_backend pid) = v3_commit" "b_mkdir (v3_backend pid) = v3_mkdir"
  "b_rmdir (v3_backend pid) = v3_rmdir" "b_remove (v3_backend pid) = v3_remove"
  "b_rename (v3_backend pid) = v3_rename" "b_symlink (v3_backend pid) = v3_symlink"
  "b_readlink (v3_backend pid) = v3_readlink" "b_link (v3_backend pid) = v3_link"
  "b_setattr (v3_backend pid) = v3_setattr" "b_readdir (v3_backend pid) = v3_readdir"
  "b_statvfs (v3_backend pid) = v3_statvfs" "b_access (v3_backend pid) = v3_access"
  "b_lock (v3_backend pid) = v3_lock pid" "b_unlock (v3_backend pid) = v3_unlock pid"
  "b_test_lock (v3_backend pid) = v3_test_lock pid"
  "b_pref_read (v3_backend pid) = (\<lambda>(b, n). v3_rsize b)"
  "b_pref_write (v3_backend pid) = (\<lambda>(b, n). v3_wsize b)"
  by (simp_all add: v3_backend_def)

lemma op_safe_case_option [op_safe]:
  "op_safe I a \<Longrightarrow> (\<And>x. op_safe I (f x)) \<Longrightarrow> op_safe I (case opt of None \<Rightarrow> a | Some x \<Rightarrow> f x)"
  by (cases opt) auto

lemma v3_lock_safe:
  "op_safe v3_inv (v3_lock pid file off len excl)" "op_safe v3_inv (v3_unlock pid file token)"
  "op_safe v3_inv (v3_test_lock pid file off len excl)"
proof -
  show "op_safe v3_inv (v3_lock pid file off len excl)" unfolding v3_lock_def
    by (intro op_safe_split ensured_safe op_safe_bind on_nlm_safe nlm_safe op_safe_lift) simp
  show "op_safe v3_inv (v3_test_lock pid file off len excl)" unfolding v3_test_lock_def
    by (intro op_safe_split ensured_safe op_safe_bind on_nlm_safe nlm_safe op_safe_lift)
      (simp split: TestResult.splits)
  show "op_safe v3_inv (v3_unlock pid file token)"
  proof (cases token)
    case (Lock_V3 off len)
    show ?thesis unfolding v3_unlock_def Lock_V3 LockToken.case
      by (intro op_safe_split ensured_safe on_nlm_safe nlm_safe)
  qed (auto simp: v3_unlock_def op_safe_def)
qed

interpretation v3: vfs_backend "v3_backend pid" v3_inv for pid
proof
  fix s :: v3_state
  show "v3_inv s \<Longrightarrow> 0 < b_pref_read (v3_backend pid) s \<and> 0 < b_pref_write (v3_backend pid) s"
    by (cases s) (simp add: v3_inv_def)
qed (unfold v3_backend_sel v3_getattr_def v3_lookup_def v3_open_def v3_close_def v3_pread_def
    v3_pwrite_def v3_commit_def v3_mkdir_def v3_rmdir_def v3_remove_def v3_rename_def v3_symlink_def
    v3_readlink_def v3_link_def v3_setattr_def v3_readdir_def v3_statvfs_def v3_access_def Let_def,
  (intro v3_lock_safe readdir_loop_safe
    | intro op_safe | simp add: ok_or_def split: option.splits)+)

end
