(* ===== verification/VFS_Url.thy ===== *)
theory VFS_Url
  imports VFS_Base
begin

text \<open>
  The parser of \<open>nfs://\<close> URLs (\<open>nfs-client/src/url.rs\<close>). A Rust string is the list of its
  UTF-8 bytes, so the non-ASCII characters of the messages are written as bytes.
\<close>

subsection \<open>String operations of the standard library\<close>

text \<open>\<open>split_once\<close>, \<open>rsplit_once\<close> and \<open>split\<close> at a one-byte character, \<open>strip_prefix\<close>.\<close>

fun split_once :: "char \<Rightarrow> string \<Rightarrow> (string \<times> string) option" where
  "split_once c [] = None"
| "split_once c (x # xs) =
     (if x = c then Some ([], xs)
      else map_option (\<lambda>(a, b). (x # a, b)) (split_once c xs))"

definition rsplit_once :: "char \<Rightarrow> string \<Rightarrow> (string \<times> string) option" where
  "rsplit_once c s = map_option (\<lambda>(a, b). (rev b, rev a)) (split_once c (rev s))"

fun split_on :: "char \<Rightarrow> string \<Rightarrow> string list" where
  "split_on c [] = [[]]"
| "split_on c (x # xs) =
     (if x = c then [] # split_on c xs
      else case split_on c xs of p # ps \<Rightarrow> (x # p) # ps | [] \<Rightarrow> [[x]])"

fun strip_prefix :: "string \<Rightarrow> string \<Rightarrow> string option" where
  "strip_prefix [] s = Some s"
| "strip_prefix (p # ps) [] = None"
| "strip_prefix (p # ps) (x # xs) = (if p = x then strip_prefix ps xs else None)"

definition is_digit :: "char \<Rightarrow> bool" where
  "is_digit c \<longleftrightarrow> 48 \<le> (of_char c :: nat) \<and> (of_char c :: nat) \<le> 57"

fun parse_digits :: "nat \<Rightarrow> nat \<Rightarrow> string \<Rightarrow> nat option" where
  "parse_digits limit acc [] = Some acc"
| "parse_digits limit acc (c # cs) =
     (if is_digit c then
        let acc' = acc * 10 + (of_char c - 48) in
        if acc' > limit then None else parse_digits limit acc' cs
      else None)"

text \<open>\<open>str::parse\<close> for an unsigned integer: an optional \<open>+\<close>, then digits within the range.\<close>

definition parse_unsigned :: "nat \<Rightarrow> string \<Rightarrow> nat option" where
  "parse_unsigned limit s =
     (case s of
        [] \<Rightarrow> None
      | c # cs \<Rightarrow>
          if c = CHR ''+'' then (if cs = [] then None else parse_digits limit 0 cs)
          else parse_digits limit 0 s)"

definition to_lower :: "char \<Rightarrow> char" where
  "to_lower c = (let n = of_char c :: nat in if 65 \<le> n \<and> n \<le> 90 then char_of (n + 32) else c)"

definition eq_ignore_ascii_case :: "string \<Rightarrow> string \<Rightarrow> bool" where
  "eq_ignore_ascii_case a b \<longleftrightarrow> map to_lower a = map to_lower b"

definition quoted :: "string \<Rightarrow> string" where
  "quoted s = [CHR 0xC2, CHR 0xAB] @ s @ [CHR 0xC2, CHR 0xBB]"

subsection \<open>The URL (url.rs)\<close>

record NfsUrl =
  u_server :: string
  u_path :: string
  u_version :: u32
  u_minorversion :: u32
  u_uid :: u32
  u_gid :: u32
  u_nfsport :: "u16 option"
  u_mountport :: "u16 option"
  u_timeo :: u64
  u_autotraverse :: bool
  u_tls :: bool
  u_tls_insecure :: bool

definition default_NfsUrl :: NfsUrl where
  "default_NfsUrl = \<lparr>u_server = [], u_path = ''/'', u_version = 3, u_minorversion = 0, u_uid = 0,
     u_gid = 0, u_nfsport = None, u_mountport = None, u_timeo = 60, u_autotraverse = False,
     u_tls = False, u_tls_insecure = False\<rparr>"

definition parse_bool :: "string \<Rightarrow> bool" where
  "parse_bool s \<longleftrightarrow> s \<noteq> ''0'' \<and> \<not> eq_ignore_ascii_case s ''false''"

definition parse_u32 :: "string \<Rightarrow> string \<Rightarrow> (u32, NfsError) result" where
  "parse_u32 s key =
     (case parse_unsigned (2 ^ 32 - 1) s of
        Some n \<Rightarrow> Ok (of_nat n)
      | None \<Rightarrow> Err (InvalidUrl (''valor inv'' @ [CHR 0xC3, CHR 0xA1] @ ''lido para '' @ key @ '': ''
          @ quoted s)))"

definition parse_port :: "string \<Rightarrow> (u16, NfsError) result" where
  "parse_port s =
     (case parse_unsigned (2 ^ 16 - 1) s of
        Some n \<Rightarrow> Ok (of_nat n)
      | None \<Rightarrow> Err (InvalidUrl (''puerto inv'' @ [CHR 0xC3, CHR 0xA1] @ ''lido: '' @ quoted s)))"

text \<open>The \<open>match\<close> on the key of one parameter.\<close>

definition set_param :: "string \<Rightarrow> string \<Rightarrow> NfsUrl \<Rightarrow> (NfsUrl, NfsError) result" where
  "set_param key v u =
     (if key \<in> {''version'', ''vers'', ''nfsvers''} then
        (case split_once CHR ''.'' v of
           Some (maj, mnr) \<Rightarrow>
             and_then (parse_u32 maj key) (\<lambda>ver.
             and_then (parse_u32 mnr key) (\<lambda>m. Ok (u\<lparr>u_version := ver, u_minorversion := m\<rparr>)))
         | None \<Rightarrow> map_ok (\<lambda>ver. u\<lparr>u_version := ver\<rparr>) (parse_u32 v key))
      else if key \<in> {''minorversion'', ''minor''} then
        map_ok (\<lambda>m. u\<lparr>u_minorversion := m\<rparr>) (parse_u32 v key)
      else if key = ''uid'' then map_ok (\<lambda>x. u\<lparr>u_uid := x\<rparr>) (parse_u32 v key)
      else if key = ''gid'' then map_ok (\<lambda>x. u\<lparr>u_gid := x\<rparr>) (parse_u32 v key)
      else if key = ''nfsport'' then map_ok (\<lambda>p. u\<lparr>u_nfsport := Some p\<rparr>) (parse_port v)
      else if key = ''mountport'' then map_ok (\<lambda>p. u\<lparr>u_mountport := Some p\<rparr>) (parse_port v)
      else if key = ''timeo'' then map_ok (\<lambda>x. u\<lparr>u_timeo := ucast x\<rparr>) (parse_u32 v key)
      else if key \<in> {''autotraverse'', ''auto-traverse''} then Ok (u\<lparr>u_autotraverse := parse_bool v\<rparr>)
      else if key \<in> {''tls'', ''xprtsec''} then Ok (u\<lparr>u_tls := parse_bool v\<rparr>)
      else if key \<in> {''tls_insecure'', ''tls-insecure''} then Ok (u\<lparr>u_tls_insecure := parse_bool v\<rparr>)
      else if key \<in> {''dircache'', ''readahead'', ''auto-mount'', ''rsize'', ''wsize'', ''retrans''}
        then Ok u
      else Err (InvalidUrl (''par'' @ [CHR 0xC3, CHR 0xA1] @ ''metro de URL desconocido: '' @ key)))"

fun set_params :: "string list \<Rightarrow> NfsUrl \<Rightarrow> (NfsUrl, NfsError) result" where
  "set_params [] u = Ok u"
| "set_params (pair # pairs) u =
     (if pair = [] then set_params pairs u
      else
        let (key, v) = (case split_once CHR ''='' pair of Some kv \<Rightarrow> kv | None \<Rightarrow> (pair, [])) in
        and_then (set_param key v u) (set_params pairs))"

definition set_authority :: "string \<Rightarrow> NfsUrl \<Rightarrow> (NfsUrl, NfsError) result" where
  "set_authority authority u =
     (case strip_prefix ''['' authority of
        Some stripped \<Rightarrow>
          (case split_once CHR '']'' stripped of
             None \<Rightarrow> Err (InvalidUrl ''IPv6 sin cierre ]'')
           | Some (host, after) \<Rightarrow>
               (case strip_prefix '':'' after of
                  Some p \<Rightarrow> map_ok (\<lambda>port. u\<lparr>u_server := host, u_nfsport := Some port\<rparr>) (parse_port p)
                | None \<Rightarrow> Ok (u\<lparr>u_server := host\<rparr>)))
      | None \<Rightarrow>
          (case rsplit_once CHR '':'' authority of
             Some (host, port) \<Rightarrow>
               map_ok (\<lambda>p. u\<lparr>u_server := host, u_nfsport := Some p\<rparr>) (parse_port port)
           | None \<Rightarrow> Ok (u\<lparr>u_server := authority\<rparr>)))"

definition parse_url :: "string \<Rightarrow> (NfsUrl, NfsError) result" where
  "parse_url url =
     (case strip_prefix ''nfs://'' url of
        None \<Rightarrow> Err (InvalidUrl (''falta el esquema nfs:// en '' @ quoted url))
      | Some rest \<Rightarrow>
          let (location, query) = (case split_once CHR ''?'' rest of
                 Some (loc, q) \<Rightarrow> (loc, Some q) | None \<Rightarrow> (rest, None));
              (authority, path) = (case split_once CHR ''/'' location of
                 Some (a, p) \<Rightarrow> (a, CHR ''/'' # p) | None \<Rightarrow> (location, ''/''))
          in if authority = [] then Err (InvalidUrl ''falta el servidor'')
             else
               and_then (set_authority authority (default_NfsUrl\<lparr>u_path := path\<rparr>)) (\<lambda>parsed.
                 case query of
                   None \<Rightarrow> Ok parsed
                 | Some q \<Rightarrow> set_params (split_on CHR ''&'' q) parsed))"

subsection \<open>What the parser accepts\<close>

lemma parse_digits_bound:
  "parse_digits limit acc s = Some n \<Longrightarrow> acc \<le> limit \<Longrightarrow> n \<le> limit"
  by (induction limit acc s rule: parse_digits.induct) (auto simp: Let_def split: if_splits)

lemma parse_unsigned_bound: "parse_unsigned limit s = Some n \<Longrightarrow> n \<le> limit"
  by (auto simp: parse_unsigned_def simp del: parse_digits.simps dest: parse_digits_bound
      split: list.splits if_splits)

lemma digit_char: "n < 10 \<Longrightarrow> (of_char (char_of (48 + n) :: char) :: nat) = 48 + n"
  by (simp add: take_bit_nat_eq_self)

lemma parse_digits_append:
  "parse_digits limit acc (a @ b) = Option.bind (parse_digits limit acc a) (\<lambda>m. parse_digits limit m b)"
  by (induction limit acc a rule: parse_digits.induct) (auto simp: Let_def)

lemma is_digit_char: "(n :: nat) < 10 \<Longrightarrow> is_digit (char_of (48 + n))"
  by (simp add: is_digit_def digit_char)

lemma parse_show_digits: "n \<le> limit \<Longrightarrow> parse_digits limit 0 (show_nat n) = Some n"
proof (induction n rule: show_nat.induct)
  case (1 n)
  show ?case
  proof (cases "n < 10")
    case True
    with "1.prems" show ?thesis
      by (simp add: show_nat.simps [of n] is_digit_char digit_char)
  next
    case False
    have "n div 10 \<le> limit" using "1.prems" div_le_dividend [of n 10] by linarith
    with "1.IH" [OF False] have IH: "parse_digits limit 0 (show_nat (n div 10)) = Some (n div 10)" by simp
    have "n mod 10 < 10" by simp
    then have "parse_digits limit (n div 10) [char_of (48 + n mod 10)] = Some n"
      using "1.prems" by (simp add: is_digit_char digit_char Let_def)
    with False IH show ?thesis
      by (simp add: show_nat.simps [of n] parse_digits_append)
  qed
qed

lemma show_nat_digits: "c \<in> set (show_nat n) \<Longrightarrow> is_digit c"
proof (induction n rule: show_nat.induct)
  case (1 n)
  then show ?case
    by (cases "n < 10") (auto simp: show_nat.simps [of n] is_digit_char)
qed

lemma show_nat_ne: "show_nat n \<noteq> []"
  by (subst show_nat.simps) simp

lemma parse_show: "n \<le> limit \<Longrightarrow> parse_unsigned limit (show_nat n) = Some n"
proof -
  assume n: "n \<le> limit"
  have "hd (show_nat n) \<noteq> CHR ''+''"
    using show_nat_digits [of "hd (show_nat n)" n] show_nat_ne [of n] by (auto simp: is_digit_def)
  with show_nat_ne [of n] parse_show_digits [OF n] show ?thesis
    by (cases "show_nat n") (auto simp: parse_unsigned_def simp del: parse_digits.simps)
qed

lemma split_once_None: "c \<notin> set s \<Longrightarrow> split_once c s = None"
  by (induction s) auto

lemma split_once_append: "c \<notin> set a \<Longrightarrow> split_once c (a @ c # b) = Some (a, b)"
  by (induction a) auto

lemma rsplit_once_append: "c \<notin> set b \<Longrightarrow> rsplit_once c (a @ c # b) = Some (a, b)"
  by (simp add: rsplit_once_def split_once_append)

lemma split_on_none: "c \<notin> set s \<Longrightarrow> split_on c s = [s]"
  by (induction s) auto

lemma split_on_append: "c \<notin> set a \<Longrightarrow> split_on c (a @ c # b) = a # split_on c b"
  by (induction a) auto


text \<open>The canonical text of a URL.\<close>

fun join_with :: "char \<Rightarrow> string list \<Rightarrow> string" where
  "join_with c [] = []"
| "join_with c [s] = s"
| "join_with c (s # ss) = s @ c # join_with c ss"

lemma split_on_join: "ss \<noteq> [] \<Longrightarrow> \<forall>s \<in> set ss. c \<notin> set s \<Longrightarrow> split_on c (join_with c ss) = ss"
  by (induction c ss rule: join_with.induct) (auto simp: split_on_none split_on_append)

definition show_flag :: "bool \<Rightarrow> string" where
  "show_flag b = (if b then ''1'' else ''0'')"

definition url_params :: "NfsUrl \<Rightarrow> (string \<times> string) list" where
  "url_params u =
     [(''version'', show_nat (unat (u_version u))), (''minorversion'', show_nat (unat (u_minorversion u))),
      (''uid'', show_nat (unat (u_uid u))), (''gid'', show_nat (unat (u_gid u))),
      (''timeo'', show_nat (unat (u_timeo u))), (''autotraverse'', show_flag (u_autotraverse u)),
      (''tls'', show_flag (u_tls u)), (''tls_insecure'', show_flag (u_tls_insecure u))]
     @ (case u_mountport u of None \<Rightarrow> [] | Some p \<Rightarrow> [(''mountport'', show_nat (unat p))])"

definition show_param :: "string \<times> string \<Rightarrow> string" where
  "show_param kv = fst kv @ CHR ''='' # snd kv"

definition show_url :: "NfsUrl \<Rightarrow> string" where
  "show_url u = ''nfs://'' @ u_server u
     @ (case u_nfsport u of None \<Rightarrow> [] | Some p \<Rightarrow> CHR '':'' # show_nat (unat p))
     @ u_path u @ CHR ''?'' # join_with CHR ''&'' (map show_param (url_params u))"

definition url_ok :: "NfsUrl \<Rightarrow> bool" where
  "url_ok u \<longleftrightarrow> u_server u \<noteq> [] \<and> hd (u_server u) \<noteq> CHR ''['' \<and>
     set (u_server u) \<inter> {CHR ''/'', CHR ''?'', CHR '':''} = {} \<and>
     u_path u \<noteq> [] \<and> hd (u_path u) = CHR ''/'' \<and> CHR ''?'' \<notin> set (u_path u) \<and> unat (u_timeo u) < 2 ^ 32"

lemma set_params_map:
  "list_all (\<lambda>(k, v). CHR ''='' \<notin> set k \<and> k \<noteq> []) kvs \<Longrightarrow>
    set_params (map show_param kvs) u = foldl (\<lambda>r (k, v). and_then r (set_param k v)) (Ok u) kvs"
proof (induction kvs arbitrary: u)
  case (Cons kv kvs)
  have err: "foldl (\<lambda>r (k, v). and_then r (set_param k v)) r ks = r" if "\<nexists>x. r = Ok x" for r ks
    using that by (induction ks) (cases r; auto)+
  show ?case
  proof (cases "set_param (fst kv) (snd kv) u")
    case (Ok u')
    with Cons show ?thesis
      by (cases kv) (simp add: show_param_def split_once_append)
  qed (use Cons err in \<open>cases kv, simp add: show_param_def split_once_append\<close>)+
qed simp

lemma parse_u32_show: "parse_u32 (show_nat (unat (w :: u32))) key = Ok w"
  using unsigned_less [where 'a = nat, of w] by (simp add: parse_u32_def parse_show)

lemma parse_port_show: "parse_port (show_nat (unat (w :: u16))) = Ok w"
  using unsigned_less [where 'a = nat, of w] by (simp add: parse_port_def parse_show)

lemma parse_flag_show: "parse_bool (show_flag b) = b"
  by (cases b) (simp_all add: parse_bool_def show_flag_def eq_ignore_ascii_case_def)

lemma nondigit: "\<not> is_digit c \<Longrightarrow> c \<notin> set (show_nat n)"
  using show_nat_digits by blast

lemma set_params_show:
  assumes "unat (u_timeo u) < 2 ^ 32" "u_server v = u_server u" "u_path v = u_path u"
    "u_nfsport v = u_nfsport u" "u_mountport v = None"
  shows "foldl (\<lambda>r (k, w). and_then r (set_param k w)) (Ok v) (url_params u) = Ok u"
proof -
  let ?t = "ucast (u_timeo u) :: u32"
  have t: "unat ?t = unat (u_timeo u)" using assms(1) by (simp add: unsigned_ucast_eq take_bit_nat_eq_self)
  have "parse_u32 (show_nat (unat (u_timeo u))) ''timeo'' = Ok ?t"
    using parse_u32_show [of ?t "''timeo''"] t by simp
  moreover have "ucast ?t = u_timeo u"
    using t unsigned_less [where 'a = nat, of "u_timeo u"]
    by (simp add: word_unat_eq_iff unsigned_ucast_eq unsigned_take_bit_eq take_bit_nat_eq_self)
  ultimately show ?thesis
    using assms
    by (cases u; cases v; cases "u_mountport u") (simp_all add: url_params_def set_param_def
        split_once_None nondigit is_digit_def parse_u32_show parse_flag_show parse_port_show)
qed

text \<open>
  C33: the parser reads back the canonical text of every URL: server, optional ports,
  path, version, credentials, timeout and flags.
\<close>

theorem parse_show_url:
  assumes "url_ok u"
  shows "parse_url (show_url u) = Ok u"
proof -
  define port where "port = (case u_nfsport u of None \<Rightarrow> [] | Some p \<Rightarrow> CHR '':'' # show_nat (unat p))"
  define q where "q = join_with CHR ''&'' (map show_param (url_params u))"
  obtain path where path: "u_path u = CHR ''/'' # path" "CHR ''?'' \<notin> set path"
    using assms by (cases "u_path u") (auto simp: url_ok_def)
  have port: "c \<notin> set port" if "\<not> is_digit c" "c \<noteq> CHR '':''" for c
    using that nondigit by (auto simp: port_def split: option.splits)
  have host: "CHR ''/'' \<notin> set (u_server u @ port)" "CHR ''?'' \<notin> set (u_server u @ port)"
    using assms port by (auto simp: url_ok_def is_digit_def)
  have loc: "split_once CHR ''?'' ((u_server u @ port @ u_path u) @ CHR ''?'' # q)
      = Some (u_server u @ port @ u_path u, q)"
    using host path by (intro split_once_append) auto
  have auth: "split_once CHR ''/'' ((u_server u @ port) @ CHR ''/'' # path) = Some (u_server u @ port, path)"
    by (rule split_once_append [OF host(1)])
  have ne: "strip_prefix ''['' (u_server u @ port) = None"
    using assms by (cases "u_server u") (auto simp: url_ok_def)
  have sa: "set_authority (u_server u @ port) w = Ok (w\<lparr>u_server := u_server u, u_nfsport := u_nfsport u\<rparr>)"
    if "u_nfsport w = None" for w
  proof (cases "u_nfsport u")
    case None
    with ne assms that show ?thesis
      by (auto simp: set_authority_def port_def url_ok_def rsplit_once_def split_once_None)
  next
    case (Some p)
    with ne show ?thesis
      by (simp add: set_authority_def port_def rsplit_once_append nondigit is_digit_def parse_port_show)
  qed
  have am: "\<forall>s \<in> set (map show_param (url_params u)). CHR ''&'' \<notin> set s"
    by (auto simp: url_params_def show_param_def nondigit is_digit_def show_flag_def split: option.splits)
  have sp: "split_on CHR ''&'' q = map show_param (url_params u)"
    unfolding q_def by (rule split_on_join [OF _ am]) (simp add: url_params_def)
  have keys: "list_all (\<lambda>(k, v). CHR ''='' \<notin> set k \<and> k \<noteq> []) (url_params u)"
    by (auto simp: url_params_def split: option.splits)
  let ?v = "default_NfsUrl\<lparr>u_path := u_path u, u_server := u_server u, u_nfsport := u_nfsport u\<rparr>"
  have "set_params (split_on CHR ''&'' q) ?v = Ok u"
    unfolding sp set_params_map [OF keys]
    by (rule set_params_show) (use assms in \<open>simp_all add: url_ok_def default_NfsUrl_def\<close>)
  with loc auth sa assms path show ?thesis
    by (simp add: parse_url_def show_url_def port_def [symmetric] q_def [symmetric] url_ok_def
        default_NfsUrl_def)
qed

definition ex_url :: NfsUrl where
  "ex_url = \<lparr>u_server = ''nas.local'', u_path = ''/vol1'', u_version = 4, u_minorversion = 1,
     u_uid = 1000, u_gid = 1000, u_nfsport = Some 20490, u_mountport = Some 635, u_timeo = 30,
     u_autotraverse = True, u_tls = False, u_tls_insecure = False\<rparr>"

theorem parse_show_url_example: "parse_url (show_url ex_url) = Ok ex_url"
  by (rule parse_show_url) (simp add: url_ok_def ex_url_def)

subsection \<open>Errors\<close>

text \<open>
  A step of the parser that returns a URL with the same server and path, or
  \<open>InvalidUrl\<close>.
\<close>

definition step_ok :: "NfsUrl \<Rightarrow> (NfsUrl, NfsError) result \<Rightarrow> bool" where
  "step_ok u r \<longleftrightarrow> (case r of
     Ok u' \<Rightarrow> u_path u' = u_path u \<and> u_server u' = u_server u
   | Err e \<Rightarrow> (\<exists>m. e = InvalidUrl m) | Panic \<Rightarrow> False)"

definition url_error :: "('a, NfsError) result \<Rightarrow> bool" where
  "url_error r \<longleftrightarrow> (case r of Ok _ \<Rightarrow> True | Err e \<Rightarrow> (\<exists>m. e = InvalidUrl m) | Panic \<Rightarrow> False)"

lemma url_error_parse: "url_error (parse_u32 s key)" "url_error (parse_port s)"
  by (simp_all add: url_error_def parse_u32_def parse_port_def split: option.splits)

lemma step_ok_intros:
  "step_ok u (Err (InvalidUrl m))"
  "u_path u' = u_path u \<Longrightarrow> u_server u' = u_server u \<Longrightarrow> step_ok u (Ok u')"
  "url_error r \<Longrightarrow> (\<And>x. u_path (f x) = u_path u \<and> u_server (f x) = u_server u) \<Longrightarrow>
    step_ok u (map_ok f r)"
  "url_error r \<Longrightarrow> (\<And>x. step_ok u (g x)) \<Longrightarrow> step_ok u (and_then r g)"
  "step_ok u p \<Longrightarrow> step_ok u q \<Longrightarrow> step_ok u (if c then p else q)"
  "step_ok u p \<Longrightarrow> (\<And>a b. step_ok u (h a b)) \<Longrightarrow>
    step_ok u (case opt of None \<Rightarrow> p | Some (a, b) \<Rightarrow> h a b)"
  by (cases r; auto simp: step_ok_def url_error_def split: option.splits)+

lemma step_ok_param: "step_ok u (set_param key v u)"
  unfolding set_param_def by (intro step_ok_intros url_error_parse conjI) simp_all

lemma step_ok_params: "step_ok u (set_params pairs u)"
proof (induction pairs arbitrary: u)
  case (Cons pair pairs)
  obtain key v where kv: "(case split_once CHR ''='' pair of Some kv \<Rightarrow> kv | None \<Rightarrow> (pair, [])) = (key, v)"
    by (cases "case split_once CHR ''='' pair of Some kv \<Rightarrow> kv | None \<Rightarrow> (pair, [])")
  show ?case
  proof (cases "pair = [] \<or> (\<nexists>u1. set_param key v u = Ok u1)")
    case True
    with step_ok_param [of u key v] Cons.IH [of u] show ?thesis
      by (cases "pair = []"; cases "set_param key v u") (simp_all add: kv step_ok_def)
  next
    case False
    then obtain u1 where "set_param key v u = Ok u1" "pair \<noteq> []" by blast
    with step_ok_param [of u key v] Cons.IH [of u1] show ?thesis
      by (cases "set_params pairs u1") (simp_all add: kv step_ok_def)
  qed
qed (simp add: step_ok_def)

lemma set_authority_ok:
  "url_error (set_authority a u) \<and> (\<forall>u'. set_authority a u = Ok u' \<longrightarrow> u_path u' = u_path u)"
proof -
  have e: "url_error r \<Longrightarrow> (\<And>x. u_path (f x) = u_path u) \<Longrightarrow>
      url_error (map_ok f r) \<and> (\<forall>u'. map_ok f r = Ok u' \<longrightarrow> u_path u' = u_path u)" for r and f :: "u16 \<Rightarrow> NfsUrl"
    by (cases r) (auto simp: url_error_def)
  show ?thesis
    unfolding set_authority_def
    by (auto simp: e url_error_parse split: option.splits) (simp_all add: url_error_def)
qed

text \<open>
  On every string the parser returns a URL or \<open>InvalidUrl\<close>, never anything
  else, and a URL it returns has a path that starts with a slash.
\<close>

theorem parse_url_total:
  "case parse_url s of
     Ok u \<Rightarrow> u_path u \<noteq> [] \<and> hd (u_path u) = CHR ''/''
   | Err e \<Rightarrow> (\<exists>m. e = InvalidUrl m)
   | Panic \<Rightarrow> False"
proof (cases "strip_prefix ''nfs://'' s")
  case (Some rest)
  obtain loc query where lq: "(case split_once CHR ''?'' rest of
      Some (loc, q) \<Rightarrow> (loc, Some q) | None \<Rightarrow> (rest, None)) = (loc, query)"
    by (cases "case split_once CHR ''?'' rest of Some (loc, q) \<Rightarrow> (loc, Some q) | None \<Rightarrow> (rest, None)")
  obtain authority path where ap: "(case split_once CHR ''/'' loc of
      Some (a, p) \<Rightarrow> (a, CHR ''/'' # p) | None \<Rightarrow> (loc, ''/'')) = (authority, path)"
    by (cases "case split_once CHR ''/'' loc of Some (a, p) \<Rightarrow> (a, CHR ''/'' # p) | None \<Rightarrow> (loc, ''/'')")
  then have path: "path \<noteq> []" "hd path = CHR ''/''" by (auto split: option.splits)
  let ?u = "default_NfsUrl\<lparr>u_path := path\<rparr>"
  have eq: "parse_url s = (if authority = [] then Err (InvalidUrl ''falta el servidor'')
      else and_then (set_authority authority ?u) (\<lambda>parsed. case query of
        None \<Rightarrow> Ok parsed | Some q \<Rightarrow> set_params (split_on CHR ''&'' q) parsed))"
    by (simp add: parse_url_def Some lq ap)
  show ?thesis
  proof (cases "set_authority authority ?u")
    case (Ok u)
    with set_authority_ok [of authority ?u] have "u_path u = path" by simp
    note u = this
    show ?thesis
    proof (cases query)
      case (Some q)
      with path Ok u step_ok_params [of u "split_on CHR ''&'' q"] show ?thesis
        by (cases "set_params (split_on CHR ''&'' q) u") (simp_all add: eq step_ok_def)
    qed (use path Ok u in \<open>simp add: eq\<close>)
  qed (use set_authority_ok [of authority ?u] in \<open>auto simp: eq url_error_def\<close>)
qed (simp add: parse_url_def)

text \<open>
  An authority that is only a port passes the check for a missing server: the
  parser accepts a URL without a host name.
\<close>

theorem parse_url_empty_server:
  "\<exists>u. parse_url ''nfs://:2049/export'' = Ok u \<and> u_server u = [] \<and> u_nfsport u = Some 2049"
  by (simp add: parse_url_def set_authority_def rsplit_once_def parse_port_def parse_unsigned_def
      is_digit_def Let_def)

end
