(* ===== verification/Backend_V4.thy ===== *)
theory Backend_V4
  imports VFS_Url
begin

text \<open>
  The NFSv4 backend (\<open>nfs-client/src/backend_v4.rs\<close>) with the conversion of NFSv4
  attributes (\<open>from_fattr4\<close>, \<open>parse_id\<close> of \<open>attr.rs\<close>): its state, every operation of the
  interface \<open>Backend\<close>, and the proof that it keeps the promise of \<open>vfs_backend\<close>.
\<close>

subsection \<open>Attributes (attr.rs)\<close>

definition parse_id :: "string \<Rightarrow> u32 option" where
  "parse_id value = map_option of_nat (parse_unsigned u32_max (takeWhile (\<lambda>c. c \<noteq> CHR ''@'') value))"

definition unwrap_or :: "'a option \<Rightarrow> 'a \<Rightarrow> 'a" where
  "unwrap_or opt d = (case opt of Some x \<Rightarrow> x | None \<Rightarrow> d)"

definition timestamp4 :: "Nfstime4 option \<Rightarrow> Timestamp" where
  "timestamp4 t = unwrap_or (map_option (\<lambda>t. \<lparr>ts_secs = nt4_seconds t, ts_nsecs = nt4_nseconds t\<rparr>) t)
     \<lparr>ts_secs = 0, ts_nsecs = 0\<rparr>"

definition from_fattr4 :: "Fattr4 \<Rightarrow> Attr" where
  "from_fattr4 a =
     \<lparr>at_file_type = unwrap_or (map_option from_nfs (f4_ftype a)) Unknown,
      at_mode = unwrap_or (f4_mode a) 0, at_nlink = unwrap_or (f4_numlinks a) 1,
      at_uid = unwrap_or (Option.bind (f4_owner a) parse_id) 0,
      at_gid = unwrap_or (Option.bind (f4_owner_group a) parse_id) 0,
      at_size = unwrap_or (f4_size a) 0, at_used = unwrap_or (f4_space_used a) 0,
      at_fileid = unwrap_or (f4_fileid a) 0, at_fsid = unwrap_or (map_option fst (f4_fsid a)) 0,
      at_rdev = unwrap_or (f4_rawdev a) (0, 0), at_atime = timestamp4 (f4_time_access a),
      at_mtime = timestamp4 (f4_time_modify a), at_ctime = timestamp4 (f4_time_metadata a)\<rparr>"

subsection \<open>State\<close>

record V4Backend =
  v4_nfs :: Nfs4
  v4_rsize :: u32
  v4_wsize :: u32

type_synonym v4_state = "V4Backend \<times> net"

definition v4_new :: "Nfs4 \<Rightarrow> V4Backend" where
  "v4_new nfs = \<lparr>v4_nfs = nfs, v4_rsize = 256 * 1024, v4_wsize = 256 * 1024\<rparr>"

text \<open>A call of \<open>self.nfs\<close> followed by \<open>?\<close>.\<close>

definition on_nfs4 :: "'a nfs4_op \<Rightarrow> (v4_state, 'a) vfs_op" where
  "on_nfs4 m = (\<lambda>(b, n).
     case m (v4_nfs b, n) of
       None \<Rightarrow> None
     | Some (r, c', n') \<Rightarrow> Some (map_err from_ProtoError r, b\<lparr>v4_nfs := c'\<rparr>, n'))"

text \<open>\<open>self.nfs.f(..)?\<close>, the value dropped.\<close>

definition on_nfs4_unit :: "'a nfs4_op \<Rightarrow> (v4_state, unit) vfs_op" where
  "on_nfs4_unit m = op_bind (on_nfs4 m) (\<lambda>_. op_lift (Ok ()))"

definition v4_fh :: "ObjId \<Rightarrow> NfsFh4" where
  "v4_fh oid = new_NfsFh4 oid"

subsection \<open>Operations\<close>

definition v4_getattr :: "ObjId \<Rightarrow> (v4_state, Attr) vfs_op" where
  "v4_getattr fh = op_bind (on_nfs4 (nfs4_getattr (v4_fh fh))) (\<lambda>a. op_lift (Ok (from_fattr4 a)))"

definition v4_lookup :: "ObjId \<Rightarrow> string \<Rightarrow> (v4_state, ObjId \<times> Attr) vfs_op" where
  "v4_lookup dir name = op_bind (on_nfs4 (nfs4_lookup (v4_fh dir) name)) (\<lambda>(fh, attrs).
     op_lift (Ok (fh4_data fh, from_fattr4 attrs)))"

definition v4_open :: "ObjId \<Rightarrow> string \<Rightarrow> OpenOpts \<Rightarrow> (v4_state, OpenFile) vfs_op" where
  "v4_open dir name opts =
     (let share = (if oo_write opts \<and> oo_create opts then OPEN4_SHARE_ACCESS_BOTH
            else if oo_write opts then OPEN4_SHARE_ACCESS_WRITE
            else OPEN4_SHARE_ACCESS_READ) in
      op_bind (on_nfs4 (nfs4_open (v4_fh dir) name share (oo_create opts))) (\<lambda>res.
      op_lift (Ok \<lparr>of_fh = fh4_data (or_fh res), of_stateid = Some (or_stateid res),
        of_writable = oo_write opts\<rparr>)))"

definition v4_close :: "OpenFile \<Rightarrow> (v4_state, unit) vfs_op" where
  "v4_close file =
     (case of_stateid file of
        None \<Rightarrow> op_lift (Ok ())
      | Some stateid \<Rightarrow> on_nfs4_unit (nfs4_close (v4_fh (of_fh file)) stateid))"

definition v4_pread :: "OpenFile \<Rightarrow> u64 \<Rightarrow> u32 \<Rightarrow> (v4_state, bytes \<times> bool) vfs_op" where
  "v4_pread file offset count =
     (let stateid = unwrap_or (of_stateid file) default_Stateid4 in
      op_bind (on_nfs4 (nfs4_read (v4_fh (of_fh file)) stateid offset count)) (\<lambda>res.
      op_lift (Ok (rr_data res, rr_eof res))))"

definition v4_pwrite :: "OpenFile \<Rightarrow> u64 \<Rightarrow> bytes \<Rightarrow> (v4_state, u32) vfs_op" where
  "v4_pwrite file offset data =
     (let stateid = unwrap_or (of_stateid file) default_Stateid4 in
      on_nfs4 (nfs4_write (v4_fh (of_fh file)) stateid offset UNSTABLE4 data))"

definition v4_commit :: "OpenFile \<Rightarrow> (v4_state, unit) vfs_op" where
  "v4_commit file = on_nfs4_unit (nfs4_commit (v4_fh (of_fh file)) 0 0)"

text \<open>The mode is not used.\<close>

definition v4_mkdir :: "ObjId \<Rightarrow> string \<Rightarrow> u32 \<Rightarrow> (v4_state, ObjId) vfs_op" where
  "v4_mkdir dir name mode = op_bind (on_nfs4 (nfs4_mkdir (v4_fh dir) name)) (\<lambda>fh. op_lift (Ok (fh4_data fh)))"

definition v4_rmdir :: "ObjId \<Rightarrow> string \<Rightarrow> (v4_state, unit) vfs_op" where
  "v4_rmdir dir name = on_nfs4_unit (nfs4_remove (v4_fh dir) name)"

definition v4_remove :: "ObjId \<Rightarrow> string \<Rightarrow> (v4_state, unit) vfs_op" where
  "v4_remove dir name = on_nfs4_unit (nfs4_remove (v4_fh dir) name)"

definition v4_rename :: "ObjId \<Rightarrow> string \<Rightarrow> ObjId \<Rightarrow> string \<Rightarrow> (v4_state, unit) vfs_op" where
  "v4_rename from_dir from_name to_dir to_name =
     on_nfs4_unit (nfs4_rename (v4_fh from_dir) from_name (v4_fh to_dir) to_name)"

definition v4_symlink :: "ObjId \<Rightarrow> string \<Rightarrow> string \<Rightarrow> (v4_state, unit) vfs_op" where
  "v4_symlink dir name target = on_nfs4_unit (nfs4_symlink (v4_fh dir) name target)"

definition v4_readlink :: "ObjId \<Rightarrow> (v4_state, string) vfs_op" where
  "v4_readlink fh = on_nfs4 (nfs4_readlink (v4_fh fh))"

definition v4_link :: "ObjId \<Rightarrow> ObjId \<Rightarrow> string \<Rightarrow> (v4_state, unit) vfs_op" where
  "v4_link fh dir name = on_nfs4_unit (nfs4_link (v4_fh fh) (v4_fh dir) name)"

definition v4_setattr :: "ObjId \<Rightarrow> SetAttr \<Rightarrow> (v4_state, unit) vfs_op" where
  "v4_setattr fh attr =
     on_nfs4_unit (nfs4_setattr (v4_fh fh) \<lparr>s4_mode = se_mode attr, s4_size = se_size attr\<rparr>)"

text \<open>
  The paging loop of \<open>readdir\<close>; as for NFSv3, every page uses an answer of the network.
\<close>

definition dir_entry4 :: "DirEntry4 \<Rightarrow> DirEntry" where
  "dir_entry4 e = \<lparr>de_name = d4_name e, de_fileid = unwrap_or (f4_fileid (d4_attrs e)) 0,
     de_attr = Some (from_fattr4 (d4_attrs e))\<rparr>"

definition last_cookie4 :: "u64 \<Rightarrow> DirEntry4 list \<Rightarrow> u64" where
  "last_cookie4 ck entries = fold (\<lambda>e _. d4_cookie e) entries ck"

lemma nfs4_readdir_answers:
  "nfs4_readdir dir ck verf mx s = Some (Ok page, s') \<Longrightarrow>
    length (net_sends (snd s')) < length (net_sends (snd s))"
  unfolding nfs4_readdir_def by (rule n4_compound_answers)

function readdir_loop4 ::
  "ObjId \<Rightarrow> DirEntry list \<Rightarrow> u64 \<Rightarrow> bytes \<Rightarrow> (v4_state, DirEntry list) vfs_op" where
  "readdir_loop4 dir out ck verf s =
     (case on_nfs4 (nfs4_readdir (v4_fh dir) ck verf 32768) s of
        None \<Rightarrow> None
      | Some (Err e, s') \<Rightarrow> Some (Err e, s')
      | Some (Panic, s') \<Rightarrow> Some (Panic, s')
      | Some (Ok page, s') \<Rightarrow>
          let out' = out @ map dir_entry4 (rd_entries page) in
          if rd_eof page \<or> rd_entries page = [] then Some (Ok out', s')
          else readdir_loop4 dir out' (last_cookie4 ck (rd_entries page)) (rd_cookieverf page) s')"
  by pat_completeness auto
termination
  by (relation "measure (\<lambda>(dir, out, ck, verf, b, n). length (net_sends n))")
    (auto simp: on_nfs4_def split: option.splits dest!: nfs4_readdir_answers)

declare readdir_loop4.simps [simp del]

definition v4_readdir :: "ObjId \<Rightarrow> (v4_state, DirEntry list) vfs_op" where
  "v4_readdir dir = readdir_loop4 dir [] 0 (replicate 8 0)"

definition v4_statvfs :: "ObjId \<Rightarrow> (v4_state, StatVfs) vfs_op" where
  "v4_statvfs fh = op_bind (on_nfs4 (nfs4_statvfs (v4_fh fh))) (\<lambda>a.
     op_lift (Ok \<lparr>sv_block_size = 1, sv_total_blocks = unwrap_or (f4_space_total a) 0,
       sv_free_blocks = unwrap_or (f4_space_free a) 0, sv_avail_blocks = unwrap_or (f4_space_avail a) 0,
       sv_total_files = unwrap_or (f4_files_total a) 0, sv_free_files = unwrap_or (f4_files_free a) 0,
       sv_avail_files = unwrap_or (f4_files_avail a) 0\<rparr>))"

definition v4_access :: "ObjId \<Rightarrow> u32 \<Rightarrow> (v4_state, u32) vfs_op" where
  "v4_access fh bits = on_nfs4 (nfs4_access (v4_fh fh) bits)"

definition v4_lock :: "OpenFile \<Rightarrow> u64 \<Rightarrow> u64 \<Rightarrow> bool \<Rightarrow> (v4_state, LockToken) vfs_op" where
  "v4_lock file offset len exclusive =
     (let open_stateid = unwrap_or (of_stateid file) default_Stateid4 in
      op_bind (on_nfs4 (nfs4_lock (v4_fh (of_fh file)) open_stateid offset len exclusive)) (\<lambda>grant.
      op_lift (Ok (Lock_V4 grant offset len))))"

definition v4_unlock :: "OpenFile \<Rightarrow> LockToken \<Rightarrow> (v4_state, unit) vfs_op" where
  "v4_unlock file token =
     (case token of
        Lock_V4 grant offset len \<Rightarrow> on_nfs4_unit (nfs4_unlock (v4_fh (of_fh file)) grant offset len)
      | Lock_V3 _ _ \<Rightarrow> op_lift (Ok ()))"

definition v4_test_lock :: "OpenFile \<Rightarrow> u64 \<Rightarrow> u64 \<Rightarrow> bool \<Rightarrow> (v4_state, bool) vfs_op" where
  "v4_test_lock file offset len exclusive =
     on_nfs4 (nfs4_test_lock (v4_fh (of_fh file)) offset len exclusive)"

definition v4_backend :: "v4_state Backend" where
  "v4_backend =
     \<lparr>b_version = 4, b_pref_read = (\<lambda>(b, n). v4_rsize b), b_pref_write = (\<lambda>(b, n). v4_wsize b),
      b_getattr = v4_getattr, b_lookup = v4_lookup, b_open = v4_open, b_close = v4_close,
      b_pread = v4_pread, b_pwrite = v4_pwrite, b_commit = v4_commit, b_mkdir = v4_mkdir,
      b_rmdir = v4_rmdir, b_remove = v4_remove, b_rename = v4_rename, b_symlink = v4_symlink,
      b_readlink = v4_readlink, b_link = v4_link, b_setattr = v4_setattr, b_readdir = v4_readdir,
      b_statvfs = v4_statvfs, b_access = v4_access, b_lock = v4_lock,
      b_unlock = v4_unlock, b_test_lock = v4_test_lock\<rparr>"

subsection \<open>The promise of the interface\<close>

definition v4_inv :: "v4_state \<Rightarrow> bool" where
  "v4_inv s \<longleftrightarrow> client_ok (n4_rpc (v4_nfs (fst s))) \<and> 0 < v4_rsize (fst s) \<and> 0 < v4_wsize (fst s)"

lemma on_nfs4_safe [op_safe]: "op_safe n4_ok m \<Longrightarrow> op_safe v4_inv (on_nfs4 m)"
  by (fastforce simp: op_safe_def on_nfs4_def v4_inv_def n4_ok_def split: option.splits)

lemma on_nfs4_unit_safe [op_safe]: "op_safe n4_ok m \<Longrightarrow> op_safe v4_inv (on_nfs4_unit m)"
  unfolding on_nfs4_unit_def by (intro op_safe) simp_all

lemma readdir_loop4_step:
  assumes "on_nfs4 (nfs4_readdir (v4_fh dir) ck verf 32768) s = Some (r, s')"
  shows "readdir_loop4 dir out ck verf s =
    (case r of
       Err e \<Rightarrow> Some (Err e, s')
     | Panic \<Rightarrow> Some (Panic, s')
     | Ok page \<Rightarrow>
         if rd_eof page \<or> rd_entries page = []
         then Some (Ok (out @ map dir_entry4 (rd_entries page)), s')
         else readdir_loop4 dir (out @ map dir_entry4 (rd_entries page))
           (last_cookie4 ck (rd_entries page)) (rd_cookieverf page) s')"
  using assms by (cases r) (simp_all add: readdir_loop4.simps [of dir out ck verf s] Let_def)

lemma readdir_loop4_safe: "op_safe v4_inv (readdir_loop4 dir out ck verf)"
proof -
  have "v4_inv s \<Longrightarrow> readdir_loop4 dir out ck verf s = Some (r, s') \<Longrightarrow> v4_inv s' \<and> r \<noteq> Panic" for s r s'
  proof (induction dir out ck verf s rule: readdir_loop4.induct)
    case (1 dir out ck verf s)
    from "1.prems"(2) obtain r1 s1 where
      m: "on_nfs4 (nfs4_readdir (v4_fh dir) ck verf 32768) s = Some (r1, s1)"
      by (subst (asm) readdir_loop4.simps) (auto split: option.splits)
    from op_safeD [OF on_nfs4_safe [OF nfs4_safe(19)] "1.prems"(1) m]
    have s1: "v4_inv s1" "r1 \<noteq> Panic" by auto
    note step = "1.prems"(2) [unfolded readdir_loop4_step [OF m]]
    show ?case
    proof (cases r1)
      case (Ok page)
      show ?thesis
      proof (cases "rd_eof page \<or> rd_entries page = []")
        case False
        with step Ok have "readdir_loop4 dir (out @ map dir_entry4 (rd_entries page))
            (last_cookie4 ck (rd_entries page)) (rd_cookieverf page) s1 = Some (r, s')" by simp
        then show ?thesis by (rule "1.IH" [OF m refl Ok refl False s1(1)])
      qed (use step Ok s1 in auto)
    qed (use step s1 in auto)
  qed
  then show ?thesis by (auto simp: op_safe_def)
qed

lemma v4_backend_sel [simp]:
  "b_getattr v4_backend = v4_getattr" "b_lookup v4_backend = v4_lookup"
  "b_open v4_backend = v4_open" "b_close v4_backend = v4_close"
  "b_pread v4_backend = v4_pread" "b_pwrite v4_backend = v4_pwrite"
  "b_commit v4_backend = v4_commit" "b_mkdir v4_backend = v4_mkdir"
  "b_rmdir v4_backend = v4_rmdir" "b_remove v4_backend = v4_remove"
  "b_rename v4_backend = v4_rename" "b_symlink v4_backend = v4_symlink"
  "b_readlink v4_backend = v4_readlink" "b_link v4_backend = v4_link"
  "b_setattr v4_backend = v4_setattr" "b_readdir v4_backend = v4_readdir"
  "b_statvfs v4_backend = v4_statvfs" "b_access v4_backend = v4_access"
  "b_lock v4_backend = v4_lock" "b_unlock v4_backend = v4_unlock"
  "b_test_lock v4_backend = v4_test_lock"
  "b_pref_read v4_backend = (\<lambda>(b, n). v4_rsize b)" "b_pref_write v4_backend = (\<lambda>(b, n). v4_wsize b)"
  by (simp_all add: v4_backend_def)

lemma v4_unlock_safe: "op_safe v4_inv (v4_unlock file token)"
  unfolding v4_unlock_def by (cases token) (auto intro!: op_safe)

interpretation v4: vfs_backend v4_backend v4_inv
proof
  fix s :: v4_state
  show "v4_inv s \<Longrightarrow> 0 < b_pref_read v4_backend s \<and> 0 < b_pref_write v4_backend s"
    by (cases s) (simp add: v4_inv_def)
qed (unfold v4_backend_sel v4_getattr_def v4_lookup_def v4_open_def v4_close_def v4_pread_def
    v4_pwrite_def v4_commit_def v4_mkdir_def v4_rmdir_def v4_remove_def v4_rename_def v4_symlink_def
    v4_readlink_def v4_link_def v4_setattr_def v4_readdir_def v4_statvfs_def v4_access_def
    v4_lock_def v4_test_lock_def Let_def case_prod_beta,
  (intro v4_unlock_safe readdir_loop4_safe | intro op_safe | simp)+)

end
