(* ===== verification/Backend_Listing.thy ===== *)
theory Backend_Listing
  imports Backend_V3 Backend_V4
begin

text \<open>
  Listing a directory (\<open>readdir\<close> of \<open>backend_v3.rs\<close> and \<open>backend_v4.rs\<close>): the conversation in which the
  server hands out the directory page by page, and the property that the pages put together are the directory.
\<close>

subsection \<open>Pages of a directory\<close>

text \<open>The cookie after which a listing goes on, and the pages that a server of the directory \<open>es\<close> may answer:
  some entries from the cookie on, all that are left when it says that the listing ends, none only at the end.\<close>

definition place_after :: "('e \<Rightarrow> u64) \<Rightarrow> 'e list \<Rightarrow> u64" where
  "place_after place before = (if before = [] then 0 else place (last before))"

definition honest ::
  "('page \<Rightarrow> 'e list) \<Rightarrow> ('page \<Rightarrow> bool) \<Rightarrow> ('e \<Rightarrow> u64) \<Rightarrow> 'e list \<Rightarrow> ((u64 \<times> bytes) \<times> 'page) list \<Rightarrow> bool" where
  "honest items ended place es c \<longleftrightarrow> (\<forall>((ck, verf), page) \<in> set c. \<exists>before after.
     es = before @ items page @ after \<and> ck = place_after place before \<and>
     (ended page \<or> items page = [] \<longrightarrow> after = []))"

text \<open>The questions of one listing: each asks for what follows the entry seen last, with the verifier of the page
  before it, until a page is marked as the last or is empty.\<close>

fun questions :: "('page \<Rightarrow> 'e list) \<Rightarrow> ('page \<Rightarrow> bool) \<Rightarrow> ('page \<Rightarrow> bytes) \<Rightarrow> ('e \<Rightarrow> u64) \<Rightarrow> u64 \<Rightarrow> bytes \<Rightarrow>
    ((u64 \<times> bytes) \<times> 'page) list \<Rightarrow> bool" where
  "questions items ended verifier place ck verf [] = False"
| "questions items ended verifier place ck verf (((k, v), page) # c) = (k = ck \<and> v = verf \<and>
     (if ended page \<or> items page = [] then c = []
      else questions items ended verifier place (place (last (items page))) (verifier page) c))"

lemma place_after_unique:
  assumes "distinct (0 # map place (a @ b))" "a @ b = a' @ b'" "place_after place a = place_after place a'"
  shows "a = a'"
proof -
  have wlog: "x = x @ w" if "distinct (0 # map place (x @ w @ z))" "place_after place x = place_after place (x @ w)" for x w z
  proof (rule ccontr)
    assume "x \<noteq> x @ w"
    then have w: "w \<noteq> []" by simp
    with that(2) have "place (last w) = (if x = [] then 0 else place (last x))"
      by (simp add: place_after_def split: if_splits)
    with that(1) w last_in_set [OF w] show False
      by (cases "x = []") (auto simp: image_iff dest!: last_in_set)
  qed
  from assms(2) consider w where "a' = a @ w" "b = w @ b'" | w where "a = a' @ w" "b' = w @ b"
    by (auto simp: append_eq_append_conv2)
  then show ?thesis
  proof cases
    case 1
    with wlog [of a w b'] assms(1,3) show ?thesis by simp
  next
    case 2
    with wlog [of a' w b] assms(1,3) show ?thesis by simp
  qed
qed

text \<open>So a page answered after the cookie of \<open>before\<close> holds the entries that come next.\<close>

lemma honest_page:
  assumes "distinct (0 # map place (before @ rest))" "honest items ended place (before @ rest) (((ck, verf), page) # c)"
    and "ck = place_after place before"
  shows "\<exists>after. rest = items page @ after \<and> (ended page \<or> items page = [] \<longrightarrow> after = [])"
proof -
  from assms(2) obtain b after where b: "before @ rest = b @ items page @ after" "ck = place_after place b"
    "ended page \<or> items page = [] \<longrightarrow> after = []" by (auto simp: honest_def)
  from place_after_unique [OF assms(1) b(1)] b(2) assms(3) have "before = b" by simp
  with b show ?thesis by auto
qed

subsection \<open>Listings by pages\<close>

text \<open>
  The loop that both backends have: ask for a page after the last cookie seen, append its entries, stop at the
  mark of the end or at an empty page. \<open>left\<close> is what makes the loop end.
\<close>

locale paged_listing =
  fixes ask :: "u64 \<times> bytes \<Rightarrow> ('s, 'page) vfs_op"
    and items :: "'page \<Rightarrow> 'e list"
    and ended :: "'page \<Rightarrow> bool"
    and verifier :: "'page \<Rightarrow> bytes"
    and place :: "'e \<Rightarrow> u64"
    and view :: "'e \<Rightarrow> DirEntry"
    and listing :: "DirEntry list \<Rightarrow> u64 \<Rightarrow> bytes \<Rightarrow> ('s, DirEntry list) vfs_op"
    and left :: "'s \<Rightarrow> nat"
  assumes page_used: "ask (ck, verf) s = Some (Ok page, s') \<Longrightarrow> left s' < left s"
    and silent: "ask (ck, verf) s = None \<Longrightarrow> listing out ck verf s = None"
    and failed: "ask (ck, verf) s = Some (r, s') \<Longrightarrow> \<not> is_ok r \<Longrightarrow> \<exists>r'. listing out ck verf s = Some (r', s') \<and> \<not> is_ok r'"
    and ends: "ask (ck, verf) s = Some (Ok page, s') \<Longrightarrow> ended page \<or> items page = [] \<Longrightarrow>
      listing out ck verf s = Some (Ok (out @ map view (items page)), s')"
    and continues: "ask (ck, verf) s = Some (Ok page, s') \<Longrightarrow> \<not> ended page \<Longrightarrow> items page \<noteq> [] \<Longrightarrow>
      listing out ck verf s = listing (out @ map view (items page)) (place (last (items page))) (verifier page) s'"
begin

lemma listing_conversation:
  assumes "listing out ck verf s = Some (Ok res, s')"
  shows "\<exists>c. conversation ask s c s' \<and> questions items ended verifier place ck verf c \<and>
    (\<forall>before rest. distinct (0 # map place (before @ rest)) \<longrightarrow> honest items ended place (before @ rest) c \<longrightarrow>
      ck = place_after place before \<longrightarrow> res = out @ map view rest \<and> length c \<le> length rest + 1)"
  using assms
proof (induction "left s" arbitrary: s out ck verf rule: less_induct)
  case less
  from less.prems silent obtain r s1 where a: "ask (ck, verf) s = Some (r, s1)" by (cases "ask (ck, verf) s") auto
  with less.prems failed [OF a, of out] obtain page where r: "r = Ok page" by (cases r) fastforce+
  note a = a [unfolded r]
  show ?case
  proof (cases "ended page \<or> items page = []")
    case True
    from ends [OF a True] less.prems have res: "res = out @ map view (items page)" "s1 = s'" by simp_all
    show ?thesis
    proof (intro exI [of _ "[((ck, verf), page)]"] conjI allI impI)
      show "conversation ask s [((ck, verf), page)] s'" using a res(2) by (auto intro: conversation.intros)
      fix before rest
      assume d: "distinct (0 # map place (before @ rest))" and h: "honest items ended place (before @ rest) [((ck, verf), page)]"
        and ck: "ck = place_after place before"
      from honest_page [OF d h ck] True res(1) show "res = out @ map view rest" by auto
    qed (use True in simp_all)
  next
    case False
    then have go: "\<not> ended page" "items page \<noteq> []" by simp_all
    from continues [OF a go] less.prems
    have "listing (out @ map view (items page)) (place (last (items page))) (verifier page) s1 = Some (Ok res, s')" by simp
    from less.hyps [OF page_used [OF a] this] obtain c where c: "conversation ask s1 c s'" "questions items ended verifier place (place (last (items page))) (verifier page) c"
      "\<forall>before rest. distinct (0 # map place (before @ rest)) \<longrightarrow> honest items ended place (before @ rest) c \<longrightarrow>
        place (last (items page)) = place_after place before \<longrightarrow>
        res = (out @ map view (items page)) @ map view rest \<and> length c \<le> length rest + 1" by blast
    show ?thesis
    proof (intro exI [of _ "((ck, verf), page) # c"] conjI allI impI)
      show "conversation ask s (((ck, verf), page) # c) s'" using a c(1) by (rule conversation.turn)
      fix before rest
      assume d: "distinct (0 # map place (before @ rest))"
        and h: "honest items ended place (before @ rest) (((ck, verf), page) # c)" and ck: "ck = place_after place before"
      from honest_page [OF d h ck] obtain after where rest: "rest = items page @ after" by blast
      have "honest items ended place (before @ rest) c" using h by (simp add: honest_def)
      with c(3) [rule_format, of "before @ items page" after] d go(2)
      have *: "res = (out @ map view (items page)) @ map view after \<and> length c \<le> length after + 1"
        by (simp add: rest place_after_def)
      then show "res = out @ map view rest" by (simp add: rest)
      from * go(2) show "length (((ck, verf), page) # c) \<le> length rest + 1"
        by (cases "items page") (simp_all add: rest)
    qed (use c(2) go in simp)
  qed
qed

lemma listing_whole:
  assumes "listing [] 0 verf s = Some (Ok res, s')"
  shows "\<exists>c. conversation ask s c s' \<and> questions items ended verifier place 0 verf c \<and>
    (\<forall>es. distinct (0 # map place es) \<and> honest items ended place es c \<longrightarrow>
      res = map view es \<and> length c \<le> length es + 1)"
proof -
  from listing_conversation [OF assms] obtain c where c: "conversation ask s c s'" "questions items ended verifier place 0 verf c"
    "\<forall>before rest. distinct (0 # map place (before @ rest)) \<longrightarrow> honest items ended place (before @ rest) c \<longrightarrow>
      0 = place_after place before \<longrightarrow> res = [] @ map view rest \<and> length c \<le> length rest + 1" by blast
  from c(3) [rule_format, of "[]"] have "\<forall>es. distinct (0 # map place es) \<and> honest items ended place es c \<longrightarrow>
      res = map view es \<and> length c \<le> length es + 1" by (simp add: place_after_def)
  with c(1,2) show ?thesis by blast
qed

end

lemma fold_last: "xs \<noteq> [] \<Longrightarrow> fold (\<lambda>e _. f e) xs a = f (last xs)"
  by (induction xs rule: rev_induct) simp_all

lemma readdir_page_used:
  "on_nfs (nfs3_readdirplus fh ck verf m k) s = Some (Ok page, s') \<Longrightarrow>
    length (net_sends (snd s')) < length (net_sends (snd s))"
  by (cases s) (auto simp: on_nfs_def nfs3_readdirplus_def nfs3_call_def split: option.splits
      dest!: proto_call_answers)

interpretation v3_dir: paged_listing "\<lambda>(ck, verf). on_nfs (nfs3_readdirplus (mk_fh dir) ck verf 8192 32768)"
    rpo_entries rpo_eof rpo_cookieverf ep_cookie dir_entry "readdir_loop dir" "\<lambda>s. length (net_sends (snd s))"
  for dir
proof (unfold_locales, unfold prod.case)
  show "readdir_loop dir out ck verf s = None"
    if "on_nfs (nfs3_readdirplus (mk_fh dir) ck verf 8192 32768) s = None" for ck verf s out
    using that by (simp add: readdir_loop.simps [of dir out ck verf s])
  show "\<exists>r'. readdir_loop dir out ck verf s = Some (r', s') \<and> \<not> is_ok r'"
    if "on_nfs (nfs3_readdirplus (mk_fh dir) ck verf 8192 32768) s = Some (r, s')" "\<not> is_ok r" for ck verf s out r s'
    using that by (cases r) (auto simp: readdir_loop_step)
qed (auto simp: readdir_loop_step last_cookie_def fold_last dest: readdir_page_used)

interpretation v4_dir: paged_listing "\<lambda>(ck, verf). on_nfs4 (nfs4_readdir (v4_fh dir) ck verf 32768)"
    rd_entries rd_eof rd_cookieverf d4_cookie dir_entry4 "readdir_loop4 dir" "\<lambda>s. length (net_sends (snd s))"
  for dir
proof (unfold_locales, unfold prod.case)
  show "length (net_sends (snd s')) < length (net_sends (snd s))"
    if "on_nfs4 (nfs4_readdir (v4_fh dir) ck verf 32768) s = Some (Ok page, s')" for ck verf s page s'
    using that by (cases s) (auto simp: on_nfs4_def split: option.splits dest!: nfs4_readdir_answers)
  show "readdir_loop4 dir out ck verf s = None"
    if "on_nfs4 (nfs4_readdir (v4_fh dir) ck verf 32768) s = None" for ck verf s out
    using that by (simp add: readdir_loop4.simps [of dir out ck verf s])
  show "\<exists>r'. readdir_loop4 dir out ck verf s = Some (r', s') \<and> \<not> is_ok r'"
    if "on_nfs4 (nfs4_readdir (v4_fh dir) ck verf 32768) s = Some (r, s')" "\<not> is_ok r" for ck verf s out r s'
    using that by (cases r) (auto simp: readdir_loop4_step)
qed (auto simp: readdir_loop4_step last_cookie4_def fold_last)

subsection \<open>Properties\<close>

text \<open>
  C21: a successful \<open>readdir\<close> of the NFSv3 backend is the whole directory, each entry once and in the order of the
  server, however the server divides it into pages: whenever the answers were pages of a directory with distinct
  cookies, each from the cookie of its question on, the result is that directory. Each
  question goes on after the entry seen last with the verifier of the page before it, and there is at most one
  more than entries.
\<close>

theorem v3_readdir_lists:
  assumes "v3_readdir dir s = Some (Ok res, s')"
  shows "\<exists>c. conversation (\<lambda>(ck, verf). on_nfs (nfs3_readdirplus (mk_fh dir) ck verf 8192 32768)) s c s' \<and>
    questions rpo_entries rpo_eof rpo_cookieverf ep_cookie 0 (replicate 8 0) c \<and>
    (\<forall>es. distinct (0 # map ep_cookie es) \<and> honest rpo_entries rpo_eof ep_cookie es c \<longrightarrow>
      res = map dir_entry es \<and> length c \<le> length es + 1)"
  using assms unfolding v3_readdir_def by (rule v3_dir.listing_whole)

text \<open>The same for the NFSv4 backend.\<close>

theorem v4_readdir_lists:
  assumes "v4_readdir dir s = Some (Ok res, s')"
  shows "\<exists>c. conversation (\<lambda>(ck, verf). on_nfs4 (nfs4_readdir (v4_fh dir) ck verf 32768)) s c s' \<and>
    questions rd_entries rd_eof rd_cookieverf d4_cookie 0 (replicate 8 0) c \<and>
    (\<forall>es. distinct (0 # map d4_cookie es) \<and> honest rd_entries rd_eof d4_cookie es c \<longrightarrow>
      res = map dir_entry4 es \<and> length c \<le> length es + 1)"
  using assms unfolding v4_readdir_def by (rule v4_dir.listing_whole)

text \<open>A directory with two entries, answered in one page.\<close>

definition ex_page :: ReaddirplusOk where
  "ex_page = \<lparr>rpo_dir_attributes = None, rpo_cookieverf = replicate 8 7,
     rpo_entries = [\<lparr>ep_fileid = 1, ep_name = ''a'', ep_cookie = 10, ep_name_attributes = None, ep_name_handle = None\<rparr>,
       \<lparr>ep_fileid = 2, ep_name = ''bc'', ep_cookie = 11, ep_name_attributes = None, ep_name_handle = None\<rparr>],
     rpo_eof = True\<rparr>"

lemma ex_page_served:
  "\<exists>bs c' n'. to_bytes encode_ReaddirplusOk ex_page = Ok bs \<and>
    nfs3_readdirplus (mk_fh [1, 2]) 0 (replicate 8 0) 8192 32768 (ex_client Udp, ex_served (ex_client Udp) (w4 0 @ bs))
      = Some (Ok ex_page, c', n')"
proof -
  have "\<exists>bs. to_bytes encode_ReaddirplusOk ex_page = Ok bs \<and> length (w4 0 @ bs) \<le> 2 ^ 20"
    by (simp add: ex_page_def encode_ReaddirplusOk_def encode_EntryPlus3_def enc_eval)
  then obtain bs where bs: "to_bytes encode_ReaddirplusOk ex_page = Ok bs" "length (w4 0 @ bs) \<le> 2 ^ 20" by blast
  let ?args = "\<lparr>rpa_dir = mk_fh [1, 2], rpa_cookie = 0, rpa_cookieverf = replicate 8 0, rpa_dircount = 8192,
    rpa_maxcount = 32768\<rparr>"
  have "\<exists>ab. encode_ReaddirplusArgs ?args [] = Ok ab \<and> length ab \<le> 2 ^ 20"
    by (simp add: mk_fh_def encode_ReaddirplusArgs_def encode_NfsFh3_def enc_eval encode_access_def)
  moreover have "ok_ReaddirplusOk ex_page"
    by (simp add: ex_page_def ok_ReaddirplusOk_def ok_EntryPlus3_def valid_string_def) code_simp
  ultimately obtain c' n' where "nfs3_readdirplus (mk_fh [1, 2]) 0 (replicate 8 0) 8192 32768
      (ex_client Udp, ex_served (ex_client Udp) (w4 0 @ bs)) = Some (Ok ex_page, c', n')"
    unfolding nfs3_readdirplus_def
    using nfs3_call_served [OF xdr_ReaddirplusArgs(2) _ wire_rt_ReaddirplusOk bs(1) [unfolded to_bytes_def] bs(2)] by blast
  with bs(1) show ?thesis by blast
qed

theorem v3_readdir_lists_example:
  "\<exists>bs s' c. v3_readdir [1, 2] (ex_v3, ex_served (ex_client Udp) (w4 0 @ bs))
      = Some (Ok (map dir_entry (rpo_entries ex_page)), s') \<and> length c \<le> 3 \<and>
    conversation (\<lambda>(ck, verf). on_nfs (nfs3_readdirplus (mk_fh [1, 2]) ck verf 8192 32768))
      (ex_v3, ex_served (ex_client Udp) (w4 0 @ bs)) c s' \<and>
    distinct (0 # map ep_cookie (rpo_entries ex_page)) \<and> honest rpo_entries rpo_eof ep_cookie (rpo_entries ex_page) c"
proof -
  let ?ask = "\<lambda>(ck, verf). on_nfs (nfs3_readdirplus (mk_fh [1, 2]) ck verf 8192 32768)"
  from ex_page_served obtain bs c' n' where
    run: "nfs3_readdirplus (mk_fh [1, 2]) 0 (replicate 8 0) 8192 32768 (ex_client Udp, ex_served (ex_client Udp) (w4 0 @ bs))
      = Some (Ok ex_page, c', n')" by blast
  let ?s = "(ex_v3, ex_served (ex_client Udp) (w4 0 @ bs))"
  from run have a: "?ask (0, replicate 8 0) ?s = Some (Ok ex_page, ex_v3\<lparr>v3_nfs := c'\<rparr>, n')"
    by (simp add: on_nfs_def ex_v3_def)
  from readdir_loop_step [OF a [unfolded prod.case], of "[]"]
  have r: "v3_readdir [1, 2] ?s = Some (Ok (map dir_entry (rpo_entries ex_page)), ex_v3\<lparr>v3_nfs := c'\<rparr>, n')"
    by (simp add: v3_readdir_def) (simp add: ex_page_def)
  have d: "distinct (0 # map ep_cookie (rpo_entries ex_page))" by (simp add: ex_page_def)
  from v3_readdir_lists [OF r] obtain c where c: "conversation ?ask ?s c (ex_v3\<lparr>v3_nfs := c'\<rparr>, n')"
    "questions rpo_entries rpo_eof rpo_cookieverf ep_cookie 0 (replicate 8 0) c"
    "\<forall>es. distinct (0 # map ep_cookie es) \<and> honest rpo_entries rpo_eof ep_cookie es c \<longrightarrow>
      map dir_entry (rpo_entries ex_page) = map dir_entry es \<and> length c \<le> length es + 1" by blast
  from c(2) obtain page rest where q: "c = ((0, replicate 8 0), page) # rest"
    by (cases c) (auto split: prod.splits)
  with c(1) a have "page = ex_page" by (auto elim!: conversation_ConsE)
  with q c(2) have "c = [((0, replicate 8 0), ex_page)]" by (simp add: ex_page_def)
  then have h: "honest rpo_entries rpo_eof ep_cookie (rpo_entries ex_page) c"
    by (auto simp: honest_def place_after_def)
  from c(3) d h have "length c \<le> 3" by (force simp: ex_page_def)
  with r c(1) d h show ?thesis by blast
qed

end
