(* ===== verification/VFS_Context.thy ===== *)
theory VFS_Context
  imports Backend_V3 Backend_V4
begin

text \<open>
  The public context \<open>NfsContext\<close> (\<open>nfs-client/src/context.rs\<close>): path resolution with
  symbolic links, transfers cut into pieces, whole-file operations and the directory and
  attribute operations, over any backend. The context is the backend's operations and the
  root handle; the backend's own state is the state of the operations. Offsets wrap at 64
  bits, as in a release build.
\<close>

subsection \<open>Definitions\<close>

definition MAX_SYMLINK_DEPTH :: nat where "MAX_SYMLINK_DEPTH = 40"

record OpenFlags =
  fl_write :: bool
  fl_create :: bool
  fl_exclusive :: bool
  fl_truncate :: bool
  fl_mode :: u32

definition read_only :: OpenFlags where
  "read_only = \<lparr>fl_write = False, fl_create = False, fl_exclusive = False, fl_truncate = False,
     fl_mode = 0\<rparr>"

definition read_write :: OpenFlags where
  "read_write = read_only\<lparr>fl_write := True\<rparr>"

text \<open>The mode is \<open>0o644\<close>.\<close>

definition create_write :: OpenFlags where
  "create_write = read_only\<lparr>fl_write := True, fl_create := True, fl_truncate := True, fl_mode := 420\<rparr>"

record 's NfsContext =
  cx_backend :: "'s Backend"
  cx_root :: ObjId

definition split_components :: "string \<Rightarrow> string list" where
  "split_components path = filter (\<lambda>c. c \<noteq> []) (split_on CHR ''/'' path)"

text \<open>The loop of \<open>resolve\<close>; \<open>depth\<close> counts the links followed.\<close>

function resolve_loop ::
  "'s NfsContext \<Rightarrow> bool \<Rightarrow> ObjId \<Rightarrow> string list \<Rightarrow> nat \<Rightarrow> ('s, ObjId) vfs_op" where
  "resolve_loop cx follow_final cur comps depth s =
     (case comps of
        [] \<Rightarrow> Some (Ok cur, s)
      | name # rest \<Rightarrow>
          if name = ''.'' then resolve_loop cx follow_final cur rest depth s
          else
            (case b_lookup (cx_backend cx) cur name s of
               None \<Rightarrow> None
             | Some (Err e, s') \<Rightarrow> Some (Err e, s')
             | Some (Panic, s') \<Rightarrow> Some (Panic, s')
             | Some (Ok (fh, attr), s') \<Rightarrow>
                 if is_symlink attr \<and> (rest \<noteq> [] \<or> follow_final) then
                   if depth + 1 > MAX_SYMLINK_DEPTH then Some (Err TooManySymlinks, s')
                   else
                     (case b_readlink (cx_backend cx) fh s' of
                        None \<Rightarrow> None
                      | Some (Err e, s'') \<Rightarrow> Some (Err e, s'')
                      | Some (Panic, s'') \<Rightarrow> Some (Panic, s'')
                      | Some (Ok target, s'') \<Rightarrow>
                          resolve_loop cx follow_final
                            (if strip_prefix ''/'' target \<noteq> None then cx_root cx else cur)
                            (split_components target @ rest) (depth + 1) s'')
                 else resolve_loop cx follow_final fh rest depth s'))"
  by pat_completeness auto
termination
  by (relation "measures [\<lambda>(cx, follow, cur, comps, depth, s). MAX_SYMLINK_DEPTH - depth,
      \<lambda>(cx, follow, cur, comps, depth, s). length comps]") auto

declare resolve_loop.simps [simp del]

definition resolve :: "'s NfsContext \<Rightarrow> string \<Rightarrow> bool \<Rightarrow> ('s, ObjId) vfs_op" where
  "resolve cx path follow_final =
     resolve_loop cx follow_final (cx_root cx) (split_components path) 0"

definition resolve_parent :: "'s NfsContext \<Rightarrow> string \<Rightarrow> ('s, ObjId \<times> string) vfs_op" where
  "resolve_parent cx path =
     (let comps = split_components path in
      if comps = [] then op_lift (Err (InvalidPath path))
      else
        let parent_path = CHR ''/'' # join_with CHR ''/'' (butlast comps) in
        op_bind (resolve cx parent_path True) (\<lambda>dir. op_lift (Ok (dir, last comps))))"

definition cx_version :: "'s NfsContext \<Rightarrow> u32" where
  "cx_version cx = b_version (cx_backend cx)"

definition cx_stat :: "'s NfsContext \<Rightarrow> string \<Rightarrow> ('s, Attr) vfs_op" where
  "cx_stat cx path = op_bind (resolve cx path True) (b_getattr (cx_backend cx))"

definition cx_lstat :: "'s NfsContext \<Rightarrow> string \<Rightarrow> ('s, Attr) vfs_op" where
  "cx_lstat cx path = op_bind (resolve cx path False) (b_getattr (cx_backend cx))"

definition ACCESS3_READ :: u32 where "ACCESS3_READ = 1"

definition cx_access :: "'s NfsContext \<Rightarrow> string \<Rightarrow> ('s, bool) vfs_op" where
  "cx_access cx path = op_bind (resolve cx path True) (\<lambda>fh.
     op_bind (b_access (cx_backend cx) fh ACCESS3_READ) (\<lambda>granted.
     op_lift (Ok (granted AND ACCESS3_READ \<noteq> 0))))"

definition cx_open :: "'s NfsContext \<Rightarrow> string \<Rightarrow> OpenFlags \<Rightarrow> ('s, OpenFile) vfs_op" where
  "cx_open cx path flags = op_bind (resolve_parent cx path) (\<lambda>(dir, name).
     let opts = \<lparr>oo_write = fl_write flags, oo_create = fl_create flags,
           oo_exclusive = fl_exclusive flags,
           oo_mode = (if fl_mode flags = 0 then 420 else fl_mode flags)\<rparr> in
     op_bind (b_open (cx_backend cx) dir name opts) (\<lambda>file.
     if fl_truncate flags \<and> fl_write flags then
       op_bind (b_setattr (cx_backend cx) (of_fh file) (default_SetAttr\<lparr>se_size := Some 0\<rparr>))
         (\<lambda>_. op_lift (Ok file))
     else op_lift (Ok file)))"

definition cx_create :: "'s NfsContext \<Rightarrow> string \<Rightarrow> ('s, OpenFile) vfs_op" where
  "cx_create cx path = cx_open cx path create_write"

text \<open>\<open>let _ = m;\<close> runs \<open>m\<close> and drops its result.\<close>

definition op_ignore :: "('s, 'e, 'a) op \<Rightarrow> ('s, 'e, unit) op" where
  "op_ignore m s =
     (case m s of
        None \<Rightarrow> None
      | Some (Panic, s') \<Rightarrow> Some (Panic, s')
      | Some (_, s') \<Rightarrow> Some (Ok (), s'))"

definition cx_close :: "'s NfsContext \<Rightarrow> OpenFile \<Rightarrow> ('s, unit) vfs_op" where
  "cx_close cx file =
     op_bind (if of_writable file then op_ignore (b_commit (cx_backend cx) file) else op_lift (Ok ()))
       (\<lambda>_. b_close (cx_backend cx) file)"

definition cx_fsync :: "'s NfsContext \<Rightarrow> OpenFile \<Rightarrow> ('s, unit) vfs_op" where
  "cx_fsync cx file = b_commit (cx_backend cx) file"

lemma left_decreases:
  fixes left got :: u64
  assumes "left \<noteq> 0" "got \<noteq> 0"
  shows "unat (left - min got left) < unat left"
proof -
  have m: "min got left \<noteq> 0" "min got left \<le> left" using assms by (auto simp: min_def)
  then have "0 < unat (min got left)" by (simp add: unat_gt_0)
  moreover have "unat (min got left) \<le> unat left" using m(2) by (simp add: word_le_nat_alt)
  ultimately show ?thesis using m(2) by (simp add: unat_sub)
qed

function pread_loop ::
  "'s Backend \<Rightarrow> OpenFile \<Rightarrow> u64 \<Rightarrow> bytes \<Rightarrow> u64 \<Rightarrow> u64 \<Rightarrow> ('s, bytes) vfs_op" where
  "pread_loop be file chunk out pos left s =
     (if left = 0 then Some (Ok out, s)
      else
        (case b_pread be file pos (ucast (min left chunk)) s of
           None \<Rightarrow> None
         | Some (Err e, s') \<Rightarrow> Some (Err e, s')
         | Some (Panic, s') \<Rightarrow> Some (Panic, s')
         | Some (Ok (data, eof), s') \<Rightarrow>
             let got = of_nat (length data) :: u64 in
             if eof \<or> got = 0 then Some (Ok (out @ data), s')
             else pread_loop be file chunk (out @ data) (pos + got) (left - min got left) s'))"
  by pat_completeness auto
termination
  by (relation "measure (\<lambda>(be, f, chunk, out, pos, left, s). unat left)")
    (auto simp: left_decreases)

declare pread_loop.simps [simp del]

definition cx_pread :: "'s NfsContext \<Rightarrow> OpenFile \<Rightarrow> u64 \<Rightarrow> u64 \<Rightarrow> ('s, bytes) vfs_op" where
  "cx_pread cx file offset count s =
     pread_loop (cx_backend cx) file (ucast (b_pref_read (cx_backend cx) s)) [] offset count s"

text \<open>\<open>data.chunks(n)\<close>, which panics when \<open>n\<close> is 0.\<close>

fun chunk_list :: "nat \<Rightarrow> 'a list \<Rightarrow> 'a list list" where
  "chunk_list n xs = (if n = 0 \<or> xs = [] then [] else take n xs # chunk_list n (drop n xs))"

declare chunk_list.simps [simp del]

fun pwrite_loop ::
  "'s Backend \<Rightarrow> OpenFile \<Rightarrow> bytes list \<Rightarrow> u64 \<Rightarrow> u64 \<Rightarrow> ('s, u64) vfs_op" where
  "pwrite_loop be file [] written pos s = Some (Ok written, s)"
| "pwrite_loop be file (piece # pieces) written pos s =
     op_bind (b_pwrite be file pos piece) (\<lambda>n.
       let written' = written + ucast n; pos' = pos + ucast n in
       if unat n < length piece then op_lift (Ok written')
       else pwrite_loop be file pieces written' pos') s"

definition cx_pwrite :: "'s NfsContext \<Rightarrow> OpenFile \<Rightarrow> u64 \<Rightarrow> bytes \<Rightarrow> ('s, u64) vfs_op" where
  "cx_pwrite cx file offset data s =
     (let chunk = unat (b_pref_write (cx_backend cx) s) in
      if chunk = 0 then Some (Panic, s)
      else pwrite_loop (cx_backend cx) file (chunk_list chunk data) 0 offset s)"

definition cx_read_whole :: "'s NfsContext \<Rightarrow> string \<Rightarrow> ('s, bytes) vfs_op" where
  "cx_read_whole cx path =
     op_bind (cx_stat cx path) (\<lambda>attr.
     op_bind (cx_open cx path read_only) (\<lambda>file s.
       case cx_pread cx file 0 (at_size attr) s of
         None \<Rightarrow> None
       | Some (data, s') \<Rightarrow>
           if data = Panic then Some (Panic, s')
           else op_bind (op_ignore (cx_close cx file)) (\<lambda>_. op_lift data) s'))"

definition cx_write_whole :: "'s NfsContext \<Rightarrow> string \<Rightarrow> bytes \<Rightarrow> ('s, unit) vfs_op" where
  "cx_write_whole cx path data =
     op_bind (cx_create cx path) (\<lambda>file s.
       case cx_pwrite cx file 0 data s of
         None \<Rightarrow> None
       | Some (res, s') \<Rightarrow>
           if res = Panic then Some (Panic, s')
           else op_bind (cx_close cx file) (\<lambda>_. op_lift (map_ok (\<lambda>_. ()) res)) s')"

definition cx_readdir :: "'s NfsContext \<Rightarrow> string \<Rightarrow> ('s, DirEntry list) vfs_op" where
  "cx_readdir cx path = op_bind (resolve cx path True) (b_readdir (cx_backend cx))"

text \<open>The mode is \<open>0o755\<close>.\<close>

definition cx_mkdir :: "'s NfsContext \<Rightarrow> string \<Rightarrow> ('s, unit) vfs_op" where
  "cx_mkdir cx path = op_bind (resolve_parent cx path) (\<lambda>(dir, name).
     op_bind (b_mkdir (cx_backend cx) dir name 493) (\<lambda>_. op_lift (Ok ())))"

definition cx_rmdir :: "'s NfsContext \<Rightarrow> string \<Rightarrow> ('s, unit) vfs_op" where
  "cx_rmdir cx path = op_bind (resolve_parent cx path) (\<lambda>(dir, name). b_rmdir (cx_backend cx) dir name)"

definition cx_unlink :: "'s NfsContext \<Rightarrow> string \<Rightarrow> ('s, unit) vfs_op" where
  "cx_unlink cx path = op_bind (resolve_parent cx path) (\<lambda>(dir, name). b_remove (cx_backend cx) dir name)"

definition cx_rename :: "'s NfsContext \<Rightarrow> string \<Rightarrow> string \<Rightarrow> ('s, unit) vfs_op" where
  "cx_rename cx src dst =
     op_bind (resolve_parent cx src) (\<lambda>(from_dir, from_name).
     op_bind (resolve_parent cx dst) (\<lambda>(to_dir, to_name).
     b_rename (cx_backend cx) from_dir from_name to_dir to_name))"

definition cx_symlink :: "'s NfsContext \<Rightarrow> string \<Rightarrow> string \<Rightarrow> ('s, unit) vfs_op" where
  "cx_symlink cx target linkpath = op_bind (resolve_parent cx linkpath) (\<lambda>(dir, name).
     b_symlink (cx_backend cx) dir name target)"

definition cx_readlink :: "'s NfsContext \<Rightarrow> string \<Rightarrow> ('s, string) vfs_op" where
  "cx_readlink cx path = op_bind (resolve cx path False) (b_readlink (cx_backend cx))"

definition cx_link :: "'s NfsContext \<Rightarrow> string \<Rightarrow> string \<Rightarrow> ('s, unit) vfs_op" where
  "cx_link cx oldpath newpath = op_bind (resolve cx oldpath True) (\<lambda>fh.
     op_bind (resolve_parent cx newpath) (\<lambda>(dir, name). b_link (cx_backend cx) fh dir name))"

definition cx_chmod :: "'s NfsContext \<Rightarrow> string \<Rightarrow> u32 \<Rightarrow> ('s, unit) vfs_op" where
  "cx_chmod cx path mode = op_bind (resolve cx path True) (\<lambda>fh.
     b_setattr (cx_backend cx) fh (default_SetAttr\<lparr>se_mode := Some mode\<rparr>))"

definition cx_chown :: "'s NfsContext \<Rightarrow> string \<Rightarrow> u32 \<Rightarrow> u32 \<Rightarrow> ('s, unit) vfs_op" where
  "cx_chown cx path uid gid = op_bind (resolve cx path True) (\<lambda>fh.
     b_setattr (cx_backend cx) fh (default_SetAttr\<lparr>se_uid := Some uid, se_gid := Some gid\<rparr>))"

definition cx_truncate :: "'s NfsContext \<Rightarrow> string \<Rightarrow> u64 \<Rightarrow> ('s, unit) vfs_op" where
  "cx_truncate cx path new_size = op_bind (resolve cx path True) (\<lambda>fh.
     b_setattr (cx_backend cx) fh (default_SetAttr\<lparr>se_size := Some new_size\<rparr>))"

definition cx_statvfs :: "'s NfsContext \<Rightarrow> string \<Rightarrow> ('s, StatVfs) vfs_op" where
  "cx_statvfs cx path = op_bind (resolve cx path True) (b_statvfs (cx_backend cx))"

definition cx_lock :: "'s NfsContext \<Rightarrow> OpenFile \<Rightarrow> u64 \<Rightarrow> u64 \<Rightarrow> bool \<Rightarrow> ('s, LockToken) vfs_op" where
  "cx_lock cx file offset len exclusive = b_lock (cx_backend cx) file offset len exclusive"

definition cx_unlock :: "'s NfsContext \<Rightarrow> OpenFile \<Rightarrow> LockToken \<Rightarrow> ('s, unit) vfs_op" where
  "cx_unlock cx file lock = b_unlock (cx_backend cx) file lock"

definition cx_test_lock :: "'s NfsContext \<Rightarrow> OpenFile \<Rightarrow> u64 \<Rightarrow> u64 \<Rightarrow> bool \<Rightarrow> ('s, bool) vfs_op" where
  "cx_test_lock cx file offset len exclusive = b_test_lock (cx_backend cx) file offset len exclusive"

text \<open>\<open>mount_v3\<close>; the name service, the process id and the clock are given by the system.\<close>

definition mount_v3 ::
  "resolver \<Rightarrow> u32 \<Rightarrow> u64 \<Rightarrow> NfsUrl \<Rightarrow> Credentials \<Rightarrow> nat \<Rightarrow> (net, NfsError, V3Backend \<times> ObjId) op" where
  "mount_v3 lookup pid nanos url cr t =
     (let opts = default_MountOptions\<lparr>mo_protocol := Tcp, mo_cred := cr, mo_timeout := t,
            mo_mount_port := u_mountport url, mo_nfs_port := u_nfsport url\<rparr> in
      op_bind (op_map_err from_ProtoError (mount lookup pid (u_server url) (u_path url) opts)) (\<lambda>info.
      op_bind (op_map_err from_ProtoError
        (nfs3_connect pid (mi_server info) (mi_nfs_port info) cr Tcp t)) (\<lambda>nfs.
      let nlm_config = \<lparr>nc_server = mi_server info, nc_protocol = Tcp, nc_cred = cr, nc_timeout = t,
            nc_portmap_port = PORTMAP_PORT\<rparr> in
      op_bind (v3_new pid nanos nfs (mi_root_fh info) nlm_config) (\<lambda>backend.
      op_lift (Ok (backend, mi_root_fh info))))))"

definition v3_context :: "u32 \<Rightarrow> ObjId \<Rightarrow> v3_state NfsContext" where
  "v3_context pid root = \<lparr>cx_backend = v3_backend pid, cx_root = root\<rparr>"

subsection \<open>Safety over every backend\<close>

text \<open>Whether the loop follows the object just looked up.\<close>

definition follows :: "bool \<Rightarrow> Attr \<Rightarrow> string list \<Rightarrow> bool" where
  "follows follow attr rest \<longleftrightarrow> is_symlink attr \<and> (rest \<noteq> [] \<or> follow)"

lemma resolve_loop_step:
  "resolve_loop cx follow cur [] depth s = Some (Ok cur, s)"
  "resolve_loop cx follow cur (''.'' # rest) depth s = resolve_loop cx follow cur rest depth s"
  "name \<noteq> ''.'' \<Longrightarrow> b_lookup (cx_backend cx) cur name s = None \<Longrightarrow>
    resolve_loop cx follow cur (name # rest) depth s = None"
  "name \<noteq> ''.'' \<Longrightarrow> b_lookup (cx_backend cx) cur name s = Some (Err e, s') \<Longrightarrow>
    resolve_loop cx follow cur (name # rest) depth s = Some (Err e, s')"
  "name \<noteq> ''.'' \<Longrightarrow> b_lookup (cx_backend cx) cur name s = Some (Panic, s') \<Longrightarrow>
    resolve_loop cx follow cur (name # rest) depth s = Some (Panic, s')"
  "name \<noteq> ''.'' \<Longrightarrow> b_lookup (cx_backend cx) cur name s = Some (Ok (fh, attr), s') \<Longrightarrow>
    resolve_loop cx follow cur (name # rest) depth s =
      (if follows follow attr rest then
         if depth + 1 > MAX_SYMLINK_DEPTH then Some (Err TooManySymlinks, s')
         else op_bind (b_readlink (cx_backend cx) fh) (\<lambda>target.
           resolve_loop cx follow (if strip_prefix ''/'' target \<noteq> None then cx_root cx else cur)
             (split_components target @ rest) (depth + 1)) s'
       else resolve_loop cx follow fh rest depth s')"
  by (cases "follows follow attr rest";
      auto simp: follows_def resolve_loop.simps [of cx follow cur] op_bind_def split: option.splits result.splits)+

lemma resolve_loop_induct [case_names step]:
  assumes "\<And>cur comps depth s.
    (\<And>rest. comps = ''.'' # rest \<Longrightarrow> P cur rest depth s) \<Longrightarrow>
    (\<And>name rest fh attr s'. comps = name # rest \<Longrightarrow> name \<noteq> ''.'' \<Longrightarrow>
      b_lookup (cx_backend cx) cur name s = Some (Ok (fh, attr), s') \<Longrightarrow>
      \<not> follows follow attr rest \<Longrightarrow> P fh rest depth s') \<Longrightarrow>
    (\<And>name rest fh attr s' target s''. comps = name # rest \<Longrightarrow> name \<noteq> ''.'' \<Longrightarrow>
      b_lookup (cx_backend cx) cur name s = Some (Ok (fh, attr), s') \<Longrightarrow>
      follows follow attr rest \<Longrightarrow> depth + 1 \<le> MAX_SYMLINK_DEPTH \<Longrightarrow>
      b_readlink (cx_backend cx) fh s' = Some (Ok target, s'') \<Longrightarrow>
      P (if strip_prefix ''/'' target \<noteq> None then cx_root cx else cur)
        (split_components target @ rest) (depth + 1) s'') \<Longrightarrow>
    P cur comps depth s"
  shows "P cur comps depth s"
proof (induction "(comps, depth)" arbitrary: cur comps depth s
    rule: wf_induct_rule [OF wf_measures [of "[\<lambda>(comps, depth). MAX_SYMLINK_DEPTH - depth,
      \<lambda>(comps, depth). length comps]"]])
  case (1 comps depth)
  show ?case by (rule assms; rule 1) auto
qed

text \<open>The runs of the loop that return, as a relation: its rules are the branches of the code.\<close>

inductive resolves :: "'s NfsContext \<Rightarrow> bool \<Rightarrow> ObjId \<Rightarrow> string list \<Rightarrow> nat \<Rightarrow> 's \<Rightarrow> (ObjId, NfsError) result \<Rightarrow> 's \<Rightarrow> bool"
  for cx follow where
  here: "resolves cx follow cur [] depth s (Ok cur) s"
| dot: "resolves cx follow cur rest depth s r s' \<Longrightarrow> resolves cx follow cur (''.'' # rest) depth s r s'"
| unfound: "name \<noteq> ''.'' \<Longrightarrow> b_lookup (cx_backend cx) cur name s = Some (r, s') \<Longrightarrow> \<not> is_ok r \<Longrightarrow>
    resolves cx follow cur (name # rest) depth s (map_ok fst r) s'"
| down: "name \<noteq> ''.'' \<Longrightarrow> b_lookup (cx_backend cx) cur name s = Some (Ok (fh, attr), s1) \<Longrightarrow>
    \<not> follows follow attr rest \<Longrightarrow> resolves cx follow fh rest depth s1 r s' \<Longrightarrow>
    resolves cx follow cur (name # rest) depth s r s'"
| too_deep: "name \<noteq> ''.'' \<Longrightarrow> b_lookup (cx_backend cx) cur name s = Some (Ok (fh, attr), s') \<Longrightarrow>
    follows follow attr rest \<Longrightarrow> depth + 1 > MAX_SYMLINK_DEPTH \<Longrightarrow>
    resolves cx follow cur (name # rest) depth s (Err TooManySymlinks) s'"
| unread: "name \<noteq> ''.'' \<Longrightarrow> b_lookup (cx_backend cx) cur name s = Some (Ok (fh, attr), s1) \<Longrightarrow>
    follows follow attr rest \<Longrightarrow> depth + 1 \<le> MAX_SYMLINK_DEPTH \<Longrightarrow>
    b_readlink (cx_backend cx) fh s1 = Some (r, s') \<Longrightarrow> \<not> is_ok r \<Longrightarrow>
    resolves cx follow cur (name # rest) depth s (map_ok (\<lambda>_. fh) r) s'"
| link: "name \<noteq> ''.'' \<Longrightarrow> b_lookup (cx_backend cx) cur name s = Some (Ok (fh, attr), s1) \<Longrightarrow>
    follows follow attr rest \<Longrightarrow> depth + 1 \<le> MAX_SYMLINK_DEPTH \<Longrightarrow>
    b_readlink (cx_backend cx) fh s1 = Some (Ok target, s2) \<Longrightarrow>
    resolves cx follow (if strip_prefix ''/'' target \<noteq> None then cx_root cx else cur)
      (split_components target @ rest) (depth + 1) s2 r s' \<Longrightarrow>
    resolves cx follow cur (name # rest) depth s r s'"

lemma resolves_run: "resolves cx follow cur comps depth s r s' \<Longrightarrow> resolve_loop cx follow cur comps depth s = Some (r, s')"
proof (induction rule: resolves.induct)
  case (unfound name cur s r s' rest depth)
  then show ?case by (cases r) (simp_all add: resolve_loop_step(4,5))
next
  case (unread name cur s fh attr s1 rest depth r s')
  then show ?case by (cases r) (simp_all add: resolve_loop_step(6) op_bind_def)
qed (simp_all add: resolve_loop_step(1,2) resolve_loop_step(6) op_bind_def)

lemma run_resolves: "resolve_loop cx follow cur comps depth s = Some (r, s') \<Longrightarrow> resolves cx follow cur comps depth s r s'"
proof (induction cur comps depth s rule: resolve_loop_induct [where cx = cx and follow = follow])
  case (step cur comps depth s)
  show ?case
  proof (cases comps rule: list.exhaust [case_names Nil Cons])
    case Nil
    with step.prems show ?thesis by (auto simp: resolve_loop_step intro: here)
  next
    case (Cons name rest)
    consider "name = ''.''" | r1 s1 where "name \<noteq> ''.''" "b_lookup (cx_backend cx) cur name s = Some (r1, s1)"
      using step.prems Cons
      by (cases "name = ''.''"; cases "b_lookup (cx_backend cx) cur name s") (auto simp: resolve_loop_step(3))
    then show ?thesis
    proof cases
      case 1
      with step.IH(1) step.prems Cons show ?thesis by (auto simp: resolve_loop_step intro: dot)
    next
      case 2
      show ?thesis
      proof (cases r1)
        case (Ok x)
        then obtain fh attr where l: "b_lookup (cx_backend cx) cur name s = Some (Ok (fh, attr), s1)"
          using 2(2) by (cases x) simp
        note run = step.prems [unfolded Cons resolve_loop_step(6) [OF 2(1) l]]
        consider "\<not> follows follow attr rest" | "follows follow attr rest" "depth + 1 > MAX_SYMLINK_DEPTH"
          | r2 s2 where "follows follow attr rest" "depth + 1 \<le> MAX_SYMLINK_DEPTH"
            "b_readlink (cx_backend cx) fh s1 = Some (r2, s2)"
          using run by (cases "b_readlink (cx_backend cx) fh s1") (auto split: if_splits simp: op_bind_def)
        then show ?thesis
        proof cases
          case 3
          show ?thesis
          proof (cases r2)
            case (Ok target)
            with 3 run step.IH(3) [OF Cons 2(1) l 3(1,2)] show ?thesis
              unfolding Cons by (intro link [OF 2(1) l 3(1,2), of target s2]) (simp_all add: op_bind_def)
          qed (use unread [OF 2(1) l 3] 3 run Cons in \<open>auto simp: op_bind_def\<close>)
        qed (use run Cons 2(1) l step.IH(2) in \<open>auto intro: down too_deep\<close>)
      qed (use unfound [OF 2] step.prems Cons 2 in \<open>auto simp: resolve_loop_step\<close>)
    qed
  qed
qed

lemma resolve_loop_iff: "resolve_loop cx follow cur comps depth s = Some (r, s') \<longleftrightarrow> resolves cx follow cur comps depth s r s'"
  by (rule iffI, rule run_resolves, assumption, rule resolves_run)

lemma resolve_loop_invariant:
  assumes lk: "\<And>d name s r s'. I s \<Longrightarrow> b_lookup (cx_backend cx) d name s = Some (r, s') \<Longrightarrow> I s' \<and> r \<noteq> Panic"
    and rl: "\<And>fh s r s'. I s \<Longrightarrow> b_readlink (cx_backend cx) fh s = Some (r, s') \<Longrightarrow> I s' \<and> r \<noteq> Panic"
    and "resolve_loop cx follow cur comps depth s = Some (r, s')" "I s"
  shows "I s' \<and> r \<noteq> Panic"
  using assms(3,4) unfolding resolve_loop_iff
proof (induction rule: resolves.induct)
  case (unfound name cur s r s' rest depth)
  from lk [OF unfound.prems unfound.hyps(2)] show ?case by simp
next
  case (down name cur s fh attr s1 rest depth r s')
  from lk [OF down.prems down.hyps(2)] down.IH show ?case by simp
next
  case (too_deep name cur s fh attr s' rest depth)
  from lk [OF too_deep.prems too_deep.hyps(2)] show ?case by simp
next
  case (unread name cur s fh attr s1 rest depth r s')
  from lk [OF unread.prems unread.hyps(2)] rl [OF _ unread.hyps(5)] show ?case by simp
next
  case (link name cur s fh attr s1 rest depth target s2 r s')
  from lk [OF link.prems link.hyps(2)] rl [OF _ link.hyps(5)] link.IH show ?case by simp
qed simp_all

lemma op_safe_ignore [op_safe]: "op_safe I m \<Longrightarrow> op_safe I (op_ignore m)"
  by (fastforce simp: op_safe_def op_ignore_def split: option.splits result.splits)

lemma op_safe_pair [op_safe]:
  "(\<And>a b. op_safe I (f a b)) \<Longrightarrow> op_safe I (case p of (a, b) \<Rightarrow> f a b)"
  by (cases p) simp

lemma pread_loop_safe:
  assumes "\<And>off cnt. op_safe I (b_pread be file off cnt)"
  shows "op_safe I (pread_loop be file chunk out pos left)"
proof -
  have "I s \<Longrightarrow> pread_loop be file chunk out pos left s = Some (r, s') \<Longrightarrow> I s' \<and> r \<noteq> Panic" for s r s'
    using assms
  proof (induction be "file" chunk out pos left s rule: pread_loop.induct)
    case (1 be f chunk out pos left s)
    show ?case
    proof (cases "left = 0")
      case True
      with "1.prems" show ?thesis by (auto simp: pread_loop.simps [of be f])
    next
      case False
      with "1.prems"(2) obtain r1 s1 where m: "b_pread be f pos (ucast (min left chunk)) s = Some (r1, s1)"
        by (cases "b_pread be f pos (ucast (min left chunk)) s") (auto simp: pread_loop.simps [of be f])
      note s1 = op_safeD [OF "1.prems"(3) "1.prems"(1) m]
      show ?thesis
      proof (cases "\<exists>data. r1 = Ok (data, False) \<and> (of_nat (length data) :: u64) \<noteq> 0")
        case True
        then obtain data where d: "r1 = Ok (data, False)" "(of_nat (length data) :: u64) \<noteq> 0" by blast
        with "1.prems"(2) False m have "pread_loop be f chunk (out @ data) (pos + of_nat (length data))
            (left - min (of_nat (length data)) left) s1 = Some (r, s')"
          by (simp add: pread_loop.simps [of be f chunk out pos left] Let_def)
        from "1.IH" [OF False m refl d(1) refl refl _ _ this "1.prems"(3)] d(2) s1 show ?thesis by simp
      qed (use "1.prems"(2) False m s1 in
          \<open>cases r1; auto simp: pread_loop.simps [of be f chunk out pos left] Let_def split: if_splits\<close>)
    qed
  qed
  then show ?thesis by (auto simp: op_safe_def)
qed

lemma pwrite_loop_safe:
  assumes "\<And>off data. op_safe I (b_pwrite be file off data)"
  shows "op_safe I (pwrite_loop be file pieces written pos)"
proof (induction pieces arbitrary: written pos)
  case Nil
  then show ?case by (simp add: op_safe_def)
next
  case (Cons piece pieces)
  have "pwrite_loop be file (piece # pieces) written pos = op_bind (b_pwrite be file pos piece) (\<lambda>n.
       let written' = written + ucast n; pos' = pos + ucast n in
       if unat n < length piece then op_lift (Ok written')
       else pwrite_loop be file pieces written' pos')"
    by (rule ext) simp
  then show ?case
    unfolding Let_def by (simp only:) (intro op_safe_bind op_safe_if op_safe_lift assms Cons; simp)
qed

context vfs_backend
begin

abbreviation cx :: "ObjId \<Rightarrow> 's NfsContext" where
  "cx root \<equiv> \<lparr>cx_backend = be, cx_root = root\<rparr>"

lemma resolve_safe [op_safe]: "op_safe inv (resolve (cx root) path follow)"
  unfolding op_safe_def resolve_def
proof (intro allI impI)
  fix s r s'
  assume "inv s" "resolve_loop (cx root) follow (cx_root (cx root)) (split_components path) 0 s = Some (r, s')"
  note run = this
  show "inv s' \<and> r \<noteq> Panic"
    by (rule resolve_loop_invariant [where I = inv, OF _ _ run(2,1)])
      (auto dest: op_safeD [OF lookup_safe] op_safeD [OF readlink_safe])
qed

lemma resolve_parent_safe [op_safe]: "op_safe inv (resolve_parent (cx root) path)"
  unfolding resolve_parent_def Let_def by (intro op_safe) simp_all

lemmas backend_safe = getattr_safe lookup_safe open_safe close_safe pread_safe pwrite_safe commit_safe
  mkdir_safe rmdir_safe remove_safe rename_safe symlink_safe readlink_safe link_safe setattr_safe
  readdir_safe statvfs_safe access_safe lock_safe unlock_safe test_lock_safe

lemma pread_ctx_safe: "op_safe inv (cx_pread (cx root) file off cnt)"
  using pread_loop_safe [of inv be "file", OF pread_safe] by (simp add: op_safe_def cx_pread_def)

lemma pwrite_ctx_safe: "op_safe inv (cx_pwrite (cx root) file off data)"
  using pwrite_loop_safe [of inv be "file", OF pwrite_safe] pref_pos
  by (fastforce simp: op_safe_def cx_pwrite_def Let_def unat_eq_0)

lemma open_ctx_safe: "op_safe inv (cx_open (cx root) path flags)"
  unfolding cx_open_def Let_def NfsContext.select_convs by (intro op_safe backend_safe; simp)

lemma close_ctx_safe: "op_safe inv (cx_close (cx root) file)"
  unfolding cx_close_def NfsContext.select_convs by (intro op_safe backend_safe; simp)

lemma path_ctx_safe:
  "op_safe inv (cx_stat (cx root) path)" "op_safe inv (cx_lstat (cx root) path)"
  "op_safe inv (cx_access (cx root) path)" "op_safe inv (cx_readdir (cx root) path)"
  "op_safe inv (cx_mkdir (cx root) path)" "op_safe inv (cx_rmdir (cx root) path)"
  "op_safe inv (cx_unlink (cx root) path)" "op_safe inv (cx_rename (cx root) path path2)"
  "op_safe inv (cx_symlink (cx root) path path2)" "op_safe inv (cx_readlink (cx root) path)"
  "op_safe inv (cx_link (cx root) path path2)" "op_safe inv (cx_chmod (cx root) path md)"
  "op_safe inv (cx_chown (cx root) path uid gid)" "op_safe inv (cx_truncate (cx root) path sz)"
  "op_safe inv (cx_statvfs (cx root) path)"
  unfolding cx_stat_def cx_lstat_def cx_access_def cx_readdir_def cx_mkdir_def cx_rmdir_def
    cx_unlink_def cx_rename_def cx_symlink_def cx_readlink_def cx_link_def cx_chmod_def cx_chown_def
    cx_truncate_def cx_statvfs_def NfsContext.select_convs
  by (intro op_safe backend_safe; simp)+

lemma lock_ctx_safe:
  "op_safe inv (cx_fsync (cx root) file)" "op_safe inv (cx_lock (cx root) file off len excl)"
  "op_safe inv (cx_unlock (cx root) file token)" "op_safe inv (cx_test_lock (cx root) file off len excl)"
  unfolding cx_fsync_def cx_lock_def cx_unlock_def cx_test_lock_def NfsContext.select_convs
  by (rule backend_safe)+

lemma whole_ctx_safe:
  "op_safe inv (cx_create (cx root) path)" "op_safe inv (cx_read_whole (cx root) path)"
  "op_safe inv (cx_write_whole (cx root) path data)"
proof -
  have keep: "op_safe inv (\<lambda>s. case m s of None \<Rightarrow> None
      | Some (r, s') \<Rightarrow> if r = Panic then Some (Panic, s') else op_bind k (\<lambda>_. op_lift (f r)) s')"
    if "op_safe inv m" "op_safe inv k" "\<And>r. r \<noteq> Panic \<Longrightarrow> f r \<noteq> Panic"
    for m :: "('s, NfsError, 'b) op" and k :: "('s, NfsError, unit) op"
      and f :: "('b, NfsError) result \<Rightarrow> ('c, NfsError) result"
    unfolding op_safe_def
  proof (intro allI impI)
    fix s r s'
    assume "inv s" and run: "(case m s of None \<Rightarrow> None
      | Some (r, s') \<Rightarrow> if r = Panic then Some (Panic, s') else op_bind k (\<lambda>_. op_lift (f r)) s') = Some (r, s')"
    then obtain r1 s1 where m: "m s = Some (r1, s1)" by (auto split: option.splits)
    note s1 = op_safeD [OF that(1) \<open>inv s\<close> m]
    have safe: "op_safe inv (op_bind k (\<lambda>_. op_lift (f r1)))"
      by (intro op_safe_bind that(2) op_safe_lift that(3) s1 [THEN conjunct2])
    show "inv s' \<and> r \<noteq> Panic"
      by (rule op_safeD [OF safe s1 [THEN conjunct1]]) (use run m s1 in simp)
  qed
  show create: "op_safe inv (cx_create (cx root) path)"
    unfolding cx_create_def by (rule open_ctx_safe)
  show "op_safe inv (cx_read_whole (cx root) path)"
    unfolding cx_read_whole_def
    by (intro op_safe_bind path_ctx_safe open_ctx_safe keep pread_ctx_safe op_safe_ignore close_ctx_safe)
  show "op_safe inv (cx_write_whole (cx root) path data)"
    unfolding cx_write_whole_def
    by (intro op_safe_bind create keep pwrite_ctx_safe close_ctx_safe) simp
qed

end

subsection \<open>Mounting establishes the invariant\<close>

lemma clamp_pref_pos: "0 < clamp_pref v"
  using clamp_pref_bounds [of v] by (auto simp: word_gt_0)

lemma v3_new_inv:
  assumes "client_ok nfs" "v3_new pid nanos nfs root config n = Some (r, n')"
  shows "r \<noteq> Panic \<and> (\<forall>b. r = Ok b \<longrightarrow> v3_inv (b, n'))"
proof -
  from assms(2) obtain r0 c' n1 where f: "nfs3_fsinfo (mk_fh root) (nfs, n) = Some (r0, c', n1)"
    by (auto simp: v3_new_def split: option.splits)
  have "cok (nfs, n)" using assms(1) by (simp add: cok_def)
  from op_safeD [OF nfs3_safe(19) this f] have "client_ok c'" "r0 \<noteq> Panic" by (simp_all add: cok_def)
  with assms(2) f show ?thesis
    by (cases r0) (auto simp: v3_new_def v3_inv_def clamp_pref_pos Let_def)
qed

lemma mount_v3_inv:
  assumes "mount_v3 lookup pid nanos url cr t n = Some (Ok (b, root), n')"
  shows "v3_inv (b, n')"
  using assms
  by (fastforce simp: mount_v3_def op_bind_eq op_map_err_eq op_lift_def Let_def nfs3_connect_def
      dest: connect_client_ok v3_new_inv)

subsection \<open>Sessions\<close>

text \<open>A call of the public interface, its value dropped.\<close>

datatype Api =
    Api_stat string | Api_lstat string | Api_access string
  | Api_open string OpenFlags | Api_create string | Api_close OpenFile | Api_fsync OpenFile
  | Api_pread OpenFile u64 u64 | Api_pwrite OpenFile u64 bytes
  | Api_read_whole string | Api_write_whole string bytes
  | Api_readdir string | Api_mkdir string | Api_rmdir string | Api_unlink string
  | Api_rename string string | Api_symlink string string | Api_readlink string
  | Api_link string string | Api_chmod string u32 | Api_chown string u32 u32
  | Api_truncate string u64 | Api_statvfs string
  | Api_lock OpenFile u64 u64 bool | Api_unlock OpenFile LockToken
  | Api_test_lock OpenFile u64 u64 bool

fun api_call :: "'s NfsContext \<Rightarrow> Api \<Rightarrow> ('s, unit) vfs_op" where
  "api_call cx (Api_stat path) = op_void (cx_stat cx path)"
| "api_call cx (Api_lstat path) = op_void (cx_lstat cx path)"
| "api_call cx (Api_access path) = op_void (cx_access cx path)"
| "api_call cx (Api_open path flags) = op_void (cx_open cx path flags)"
| "api_call cx (Api_create path) = op_void (cx_create cx path)"
| "api_call cx (Api_close f) = cx_close cx f"
| "api_call cx (Api_fsync f) = cx_fsync cx f"
| "api_call cx (Api_pread f off count) = op_void (cx_pread cx f off count)"
| "api_call cx (Api_pwrite f off data) = op_void (cx_pwrite cx f off data)"
| "api_call cx (Api_read_whole path) = op_void (cx_read_whole cx path)"
| "api_call cx (Api_write_whole path data) = cx_write_whole cx path data"
| "api_call cx (Api_readdir path) = op_void (cx_readdir cx path)"
| "api_call cx (Api_mkdir path) = cx_mkdir cx path"
| "api_call cx (Api_rmdir path) = cx_rmdir cx path"
| "api_call cx (Api_unlink path) = cx_unlink cx path"
| "api_call cx (Api_rename src dst) = cx_rename cx src dst"
| "api_call cx (Api_symlink target linkpath) = cx_symlink cx target linkpath"
| "api_call cx (Api_readlink path) = op_void (cx_readlink cx path)"
| "api_call cx (Api_link old new) = cx_link cx old new"
| "api_call cx (Api_chmod path m) = cx_chmod cx path m"
| "api_call cx (Api_chown path u g) = cx_chown cx path u g"
| "api_call cx (Api_truncate path sz) = cx_truncate cx path sz"
| "api_call cx (Api_statvfs path) = op_void (cx_statvfs cx path)"
| "api_call cx (Api_lock f off len excl) = op_void (cx_lock cx f off len excl)"
| "api_call cx (Api_unlock f token) = cx_unlock cx f token"
| "api_call cx (Api_test_lock f off len excl) = op_void (cx_test_lock cx f off len excl)"

inductive session :: "'s NfsContext \<Rightarrow> 's \<Rightarrow> 's \<Rightarrow> bool" for cx :: "'s NfsContext" where
  start: "session cx s s"
| step: "session cx s s' \<Longrightarrow> api_call cx request s' = Some (r, s'') \<Longrightarrow> session cx s s''"

lemma op_safe_void [op_safe]: "op_safe I m \<Longrightarrow> op_safe I (op_void m)"
  unfolding op_void_def by (intro op_safe) simp_all

context vfs_backend
begin

lemma api_call_safe: "op_safe inv (api_call (cx root) request)"
  by (cases request; simp; intro op_safe_void path_ctx_safe open_ctx_safe close_ctx_safe pread_ctx_safe
      pwrite_ctx_safe lock_ctx_safe whole_ctx_safe)

lemma session_inv: "session (cx root) s s' \<Longrightarrow> inv s \<Longrightarrow> inv s'"
  by (induction rule: session.induct) (auto dest: op_safeD [OF api_call_safe])

end


lemma call_unsent:
  assumes "client_ok c" "protocol c = Tcp" "auto_reconnect c"
    and "build_call prog vers proc args c = (Ok (xid, message), c')" "length message \<le> unat LENGTH_MASK"
    and "net_sends n = Some k # ss" "net_opens n = Some e # os"
  shows "\<exists>s'. call prog vers proc args dec (c, n) = Some (Err (Io e), s')"
proof -
  have c': "c' = c\<lparr>next_xid := next_xid c + 1\<rparr>" using build_call_cases [OF assms(4)] by simp
  with assms have "client_ok c'" by simp
  from attempt_call_eq [OF this, of dec xid message n] assms c' show ?thesis
    by (simp add: call_eq(1) [OF assms(4)] call_loop.simps [of 0] is_retryable_def MAX_ATTEMPTS_def
        reconnect_def open_socket_def op_bind_def)
qed

definition ex_mount_url :: NfsUrl where
  "ex_mount_url = default_NfsUrl\<lparr>u_server := ''srv'', u_path := ''/export'', u_nfsport := Some 2049,
     u_mountport := Some 635\<rparr>"

lemma ex_mount_v3:
  "\<exists>b n'. mount_v3 ex_lookup 7 99 ex_mount_url Cred_None 5 ex_mount_net = Some (Ok (b, [1, 2, 3, 4]), n')"
proof -
  obtain evs' acts where m: "mount ex_lookup 7 ''srv'' ''/export'' ex_opts ex_mount_net = Some (Ok ex_info,
    ex_mount_net\<lparr>net_opens := [None, Some TimedOut], net_sends := [Some TimedOut],
      net_log := acts, net_recvs := evs'\<rparr>)" (is "_ = Some (_, ?n)")
    using ex_mount by blast
  let ?c = "fresh_client 7 (ex_addr 2049) Tcp"
  let ?n2 = "?n\<lparr>net_opens := [Some TimedOut], net_log := net_log ?n @ [Opened (ex_addr 2049) Tcp]\<rparr>"
  have c: "connect 7 (ex_addr 2049) Tcp Cred_None 5 ?n = Some (Ok ?c, ?n2)"
    by (rule connect_fresh) (simp_all add: ex_mount_net_def)
  obtain bs where bs: "encode_NfsFh3 (mk_fh [1, 2, 3, 4]) [] = Ok bs" "length bs \<le> 2 ^ 20"
    by (simp add: encode_NfsFh3_def mk_fh_def enc_eval encode_access_def)
  have b: "build_call NFS3_PROGRAM NFS3_VERSION PROC_FSINFO (encode_NfsFh3 (mk_fh [1, 2, 3, 4])) ?c =
      (Ok (7, none_header 7 NFS3_PROGRAM NFS3_VERSION PROC_FSINFO @ bs), ?c\<lparr>next_xid := 7 + 1\<rparr>)"
    using xdr_NfsFh3(2) bs(1)
    by (rule build_call_eq [of ?c, rotated]) (simp_all add: cred_ok_def encode_call_none)
  have "\<exists>s'. call NFS3_PROGRAM NFS3_VERSION PROC_FSINFO (encode_NfsFh3 (mk_fh [1, 2, 3, 4])) dec (?c, ?n2)
      = Some (Err (Io TimedOut), s')" for dec :: "FsinfoOk Nfs3Result decoder"
    by (rule call_unsent [OF _ _ _ b])
      (use bs(2) in \<open>simp_all add: none_header_def unat_LENGTH_MASK ex_mount_net_def\<close>,
        simp_all add: fresh_client_def)
  then obtain s' where "call NFS3_PROGRAM NFS3_VERSION PROC_FSINFO (encode_NfsFh3 (mk_fh [1, 2, 3, 4]))
      (decode_Nfs3Result decode_FsinfoOk) (?c, ?n2) = Some (Err (Io TimedOut), s')" by blast
  then have f: "nfs3_fsinfo (mk_fh [1, 2, 3, 4]) (?c, ?n2) = Some (Err (PE_Rpc (Io TimedOut)), s')"
    by (simp only: nfs3_fsinfo_def nfs3_call_def proto_call_def op_bind_simps op_map_err_simps)
  then obtain b n' where v: "v3_new 7 99 ?c (mi_root_fh ex_info) \<lparr>nc_server = mi_server ex_info,
      nc_protocol = Tcp, nc_cred = Cred_None, nc_timeout = 5, nc_portmap_port = PORTMAP_PORT\<rparr> ?n2 = Some (Ok b, n')"
    by (cases s') (simp add: v3_new_def ex_info_def)
  have opts: "default_MountOptions\<lparr>mo_protocol := Tcp, mo_cred := Cred_None, mo_timeout := 5,
      mo_mount_port := u_mountport ex_mount_url, mo_nfs_port := u_nfsport ex_mount_url\<rparr> = ex_opts"
    by (simp add: ex_opts_def ex_mount_url_def default_MountOptions_def)
  have m1: "op_map_err from_ProtoError (mount ex_lookup 7 (u_server ex_mount_url) (u_path ex_mount_url) ex_opts)
      ex_mount_net = Some (Ok ex_info, ?n)"
    by (rule op_map_err_simps) (simp add: ex_mount_url_def m)
  have c1: "op_map_err from_ProtoError (nfs3_connect 7 (mi_server ex_info) (mi_nfs_port ex_info) Cred_None Tcp 5) ?n
      = Some (Ok ?c, ?n2)"
    unfolding nfs3_connect_def by (intro op_map_err_simps) (simp add: c [unfolded ex_addr_def] ex_info_def ex_addr_def)
  show ?thesis
    unfolding mount_v3_def Let_def opts
    by (subst op_bind_simps(2), rule m1, subst op_bind_simps(2), rule c1, subst op_bind_simps(2), rule v)
      (simp add: op_lift_def ex_info_def)
qed


end
