(* ===== verification/VFS_Path.thy ===== *)
theory VFS_Path
  imports VFS_Context
begin

text \<open>
  Path resolution (\<open>resolve\<close> and \<open>resolve_parent\<close> of \<open>nfs-client/src/context.rs\<close>)
  against a specification: the walk along the components of a path in a file system that does
  not change meanwhile.
\<close>

subsection \<open>Path resolution against a file system\<close>

text \<open>
  The specification: a file system that does not change during the walk, and the walk along
  the components of a path with no bound on the number of links. \<open>walk fs root follow cur
  comps n fh\<close>: from \<open>cur\<close> the components lead to \<open>fh\<close> after \<open>n\<close> links.
\<close>

record fs =
  fs_dir :: "ObjId \<Rightarrow> string \<Rightarrow> (ObjId \<times> Attr) option"
  fs_link :: "ObjId \<Rightarrow> string option"

definition link_base :: "ObjId \<Rightarrow> ObjId \<Rightarrow> string \<Rightarrow> ObjId" where
  "link_base root cur target = (if take 1 target = ''/'' then root else cur)"

inductive walk :: "fs \<Rightarrow> ObjId \<Rightarrow> bool \<Rightarrow> ObjId \<Rightarrow> string list \<Rightarrow> nat \<Rightarrow> ObjId \<Rightarrow> bool"
  for fs root follow where
  here: "walk fs root follow cur [] 0 cur"
| dot: "walk fs root follow cur rest n fh \<Longrightarrow> walk fs root follow cur (''.'' # rest) n fh"
| down: "name \<noteq> ''.'' \<Longrightarrow> fs_dir fs cur name = Some (child, attr) \<Longrightarrow> \<not> follows follow attr rest \<Longrightarrow>
    walk fs root follow child rest n fh \<Longrightarrow> walk fs root follow cur (name # rest) n fh"
| link: "name \<noteq> ''.'' \<Longrightarrow> fs_dir fs cur name = Some (child, attr) \<Longrightarrow> follows follow attr rest \<Longrightarrow>
    fs_link fs child = Some target \<Longrightarrow>
    walk fs root follow (link_base root cur target) (split_components target @ rest) n fh \<Longrightarrow>
    walk fs root follow cur (name # rest) (Suc n) fh"

inductive_cases walk_NilE: "walk fs root follow cur [] n fh"
inductive_cases walk_ConsE: "walk fs root follow cur (name # rest) n fh"

text \<open>A backend that serves the file system, whatever its own state does.\<close>

definition serves :: "'s Backend \<Rightarrow> fs \<Rightarrow> bool" where
  "serves be fs \<longleftrightarrow>
     (\<forall>d name s. \<exists>s'. b_lookup be d name s = Some (ok_or (fs_dir fs d name) NotFound, s')) \<and>
     (\<forall>fh s. \<exists>s'. b_readlink be fh s = Some (ok_or (fs_link fs fh) InvalidArgument, s'))"

lemma strip_slash: "(if strip_prefix ''/'' target \<noteq> None then root else cur) = link_base root cur target"
  by (cases target) (auto simp: link_base_def)

lemma serves_lookup:
  assumes "serves be fs" "fs_dir fs d name = Some x"
  obtains s' where "b_lookup be d name s = Some (Ok x, s')"
proof -
  obtain s' where "b_lookup be d name s = Some (ok_or (fs_dir fs d name) NotFound, s')"
    using assms(1) unfolding serves_def by blast
  with assms(2) that show thesis by (simp add: ok_or_def)
qed

lemma serves_readlink:
  assumes "serves be fs" "fs_link fs fh = Some x"
  obtains s' where "b_readlink be fh s = Some (Ok x, s')"
proof -
  obtain s' where "b_readlink be fh s = Some (ok_or (fs_link fs fh) InvalidArgument, s')"
    using assms(1) unfolding serves_def by blast
  with assms(2) that show thesis by (simp add: ok_or_def)
qed

lemma resolve_loop_complete:
  assumes "serves (cx_backend cx) fs"
  shows "walk fs (cx_root cx) follow cur comps n fh \<Longrightarrow> depth \<le> MAX_SYMLINK_DEPTH \<Longrightarrow>
    \<exists>s'. resolve_loop cx follow cur comps depth s =
      Some (if depth + n \<le> MAX_SYMLINK_DEPTH then Ok fh else Err TooManySymlinks, s')"
proof (induction arbitrary: depth s rule: walk.induct)
  case (down name cur child attr rest n fh)
  obtain s' where "b_lookup (cx_backend cx) cur name s = Some (Ok (child, attr), s')"
    using serves_lookup [OF assms down.hyps(2)] .
  then have "resolve_loop cx follow cur (name # rest) depth s = resolve_loop cx follow child rest depth s'"
    using down.hyps(1,3) by (simp add: resolve_loop_step(6))
  with down.IH [OF down.prems, of s'] show ?case by simp
next
  case (link name cur child attr rest target n fh)
  obtain s1 where l: "b_lookup (cx_backend cx) cur name s = Some (Ok (child, attr), s1)"
    using serves_lookup [OF assms link.hyps(2)] .
  obtain s2 where r: "b_readlink (cx_backend cx) child s1 = Some (Ok target, s2)"
    using serves_readlink [OF assms link.hyps(4)] .
  note step = resolve_loop_step(6) [OF link.hyps(1) l, unfolded strip_slash] and fol = link.hyps(3)
  show ?case
  proof (cases "depth + 1 \<le> MAX_SYMLINK_DEPTH")
    case True
    from link.IH [OF True, of s2] True r fol show ?thesis by (simp add: step)
  qed (use fol in \<open>simp add: step\<close>)
qed (auto simp: resolve_loop_step)

lemma resolve_loop_sound:
  assumes "serves (cx_backend cx) fs"
    and "resolve_loop cx follow cur comps depth s = Some (Ok fh, s')" "depth \<le> MAX_SYMLINK_DEPTH"
  shows "\<exists>n. walk fs (cx_root cx) follow cur comps n fh \<and> depth + n \<le> MAX_SYMLINK_DEPTH"
proof -
  have lookup: "fs_dir fs d name = Some (g, attr)" if "b_lookup (cx_backend cx) d name t = Some (Ok (g, attr), t')"
    for d name g attr t t'
  proof -
    obtain u where "b_lookup (cx_backend cx) d name t = Some (ok_or (fs_dir fs d name) NotFound, u)"
      using assms(1) unfolding serves_def by blast
    with that show ?thesis by (cases "fs_dir fs d name") (simp_all add: ok_or_def)
  qed
  have readlink: "fs_link fs g = Some target" if "b_readlink (cx_backend cx) g t = Some (Ok target, t')"
    for g target t t'
  proof -
    obtain u where "b_readlink (cx_backend cx) g t = Some (ok_or (fs_link fs g) InvalidArgument, u)"
      using assms(1) unfolding serves_def by blast
    with that show ?thesis by (cases "fs_link fs g") (simp_all add: ok_or_def)
  qed
  from assms(2) [unfolded resolve_loop_iff] assms(3) show ?thesis
  proof (induction cur comps depth s "Ok fh :: (ObjId, NfsError) result" s' rule: resolves.induct)
    case (down name cur s child attr s1 rest depth s')
    then show ?case using walk.down [OF down.hyps(1) lookup [OF down.hyps(2)] down.hyps(3)] by blast
  next
    case (link name cur s child attr s1 rest depth target s2 s')
    from link.hyps(7) [OF link.hyps(4), unfolded strip_slash] obtain n where
      "walk fs (cx_root cx) follow (link_base (cx_root cx) cur target) (split_components target @ rest) n fh"
      "depth + 1 + n \<le> MAX_SYMLINK_DEPTH" by blast
    with walk.link [OF link.hyps(1) lookup [OF link.hyps(2)] link.hyps(3) readlink [OF link.hyps(5)] this(1)]
    show ?case by (intro exI [of _ "Suc n"]) simp
  qed (auto intro: walk.here walk.dot)
qed

text \<open>
  C15: path resolution implements the walk. On a file system that the server serves
  without changing it, resolving a path returns a handle exactly when the walk along the
  path's components leads there through at most 40 symbolic links (absolute targets restart
  at the export's root, relative ones at the directory of the link), and a walk that needs
  more links is reported as a link loop.
\<close>

theorem resolve_implements_walk:
  assumes "serves (cx_backend cx) fs"
  shows "((\<exists>s'. resolve cx path follow s = Some (Ok fh, s')) \<longleftrightarrow>
      (\<exists>n \<le> 40. walk fs (cx_root cx) follow (cx_root cx) (split_components path) n fh))
    \<and> (\<forall>n > 40. walk fs (cx_root cx) follow (cx_root cx) (split_components path) n fh \<longrightarrow>
      (\<exists>s'. resolve cx path follow s = Some (Err TooManySymlinks, s')))"
proof (intro conjI iffI allI impI)
  assume "\<exists>s'. resolve cx path follow s = Some (Ok fh, s')"
  then obtain s' where "resolve_loop cx follow (cx_root cx) (split_components path) 0 s = Some (Ok fh, s')"
    by (auto simp: resolve_def)
  from resolve_loop_sound [OF assms this]
  show "\<exists>n \<le> 40. walk fs (cx_root cx) follow (cx_root cx) (split_components path) n fh"
    by (auto simp: MAX_SYMLINK_DEPTH_def)
next
  assume "\<exists>n \<le> 40. walk fs (cx_root cx) follow (cx_root cx) (split_components path) n fh"
  then obtain n where n: "n \<le> 40" "walk fs (cx_root cx) follow (cx_root cx) (split_components path) n fh"
    by blast
  from resolve_loop_complete [OF assms n(2), of 0 s] n(1)
  show "\<exists>s'. resolve cx path follow s = Some (Ok fh, s')"
    by (simp add: resolve_def MAX_SYMLINK_DEPTH_def)
next
  fix n :: nat
  assume n: "40 < n" "walk fs (cx_root cx) follow (cx_root cx) (split_components path) n fh"
  from resolve_loop_complete [OF assms n(2), of 0 s] n(1)
  show "\<exists>s'. resolve cx path follow s = Some (Err TooManySymlinks, s')"
    by (simp add: resolve_def MAX_SYMLINK_DEPTH_def)
qed

text \<open>A server that refuses everything: the examples add the operations they need.\<close>

definition blank_backend :: "'s Backend" where
  "blank_backend =
     \<lparr>b_version = 3, b_pref_read = (\<lambda>_. 4), b_pref_write = (\<lambda>_. 2),
      b_getattr = (\<lambda>_. op_lift (Err NotFound)), b_lookup = (\<lambda>_ _. op_lift (Err NotFound)),
      b_open = (\<lambda>_ _ _. op_lift (Err NotFound)), b_close = (\<lambda>_. op_lift (Ok ())),
      b_pread = (\<lambda>_ _ _. op_lift (Err NotFound)), b_pwrite = (\<lambda>_ _ _. op_lift (Err ReadOnly)),
      b_commit = (\<lambda>_. op_lift (Ok ())), b_mkdir = (\<lambda>_ _ _. op_lift (Err ReadOnly)),
      b_rmdir = (\<lambda>_ _. op_lift (Err ReadOnly)), b_remove = (\<lambda>_ _. op_lift (Err ReadOnly)),
      b_rename = (\<lambda>_ _ _ _. op_lift (Err ReadOnly)), b_symlink = (\<lambda>_ _ _. op_lift (Err ReadOnly)),
      b_readlink = (\<lambda>_. op_lift (Err NotFound)), b_link = (\<lambda>_ _ _. op_lift (Err ReadOnly)),
      b_setattr = (\<lambda>_ _. op_lift (Err ReadOnly)), b_readdir = (\<lambda>_. op_lift (Ok [])),
      b_statvfs = (\<lambda>_. op_lift (Err NotFound)), b_access = (\<lambda>_ _. op_lift (Ok 0)),
      b_lock = (\<lambda>_ _ _ _. op_lift (Err Locked)), b_unlock = (\<lambda>_ _. op_lift (Ok ())),
      b_test_lock = (\<lambda>_ _ _ _. op_lift (Ok False))\<rparr>"

text \<open>A small file system for the examples: \<open>/d/f\<close> and the link \<open>/l\<close> to \<open>/d\<close>.\<close>

definition ex_attr :: "FileType \<Rightarrow> Attr" where
  "ex_attr k = \<lparr>at_file_type = k, at_mode = 0, at_nlink = 1, at_uid = 0, at_gid = 0, at_size = 0,
     at_used = 0, at_fileid = 0, at_fsid = 0, at_rdev = (0, 0),
     at_atime = \<lparr>ts_secs = 0, ts_nsecs = 0\<rparr>, at_mtime = \<lparr>ts_secs = 0, ts_nsecs = 0\<rparr>,
     at_ctime = \<lparr>ts_secs = 0, ts_nsecs = 0\<rparr>\<rparr>"

definition ex_fs :: fs where
  "ex_fs = \<lparr>fs_dir = (\<lambda>d name.
       if d = [0] \<and> name = ''d'' then Some ([2], ex_attr Directory)
       else if d = [0] \<and> name = ''l'' then Some ([1], ex_attr Symlink)
       else if d = [2] \<and> name = ''f'' then Some ([3], ex_attr Regular)
       else None),
     fs_link = (\<lambda>fh. if fh = [1] then Some ''/d'' else None)\<rparr>"

definition ex_context :: "unit NfsContext" where
  "ex_context = \<lparr>cx_backend = blank_backend\<lparr>
       b_lookup := (\<lambda>d name. op_lift (ok_or (fs_dir ex_fs d name) NotFound)),
       b_readlink := (\<lambda>fh. op_lift (ok_or (fs_link ex_fs fh) InvalidArgument))\<rparr>,
     cx_root = [0]\<rparr>"

lemma ex_context_serves: "serves (cx_backend ex_context) ex_fs"
  by (simp add: serves_def ex_context_def op_lift_def)

lemma ex_context_root [simp]: "cx_root ex_context = [0]"
  by (simp add: ex_context_def)

lemma ex_walk: "walk ex_fs [0] True [0] [''l'', ''f''] 1 [3]"
proof -
  have "walk ex_fs [0] True [2] [''f''] 0 [3]"
    by (rule walk.down [of _ _ _ "[3]"]) (auto simp: ex_fs_def follows_def is_symlink_def ex_attr_def
        intro: walk.here)
  then have "walk ex_fs [0] True [0] [''d'', ''f''] 0 [3]"
    by (intro walk.down [of "''d''" _ _ "[2]"]) (auto simp: ex_fs_def follows_def is_symlink_def ex_attr_def)
  then have "walk ex_fs [0] True [0] [''l'', ''f''] (Suc 0) [3]"
    by (intro walk.link [where name = "''l''" and child = "[1]" and attr = "ex_attr Symlink" and target = "''/d''"])
      (auto simp: ex_fs_def follows_def is_symlink_def ex_attr_def link_base_def split_components_def)
  then show ?thesis by simp
qed

theorem resolve_implements_walk_example:
  "\<exists>s'. resolve ex_context ''/l//f'' True () = Some (Ok [3], s')"
proof -
  have "split_components ''/l//f'' = [''l'', ''f'']" by (simp add: split_components_def)
  moreover have "\<exists>n \<le> 40. walk ex_fs [0] True [0] [''l'', ''f''] n [3]"
    using ex_walk by (intro exI [of _ 1]) simp
  ultimately show ?thesis
    using resolve_implements_walk [OF ex_context_serves, of "''/l//f''" True "()" "[3]"] by simp
qed

subsection \<open>The parent of a path\<close>

lemma split_on_no_sep: "\<forall>p \<in> set (split_on c s). c \<notin> set p"
  by (induction s) (auto split: list.splits)

lemma split_components_join:
  assumes "list_all (\<lambda>c. c \<noteq> [] \<and> CHR ''/'' \<notin> set c) comps"
  shows "split_components (CHR ''/'' # join_with CHR ''/'' comps) = comps"
proof (cases "comps = []")
  case False
  with assms have "split_on CHR ''/'' (join_with CHR ''/'' comps) = comps"
    by (intro split_on_join) (auto simp: list_all_iff)
  with assms show ?thesis by (simp add: split_components_def list_all_iff)
qed (simp add: split_components_def)

lemma split_components_parts: "list_all (\<lambda>c. c \<noteq> [] \<and> CHR ''/'' \<notin> set c) (split_components path)"
  using split_on_no_sep [of "CHR ''/''" path] by (auto simp: split_components_def list_all_iff)

lemma resolve_parent_eq:
  assumes "split_components path \<noteq> []"
  shows "resolve_parent cx path = op_bind (resolve_loop cx True (cx_root cx) (butlast (split_components path)) 0)
    (\<lambda>dir. op_lift (Ok (dir, last (split_components path))))"
proof -
  have "list_all (\<lambda>c. c \<noteq> [] \<and> CHR ''/'' \<notin> set c) (butlast (split_components path))"
    using split_components_parts [of path] by (auto simp: list_all_iff dest: in_set_butlastD)
  from split_components_join [OF this] assms show ?thesis
    by (simp add: resolve_parent_def resolve_def Let_def)
qed

lemma walk_append:
  "walk fs root True cur xs n d \<Longrightarrow> ys \<noteq> [] \<Longrightarrow> walk fs root follow d ys m fh \<Longrightarrow>
    walk fs root follow cur (xs @ ys) (n + m) fh"
proof (induction rule: walk.induct)
  case (down name cur child attr rest n d)
  then have "\<not> follows follow attr (rest @ ys)" by (auto simp: follows_def)
  with down show ?case by (auto intro: walk.down)
next
  case (link name cur child attr rest target n d)
  then have "follows follow attr (rest @ ys)" by (auto simp: follows_def)
  with link show ?case by (auto intro: walk.link)
qed (auto intro: walk.dot)



end
