(* ===== verification/VFS_Transfer.thy ===== *)
theory VFS_Transfer
  imports VFS_Path
begin

text \<open>
  The transfers in pieces (\<open>pread\<close> and \<open>pwrite\<close> of \<open>nfs-client/src/context.rs\<close>)
  against one read and one write of the whole range.
\<close>

subsection \<open>Reading a file in pieces\<close>

text \<open>
  A server of one file: a read returns a prefix of what is there, not empty unless the
  offset is past the end, and reports the end of the file only when the prefix reaches it. The
  file has the content as long as the state satisfies \<open>I\<close>, which reading keeps.
\<close>

definition serves_file_in :: "('s \<Rightarrow> bool) \<Rightarrow> 's Backend \<Rightarrow> OpenFile \<Rightarrow> bytes \<Rightarrow> bool" where
  "serves_file_in I be f content \<longleftrightarrow> (\<forall>off count s. I s \<longrightarrow> (\<exists>k eof s'.
     b_pread be f off count s = Some (Ok (take k (drop (unat off) content), eof), s') \<and> I s' \<and>
     k \<le> unat count \<and> (0 < count \<and> unat off < length content \<longrightarrow> 0 < k) \<and>
     (eof \<longrightarrow> length content \<le> unat off + k)))"

text \<open>In every state.\<close>

definition serves_file :: "'s Backend \<Rightarrow> OpenFile \<Rightarrow> bytes \<Rightarrow> bool" where
  "serves_file = serves_file_in (\<lambda>_. True)"

lemma pread_loop_step:
  "pread_loop be f chunk out pos 0 s = Some (Ok out, s)"
  "left \<noteq> 0 \<Longrightarrow> b_pread be f pos (ucast (min left chunk)) s = Some (Ok (data, eof), s') \<Longrightarrow>
    eof \<or> data = [] \<Longrightarrow> pread_loop be f chunk out pos left s = Some (Ok (out @ data), s')"
  "left \<noteq> 0 \<Longrightarrow> b_pread be f pos (ucast (min left chunk)) s = Some (Ok (data, False), s') \<Longrightarrow>
    (of_nat (length data) :: u64) \<noteq> 0 \<Longrightarrow> pread_loop be f chunk out pos left s =
      pread_loop be f chunk (out @ data) (pos + of_nat (length data)) (left - min (of_nat (length data)) left) s'"
  by (auto simp: pread_loop.simps [of be f chunk out pos] Let_def)

lemma unat_ucast_min:
  fixes left chunk :: u64
  assumes "unat chunk < 2 ^ 32"
  shows "unat (ucast (min left chunk) :: u32) = min (unat left) (unat chunk)"
proof -
  have m: "unat (min left chunk) = min (unat left) (unat chunk)"
    by (simp add: min_def word_le_nat_alt)
  with assms have "unat (min left chunk) < 2 ^ 32" by simp
  with m show ?thesis by (simp add: unsigned_ucast_eq take_bit_nat_eq_self)
qed

lemma unat_left:
  fixes left got :: u64
  assumes "unat got \<le> unat left"
  shows "unat (left - min got left) = unat left - unat got"
proof -
  have "got \<le> left" using assms by (simp add: word_le_nat_alt)
  then show ?thesis by (simp add: min_absorb1 unat_sub)
qed

text \<open>After a piece of the content, what is left and where.\<close>

lemma piece_taken:
  fixes left pos :: u64
  assumes "length content < 2 ^ 64" "data = take k (drop (unat pos) content)" "data \<noteq> []" "k \<le> unat left"
  shows "(of_nat (length data) :: u64) \<noteq> 0"
    and "unat (left - min (of_nat (length data)) left) = unat left - length data"
    and "unat (left - min (of_nat (length data)) left) < unat left"
    and "unat (pos + of_nat (length data)) = unat pos + length data"
    and "take (unat left) (drop (unat pos) content)
      = data @ take (unat left - length data) (drop (unat pos + length data) content)"
proof -
  let ?got = "of_nat (length data) :: u64"
  have len: "length data \<le> unat left" "unat pos + length data \<le> length content"
    using assms(2-4) by auto
  then have "length data < 2 ^ 64" using assms(1) by simp
  then have got: "unat ?got = length data" by (simp add: unsigned_of_nat take_bit_nat_eq_self)
  then show "?got \<noteq> 0" using assms(3) by (metis length_greater_0_conv less_numeral_extra(3) unsigned_0)
  show left: "unat (left - min ?got left) = unat left - length data"
    using unat_left [of ?got left] got len(1) by simp
  show "unat (left - min ?got left) < unat left"
    using left assms(3) len(1) by (cases data) auto
  show "unat (pos + ?got) = unat pos + length data"
    unfolding unat_word_ariths(1) got using len(2) assms(1) by simp
  have "take (length data) (drop (unat pos) content) = data" unfolding assms(2) by (simp add: min_def)
  then show "take (unat left) (drop (unat pos) content)
      = data @ take (unat left - length data) (drop (unat pos + length data) content)"
    using take_add [of "length data" "unat left - length data" "drop (unat pos) content"] len(1)
    by (simp add: add.commute)
qed

lemma pread_loop_content:
  assumes "serves_file_in I be f content" "length content < 2 ^ 64" "0 < chunk" "unat chunk < 2 ^ 32"
  shows "I s \<Longrightarrow> \<exists>s'. pread_loop be f chunk out pos left s =
    Some (Ok (out @ take (unat left) (drop (unat pos) content)), s') \<and> I s'"
proof (induction "unat left" arbitrary: out pos left s rule: less_induct)
  case less
  show ?case
  proof (cases "left = 0")
    case False
    let ?want = "ucast (min left chunk) :: u32" and ?here = "drop (unat pos) content"
    have want: "unat ?want = min (unat left) (unat chunk)" by (rule unat_ucast_min [OF assms(4)])
    moreover have "0 < unat chunk" "0 < unat left" using assms(3) False by (simp_all add: unat_gt_0 word_gt_0)
    ultimately have "0 < ?want" by (simp add: word_less_nat_alt)
    obtain k eof s' where read: "b_pread be f pos ?want s = Some (Ok (take k ?here, eof), s')" "I s'"
      and k: "k \<le> unat ?want" "unat pos < length content \<Longrightarrow> 0 < k"
      and eof: "eof \<Longrightarrow> length content \<le> unat pos + k"
      using assms(1) \<open>0 < ?want\<close> \<open>I s\<close> unfolding serves_file_in_def by metis
    define data where "data = take k ?here"
    have k_left: "k \<le> unat left" using k(1) want by simp
    show ?thesis
    proof (cases "eof \<or> data = []")
      case True
      then have "length ?here \<le> k" using eof k(2) by (fastforce simp: data_def)
      then have "take (unat left) ?here = data" using k_left by (simp add: data_def)
      with pread_loop_step(2) [OF False read(1) [folded data_def] True] read(2) show ?thesis by simp
    next
      case more: False
      let ?got = "of_nat (length data) :: u64"
      have "data \<noteq> []" using more by simp
      note p = piece_taken [OF assms(2) data_def this k_left]
      from less.hyps [OF p(3) read(2), of "out @ data" "pos + ?got"] obtain s'' where
        "pread_loop be f chunk (out @ data) (pos + ?got) (left - min ?got left) s' = Some (Ok ((out @ data)
          @ take (unat left - length data) (drop (unat pos + length data) content)), s'')" "I s''"
        by (auto simp: p(2,4))
      moreover from more read(1) have "b_pread be f pos ?want s = Some (Ok (data, False), s')"
        by (simp add: data_def)
      note pread_loop_step(3) [OF False this p(1), of out]
      ultimately show ?thesis using p(5) by simp
    qed
  qed (use less.prems in \<open>simp add: pread_loop_step\<close>)
qed

text \<open>
  C17: reading in pieces is reading. However the server cuts its answers short and
  whatever its preferred size, \<open>pread\<close> returns exactly the bytes of the file from the
  offset on, up to the count or the end of the file, and it always returns.
\<close>

theorem pread_reads_content:
  assumes "serves_file (cx_backend cx) f content" "length content < 2 ^ 64"
    and "0 < b_pref_read (cx_backend cx) s"
  shows "\<exists>s'. cx_pread cx f offset count s =
    Some (Ok (take (unat count) (drop (unat offset) content)), s')"
proof -
  let ?chunk = "ucast (b_pref_read (cx_backend cx) s) :: u64"
  have "unat (b_pref_read (cx_backend cx) s) < 2 ^ 32"
    using unsigned_less [where 'a = nat, of "b_pref_read (cx_backend cx) s"] by simp
  moreover from this have "unat ?chunk = unat (b_pref_read (cx_backend cx) s)"
    by (simp add: unsigned_ucast_eq take_bit_nat_eq_self)
  ultimately show ?thesis
    using pread_loop_content [OF assms(1) [unfolded serves_file_def] assms(2), where chunk = ?chunk and s = s
      and out = "[]" and pos = offset and left = count] assms(3)
    by (simp add: cx_pread_def word_less_nat_alt)
qed

text \<open>The example: a server that answers two bytes at a time.\<close>

definition ex_file :: OpenFile where
  "ex_file = \<lparr>of_fh = [3], of_stateid = None, of_writable = True\<rparr>"

definition ex_reader :: "bytes \<Rightarrow> unit NfsContext" where
  "ex_reader content = \<lparr>cx_backend = blank_backend\<lparr>
       b_pread := (\<lambda>f off count. op_lift (Ok (take (min 2 (unat count)) (drop (unat off) content),
         length content \<le> unat off + min 2 (unat count))))\<rparr>, cx_root = [0]\<rparr>"

lemma ex_reader_serves: "serves_file (cx_backend (ex_reader content)) f content"
  unfolding serves_file_def serves_file_in_def
proof (intro allI impI)
  fix off :: u64 and count :: u32 and s
  show "\<exists>k eof s'. b_pread (cx_backend (ex_reader content)) f off count s =
      Some (Ok (take k (drop (unat off) content), eof), s') \<and> True \<and> k \<le> unat count \<and>
      (0 < count \<and> unat off < length content \<longrightarrow> 0 < k) \<and> (eof \<longrightarrow> length content \<le> unat off + k)"
    by (intro exI [of _ "min 2 (unat count)"] exI [of _ "length content \<le> unat off + min 2 (unat count)"]
        exI [of _ s]) (simp add: ex_reader_def op_lift_def word_less_nat_alt)
qed

theorem pread_reads_content_example:
  "\<exists>s'. cx_pread (ex_reader [10, 11, 12, 13, 14, 15, 16]) ex_file 1 5 () = Some (Ok [11, 12, 13, 14, 15], s')"
proof -
  have "0 < b_pref_read (cx_backend (ex_reader [10, 11, 12, 13, 14, 15, 16])) ()"
    by (simp add: ex_reader_def blank_backend_def)
  from pread_reads_content [OF ex_reader_serves _ this, of ex_file 1 5] show ?thesis by simp
qed

subsection \<open>Writing a file in pieces\<close>

text \<open>What a write makes of a file: the bytes at the offset replaced, a gap filled with zeros.\<close>

definition write_at :: "nat \<Rightarrow> bytes \<Rightarrow> bytes \<Rightarrow> bytes" where
  "write_at off data content =
     (if data = [] then content
      else take off content @ replicate (off - length content) 0 @ data @ drop (off + length data) content)"

lemma write_at_append:
  "write_at (off + length a) b (write_at off a content) = write_at off (a @ b) content"
proof (cases "a = [] \<or> b = []")
  case False
  then show ?thesis
    by (auto simp: write_at_def min_def ac_simps)
qed (auto simp: write_at_def)

text \<open>
  A server of one file that is written: a write of \<open>data\<close> stores a prefix of it and
  answers how long the prefix is. \<open>view\<close> reads the file out of the state.
\<close>

definition stores :: "'s Backend \<Rightarrow> OpenFile \<Rightarrow> ('s \<Rightarrow> bytes) \<Rightarrow> bool" where
  "stores be f view \<longleftrightarrow> (\<forall>off data s. length data < 2 ^ 32 \<longrightarrow> (\<exists>n s'.
     b_pwrite be f off data s = Some (Ok n, s') \<and> unat n \<le> length data \<and>
     view s' = write_at (unat off) (take (unat n) data) (view s)))"

definition no_short_writes :: "'s Backend \<Rightarrow> OpenFile \<Rightarrow> bool" where
  "no_short_writes be f \<longleftrightarrow>
     (\<forall>off data s n s'. b_pwrite be f off data s = Some (Ok n, s') \<longrightarrow> length data \<le> unat n)"

lemma concat_chunk_list: "0 < n \<Longrightarrow> concat (chunk_list n xs) = xs"
  by (induction n xs rule: chunk_list.induct) (subst chunk_list.simps, simp)

lemma chunk_list_bound: "piece \<in> set (chunk_list n xs) \<Longrightarrow> piece \<noteq> [] \<and> length piece \<le> n"
proof (induction n xs rule: chunk_list.induct)
  case (1 n xs)
  from "1.prems" have "\<not> (n = 0 \<or> xs = [])" "piece = take n xs \<or> piece \<in> set (chunk_list n (drop n xs))"
    by (subst (asm) chunk_list.simps; auto split: if_splits)+
  with "1.IH" show ?case by auto
qed

lemma pwrite_loop_stores:
  assumes "stores be f view" "\<forall>p \<in> set pieces. length p < 2 ^ 32"
    and "unat pos + length (concat pieces) < 2 ^ 64" "unat written + length (concat pieces) < 2 ^ 64"
  shows "\<exists>n s'. pwrite_loop be f pieces written pos s = Some (Ok (written + of_nat n), s') \<and>
    n \<le> length (concat pieces) \<and> (no_short_writes be f \<longrightarrow> n = length (concat pieces)) \<and>
    view s' = write_at (unat pos) (take n (concat pieces)) (view s)"
  using assms(2-)
proof (induction pieces arbitrary: written pos s)
  case Nil
  then show ?case by (auto simp: write_at_def intro: exI [of _ 0])
next
  case (Cons p pieces)
  from assms(1) Cons.prems(1) obtain m s1 where w: "b_pwrite be f pos p s = Some (Ok m, s1)"
    "unat m \<le> length p" "view s1 = write_at (unat pos) (take (unat m) p) (view s)"
    unfolding stores_def by fastforce
  have m: "(ucast m :: u64) = of_nat (unat m)" by simp
  show ?case
  proof (cases "unat m < length p")
    case True
    then have "\<not> no_short_writes be f" using w(1) unfolding no_short_writes_def by (metis not_less)
    with True w show ?thesis
      by (intro exI [of _ "unat m"] exI [of _ s1]) (simp add: op_lift_def)
  next
    case False
    with w(2) have full: "unat m = length p" by simp
    have sum: "unat (x + ucast m :: u64) = unat x + length p" if "unat x + length (p @ concat pieces) < 2 ^ 64" for x
      using that full unfolding m unat_word_ariths(1) by (simp add: unsigned_of_nat take_bit_nat_eq_self)
    from Cons.IH [of "pos + ucast m" "written + ucast m" s1] Cons.prems sum [of pos] sum [of written]
    obtain n s' where n: "pwrite_loop be f pieces (written + ucast m) (pos + ucast m) s1
        = Some (Ok (written + ucast m + of_nat n), s')" "n \<le> length (concat pieces)"
      "no_short_writes be f \<longrightarrow> n = length (concat pieces)"
      "view s' = write_at (unat pos + length p) (take n (concat pieces)) (view s1)" by auto
    have "view s' = write_at (unat pos) (take (length p + n) (p @ concat pieces)) (view s)"
      using n(4) w(3) full by (simp add: write_at_append)
    with w(1) n(1-3) False full show ?thesis
      by (intro exI [of _ "length p + n"] exI [of _ s']) (simp add: m add.assoc)
  qed
qed

text \<open>
  C18: writing in pieces is writing. The file ends up with a prefix of the data at the
  offset and everything else as it was, the count returned is the length of that prefix, and
  it is the whole length when the server stores every piece it is given completely.
\<close>

theorem pwrite_writes_prefix:
  assumes "stores (cx_backend cx) f view" "0 < b_pref_write (cx_backend cx) s"
    and "unat offset + length data < 2 ^ 64"
  shows "\<exists>n s'. cx_pwrite cx f offset data s = Some (Ok (of_nat n), s') \<and> n \<le> length data \<and>
    (no_short_writes (cx_backend cx) f \<longrightarrow> n = length data) \<and>
    view s' = write_at (unat offset) (take n data) (view s)"
proof -
  let ?chunk = "unat (b_pref_write (cx_backend cx) s)"
  have "?chunk < 2 ^ 32"
    using unsigned_less [where 'a = nat, of "b_pref_write (cx_backend cx) s"] by simp
  then have "\<forall>p \<in> set (chunk_list ?chunk data). length p < 2 ^ 32"
    using chunk_list_bound by fastforce
  moreover have "0 < ?chunk" using assms(2) by (simp add: word_less_nat_alt)
  ultimately show ?thesis
    using pwrite_loop_stores [OF assms(1), of "chunk_list ?chunk data" offset 0 s] assms(3)
    by (simp add: cx_pwrite_def concat_chunk_list)
qed

definition ex_writer :: "bytes NfsContext" where
  "ex_writer = \<lparr>cx_backend = blank_backend\<lparr>
     b_pwrite := (\<lambda>f off data content. Some (Ok (of_nat (length data)), write_at (unat off) data content))\<rparr>,
     cx_root = [0]\<rparr>"

theorem pwrite_writes_prefix_example:
  "\<exists>n s'. cx_pwrite ex_writer ex_file 2 [7, 8, 9] [1, 1, 1, 1, 1, 1] = Some (Ok (of_nat n), s') \<and> n \<le> 3 \<and>
    s' = write_at 2 (take n [7, 8, 9]) [1, 1, 1, 1, 1, 1]"
proof -
  have "stores (cx_backend ex_writer) ex_file (\<lambda>s. s)"
    by (auto simp: stores_def ex_writer_def blank_backend_def unsigned_of_nat take_bit_nat_eq_self)
  moreover have "0 < b_pref_write (cx_backend ex_writer) [1, 1, 1, 1, 1, 1]"
    by (simp add: ex_writer_def blank_backend_def)
  ultimately have "\<exists>n s'. cx_pwrite ex_writer ex_file 2 [7, 8, 9] [1, 1, 1, 1, 1, 1] = Some (Ok (of_nat n), s')
      \<and> n \<le> length [7, 8, 9 :: u8] \<and> (no_short_writes (cx_backend ex_writer) ex_file \<longrightarrow> n = length [7, 8, 9 :: u8])
      \<and> s' = write_at (unat (2 :: u64)) (take n [7, 8, 9]) [1, 1, 1, 1, 1, 1]"
    by (rule pwrite_writes_prefix) simp
  then obtain n s' where "cx_pwrite ex_writer ex_file 2 [7, 8, 9] [1, 1, 1, 1, 1, 1] = Some (Ok (of_nat n), s')"
    "n \<le> length [7, 8, 9 :: u8]" "s' = write_at (unat (2 :: u64)) (take n [7, 8, 9]) [1, 1, 1, 1, 1, 1]"
    by (elim exE conjE)
  then show ?thesis by (intro exI [of _ n] exI [of _ s']) simp
qed

end
