(* ===== verification/VFS_Exchange.thy ===== *)
theory VFS_Exchange
  imports VFS_Transfer
begin

text \<open>
  Reading and writing through an NFSv3 mount, by the exchanges with the server (\<open>pread\<close>, \<open>pwrite\<close> of
  \<open>nfs-client/src/context.rs\<close> over \<open>backend_v3.rs\<close>): which \<open>READ\<close> and \<open>WRITE\<close> calls are made, and what their answers make
  of the result. Nothing is assumed of the network: the properties speak of the answers that came.
\<close>

subsection \<open>Reading\<close>

text \<open>What a server of \<open>content\<close> may answer to a read: a prefix of what is there within the count, not empty
  before the end, and the mark of the end only at the end.\<close>

definition file_piece :: "bytes \<Rightarrow> (u64 \<times> u32) \<times> bytes \<times> bool \<Rightarrow> bool" where
  "file_piece content = (\<lambda>((off, count), data, eof).
     (\<exists>k \<le> unat count. data = take k (drop (unat off) content)) \<and>
     (eof \<or> 0 < count \<and> data = [] \<longrightarrow> length content \<le> unat off + length data))"

text \<open>The reads of one \<open>pread\<close>: each starts where the data so far ends and asks for what is left, at most \<open>chunk\<close> bytes,
  until nothing is left or a piece is the last or empty.\<close>

fun reads_asked :: "u64 \<Rightarrow> u64 \<Rightarrow> u64 \<Rightarrow> ((u64 \<times> u32) \<times> bytes \<times> bool) list \<Rightarrow> bool" where
  "reads_asked chunk pos left [] = (left = 0)"
| "reads_asked chunk pos left (((off, n), data, eof) # c) =
     (let got = of_nat (length data) in left \<noteq> 0 \<and> off = pos \<and> unat n = min (unat left) (unat chunk) \<and>
      (if eof \<or> got = 0 then c = [] else reads_asked chunk (pos + got) (left - min got left) c))"

lemma last_piece:
  assumes "file_piece content ((pos, want), data, eof)" "0 < want" "unat want \<le> left" "eof \<or> (of_nat (length data) :: u64) = 0"
  shows "data = take left (drop (unat pos) content)"
proof -
  from assms(1) obtain k where k: "k \<le> unat want" "data = take k (drop (unat pos) content)"
    and ends: "eof \<or> 0 < want \<and> data = [] \<longrightarrow> length content \<le> unat pos + length data"
    unfolding file_piece_def prod.case by blast
  have "length data < 2 ^ 64"
    using k unsigned_less [where 'a = nat, of want] by simp
  then have "unat (of_nat (length data) :: u64) = length data" by (simp add: unsigned_of_nat take_bit_nat_eq_self)
  with assms(4) have "eof \<or> data = []" by (metis length_0_conv unsigned_0)
  with ends assms(2) have "length content \<le> unat pos + length data" by blast
  with k assms(3) show ?thesis by auto
qed

lemma pread_loop_exchange:
  assumes "pread_loop be f chunk out pos left s = Some (Ok res, s')" "0 < chunk" "unat chunk < 2 ^ 32"
  shows "\<exists>c. conversation (\<lambda>(off, count). b_pread be f off count) s c s' \<and> reads_asked chunk pos left c \<and>
    (\<forall>content. length content < 2 ^ 64 \<and> list_all (file_piece content) c \<longrightarrow>
      res = out @ take (unat left) (drop (unat pos) content))"
  using assms(1)
proof (induction "unat left" arbitrary: out pos left s rule: less_induct)
  case less
  let ?ask = "\<lambda>(off, count). b_pread be f off count"
  show ?case
  proof (cases "left = 0")
    case True
    with less.prems show ?thesis by (intro exI [of _ "[]"]) (auto simp: pread_loop_step intro: conversation.silence)
  next
    case False
    let ?want = "ucast (min left chunk) :: u32"
    have want: "unat ?want = min (unat left) (unat chunk)" by (rule unat_ucast_min [OF assms(3)])
    then have w: "0 < ?want" "unat ?want \<le> unat left"
      using assms(2) False by (simp_all add: word_less_nat_alt unat_gt_0)
    from less.prems False obtain data eof s1 where r: "b_pread be f pos ?want s = Some (Ok (data, eof), s1)"
      by (subst (asm) pread_loop.simps) (auto split: option.splits prod.splits result.splits)
    then have q: "?ask (pos, ?want) s = Some (Ok (data, eof), s1)" by simp
    let ?got = "of_nat (length data) :: u64"
    show ?thesis
    proof (cases "eof \<or> ?got = 0")
      case True
      with less.prems False r have "res = out @ data" "s1 = s'" by (simp_all add: pread_loop.simps [of be f])
      moreover have "conversation ?ask s [((pos, ?want), data, eof)] s1"
        by (rule conversation.turn [where ask = ?ask, OF q conversation.silence])
      moreover have "reads_asked chunk pos left [((pos, ?want), data, eof)]" using True False want by (simp add: Let_def)
      ultimately show ?thesis using last_piece [OF _ w True]
        by (intro exI [of _ "[((pos, ?want), data, eof)]"]) (auto simp del: reads_asked.simps)
    next
      case more: False
      with less.prems False r have
        "pread_loop be f chunk (out @ data) (pos + ?got) (left - min ?got left) s1 = Some (Ok res, s')"
        by (simp add: pread_loop.simps [of be f chunk out pos left] Let_def)
      from less.hyps [OF _ this] left_decreases [OF False] more obtain c where c: "conversation ?ask s1 c s'"
        "reads_asked chunk (pos + ?got) (left - min ?got left) c"
        "\<forall>content. length content < 2 ^ 64 \<and> list_all (file_piece content) c \<longrightarrow> res = (out @ data)
          @ take (unat (left - min ?got left)) (drop (unat (pos + ?got)) content)" by blast
      have "res = out @ take (unat left) (drop (unat pos) content)" if "length content < 2 ^ 64"
        "file_piece content ((pos, ?want), data, eof)" "list_all (file_piece content) c" for content
      proof -
        from that(2) obtain k where k: "k \<le> unat ?want" "data = take k (drop (unat pos) content)"
          by (auto simp: file_piece_def)
        have "data \<noteq> []" using more by auto
        note p = piece_taken [OF that(1) k(2) this, of left]
        from p c(3) that(1,3) k(1) w(2) show ?thesis by simp
      qed
      moreover have "reads_asked chunk pos left (((pos, ?want), data, eof) # c)"
        using more False want c(2) by (simp add: Let_def)
      ultimately show ?thesis using conversation.turn [where ask = ?ask, OF q c(1)]
        by (intro exI [of _ "((pos, ?want), data, eof) # c"]) (simp del: reads_asked.simps)
    qed
  qed
qed

subsection \<open>Writing\<close>

text \<open>The writes of a conversation, performed one after the other on the file as far as they were answered.\<close>

definition perform :: "((u64 \<times> bytes) \<times> u32) list \<Rightarrow> bytes \<Rightarrow> bytes" where
  "perform c content = fold (\<lambda>((off, piece), n). write_at (unat off) (take (unat n) piece)) c content"

abbreviation within :: "((u64 \<times> bytes) \<times> u32) list \<Rightarrow> bool" where
  "within c \<equiv> \<forall>((off, piece), n) \<in> set c. unat n \<le> length piece"

abbreviation complete :: "((u64 \<times> bytes) \<times> u32) list \<Rightarrow> bool" where
  "complete c \<equiv> \<forall>((off, piece), n) \<in> set c. unat n = length piece"

text \<open>The writes of one \<open>pwrite\<close>: the pieces in order, each where the bytes stored so far end, up to one that is not stored
  completely.\<close>

fun writes_asked :: "u64 \<Rightarrow> bytes list \<Rightarrow> ((u64 \<times> bytes) \<times> u32) list \<Rightarrow> bool" where
  "writes_asked pos pieces [] = (pieces = [])"
| "writes_asked pos pieces (((off, piece), n) # c) = (off = pos \<and> pieces \<noteq> [] \<and> piece = hd pieces \<and>
     (if unat n < length piece then c = [] else writes_asked (pos + ucast n) (tl pieces) c))"

lemma perform_Cons: "perform (((off, piece), n) # c) content = perform c (write_at (unat off) (take (unat n) piece) content)"
  by (simp add: perform_def)

lemma pwrite_loop_exchange:
  assumes "pwrite_loop be f pieces written pos s = Some (Ok res, s')"
  shows "\<exists>c. conversation (\<lambda>(off, piece). b_pwrite be f off piece) s c s' \<and> writes_asked pos pieces c \<and>
    (within c \<and> unat pos + length (concat pieces) < 2 ^ 64 \<longrightarrow> (\<exists>k \<le> length (concat pieces). res = written + of_nat k \<and>
      perform c = write_at (unat pos) (take k (concat pieces)) \<and> (complete c \<longrightarrow> k = length (concat pieces))))"
  using assms
proof (induction pieces arbitrary: written pos s)
  case Nil
  then show ?case
    by (intro exI [of _ "[]"]) (auto simp: perform_def write_at_def fun_eq_iff intro: conversation.silence)
next
  case (Cons p pieces)
  let ?ask = "\<lambda>(off, piece). b_pwrite be f off piece"
  from Cons.prems obtain m s1 where w: "b_pwrite be f pos p s = Some (Ok m, s1)"
    by (auto simp: op_bind_eq)
  then have q: "?ask (pos, p) s = Some (Ok m, s1)" by simp
  note turn = conversation.turn [where ask = ?ask, OF q]
  have m: "(ucast m :: u64) = of_nat (unat m)" by simp
  show ?case
  proof (cases "unat m < length p")
    case True
    with Cons.prems w have res: "res = written + ucast m" "s1 = s'" by (simp_all add: op_bind_def op_lift_def)
    have "perform [((pos, p), m)] = write_at (unat pos) (take (unat m) (concat (p # pieces)))"
      using True by (simp add: fun_eq_iff perform_def)
    then have "\<exists>k \<le> length (concat (p # pieces)). res = written + of_nat k \<and>
        perform [((pos, p), m)] = write_at (unat pos) (take k (concat (p # pieces))) \<and>
        (complete [((pos, p), m)] \<longrightarrow> k = length (concat (p # pieces)))"
      using True by (intro exI [of _ "unat m"]) (simp add: res(1))
    with turn [OF conversation.silence] res(2) show ?thesis by (intro exI [of _ "[((pos, p), m)]"]) (use True in auto)
  next
    case False
    with Cons.prems w have "pwrite_loop be f pieces (written + ucast m) (pos + ucast m) s1 = Some (Ok res, s')"
      by (simp add: op_bind_def)
    from Cons.IH [OF this] obtain c where c: "conversation ?ask s1 c s'" "writes_asked (pos + ucast m) pieces c"
      "within c \<and> unat (pos + ucast m) + length (concat pieces) < 2 ^ 64 \<longrightarrow> (\<exists>k \<le> length (concat pieces).
        res = written + ucast m + of_nat k \<and> perform c = write_at (unat (pos + ucast m)) (take k (concat pieces)) \<and>
        (complete c \<longrightarrow> k = length (concat pieces)))" by blast
    have "\<exists>k \<le> length (concat (p # pieces)). res = written + of_nat k \<and>
        perform (((pos, p), m) # c) = write_at (unat pos) (take k (concat (p # pieces))) \<and>
        (complete (((pos, p), m) # c) \<longrightarrow> k = length (concat (p # pieces)))"
      if "within (((pos, p), m) # c)" and fits: "unat pos + length (concat (p # pieces)) < 2 ^ 64"
    proof -
      have full: "unat m = length p" using that(1) False by simp
      have pos: "unat (pos + ucast m) = unat pos + length p"
        using fits full unfolding m unat_word_ariths(1) by (simp add: unsigned_of_nat take_bit_nat_eq_self)
      have "within c \<and> unat (pos + ucast m) + length (concat pieces) < 2 ^ 64" using that(1) fits by (simp add: pos)
      with c(3) obtain k where k: "k \<le> length (concat pieces)" "res = written + ucast m + of_nat k"
        "perform c = write_at (unat pos + length p) (take k (concat pieces))"
        "complete c \<longrightarrow> k = length (concat pieces)" unfolding pos by blast
      have "perform (((pos, p), m) # c) = write_at (unat pos) (take (length p + k) (concat (p # pieces)))"
        using full by (simp add: fun_eq_iff perform_Cons k(3) write_at_append)
      with k(1,2,4) full m show ?thesis by (intro exI [of _ "length p + k"]) (simp add: add.assoc)
    qed
    moreover have "writes_asked pos (p # pieces) (((pos, p), m) # c)" using False c(2) by simp
    ultimately show ?thesis using turn [OF c(1)] by (intro exI [of _ "((pos, p), m) # c"]) blast
  qed
qed

subsection \<open>The exchanges of an NFSv3 context\<close>

text \<open>
  C19: what \<open>pread\<close> of an NFSv3 context returns is the file that the server showed. Its \<open>READ\<close>s are made one after the
  other on the handle of the file, each from where the data so far ends and for at most the preferred size; whenever their answers were pieces of some content, each at its offset, within its
  count, not empty and not marked as the end before the end, the result is exactly the range of that content that
  was asked for.
\<close>

theorem v3_pread_exchange:
  assumes "cx_pread (v3_context pid root) f offset count s = Some (Ok out, s')" "0 < v3_rsize (fst s)"
  shows "\<exists>c. conversation (\<lambda>(off, n). on_nfs (nfs3_read (mk_fh (of_fh f)) off n)) s c s' \<and>
    reads_asked (ucast (v3_rsize (fst s))) offset count (map (\<lambda>(q, res). (q, ro_data res, ro_eof res)) c) \<and>
    (\<forall>content. length content < 2 ^ 64 \<and> (\<forall>(q, res) \<in> set c. file_piece content (q, ro_data res, ro_eof res)) \<longrightarrow>
      out = take (unat count) (drop (unat offset) content))"
proof -
  let ?chunk = "ucast (v3_rsize (fst s)) :: u64"
  have chunk: "0 < ?chunk" "unat ?chunk < 2 ^ 32"
    using assms(2) unsigned_less [where 'a = nat, of "v3_rsize (fst s)"]
    by (simp_all add: word_less_nat_alt unsigned_ucast_eq take_bit_nat_eq_self)
  from assms(1) have "pread_loop (v3_backend pid) f ?chunk [] offset count s = Some (Ok out, s')"
    by (cases s) (simp add: cx_pread_def v3_context_def v3_backend_def)
  from pread_loop_exchange [OF this chunk] obtain c where
    c: "conversation (\<lambda>(off, n). v3_pread f off n) s c s'" "reads_asked ?chunk offset count c" "\<forall>content. length content < 2 ^ 64 \<and>
      list_all (file_piece content) c \<longrightarrow> out = take (unat count) (drop (unat offset) content)" by auto
  have "(\<lambda>(off, n). v3_pread f off n) = (\<lambda>q. op_bind ((\<lambda>(off, n). on_nfs (nfs3_read (mk_fh (of_fh f)) off n)) q)
      (\<lambda>res. op_lift (Ok (ro_data res, ro_eof res))))" by (simp add: fun_eq_iff v3_pread_def)
  from conversation_view [OF c(1) [unfolded this]] obtain d where
    d: "conversation (\<lambda>(off, n). on_nfs (nfs3_read (mk_fh (of_fh f)) off n)) s d s'"
      "c = map (\<lambda>(q, res). (q, ro_data res, ro_eof res)) d" by blast
  from c(2,3) d show ?thesis by (intro exI [of _ d]) (auto simp: list_all_iff case_prod_beta)
qed

text \<open>
  C20: what \<open>pwrite\<close> of an NFSv3 context reports is what the server was given. Its \<open>WRITE\<close>s carry the data in order in
  pieces of the preferred size, each where the bytes stored so far end; when no answer claims more than it was sent, performing them as far as they were answered puts exactly
  the first \<open>n\<close> bytes of the data at the offset, where \<open>n\<close> is the count returned, and \<open>n\<close> is the
  whole length when all were answered in full.
\<close>

theorem v3_pwrite_exchange:
  assumes "cx_pwrite (v3_context pid root) f offset data s = Some (Ok n, s')" "unat offset + length data < 2 ^ 64"
  shows "\<exists>c. conversation (\<lambda>(off, piece). on_nfs (nfs3_write (mk_fh (of_fh f)) off UNSTABLE piece)) s c s' \<and>
    writes_asked offset (chunk_list (unat (v3_wsize (fst s))) data) (map (\<lambda>(q, res). (q, wo_count res)) c) \<and>
    ((\<forall>((off, piece), res) \<in> set c. unat (wo_count res) \<le> length piece) \<longrightarrow> unat n \<le> length data \<and>
      (\<forall>content. perform (map (\<lambda>(q, res). (q, wo_count res)) c) content
        = write_at (unat offset) (take (unat n) data) content) \<and>
      ((\<forall>((off, piece), res) \<in> set c. unat (wo_count res) = length piece) \<longrightarrow> unat n = length data))"
proof -
  let ?chunk = "unat (v3_wsize (fst s))"
  have "0 < ?chunk" "pwrite_loop (v3_backend pid) f (chunk_list ?chunk data) 0 offset s = Some (Ok n, s')"
    using assms(1) by (cases s; auto simp: cx_pwrite_def v3_context_def v3_backend_def Let_def split: if_splits)+
  note run = pwrite_loop_exchange [OF this(2), unfolded concat_chunk_list [OF this(1)] v3_backend_sel add_0]
  from run assms(2) obtain c where
    c: "conversation (\<lambda>(off, piece). v3_pwrite f off piece) s c s'" "writes_asked offset (chunk_list ?chunk data) c" "within c \<longrightarrow> (\<exists>k \<le> length data. n = of_nat k \<and>
      perform c = write_at (unat offset) (take k data) \<and> (complete c \<longrightarrow> k = length data))" by blast
  have "(\<lambda>(off, piece). v3_pwrite f off piece) = (\<lambda>q. op_bind ((\<lambda>(off, piece).
      on_nfs (nfs3_write (mk_fh (of_fh f)) off UNSTABLE piece)) q) (\<lambda>res. op_lift (Ok (wo_count res))))"
    by (simp add: fun_eq_iff v3_pwrite_def)
  from conversation_view [OF c(1) [unfolded this]] obtain d where
    d: "conversation (\<lambda>(off, piece). on_nfs (nfs3_write (mk_fh (of_fh f)) off UNSTABLE piece)) s d s'"
      "c = map (\<lambda>(q, res). (q, wo_count res)) d" by blast
  have *: "within c \<longleftrightarrow> (\<forall>((off, piece), res) \<in> set d. unat (wo_count res) \<le> length piece)"
    "complete c \<longleftrightarrow> (\<forall>((off, piece), res) \<in> set d. unat (wo_count res) = length piece)"
    by (auto simp: d(2))
  have "unat (of_nat k :: u64) = k" if "k \<le> length data" for k
    using that assms(2) by (simp add: unsigned_of_nat take_bit_nat_eq_self)
  with c(3) have "within c \<longrightarrow> unat n \<le> length data \<and> (\<forall>content. perform c content
      = write_at (unat offset) (take (unat n) data) content) \<and> (complete c \<longrightarrow> unat n = length data)" by fastforce
  with c(2) d show ?thesis unfolding * by (intro exI [of _ d]) simp
qed

subsection \<open>Examples\<close>

definition ex_read :: ReadOk where
  "ex_read = \<lparr>ro_file_attributes = None, ro_count = 3, ro_eof = False, ro_data = [2, 3, 4]\<rparr>"

lemma ex_read_run:
  "\<exists>bs s'. on_nfs (nfs3_read (mk_fh [3]) 1 3) (ex_v3, ex_served (ex_client Udp) (w4 0 @ bs)) = Some (Ok ex_read, s') \<and>
    cx_pread (v3_context 7 [1]) ex_file 1 3 (ex_v3, ex_served (ex_client Udp) (w4 0 @ bs)) = Some (Ok [2, 3, 4], s')"
proof -
  have "\<exists>bs. encode_ReadOk ex_read [] = Ok bs \<and> length (w4 0 @ bs) \<le> 2 ^ 20"
    by (simp add: ex_read_def encode_ReadOk_def enc_eval)
  then obtain bs where bs: "encode_ReadOk ex_read [] = Ok bs" "length (w4 0 @ bs) \<le> 2 ^ 20" by blast
  have "\<exists>ab. encode_ReadArgs \<lparr>ra_file = mk_fh [3], ra_offset = 1, ra_count = 3\<rparr> [] = Ok ab \<and> length ab \<le> 2 ^ 20"
    by (simp add: mk_fh_def encode_ReadArgs_def encode_NfsFh3_def enc_eval encode_access_def)
  from nfs3_call_served [OF xdr_ReadArgs(2) this wire_rt_ReadOk bs, of PROC_READ]
  obtain c' n' where "nfs3_read (mk_fh [3]) 1 3 (ex_client Udp, ex_served (ex_client Udp) (w4 0 @ bs)) = Some (Ok ex_read, c', n')"
    unfolding nfs3_read_def by blast
  then have read: "on_nfs (nfs3_read (mk_fh [3]) 1 3) (ex_v3, ex_served (ex_client Udp) (w4 0 @ bs))
      = Some (Ok ex_read, ex_v3\<lparr>v3_nfs := c'\<rparr>, n')" by (simp add: on_nfs_def ex_v3_def)
  then have "v3_pread ex_file 1 3 (ex_v3, ex_served (ex_client Udp) (w4 0 @ bs))
      = Some (Ok ([2, 3, 4], False), ex_v3\<lparr>v3_nfs := c'\<rparr>, n')"
    by (simp add: v3_pread_def ex_file_def op_bind_def op_lift_def ex_read_def)
  then have "cx_pread (v3_context 7 [1]) ex_file 1 3 (ex_v3, ex_served (ex_client Udp) (w4 0 @ bs))
      = Some (Ok [2, 3, 4], ex_v3\<lparr>v3_nfs := c'\<rparr>, n')"
    by (simp add: cx_pread_def v3_context_def v3_backend_def pread_loop.simps ex_v3_def)
  with read show ?thesis by blast
qed

theorem v3_pread_exchange_example:
  "\<exists>bs s' c. cx_pread (v3_context 7 [1]) ex_file 1 3 (ex_v3, ex_served (ex_client Udp) (w4 0 @ bs)) = Some (Ok [2, 3, 4], s') \<and>
    conversation (\<lambda>(off, n). on_nfs (nfs3_read (mk_fh (of_fh ex_file)) off n)) (ex_v3, ex_served (ex_client Udp) (w4 0 @ bs)) c s' \<and>
    (\<forall>(q, res) \<in> set c. file_piece [1, 2, 3, 4, 5] (q, ro_data res, ro_eof res)) \<and>
    [2, 3, 4] = take (unat (3 :: u64)) (drop (unat (1 :: u64)) [1, 2, 3, 4, 5 :: u8])"
proof -
  let ?ask = "\<lambda>(off, n). on_nfs (nfs3_read (mk_fh (of_fh ex_file)) off n)"
  from ex_read_run obtain bs s' where r: "on_nfs (nfs3_read (mk_fh [3]) 1 3) (ex_v3, ex_served (ex_client Udp) (w4 0 @ bs))
      = Some (Ok ex_read, s')"
    and run: "cx_pread (v3_context 7 [1]) ex_file 1 3 (ex_v3, ex_served (ex_client Udp) (w4 0 @ bs)) = Some (Ok [2, 3, 4], s')"
    by blast
  have pref: "0 < v3_rsize (fst (ex_v3, ex_served (ex_client Udp) (w4 0 @ bs)))" by (simp add: ex_v3_def)
  from v3_pread_exchange [OF run pref] obtain c where c: "conversation ?ask (ex_v3, ex_served (ex_client Udp) (w4 0 @ bs)) c s'"
    "reads_asked 4096 1 3 (map (\<lambda>(q, res). (q, ro_data res, ro_eof res)) c)"
    "\<forall>content. length content < 2 ^ 64 \<and> (\<forall>(q, res) \<in> set c. file_piece content (q, ro_data res, ro_eof res)) \<longrightarrow>
      [2, 3, 4] = take (unat (3 :: u64)) (drop (unat (1 :: u64)) content)" by (auto simp: ex_v3_def)
  from c(2) obtain n res rest where q: "c = ((1, n), res) # rest" "unat n = 3"
    by (cases c) (auto split: prod.splits simp: Let_def)
  from q(2) have "n = 3" by (simp add: word_unat_eq_iff)
  with c(1) r q(1) have "res = ex_read" by (auto elim!: conversation_ConsE simp: ex_file_def)
  with c(2) q have "rest = []" by (cases rest) (auto simp: ex_read_def Let_def split: prod.splits)
  with q \<open>res = ex_read\<close> \<open>n = 3\<close> have h: "\<forall>(q, res) \<in> set c. file_piece [1, 2, 3, 4, 5] (q, ro_data res, ro_eof res)"
    by (auto simp: file_piece_def ex_read_def intro!: exI [of _ 3])
  with c(3) have "[2, 3, 4] = take (unat (3 :: u64)) (drop (unat (1 :: u64)) [1, 2, 3, 4, 5 :: u8])" by fastforce
  with run c(1) h show ?thesis by blast
qed

definition ex_written :: WriteOk where
  "ex_written = \<lparr>wo_file_wcc = \<lparr>wd_before = None, wd_after = None\<rparr>, wo_count = 2, wo_committed = 0, wo_verf = replicate 8 0\<rparr>"

lemma ex_write_run:
  "\<exists>bs s'. on_nfs (nfs3_write (mk_fh [3]) 1 UNSTABLE [8, 9]) (ex_v3, ex_served (ex_client Udp) (w4 0 @ bs))
      = Some (Ok ex_written, s') \<and>
    cx_pwrite (v3_context 7 [1]) ex_file 1 [8, 9] (ex_v3, ex_served (ex_client Udp) (w4 0 @ bs)) = Some (Ok 2, s')"
proof -
  have "\<exists>bs. encode_WriteOk ex_written [] = Ok bs \<and> length (w4 0 @ bs) \<le> 2 ^ 20"
    by (simp add: ex_written_def encode_WriteOk_def encode_WccData_def enc_eval)
  then obtain bs where bs: "encode_WriteOk ex_written [] = Ok bs" "length (w4 0 @ bs) \<le> 2 ^ 20" by blast
  have "\<exists>ab. encode_WriteArgs \<lparr>wr_file = mk_fh [3], wr_offset = 1, wr_count = of_nat (length [8, 9 :: u8]), wr_stable = UNSTABLE,
      wr_data = [8, 9]\<rparr> [] = Ok ab \<and> length ab \<le> 2 ^ 20"
    by (simp add: mk_fh_def encode_WriteArgs_def encode_NfsFh3_def enc_eval encode_access_def)
  moreover have "ok_WriteOk ex_written" by (simp add: ex_written_def ok_WriteOk_def)
  ultimately obtain c' n' where
    "nfs3_write (mk_fh [3]) 1 UNSTABLE [8, 9] (ex_client Udp, ex_served (ex_client Udp) (w4 0 @ bs)) = Some (Ok ex_written, c', n')"
    unfolding nfs3_write_def using nfs3_call_served [OF xdr_WriteArgs(2) _ wire_rt_WriteOk bs, of _ PROC_WRITE] by blast
  then have w: "on_nfs (nfs3_write (mk_fh [3]) 1 UNSTABLE [8, 9]) (ex_v3, ex_served (ex_client Udp) (w4 0 @ bs))
      = Some (Ok ex_written, ex_v3\<lparr>v3_nfs := c'\<rparr>, n')" by (simp add: on_nfs_def ex_v3_def)
  then have "v3_pwrite ex_file 1 [8, 9] (ex_v3, ex_served (ex_client Udp) (w4 0 @ bs))
      = Some (Ok 2, ex_v3\<lparr>v3_nfs := c'\<rparr>, n')"
    by (simp add: v3_pwrite_def ex_file_def op_bind_def op_lift_def ex_written_def)
  then have "cx_pwrite (v3_context 7 [1]) ex_file 1 [8, 9] (ex_v3, ex_served (ex_client Udp) (w4 0 @ bs))
      = Some (Ok 2, ex_v3\<lparr>v3_nfs := c'\<rparr>, n')"
    by (simp add: cx_pwrite_def v3_context_def v3_backend_def ex_v3_def chunk_list.simps op_bind_def)
  with w show ?thesis by blast
qed

theorem v3_pwrite_exchange_example:
  "\<exists>bs s' c. cx_pwrite (v3_context 7 [1]) ex_file 1 [8, 9] (ex_v3, ex_served (ex_client Udp) (w4 0 @ bs)) = Some (Ok 2, s') \<and>
    conversation (\<lambda>(off, piece). on_nfs (nfs3_write (mk_fh (of_fh ex_file)) off UNSTABLE piece))
      (ex_v3, ex_served (ex_client Udp) (w4 0 @ bs)) c s' \<and>
    (\<forall>((off, piece), res) \<in> set c. unat (wo_count res) \<le> length piece) \<and>
    (\<forall>content. perform (map (\<lambda>(q, res). (q, wo_count res)) c) content = write_at 1 [8, 9] content)"
proof -
  let ?ask = "\<lambda>(off, piece). on_nfs (nfs3_write (mk_fh (of_fh ex_file)) off UNSTABLE piece)"
  from ex_write_run obtain bs s' where
    r: "on_nfs (nfs3_write (mk_fh [3]) 1 UNSTABLE [8, 9]) (ex_v3, ex_served (ex_client Udp) (w4 0 @ bs)) = Some (Ok ex_written, s')"
    and run: "cx_pwrite (v3_context 7 [1]) ex_file 1 [8, 9] (ex_v3, ex_served (ex_client Udp) (w4 0 @ bs)) = Some (Ok 2, s')"
    by blast
  have "unat (1 :: u64) + length [8, 9 :: u8] < 2 ^ 64" by simp
  note exchange = v3_pwrite_exchange [OF run this]
  have "unat (v3_wsize (fst (ex_v3, n))) = 4096" for n :: net by (simp add: ex_v3_def)
  from exchange [unfolded this] obtain c where c: "conversation ?ask (ex_v3, ex_served (ex_client Udp) (w4 0 @ bs)) c s'"
    "writes_asked 1 (chunk_list 4096 [8, 9]) (map (\<lambda>(q, res). (q, wo_count res)) c)"
    "(\<forall>((off, piece), res) \<in> set c. unat (wo_count res) \<le> length piece) \<longrightarrow> (\<forall>content.
      perform (map (\<lambda>(q, res). (q, wo_count res)) c) content = write_at (unat (1 :: u64)) (take (unat (2 :: u64)) [8, 9]) content)"
    by blast
  from c(2) obtain res rest where q: "c = ((1, [8, 9]), res) # rest"
    by (cases c) (auto simp: chunk_list.simps split: prod.splits)
  with c(1) r have "res = ex_written" by (auto elim!: conversation_ConsE simp: ex_file_def)
  with c(2) q have "rest = []" by (cases rest) (auto simp: ex_written_def chunk_list.simps split: prod.splits)
  with q \<open>res = ex_written\<close> have h: "\<forall>((off, piece), res) \<in> set c. unat (wo_count res) \<le> length piece"
    by (simp add: ex_written_def)
  with c(3) have "\<forall>content. perform (map (\<lambda>(q, res). (q, wo_count res)) c) content = write_at 1 [8, 9] content" by simp
  with run c(1) h show ?thesis by blast
qed

end
