(* ===== verification/VFS_Whole.thy ===== *)
theory VFS_Whole
  imports VFS_Transfer
begin

text \<open>
  Whole files (\<open>write_whole\<close> and \<open>read_whole\<close> of \<open>nfs-client/src/context.rs\<close>): what is written
  under a path is what is read back from it. The specification of the server is a file system with
  directories, links and contents, which the operations of the backend read and change.
\<close>

subsection \<open>A server of files\<close>

record files =
  fl_dir :: "ObjId \<Rightarrow> string \<Rightarrow> ObjId option"
  fl_link :: "ObjId \<Rightarrow> string option"
  fl_data :: "ObjId \<Rightarrow> bytes"

definition put_data :: "ObjId \<Rightarrow> bytes \<Rightarrow> files \<Rightarrow> files" where
  "put_data fh data v = v\<lparr>fl_data := (fl_data v)(fh := data)\<rparr>"

definition put_entry :: "ObjId \<Rightarrow> string \<Rightarrow> ObjId \<Rightarrow> files \<Rightarrow> files" where
  "put_entry d name fh v = v\<lparr>fl_dir := (fl_dir v)(d := (fl_dir v d)(name \<mapsto> fh))\<rparr>"

text \<open>
  The answers that do not change the files: lookups, links, attributes, reads, commits and closes.
  A write or a read may be cut short.
\<close>

definition answers :: "'s Backend \<Rightarrow> ('s \<Rightarrow> files) \<Rightarrow> bool" where
  "answers be view \<longleftrightarrow>
     (\<forall>d name s. \<exists>r s'. b_lookup be d name s = Some (r, s') \<and> view s' = view s \<and>
        (case fl_dir (view s) d name of
           None \<Rightarrow> r = Err NotFound
         | Some fh \<Rightarrow> \<exists>attr. r = Ok (fh, attr) \<and> (is_symlink attr \<longleftrightarrow> fl_link (view s) fh \<noteq> None))) \<and>
     (\<forall>fh target s. fl_link (view s) fh = Some target \<longrightarrow>
        (\<exists>s'. b_readlink be fh s = Some (Ok target, s') \<and> view s' = view s)) \<and>
     (\<forall>fh s. \<exists>attr s'. b_getattr be fh s = Some (Ok attr, s') \<and> view s' = view s \<and>
        at_size attr = of_nat (length (fl_data (view s) fh))) \<and>
     (\<forall>f v. serves_file_in (\<lambda>s. view s = v) be f (fl_data v (of_fh f))) \<and>
     (\<forall>f s. \<exists>r s'. b_commit be f s = Some (r, s') \<and> r \<noteq> Panic \<and> view s' = view s) \<and>
     (\<forall>f s. \<exists>s'. b_close be f s = Some (Ok (), s') \<and> view s' = view s)"

definition changes :: "'s Backend \<Rightarrow> ('s \<Rightarrow> files) \<Rightarrow> bool" where
  "changes be view \<longleftrightarrow>
     (\<forall>d name opts s fh. fl_dir (view s) d name = Some fh \<longrightarrow> \<not> oo_exclusive opts \<longrightarrow>
        (\<exists>f s'. b_open be d name opts s = Some (Ok f, s') \<and> of_fh f = fh \<and> view s' = view s)) \<and>
     (\<forall>d name opts s f s'. fl_dir (view s) d name = None \<longrightarrow> b_open be d name opts s = Some (Ok f, s') \<longrightarrow>
        fl_link (view s) (of_fh f) = None \<and> view s' = put_data (of_fh f) [] (put_entry d name (of_fh f) (view s))) \<and>
     (\<forall>fh s s'. b_setattr be fh (default_SetAttr\<lparr>se_size := Some 0\<rparr>) s = Some (Ok (), s') \<longrightarrow>
        view s' = put_data fh [] (view s)) \<and>
     (\<forall>f off data s. length data < 2 ^ 32 \<longrightarrow> (\<exists>n s'. b_pwrite be f off data s = Some (Ok n, s') \<and>
        unat n \<le> length data \<and> view s' = put_data (of_fh f)
          (write_at (unat off) (take (unat n) data) (fl_data (view s) (of_fh f))) (view s)))"

definition file_server :: "'s Backend \<Rightarrow> ('s \<Rightarrow> files) \<Rightarrow> bool" where
  "file_server be view \<longleftrightarrow> answers be view \<and> changes be view"

lemma answers_lookup:
  assumes "answers be view"
  shows "\<exists>r s'. b_lookup be d name s = Some (r, s') \<and> view s' = view s \<and>
    (case fl_dir (view s) d name of
       None \<Rightarrow> r = Err NotFound
     | Some fh \<Rightarrow> \<exists>attr. r = Ok (fh, attr) \<and> (is_symlink attr \<longleftrightarrow> fl_link (view s) fh \<noteq> None))"
  using assms unfolding answers_def by blast

lemma put_data_sel [simp]:
  "fl_dir (put_data fh data v) = fl_dir v" "fl_link (put_data fh data v) = fl_link v"
  "fl_data (put_data fh data v) g = (if g = fh then data else fl_data v g)"
  "put_data fh a (put_data fh b v) = put_data fh a v"
  by (simp_all add: put_data_def)

lemma put_entry_sel [simp]:
  "fl_dir (put_entry d name fh v) e x = (if e = d \<and> x = name then Some fh else fl_dir v e x)"
  "fl_link (put_entry d name fh v) = fl_link v" "fl_data (put_entry d name fh v) = fl_data v"
  by (simp_all add: put_entry_def)

subsection \<open>Path resolution while files are added\<close>

definition extends :: "files \<Rightarrow> files \<Rightarrow> bool" where
  "extends v w \<longleftrightarrow> fl_link w = fl_link v \<and> (\<forall>d. fl_dir v d \<subseteq>\<^sub>m fl_dir w d)"

lemma extends_lookup:
  assumes "answers be view" "b_lookup be d name s = Some (Ok (g, attr), s1)" "extends (view s) (view t)"
  shows "\<exists>t1 attr'. b_lookup be d name t = Some (Ok (g, attr'), t1) \<and> is_symlink attr' = is_symlink attr \<and>
    view s1 = view s \<and> view t1 = view t \<and> (is_symlink attr \<longleftrightarrow> fl_link (view s1) g \<noteq> None)"
proof -
  from answers_lookup [OF assms(1), of d name s] assms(2)
  have s: "view s1 = view s" "fl_dir (view s) d name = Some g" "is_symlink attr \<longleftrightarrow> fl_link (view s) g \<noteq> None"
    by (auto split: option.splits)
  then have "fl_dir (view t) d name = Some g"
    using assms(3) unfolding extends_def map_le_def by (metis domI)
  with answers_lookup [OF assms(1), of d name t] assms(3) s show ?thesis by (auto simp: extends_def)
qed

lemma extends_readlink:
  assumes "answers be view" "b_readlink be g s = Some (Ok target, s1)" "fl_link (view s) g \<noteq> None"
    and "extends (view s) (view t)"
  shows "\<exists>t1. b_readlink be g t = Some (Ok target, t1) \<and> view s1 = view s \<and> view t1 = view t"
proof -
  have read: "\<exists>s'. b_readlink be g s = Some (Ok x, s') \<and> view s' = view s" if "fl_link (view s) g = Some x" for x s
    using assms(1) that unfolding answers_def by blast
  from assms(3) read [of s] assms(2) have "fl_link (view s) g = Some target" "view s1 = view s" by auto
  with read [of t] assms(4) show ?thesis by (auto simp: extends_def)
qed

lemma resolve_loop_extends:
  assumes a: "answers (cx_backend cx) view" and "resolve_loop cx follow cur comps depth s = Some (Ok fh, s')" "extends (view s) (view t)"
  shows "view s' = view s \<and> (\<exists>t'. resolve_loop cx follow cur comps depth t = Some (Ok fh, t') \<and> view t' = view t)"
  using assms(2,3) unfolding resolve_loop_iff [of cx follow cur comps depth s]
proof (induction cur comps depth s "Ok fh :: (ObjId, NfsError) result" s' arbitrary: t rule: resolves.induct)
  case (down name cur s g attr s1 rest depth s')
  from extends_lookup [OF a down.hyps(2) down.prems] obtain t1 attr' where
    t: "b_lookup (cx_backend cx) cur name t = Some (Ok (g, attr'), t1)" "is_symlink attr' = is_symlink attr"
      "view s1 = view s" "view t1 = view t" by blast
  from down.hyps(5) [of t1] down.prems t(3,4) down.hyps(3) resolve_loop_step(6) [OF down.hyps(1) t(1), of follow rest depth]
  show ?case by (auto simp: follows_def t(2))
next
  case (link name cur s g attr s1 rest depth target s2 s')
  from extends_lookup [OF a link.hyps(2) link.prems] obtain t1 attr' where
    t: "b_lookup (cx_backend cx) cur name t = Some (Ok (g, attr'), t1)" "is_symlink attr' = is_symlink attr"
      "view s1 = view s" "view t1 = view t" "is_symlink attr \<longleftrightarrow> fl_link (view s1) g \<noteq> None" by blast
  from link.hyps(3) t(5) have "fl_link (view s1) g \<noteq> None" by (simp add: follows_def)
  then obtain t2 where t2: "b_readlink (cx_backend cx) g t1 = Some (Ok target, t2)" "view s2 = view s1" "view t2 = view t1"
    using extends_readlink [OF a link.hyps(5), of t1] link.prems t(3,4) by auto
  from link.hyps(7) [of t2] link.prems t(3,4) t2 link.hyps(3,4) resolve_loop_step(6) [OF link.hyps(1) t(1), of follow rest depth]
  show ?case by (auto simp: follows_def t(2) op_bind_def)
qed (auto simp: resolve_loop_step)

lemma resolve_loop_append:
  assumes "ys \<noteq> []" "resolve_loop cx True cur xs depth s = Some (Ok dir, s')"
  shows "\<exists>depth'. resolve_loop cx follow cur (xs @ ys) depth s = resolve_loop cx follow dir ys depth' s'"
  using assms(2) unfolding resolve_loop_iff
proof (induction cur xs depth s "Ok dir :: (ObjId, NfsError) result" s' rule: resolves.induct)
  case (down name cur s child attr s1 rest depth s')
  then show ?case using assms(1) by (simp add: resolve_loop_step(6) follows_def)
next
  case (link name cur s child attr s1 rest depth target s2 s')
  then show ?case using assms(1) by (simp add: resolve_loop_step(6) follows_def op_bind_def)
qed (auto simp: resolve_loop_step)

lemma parent_then_name:
  assumes "resolve_parent cx path s = Some (Ok (dir, name), s1)" "name \<noteq> ''.''"
    and "b_lookup (cx_backend cx) dir name s1 = Some (Ok (fh, attr), s2)" "\<not> is_symlink attr"
  shows "resolve cx path follow s = Some (Ok fh, s2)"
proof -
  let ?comps = "split_components path"
  have ne: "?comps \<noteq> []" using assms(1) by (auto simp: resolve_parent_def op_lift_def)
  from assms(1) have run: "resolve_loop cx True (cx_root cx) (butlast ?comps) 0 s = Some (Ok dir, s1)"
    and name: "name = last ?comps"
    by (auto simp: resolve_parent_eq [OF ne] op_bind_eq op_lift_def)
  have "?comps = butlast ?comps @ [name]" using ne name by simp
  with resolve_loop_append [OF _ run, of "[name]" follow] obtain d where
    "resolve cx path follow s = resolve_loop cx follow dir [name] d s1"
    unfolding resolve_def by (metis list.distinct(1))
  with assms(2-4) show ?thesis by (simp add: resolve_loop_step follows_def)
qed

lemma resolve_parent_extends:
  assumes "answers (cx_backend cx) view" "extends (view s) (view t)"
    and "resolve_parent cx path s = Some (Ok (dir, name), s1)"
  shows "view s1 = view s \<and> (\<exists>t1. resolve_parent cx path t = Some (Ok (dir, name), t1) \<and> view t1 = view t)"
proof -
  have ne: "split_components path \<noteq> []" using assms(3) by (auto simp: resolve_parent_def op_lift_def)
  from assms(3) have run: "resolve_loop cx True (cx_root cx) (butlast (split_components path)) 0 s = Some (Ok dir, s1)"
    "name = last (split_components path)"
    by (auto simp: resolve_parent_eq [OF ne] op_bind_eq op_lift_def)
  from resolve_loop_extends [OF assms(1) run(1) assms(2)] run(2) show ?thesis
    by (auto simp: resolve_parent_eq [OF ne] op_lift_def)
qed

subsection \<open>Writing and reading back\<close>

lemma pwrite_view:
  assumes "changes be view" "\<forall>p \<in> set pieces. length p < 2 ^ 32"
  shows "pwrite_loop be f pieces written pos s = Some (Ok n, s') \<Longrightarrow>
    \<exists>data. view s' = put_data (of_fh f) data (view s)"
  using assms(2)
proof (induction pieces arbitrary: written pos s)
  case Nil
  then show ?case by (auto simp: put_data_def intro: exI [of _ "fl_data (view s) (of_fh f)"])
next
  case (Cons p pieces)
  have "\<exists>m s'. b_pwrite be f pos p s = Some (Ok m, s') \<and> unat m \<le> length p \<and> view s' = put_data (of_fh f)
      (write_at (unat pos) (take (unat m) p) (fl_data (view s) (of_fh f))) (view s)"
    using assms(1) Cons.prems(2) unfolding changes_def by simp
  then obtain m s1 data where w: "b_pwrite be f pos p s = Some (Ok m, s1)" "view s1 = put_data (of_fh f) data (view s)"
    by blast
  show ?case
  proof (cases "unat m < length p")
    case True
    with w Cons.prems(1) show ?thesis by (auto simp: op_lift_def)
  next
    case False
    with w(1) Cons.prems have "pwrite_loop be f pieces (written + ucast m) (pos + ucast m) s1 = Some (Ok n, s')"
      by (simp add: Let_def)
    from Cons.IH [OF this] Cons.prems(2) w(2) show ?thesis by auto
  qed
qed

lemma changes_stores: "changes be view \<Longrightarrow> stores be f (\<lambda>s. fl_data (view s) (of_fh f))" for f
  unfolding stores_def changes_def by fastforce


lemma extends_refl [simp]: "extends v v"
  by (simp add: extends_def)

lemma extends_put [simp]: "extends v (put_data fh data w) \<longleftrightarrow> extends v w"
  by (simp add: extends_def)

lemma extends_entry: "fl_dir v d name = None \<Longrightarrow> extends v (put_entry d name fh v)"
  by (auto simp: extends_def map_le_def put_entry_def)

lemma write_at_start [simp]: "write_at 0 data [] = data"
  by (simp add: write_at_def)

text \<open>What opening a file leaves: an entry for it, with the old one kept.\<close>

lemma open_entry:
  assumes "changes be view" "b_open be dir name opts s = Some (Ok f, s')" "\<not> oo_exclusive opts"
  shows "fl_dir (view s') dir name = Some (of_fh f) \<and> extends (view s) (view s') \<and>
    (fl_dir (view s) dir name = None \<longrightarrow> fl_link (view s) (of_fh f) = None)"
proof (cases "fl_dir (view s) dir name")
  case None
  with assms(1,2) have "fl_link (view s) (of_fh f) = None"
    "view s' = put_data (of_fh f) [] (put_entry dir name (of_fh f) (view s))"
    unfolding changes_def by blast+
  with None show ?thesis by (simp add: extends_entry)
next
  case (Some fh)
  with assms have "of_fh f = fh" "view s' = view s" unfolding changes_def by fastforce+
  with Some show ?thesis by simp
qed

lemma cx_pwrite_view:
  assumes "changes (cx_backend cx) view" "no_short_writes (cx_backend cx) f" "length data < 2 ^ 64"
    and "fl_data (view s) (of_fh f) = []" "cx_pwrite cx f 0 data s = Some (Ok n, s')"
  shows "view s' = put_data (of_fh f) data (view s)"
proof -
  let ?chunk = "unat (b_pref_write (cx_backend cx) s)" and ?be = "cx_backend cx"
  let ?pieces = "chunk_list ?chunk data"
  from assms(5) have "0 < ?chunk" and run: "pwrite_loop ?be f ?pieces 0 0 s = Some (Ok n, s')"
    by (auto simp: cx_pwrite_def Let_def split: if_splits)
  have "?chunk < 2 ^ 32" using unsigned_less [where 'a = nat, of "b_pref_write ?be s"] by simp
  then have pieces: "\<forall>p \<in> set ?pieces. length p < 2 ^ 32" using chunk_list_bound by fastforce
  have all: "concat ?pieces = data" using \<open>0 < ?chunk\<close> by (rule concat_chunk_list)
  from pwrite_view [OF assms(1) pieces run] obtain new where new: "view s' = put_data (of_fh f) new (view s)"
    by blast
  moreover have "fl_data (view s') (of_fh f) = data"
    using pwrite_loop_stores [OF changes_stores [OF assms(1), of f] pieces, of 0 0 s] run assms(2,3,4) all by fastforce
  ultimately show ?thesis by simp
qed

lemma close_view:
  assumes "answers (cx_backend cx) view"
  shows "\<exists>s'. cx_close cx f s = Some (Ok (), s') \<and> view s' = view s"
proof -
  have commit: "\<exists>r s'. b_commit (cx_backend cx) f s = Some (r, s') \<and> r \<noteq> Panic \<and> view s' = view s" for s
    using assms unfolding answers_def by blast
  have close: "\<exists>s'. b_close (cx_backend cx) f s = Some (Ok (), s') \<and> view s' = view s" for s
    using assms unfolding answers_def by blast
  obtain r s1 where c: "b_commit (cx_backend cx) f s = Some (r, s1)" "r \<noteq> Panic" "view s1 = view s"
    using commit by blast
  show ?thesis
    using close [of s] close [of s1] c by (cases r) (auto simp: cx_close_def op_bind_eq op_ignore_def op_lift_def)
qed


lemma write_whole_effect:
  assumes "file_server (cx_backend cx) view" "\<forall>f. no_short_writes (cx_backend cx) f" "length data < 2 ^ 64"
    and "cx_write_whole cx path data s = Some (Ok (), s1)"
  shows "\<exists>dir name fh s0. resolve_parent cx path s = Some (Ok (dir, name), s0) \<and>
    fl_dir (view s1) dir name = Some fh \<and> fl_data (view s1) fh = data \<and> extends (view s) (view s1) \<and>
    (fl_dir (view s) dir name = None \<longrightarrow> fl_link (view s) fh = None)"
proof -
  let ?be = "cx_backend cx"
  have srv: "answers ?be view" "changes ?be view" using assms(1) by (simp_all add: file_server_def)
  from assms(4) obtain f s3 where opened: "cx_open cx path create_write s = Some (Ok f, s3)"
    and rest: "(case cx_pwrite cx f 0 data s3 of None \<Rightarrow> None | Some (res, s') \<Rightarrow> if res = Panic then Some (Panic, s')
      else op_bind (cx_close cx f) (\<lambda>_. op_lift (map_ok (\<lambda>_. ()) res)) s') = Some (Ok (), s1)"
    unfolding cx_write_whole_def cx_create_def op_bind_eq by blast
  then obtain n s4 where w: "cx_pwrite cx f 0 data s3 = Some (Ok n, s4)" and c: "cx_close cx f s4 = Some (Ok (), s1)"
    by (auto simp: op_bind_eq op_lift_def split: option.splits if_splits result.splits)
  from opened obtain dir name s0 opts s2 where parent: "resolve_parent cx path s = Some (Ok (dir, name), s0)"
    and o: "b_open ?be dir name opts s0 = Some (Ok f, s2)" "\<not> oo_exclusive opts"
    and t: "b_setattr ?be (of_fh f) (default_SetAttr\<lparr>se_size := Some 0\<rparr>) s2 = Some (Ok (), s3)"
    by (auto simp: cx_open_def op_bind_eq op_lift_def create_write_def read_only_def Let_def)
  have "view s0 = view s" using resolve_parent_extends [OF srv(1) extends_refl parent] by simp
  moreover have v3: "view s3 = put_data (of_fh f) [] (view s2)" using srv(2) t unfolding changes_def by blast
  moreover have "view s4 = put_data (of_fh f) data (view s3)"
    using cx_pwrite_view [OF srv(2) _ assms(3) _ w] assms(2) v3 by simp
  moreover have "view s1 = view s4" using close_view [OF srv(1), of f s4] c by auto
  ultimately show ?thesis using open_entry [OF srv(2) o] parent by auto
qed

lemma read_whole_content:
  assumes "file_server (cx_backend cx) view" "\<forall>s. 0 < b_pref_read (cx_backend cx) s"
    and "resolve_parent cx path s = Some (Ok (dir, name), s0)" "name \<noteq> ''.''"
    and "fl_dir (view s) dir name = Some fh" "fl_link (view s) fh = None" "length (fl_data (view s) fh) < 2 ^ 64"
  shows "\<exists>s'. cx_read_whole cx path s = Some (Ok (fl_data (view s) fh), s') \<and> view s' = view s"
proof -
  let ?be = "cx_backend cx" and ?v = "view s"
  have srv: "answers ?be view" "changes ?be view" using assms(1) by (simp_all add: file_server_def)
  have v0: "view s0 = ?v" using resolve_parent_extends [OF srv(1) extends_refl assms(3)] by simp
  obtain attr1 s1 where l: "b_lookup ?be dir name s0 = Some (Ok (fh, attr1), s1)" "view s1 = ?v"
    "\<not> is_symlink attr1" using answers_lookup [OF srv(1), of dir name s0] assms(5,6) v0 by auto
  obtain attr s2 where g: "b_getattr ?be fh s1 = Some (Ok attr, s2)" "view s2 = ?v"
    "at_size attr = of_nat (length (fl_data ?v fh))"
    using srv(1) l(2) unfolding answers_def by metis
  have stat: "cx_stat cx path s = Some (Ok attr, s2)"
    using parent_then_name [OF assms(3,4) l(1,3)] g(1) by (simp add: cx_stat_def)
  obtain s3 where parent: "resolve_parent cx path s2 = Some (Ok (dir, name), s3)" "view s3 = ?v"
    using resolve_parent_extends [OF srv(1) _ assms(3), of s2] g(2) by auto
  let ?opts = "\<lparr>oo_write = False, oo_create = False, oo_exclusive = False, oo_mode = 420\<rparr>"
  have "\<exists>f s'. b_open ?be dir name ?opts s3 = Some (Ok f, s') \<and> of_fh f = fh \<and> view s' = view s3"
    using srv(2) assms(5) parent(2) unfolding changes_def by (metis OpenOpts.select_convs(3))
  then obtain f s4 where o: "b_open ?be dir name ?opts s3 = Some (Ok f, s4)" "of_fh f = fh" "view s4 = ?v"
    using parent(2) by auto
  have opened: "cx_open cx path read_only s2 = Some (Ok f, s4)"
    using parent(1) o(1) by (simp add: cx_open_def read_only_def op_lift_def)
  let ?chunk = "ucast (b_pref_read ?be s4) :: u64"
  have chunk: "0 < ?chunk" "unat ?chunk < 2 ^ 32" 
    using assms(2) unsigned_less [where 'a = nat, of "b_pref_read ?be s4"]
    by (simp_all add: word_less_nat_alt unsigned_ucast_eq take_bit_nat_eq_self)
  have "serves_file_in (\<lambda>s. view s = ?v) ?be f (fl_data ?v fh)"
    using srv(1) o(2) unfolding answers_def by blast
  from pread_loop_content [OF this assms(7) chunk o(3), of "[]" 0 "at_size attr"]
  obtain s5 where r: "cx_pread cx f 0 (at_size attr) s4 = Some (Ok (fl_data ?v fh), s5)" "view s5 = ?v"
    using g(3) assms(7) by (auto simp: cx_pread_def unsigned_of_nat take_bit_nat_eq_self)
  obtain s6 where c: "cx_close cx f s5 = Some (Ok (), s6)" "view s6 = ?v"
    using close_view [OF srv(1), of f s5] r(2) by auto
  have "op_ignore (cx_close cx f) s5 = Some (Ok (), s6)" using c(1) by (simp add: op_ignore_def)
  with stat opened r(1) c(2) show ?thesis by (simp add: cx_read_whole_def op_lift_def)
qed



text \<open>
  The example: a server that keeps the files in memory, reads three bytes at a time and gives a new file
  its directory and name as the handle; \<open>/l\<close> is a link to the directory \<open>/d\<close>.
\<close>

definition file_attr :: "files \<Rightarrow> ObjId \<Rightarrow> Attr" where
  "file_attr v fh = (ex_attr (if fl_link v fh = None then Regular else Symlink))
     \<lparr>at_size := of_nat (length (fl_data v fh))\<rparr>"

definition memory_open :: "ObjId \<Rightarrow> string \<Rightarrow> OpenOpts \<Rightarrow> (files, OpenFile) vfs_op" where
  "memory_open d name opts v =
     (let open_file = (\<lambda>fh. \<lparr>of_fh = fh, of_stateid = None, of_writable = oo_write opts\<rparr>) in
      case fl_dir v d name of
        Some fh \<Rightarrow> if oo_exclusive opts then Some (Err AlreadyExists, v) else Some (Ok (open_file fh), v)
      | None \<Rightarrow>
          let fh = d @ map of_char name in
          if oo_create opts \<and> fl_link v fh = None
          then Some (Ok (open_file fh), put_data fh [] (put_entry d name fh v))
          else Some (Err NotFound, v))"

definition memory_backend :: "files Backend" where
  "memory_backend = blank_backend\<lparr>
     b_lookup := (\<lambda>d name v.
       Some (ok_or (map_option (\<lambda>fh. (fh, file_attr v fh)) (fl_dir v d name)) NotFound, v)),
     b_readlink := (\<lambda>fh v. Some (ok_or (fl_link v fh) InvalidArgument, v)),
     b_getattr := (\<lambda>fh v. Some (Ok (file_attr v fh), v)),
     b_open := memory_open,
     b_setattr := (\<lambda>fh at v. if se_size at = Some 0 then Some (Ok (), put_data fh [] v) else Some (Err ReadOnly, v)),
     b_pread := (\<lambda>f off count v. let k = min 3 (unat count) in
       Some (Ok (take k (drop (unat off) (fl_data v (of_fh f))), length (fl_data v (of_fh f)) \<le> unat off + k), v)),
     b_pwrite := (\<lambda>f off data v.
       if length data < 2 ^ 32
       then Some (Ok (of_nat (length data)), put_data (of_fh f) (write_at (unat off) data (fl_data v (of_fh f))) v)
       else Some (Err InvalidArgument, v))\<rparr>"

lemma memory_answers: "answers memory_backend (\<lambda>v. v)"
  unfolding answers_def
proof (intro conjI allI)
  show "serves_file_in (\<lambda>s. s = v) memory_backend f (fl_data v (of_fh f))" for f v
    unfolding serves_file_in_def
  proof (intro allI impI)
    fix off :: u64 and count :: u32 and s assume "s = v"
    then show "\<exists>k eof s'. b_pread memory_backend f off count s =
        Some (Ok (take k (drop (unat off) (fl_data v (of_fh f))), eof), s') \<and> s' = v \<and> k \<le> unat count \<and>
        (0 < count \<and> unat off < length (fl_data v (of_fh f)) \<longrightarrow> 0 < k) \<and>
        (eof \<longrightarrow> length (fl_data v (of_fh f)) \<le> unat off + k)"
      by (intro exI [of _ "min 3 (unat count)"] exI [of _ "length (fl_data v (of_fh f)) \<le> unat off + min 3 (unat count)"]
          exI [of _ v]) (simp add: memory_backend_def Let_def word_less_nat_alt)
  qed
qed (auto simp: memory_backend_def blank_backend_def file_attr_def ex_attr_def is_symlink_def op_lift_def ok_or_def
    split: option.splits)

lemma memory_changes: "changes memory_backend (\<lambda>v. v)"
  unfolding changes_def
  by (intro conjI allI impI)
    (auto simp: memory_backend_def memory_open_def default_SetAttr_def Let_def unsigned_of_nat take_bit_nat_eq_self
      split: if_splits option.splits)

lemma memory_no_short_writes: "no_short_writes memory_backend f"
  by (auto simp: no_short_writes_def memory_backend_def unsigned_of_nat take_bit_nat_eq_self split: if_splits)

definition ex_memory :: "files NfsContext" where
  "ex_memory = \<lparr>cx_backend = memory_backend, cx_root = [0]\<rparr>"

definition ex_files :: files where
  "ex_files = \<lparr>fl_dir = (\<lambda>d name. if d = [0] \<and> name = ''d'' then Some [2]
       else if d = [0] \<and> name = ''l'' then Some [1] else None),
     fl_link = (\<lambda>fh. if fh = [1] then Some ''/d'' else None), fl_data = (\<lambda>_. [])\<rparr>"


lemma ex_memory_sel [simp]:
  "cx_root ex_memory = [0]" "cx_backend ex_memory = memory_backend"
  "b_lookup memory_backend d name v =
    Some (ok_or (map_option (\<lambda>fh. (fh, file_attr v fh)) (fl_dir v d name)) NotFound, v)"
  "b_readlink memory_backend fh v = Some (ok_or (fl_link v fh) InvalidArgument, v)"
  "b_open memory_backend = memory_open" "is_symlink (file_attr v fh) \<longleftrightarrow> fl_link v fh \<noteq> None"
  by (auto simp: ex_memory_def memory_backend_def file_attr_def ex_attr_def is_symlink_def)

lemma ex_parent: "resolve_parent ex_memory ''/l/f'' ex_files = Some (Ok ([2], ''f''), ex_files)"
proof -
  have path: "split_components ''/l/f'' = [''l'', ''f'']" "split_components ''/l'' = [''l'']"
    "split_components ''/d'' = [''d'']" by (simp_all add: split_components_def)
  have "resolve_loop ex_memory True [0] [''l''] 0 ex_files = Some (Ok [2], ex_files)"
    by (simp add: resolve_loop.simps [of _ _ _ "_ # _"] resolve_loop_step ex_files_def ok_or_def MAX_SYMLINK_DEPTH_def path(3))
  then show ?thesis by (simp add: resolve_parent_def resolve_def path op_lift_def)
qed

lemma ex_write: "\<exists>s1. cx_write_whole ex_memory ''/l/f'' [7, 8, 9, 10, 11] ex_files = Some (Ok (), s1)"
proof -
  let ?f = "\<lparr>of_fh = [2, 102], of_stateid = None, of_writable = True\<rparr>"
  have empty: "fl_dir ex_files [2] ''f'' = None" "fl_link ex_files [2, 102] = None" by (simp_all add: ex_files_def)
  have opened: "\<exists>s. cx_open ex_memory ''/l/f'' create_write ex_files = Some (Ok ?f, s)"
    by (simp add: cx_open_def ex_parent create_write_def read_only_def memory_open_def op_lift_def Let_def
        memory_backend_def default_SetAttr_def empty)
  have pieces: "chunk_list 2 [7, 8, 9, 10, 11] = [[7, 8], [9, 10], [11 :: u8]]" by (simp add: chunk_list.simps)
  have written: "\<exists>n s'. cx_pwrite ex_memory ?f 0 [7, 8, 9, 10, 11] s = Some (Ok n, s')" for s
    by (simp add: cx_pwrite_def pieces memory_backend_def blank_backend_def)
  from opened obtain s where s: "cx_open ex_memory ''/l/f'' create_write ex_files = Some (Ok ?f, s)" by blast
  from written obtain n s' where w: "cx_pwrite ex_memory ?f 0 [7, 8, 9, 10, 11] s = Some (Ok n, s')" by blast
  obtain s'' where "cx_close ex_memory ?f s' = Some (Ok (), s'')"
    using close_view [of ex_memory "\<lambda>v. v" ?f s'] memory_answers by auto
  with s w show ?thesis by (simp add: cx_write_whole_def cx_create_def op_lift_def)
qed


end
