(* ===== verification/RPC_TLS.thy ===== *)
theory RPC_TLS
  imports RPC_Client
begin

text \<open>
  RPC over TLS (\<open>nfs-rpc/src/client_tls.rs\<close>): the parameters, the plain-text probe of
  RFC 9289 (\<open>starttls_probe\<close>), the configuration of the TLS session and \<open>connect_tls\<close>.

  The library \<open>rustls\<close> is an argument: the record \<open>rustls\<close> holds the answers of the functions
  the code calls, \<open>None\<close> for success and otherwise the text of the error. The TLS handshake
  happens when the stream is first used, so it belongs to the script of the network, as every
  later read and write of the stream.
\<close>

subsection \<open>Parameters\<close>

definition AUTH_TLS :: u32 where "AUTH_TLS = 7"

record TlsParams =
  tp_server_name :: string
  tp_danger_accept_invalid :: bool
  tp_root_certs_der :: "bytes list"
  tp_client_cert_der :: "bytes list"
  tp_client_key_der :: "bytes option"

definition tls_insecure :: "string \<Rightarrow> TlsParams" where
  "tls_insecure server_name = \<lparr>tp_server_name = server_name, tp_danger_accept_invalid = True,
     tp_root_certs_der = [], tp_client_cert_der = [], tp_client_key_der = None\<rparr>"

definition tls_with_roots :: "string \<Rightarrow> bytes list \<Rightarrow> TlsParams" where
  "tls_with_roots server_name roots = \<lparr>tp_server_name = server_name, tp_danger_accept_invalid = False,
     tp_root_certs_der = roots, tp_client_cert_der = [], tp_client_key_der = None\<rparr>"

definition tls_with_client_auth :: "bytes list \<Rightarrow> bytes \<Rightarrow> TlsParams \<Rightarrow> TlsParams" where
  "tls_with_client_auth cert_chain key p = p\<lparr>tp_client_cert_der := cert_chain, tp_client_key_der := Some key\<rparr>"

subsection \<open>Configuration\<close>

datatype cert_verifier = No_Verify | Verify_Roots "bytes list"

text \<open>
  \<open>danger::NoVerify\<close>: the callbacks of a verifier that accepts every certificate and every
  signature of the handshake.
\<close>

datatype SignatureScheme =
    RSA_PKCS1_SHA256 | RSA_PKCS1_SHA384 | RSA_PKCS1_SHA512 | ECDSA_NISTP256_SHA256
  | ECDSA_NISTP384_SHA384 | RSA_PSS_SHA256 | RSA_PSS_SHA384 | RSA_PSS_SHA512 | ED25519

definition verify_server_cert :: "bytes \<Rightarrow> bytes list \<Rightarrow> string \<Rightarrow> (unit, string) result" where
  "verify_server_cert end_entity intermediates server_name = Ok ()"

definition verify_tls12_signature :: "bytes \<Rightarrow> bytes \<Rightarrow> SignatureScheme \<times> bytes \<Rightarrow> (unit, string) result" where
  "verify_tls12_signature message cert dss = Ok ()"

definition verify_tls13_signature :: "bytes \<Rightarrow> bytes \<Rightarrow> SignatureScheme \<times> bytes \<Rightarrow> (unit, string) result" where
  "verify_tls13_signature message cert dss = Ok ()"

definition supported_verify_schemes :: "SignatureScheme list" where
  "supported_verify_schemes =
     [RSA_PKCS1_SHA256, RSA_PKCS1_SHA384, RSA_PKCS1_SHA512, ECDSA_NISTP256_SHA256,
      ECDSA_NISTP384_SHA384, RSA_PSS_SHA256, RSA_PSS_SHA384, RSA_PSS_SHA512, ED25519]"

text \<open>What a configuration says to a certificate chain; the verification against roots is that of rustls.\<close>

fun verify_chain ::
  "(bytes list \<Rightarrow> bytes \<Rightarrow> bytes list \<Rightarrow> string \<Rightarrow> (unit, string) result) \<Rightarrow> cert_verifier
    \<Rightarrow> bytes \<Rightarrow> bytes list \<Rightarrow> string \<Rightarrow> (unit, string) result" where
  "verify_chain webpki No_Verify cert chain name = verify_server_cert cert chain name"
| "verify_chain webpki (Verify_Roots roots) cert chain name = webpki roots cert chain name"

record ClientConfig =
  cc_verifier :: cert_verifier
  cc_client_auth :: "(bytes list \<times> bytes) option"

record rustls =
  rl_protocol_versions :: "string option"
  rl_add_root :: "bytes \<Rightarrow> string option"
  rl_private_key :: "bytes \<Rightarrow> string option"
  rl_client_auth_cert :: "bytes list \<Rightarrow> bytes \<Rightarrow> string option"
  rl_server_name :: "string \<Rightarrow> bool"
  rl_connection :: "ClientConfig \<Rightarrow> string \<Rightarrow> string option"

definition tls_err :: "string \<Rightarrow> RpcError" where
  "tls_err msg = Io (OtherKind msg)"

definition tls_result :: "string option \<Rightarrow> (unit, RpcError) result" where
  "tls_result answer = (case answer of None \<Rightarrow> Ok () | Some msg \<Rightarrow> Err (tls_err msg))"

fun add_roots :: "rustls \<Rightarrow> bytes list \<Rightarrow> (unit, RpcError) result" where
  "add_roots rl [] = Ok ()"
| "add_roots rl (der # ders) = and_then (tls_result (rl_add_root rl der)) (\<lambda>_. add_roots rl ders)"

definition build_config :: "rustls \<Rightarrow> TlsParams \<Rightarrow> (ClientConfig, RpcError) result" where
  "build_config rl params =
     and_then (tls_result (rl_protocol_versions rl)) (\<lambda>_.
     and_then (if tp_danger_accept_invalid params then Ok No_Verify
               else and_then (add_roots rl (tp_root_certs_der params))
                 (\<lambda>_. Ok (Verify_Roots (tp_root_certs_der params)))) (\<lambda>verifier.
     case tp_client_key_der params of
       Some key \<Rightarrow>
         if tp_client_cert_der params \<noteq> [] then
           and_then (tls_result (rl_private_key rl key)) (\<lambda>_.
           and_then (tls_result (rl_client_auth_cert rl (tp_client_cert_der params) key)) (\<lambda>_.
           Ok \<lparr>cc_verifier = verifier, cc_client_auth = Some (tp_client_cert_der params, key)\<rparr>))
         else Ok \<lparr>cc_verifier = verifier, cc_client_auth = None\<rparr>
     | None \<Rightarrow> Ok \<lparr>cc_verifier = verifier, cc_client_auth = None\<rparr>))"

text \<open>
  The certificates a session accepts: with the insecure parameters every one, otherwise those
  that rustls accepts for the given roots.
\<close>

lemma build_config_verifies:
  assumes "build_config rl params = Ok cfg"
  shows "verify_chain webpki (cc_verifier cfg) cert chain name =
    (if tp_danger_accept_invalid params then Ok () else webpki (tp_root_certs_der params) cert chain name)"
  using assms by (auto simp: build_config_def verify_server_cert_def split: if_splits option.splits)

subsection \<open>The probe\<close>

definition net_write :: "bytes \<Rightarrow> (net, RpcError, unit) op" where
  "net_write data n =
     (case net_sends n of
        [] \<Rightarrow> None
      | None # ss \<Rightarrow> Some (Ok (), n\<lparr>net_sends := ss, net_log := net_log n @ [Sent data]\<rparr>)
      | Some kind # ss \<Rightarrow>
          Some (Err (Io kind), n\<lparr>net_sends := ss, net_log := net_log n @ [Send_Failed data]\<rparr>))"

text \<open>
  \<open>read_exact\<close> of the standard library: an interrupted read is repeated, the end of the
  stream is an error, and what a read brings beyond the buffer stays in the socket. The
  program looks at no deadline here.
\<close>

definition unexpected_eof :: ErrorKind where
  "unexpected_eof = OtherKind ''UnexpectedEof''"

fun read_exact ::
  "nat \<Rightarrow> bytes \<Rightarrow> recv_event list \<Rightarrow> ((bytes, RpcError) result \<times> recv_event list) option" where
  "read_exact 0 got evs = Some (Ok got, evs)"
| "read_exact (Suc k) got [] = None"
| "read_exact (Suc k) got (Deadline # evs) = read_exact (Suc k) got evs"
| "read_exact (Suc k) got (Recv_Err kind # evs) =
     (if kind = Interrupted then read_exact (Suc k) got evs else Some (Err (Io kind), evs))"
| "read_exact (Suc k) got (Recv_Data b # evs) =
     (if b = [] then Some (Err (Io unexpected_eof), evs)
      else if length b \<le> Suc k then read_exact (Suc k - length b) (got @ b) evs
      else Some (Ok (got @ take (Suc k) b), Recv_Data (drop (Suc k) b) # evs))"

definition net_read_exact :: "nat \<Rightarrow> (net, RpcError, bytes) op" where
  "net_read_exact k n =
     (case read_exact k [] (net_recvs n) of
        None \<Rightarrow> None
      | Some (r, evs') \<Rightarrow> Some (r, n\<lparr>net_recvs := evs'\<rparr>))"

definition probe_message :: "u32 \<Rightarrow> u32 \<Rightarrow> (bytes, RpcError) result" where
  "probe_message prog vers = map_err Xdr (struct_encode (map encode_u32
     [0x54544C53, 0, 2, prog, vers, 0, AUTH_TLS, 0, 0, 0]) [])"

definition no_rpc_with_tls :: string where
  "no_rpc_with_tls = ''el servidor no soporta RPC-with-TLS (RFC 9289)''"

definition probe_reply :: "bytes \<Rightarrow> (unit, RpcError) result" where
  "probe_reply reply =
     rpc_bind decode_u32 reply (\<lambda>xid reply.
     rpc_bind decode_u32 reply (\<lambda>mtype reply.
     if mtype \<noteq> 1 then Err MalformedReply
     else rpc_bind decode_u32 reply (\<lambda>stat reply.
     if stat \<noteq> 0 then Err MalformedReply
     else rpc_bind decode_u32 reply (\<lambda>verf_flavor reply.
     rpc_bind (decode_opaque 400) reply (\<lambda>verf_body reply.
     if verf_flavor \<noteq> AUTH_TLS then Err (tls_err no_rpc_with_tls) else Ok ())))))"

definition starttls_probe :: "u32 \<Rightarrow> u32 \<Rightarrow> (net, RpcError, unit) op" where
  "starttls_probe prog vers =
     op_bind (op_lift (probe_message prog vers)) (\<lambda>msg.
     op_bind (op_lift (frame msg)) (\<lambda>framed.
     op_bind (net_write framed) (\<lambda>_.
     op_bind (net_read_exact 4) (\<lambda>header.
     op_bind (net_read_exact (unat (from_be header AND 0x7FFFFFFF :: u32))) (\<lambda>record.
     op_lift (probe_reply record))))))"

definition connect_tls ::
  "rustls \<Rightarrow> u32 \<Rightarrow> SocketAddr \<Rightarrow> u32 \<Rightarrow> u32 \<Rightarrow> Credentials \<Rightarrow> nat \<Rightarrow> TlsParams \<Rightarrow>
   (net, RpcError, RpcClient) op" where
  "connect_tls rl pid a prog vers cr t params =
     op_bind (open_socket a Tcp) (\<lambda>_.
     op_bind (starttls_probe prog vers) (\<lambda>_.
     op_bind (op_lift (build_config rl params)) (\<lambda>config.
     op_bind (op_lift (if rl_server_name rl (tp_server_name params) then Ok ()
         else Err (tls_err (''nombre de servidor TLS inv'' @ [CHR 0xC3, CHR 0xA1] @ ''lido'')))) (\<lambda>_.
     op_bind (op_lift (tls_result (rl_connection rl config (tp_server_name params)))) (\<lambda>_ n.
     let (client, n') = from_stream pid cr t n in Some (Ok client, n'))))))"

subsection \<open>The probe against any delivery\<close>

lemma read_exact_chunks:
  assumes "[] \<notin> set cs" "k \<le> length (concat cs)"
  shows "\<exists>cs'. read_exact k got (map Recv_Data cs) = Some (Ok (got @ take k (concat cs)), map Recv_Data cs') \<and>
    concat cs' = drop k (concat cs) \<and> [] \<notin> set cs'"
  using assms
proof (induction cs arbitrary: k got)
  case Nil
  then show ?case by (intro exI [of _ "[]"]) simp
next
  case (Cons b cs)
  show ?case
  proof (cases k)
    case 0
    with Cons.prems show ?thesis by (intro exI [of _ "b # cs"]) simp
  next
    case (Suc j)
    show ?thesis
    proof (cases "length b \<le> k")
      case True
      with Cons.prems have "[] \<notin> set cs" "k - length b \<le> length (concat cs)" by auto
      from Cons.IH [OF this, of "got @ b"] True Suc Cons.prems show ?thesis by auto
    next
      case False
      with Suc Cons.prems show ?thesis by (intro exI [of _ "drop k b # cs"]) auto
    qed
  qed
qed

lemma net_read_exact_chunks:
  assumes "net_recvs n = map Recv_Data cs" "[] \<notin> set cs" "concat cs = front @ rest" "k = length front"
  shows "\<exists>cs'. net_read_exact k n = Some (Ok front, n\<lparr>net_recvs := map Recv_Data cs'\<rparr>) \<and>
    concat cs' = rest \<and> [] \<notin> set cs'"
  using read_exact_chunks [of cs k "[]"] assms by (auto simp: net_read_exact_def)

definition probe_bytes :: "u32 \<Rightarrow> u32 \<Rightarrow> bytes" where
  "probe_bytes prog vers = w4 0x54544C53 @ w4 0 @ w4 2 @ w4 prog @ w4 vers @ w4 0 @ w4 7 @ w4 0 @ w4 0 @ w4 0"

lemma probe_message_eq: "probe_message prog vers = Ok (probe_bytes prog vers)"
  by (simp add: probe_message_def probe_bytes_def AUTH_TLS_def enc_seq_def enc_done_def
      encode_u32_def put_word_def)

text \<open>What the probe makes of a reply.\<close>

definition probe_outcome :: "reply_body \<Rightarrow> (unit, RpcError) result" where
  "probe_outcome r =
     (case r of
        Accepted flavor verf acc \<Rightarrow> if flavor = 7 then Ok () else Err (tls_err no_rpc_with_tls)
      | _ \<Rightarrow> Err MalformedReply)"

lemma reply_ok_verf: "reply_ok (Accepted flavor verf acc) \<Longrightarrow> length verf \<le> 400"
  by (cases acc) simp_all

lemma probe_reply_wire: "reply_ok r \<Longrightarrow> probe_reply (reply_wire xid r) = probe_outcome r"
  by (cases r) (auto simp: probe_reply_def probe_outcome_def rpc_bind_opaque AUTH_TLS_def u32_max_def
      dest!: reply_ok_verf)

lemma fragment_header:
  "length d \<le> unat LENGTH_MASK \<Longrightarrow>
    unat (((if final then LAST_FRAGMENT else 0) OR of_nat (length d)) AND 0x7FFFFFFF :: u32) = length d"
  using header_fields(1) by (simp only: LENGTH_MASK_def)

text \<open>
  C40: the probe that precedes TLS. One \<open>NULL\<close> call with the credential flavor
  \<open>AUTH_TLS\<close> goes out in plain text. However the network cuts the server's answer, the probe
  reads that record and not one byte more, so that the TLS handshake finds the stream where it
  starts, and it accepts exactly the accepted replies whose verifier has the flavor \<open>AUTH_TLS\<close>.
\<close>

theorem starttls_probe_answer:
  assumes "net_sends n = None # ss" "net_recvs n = map Recv_Data cs" "[] \<notin> set cs"
    and "concat cs = fragment final (reply_wire xid r) @ rest"
    and "length (reply_wire xid r) \<le> unat LENGTH_MASK" "reply_ok r"
  shows "\<exists>cs'. starttls_probe prog vers n = Some (case r of
        Accepted flavor verf acc \<Rightarrow> if flavor = 7 then Ok () else Err (tls_err no_rpc_with_tls)
      | _ \<Rightarrow> Err MalformedReply,
      n\<lparr>net_sends := ss, net_log := net_log n @ [Sent (fragment True (probe_bytes prog vers))],
        net_recvs := map Recv_Data cs'\<rparr>) \<and> concat cs' = rest \<and> [] \<notin> set cs'"
proof -
  let ?reply = "reply_wire xid r"
  let ?n = "n\<lparr>net_sends := ss, net_log := net_log n @ [Sent (fragment True (probe_bytes prog vers))]\<rparr>"
  let ?hd = "((if final then LAST_FRAGMENT else 0) OR of_nat (length ?reply)) :: u32"
  have w: "frame (probe_bytes prog vers) = Ok (fragment True (probe_bytes prog vers))"
    by (simp add: frame_fragment probe_bytes_def unat_LENGTH_MASK)
  have "net_recvs ?n = map Recv_Data cs" "concat cs = be_bytes 4 ?hd @ (?reply @ rest)"
    using assms(2,4) by (simp_all add: fragment_def)
  from net_read_exact_chunks [OF this(1) assms(3) this(2)] obtain cs1 where
    r1: "net_read_exact 4 ?n = Some (Ok (be_bytes 4 ?hd), ?n\<lparr>net_recvs := map Recv_Data cs1\<rparr>)"
      "concat cs1 = ?reply @ rest" "[] \<notin> set cs1" by (auto simp: length_be_bytes)
  have "net_recvs (?n\<lparr>net_recvs := map Recv_Data cs1\<rparr>) = map Recv_Data cs1" by simp
  from net_read_exact_chunks [OF this r1(3,2) refl] obtain cs2 where
    r2: "net_read_exact (length ?reply) (?n\<lparr>net_recvs := map Recv_Data cs1\<rparr>)
        = Some (Ok ?reply, ?n\<lparr>net_recvs := map Recv_Data cs2\<rparr>)" "concat cs2 = rest" "[] \<notin> set cs2" by auto
  have "net_write (fragment True (probe_bytes prog vers)) n = Some (Ok (), ?n)"
    using assms(1) by (simp add: net_write_def)
  with w r1(1) r2(1) have "starttls_probe prog vers n
      = Some (probe_outcome r, ?n\<lparr>net_recvs := map Recv_Data cs2\<rparr>)"
    unfolding starttls_probe_def probe_message_eq op_lift_bind
    by (simp add: op_bind_def fragment_header [OF assms(5)] op_lift_def probe_reply_wire [OF assms(6)])
  with r2 show ?thesis unfolding probe_outcome_def by (intro exI [of _ cs2]) simp
qed

theorem starttls_probe_answer_example:
  "\<exists>n'. starttls_probe 100003 4 \<lparr>net_opens = [], net_sends = [None],
      net_recvs = map Recv_Data [[0x80, 0], [0, 32] @ reply_wire 9 (Accepted 7 (as_bytes ''STARTTLS'') (A_Success [])) @ [22], [3]],
      net_clock = [], net_log = []\<rparr> = Some (Ok (), n') \<and> (\<exists>cs'. net_recvs n' = map Recv_Data cs' \<and> concat cs' = [22, 3])"
proof -
  let ?r = "Accepted 7 (as_bytes ''STARTTLS'') (A_Success [])"
  let ?cs = "[[0x80, 0], [0, 32] @ reply_wire 9 ?r @ [22], [3]]"
  let ?n = "\<lparr>net_opens = [], net_sends = [None], net_recvs = map Recv_Data ?cs, net_clock = [], net_log = []\<rparr>"
  have len: "length (reply_wire 9 ?r) = 32" by (simp add: padding_def as_bytes_def)
  have "be_bytes 4 (0x80000000 OR of_nat 32 :: u32) = [0x80, 0, 0, 32]" by code_simp
  then have "concat ?cs = fragment True (reply_wire 9 ?r) @ [22, 3]"
    unfolding fragment_def len by (simp add: LAST_FRAGMENT_def)
  from starttls_probe_answer [OF _ _ _ this, of ?n "[]" 100003 4] len show ?thesis
    by (auto simp: unat_LENGTH_MASK as_bytes_def)
qed

subsection \<open>The client that results\<close>

lemma tls_result_Panic [simp]: "tls_result answer \<noteq> Panic"
  by (simp add: tls_result_def split: option.splits)

lemma add_roots_Panic: "add_roots rl ders \<noteq> Panic"
  by (induction ders) auto

lemma build_config_Panic: "build_config rl params \<noteq> Panic"
  using add_roots_Panic by (auto simp: build_config_def split: option.splits)

lemma read_exact_Panic: "read_exact k got evs = Some (r, evs') \<Longrightarrow> r \<noteq> Panic"
  by (induction k got evs rule: read_exact.induct) (auto split: if_splits)

lemma probe_reply_Panic: "probe_reply reply \<noteq> Panic"
  unfolding probe_reply_def by (intro rpc_bind_no_panic xdr_dec conjI impI | simp)+

lemma starttls_probe_makes: "op_makes (\<lambda>_. True) (starttls_probe prog vers)"
proof -
  have "op_makes (\<lambda>_. True) (net_write data)" "op_makes (\<lambda>_. True) (net_read_exact k)" for data k
    by (auto simp: op_makes_def net_write_def net_read_exact_def dest: read_exact_Panic
        split: list.splits option.splits)
  then show ?thesis
    unfolding starttls_probe_def
    by (intro op_makes_bind [where P = "\<lambda>_. True"] op_makes_lift)
      (simp_all add: probe_message_eq frame_fragment probe_reply_Panic)
qed

lemma connect_tls_makes: "op_makes client_ok (connect_tls rl pid a prog vers cr t params)"
proof -
  have "op_makes (\<lambda>_. True) (open_socket a Tcp)"
    by (auto simp: op_makes_def open_socket_def split: list.splits option.splits)
  moreover have "op_makes client_ok (\<lambda>n. let (client, n') = from_stream pid cr t n in Some (Ok client, n'))"
    using from_stream_client_ok by (auto simp: op_makes_def split: prod.splits) (metis fst_conv)
  ultimately show ?thesis
    unfolding connect_tls_def
    by (intro op_makes_bind [where P = "\<lambda>_. True"] op_makes_lift starttls_probe_makes)
      (auto simp: build_config_Panic)
qed

end
