(* ===== verification/VFS_Mount.thy ===== *)
theory VFS_Mount
  imports VFS_Context RPC_TLS
begin

text \<open>
  Mounting (\<open>nfs-client/src/context.rs\<close>): the NFSv4 flow \<open>mount_v4\<close> with \<open>connect_v4\<close> and
  \<open>resolve_ip\<close>, and the entry points \<open>mount_url\<close>, \<open>mount\<close> and \<open>mount_parsed\<close>, which choose
  the version. A mounted context is its backend's state and the root handle; the constructor
  tells which backend is behind the trait object.

  The name service, the process id and the clock are given by the system. The library
  \<open>rustls\<close> is an argument, absent when the feature \<open>tls\<close> is not compiled in.
\<close>

subsection \<open>Definitions\<close>

type_synonym clock3 = "u64 \<times> u64 \<times> u64"

definition resolve_ip :: "resolver \<Rightarrow> string \<Rightarrow> u16 \<Rightarrow> (IpAddr, NfsError) result" where
  "resolve_ip lookup server port =
     and_then (map_err NE_Io (lookup server port)) (\<lambda>addrs.
       ok_or (case addrs of [] \<Rightarrow> None | a # _ \<Rightarrow> Some (sa_ip a))
         (InvalidUrl (''no se pudo resolver '' @ [CHR 0xC2, CHR 0xAB] @ server @ [CHR 0xC2, CHR 0xBB])))"

definition tls_disabled :: string where
  "tls_disabled = ''TLS solicitado pero la feature `tls` no est'' @ [CHR 0xC3, CHR 0xA1] @ '' activada''"

definition connect_v4 ::
  "rustls option \<Rightarrow> u32 \<Rightarrow> clock3 \<Rightarrow> IpAddr \<Rightarrow> u16 \<Rightarrow> Credentials \<Rightarrow> nat \<Rightarrow> NfsUrl \<Rightarrow>
   (net, NfsError, Nfs4) op" where
  "connect_v4 tls pid clock ip port cr t url =
     (if u_tls url then
        (case tls of
           Some rl \<Rightarrow>
             let params = (if u_tls_insecure url then tls_insecure (u_server url)
                  else tls_with_roots (u_server url) []) in
             op_bind (op_map_err from_RpcError (connect_tls rl pid \<lparr>sa_ip = ip, sa_port = port\<rparr>
               NFS4_PROGRAM NFS4_VERSION4 cr t params)) (\<lambda>rpc.
             op_map_err from_ProtoError (nfs4_from_client pid clock rpc (u_minorversion url)))
         | None \<Rightarrow> op_lift (Err (InvalidUrl tls_disabled)))
      else op_map_err from_ProtoError
        (nfs4_connect_minor pid clock ip port cr Tcp t (u_minorversion url)))"

fun walk_export :: "NfsFh4 \<Rightarrow> string list \<Rightarrow> NfsFh4 nfs4_op" where
  "walk_export root [] = op_lift (Ok root)"
| "walk_export root (name # names) = op_bind (nfs4_lookup root name) (\<lambda>(fh, _). walk_export fh names)"

definition mount_v4 ::
  "resolver \<Rightarrow> rustls option \<Rightarrow> u32 \<Rightarrow> clock3 \<Rightarrow> NfsUrl \<Rightarrow> Credentials \<Rightarrow> nat \<Rightarrow>
   (net, NfsError, V4Backend \<times> ObjId) op" where
  "mount_v4 lookup tls pid clock url cr t =
     (let port = unwrap_or (u_nfsport url) NFS_PORT in
      op_bind (op_lift (resolve_ip lookup (u_server url) port)) (\<lambda>ip.
      op_bind (connect_v4 tls pid clock ip port cr t url) (\<lambda>nfs n.
        case op_map_err from_ProtoError (op_bind nfs4_root_fh (\<lambda>root.
               walk_export root (split_components (u_path url)))) (nfs, n) of
          None \<Rightarrow> None
        | Some (r, nfs', n') \<Rightarrow> Some (map_ok (\<lambda>root. (v4_new nfs', fh4_data root)) r, n'))))"

datatype Mounted = Mounted_V3 V3Backend ObjId | Mounted_V4 V4Backend ObjId

definition mount_parsed ::
  "resolver \<Rightarrow> rustls option \<Rightarrow> u32 \<Rightarrow> u64 \<Rightarrow> clock3 \<Rightarrow> NfsUrl \<Rightarrow> (net, NfsError, Mounted) op" where
  "mount_parsed lookup tls pid nanos clock url =
     (let cr = unix (u_uid url) (u_gid url); t = unat (u_timeo url) in
      if u_version url = 4 then
        op_bind (mount_v4 lookup tls pid clock url cr t) (\<lambda>(b, root). op_lift (Ok (Mounted_V4 b root)))
      else
        op_bind (mount_v3 lookup pid nanos url cr t) (\<lambda>(b, root). op_lift (Ok (Mounted_V3 b root))))"

definition cx_mount_url ::
  "resolver \<Rightarrow> rustls option \<Rightarrow> u32 \<Rightarrow> u64 \<Rightarrow> clock3 \<Rightarrow> string \<Rightarrow> (net, NfsError, Mounted) op" where
  "cx_mount_url lookup tls pid nanos clock url =
     op_bind (op_lift (parse_url url)) (mount_parsed lookup tls pid nanos clock)"

definition cx_mount ::
  "resolver \<Rightarrow> rustls option \<Rightarrow> u32 \<Rightarrow> u64 \<Rightarrow> clock3 \<Rightarrow> string \<Rightarrow> string \<Rightarrow> (net, NfsError, Mounted) op" where
  "cx_mount lookup tls pid nanos clock server export =
     mount_parsed lookup tls pid nanos clock (default_NfsUrl\<lparr>u_server := server, u_path := export\<rparr>)"

definition v4_context :: "ObjId \<Rightarrow> v4_state NfsContext" where
  "v4_context root = \<lparr>cx_backend = v4_backend, cx_root = root\<rparr>"

subsection \<open>Mounting establishes the invariant\<close>

lemma connect_makes: "op_makes client_ok (connect pid a p cr t)"
  using connect_safe connect_client_ok unfolding op_makes_def by blast

lemma from_client_makes: "client_ok rpc \<Longrightarrow> op_makes (\<lambda>c. client_ok (n4_rpc c)) (nfs4_from_client pid clock rpc minor)"
  using nfs4_from_client_safe unfolding op_makes_def by blast

lemma connect_v4_makes:
  "op_makes (\<lambda>c. client_ok (n4_rpc c)) (connect_v4 tls pid clock ip port cr t url)"
  unfolding connect_v4_def nfs4_connect_minor_def
  by (cases tls) (auto simp: Let_def intro!: op_makes_lift op_makes_bind [where P = client_ok]
      op_makes_map_err connect_makes connect_tls_makes from_client_makes)

lemma walk_export_safe: "op_safe n4_ok (walk_export root names)"
  by (induction names arbitrary: root) (auto intro!: op_safe split: prod.splits)

lemma resolve_ip_Panic: "lookup server port \<noteq> Panic \<Longrightarrow> resolve_ip lookup server port \<noteq> Panic"
  by (auto simp: resolve_ip_def ok_or_def split: list.splits option.splits)

lemma mount_v4_inv:
  assumes "mount_v4 lookup tls pid clock url cr t n = Some (Ok (b, root), n')"
  shows "v4_inv (b, n')"
proof -
  obtain ip nfs n1 nfs' rt where c: "connect_v4 tls pid clock ip (unwrap_or (u_nfsport url) NFS_PORT) cr t url n
        = Some (Ok nfs, n1)"
    and w: "op_bind nfs4_root_fh (\<lambda>root. walk_export root (split_components (u_path url))) (nfs, n1)
        = Some (Ok rt, nfs', n')" and b: "b = v4_new nfs'"
    using assms by (auto simp: mount_v4_def Let_def op_bind_eq [of "op_lift _"] op_lift_def
        op_bind_eq [of "connect_v4 _ _ _ _ _ _ _ _"] op_map_err_eq split: option.splits)
  have ok: "n4_ok (nfs, n1)"
    using connect_v4_makes [unfolded op_makes_def, rule_format, OF c] by (simp add: n4_ok_def)
  have "op_safe n4_ok (op_bind nfs4_root_fh (\<lambda>root. walk_export root (split_components (u_path url))))"
    by (intro op_safe walk_export_safe)
  from op_safeD [OF this ok w] have "n4_ok (nfs', n')" ..
  then show ?thesis by (simp add: b v4_inv_def v4_new_def n4_ok_def)
qed


text \<open>An NFSv4 mount over TCP, for the example: three replies in opaques.\<close>

definition ex_url4 :: NfsUrl where
  "ex_url4 = default_NfsUrl\<lparr>u_server := ''srv'', u_path := ''/'', u_version := 4\<rparr>"

definition ex_rpc4 :: "u32 \<Rightarrow> RpcClient" where
  "ex_rpc4 xid = (fresh_client 7 (ex_addr 2049) Tcp)\<lparr>next_xid := xid\<rparr>"

definition ex_answer4 :: "u32 \<Rightarrow> u32 \<Rightarrow> bytes \<Rightarrow> recv_event" where
  "ex_answer4 xid cnt results = Recv_Data (answer_to (ex_rpc4 xid) (framed (w4 0 @ w4 0 @ w4 cnt @ results)))"

definition ex_net4 :: net where
  "ex_net4 = \<lparr>net_opens = [None], net_sends = [None, None, None],
     net_recvs = [ex_answer4 7 1 (op_ok 35 @ be_bytes 8 (5 :: u64) @ replicate 8 9), ex_answer4 8 1 (op_ok 36),
       ex_answer4 9 2 (op_ok 24 @ op_ok 10 @ w4 4 @ [1, 2, 3, 4])],
     net_clock = [], net_log = []\<rparr>"

lemma ex_rpc4_sel [simp]: "idle (ex_rpc4 x)" "next_xid (ex_rpc4 x) = x"
  "(ex_rpc4 x)\<lparr>next_xid := y\<rparr> = ex_rpc4 y"
  by (simp_all add: ex_rpc4_def idle_def)

lemma ex_compound4:
  assumes "n4_minor s = 0" "n4_rpc s = ex_rpc4 x" "net_sends n = None # ss"
    and "net_recvs n = ex_answer4 x cnt results # evs"
    and "builds b" "\<exists>c. b new_Compound = Ok c \<and> length (c_ops c) \<le> 2 ^ 10" "length results \<le> 2 ^ 9"
    and "r results = Ok (v, rest)"
  shows "\<exists>acts. n4_compound b r (s, n) = Some (Ok v, s\<lparr>n4_rpc := ex_rpc4 (x + 1)\<rparr>,
    n\<lparr>net_sends := ss, net_log := net_log n @ acts, net_recvs := evs\<rparr>)"
  using served_compound [of s n ss cnt results evs b r v rest] assms by (simp add: ex_answer4_def)

lemma ex_owner: "nfs4_unique_owner 7 0 = [108, 105, 98, 110, 102, 115, 45, 114, 115, 58, 55, 58, 48]"
  by code_simp

lemma ex_setclientid:
  assumes "n4_minor s = 0" "n4_rpc s = ex_rpc4 7"
    and "net_sends n = None # None # ss"
    and "net_recvs n = ex_answer4 7 1 (op_ok 35 @ be_bytes 8 (5 :: u64) @ replicate 8 9) # ex_answer4 8 1 (op_ok 36) # evs"
  shows "\<exists>acts. setclientid 7 0 0 (s, n) = Some (Ok (), s\<lparr>n4_rpc := ex_rpc4 9, n4_clientid := 5\<rparr>,
    n\<lparr>net_sends := ss, net_log := net_log n @ acts, net_recvs := evs\<rparr>)"
proof -
  let ?b1 = "c_setclientid (boot_verifier 0) (nfs4_unique_owner 7 0)"
  let ?b2 = "c_setclientid_confirm 5 (replicate 8 9)"
  have b: "builds ?b1" "builds ?b2" unfolding c_setclientid_def c_setclientid_confirm_def by (intro builds xdr_enc; simp)+
  have l: "\<exists>c. ?b1 new_Compound = Ok c \<and> length (c_ops c) \<le> 2 ^ 10"
    "\<exists>c. ?b2 new_Compound = Ok c \<and> length (c_ops c) \<le> 2 ^ 10"
    by (simp_all add: c_setclientid_def c_setclientid_confirm_def c_eval ex_owner boot_verifier_def)
  have r: "rd_setclientid (op_ok 35 @ be_bytes 8 (5 :: u64) @ replicate 8 9) = Ok ((5, replicate 8 9), [])"
    "begin_op OP_SETCLIENTID_CONFIRM (op_ok 36) = Ok ((), [])"
    using begin_op_ok [of 36 "[]"]
    by (simp_all add: rd_setclientid_def nfs4_ops rd_bind_def rd_decode_def rd_return_def
        decode_fixed_eq padding_def)
  from ex_compound4 [where b = ?b1 and r = rd_setclientid, OF assms(1,2,3,4) b(1) l(1) _ r(1)] obtain a1 where
    s1: "n4_compound ?b1 rd_setclientid (s, n) = Some (Ok (5, replicate 8 9), s\<lparr>n4_rpc := ex_rpc4 8\<rparr>,
      n\<lparr>net_sends := None # ss, net_log := net_log n @ a1, net_recvs := ex_answer4 8 1 (op_ok 36) # evs\<rparr>)"
    (is "_ = Some (_, ?s1, ?n1)") by (auto simp: op_ok_def)
  from ex_compound4 [of ?s1 8 ?n1, where b = ?b2 and r = "begin_op OP_SETCLIENTID_CONFIRM", OF _ _ _ _ b(2) l(2) _ r(2)] assms(1) obtain a2 where
    "n4_compound ?b2 (begin_op OP_SETCLIENTID_CONFIRM) (?s1, ?n1) = Some (Ok (), s\<lparr>n4_rpc := ex_rpc4 9\<rparr>,
      n\<lparr>net_sends := ss, net_log := net_log n @ a1 @ a2, net_recvs := evs\<rparr>)" by (auto simp: op_ok_def)
  with s1 show ?thesis by (auto simp: setclientid_def op_bind_def n4_set_def)
qed

lemma ex_root_fh:
  assumes "n4_minor s = 0" "n4_rpc s = ex_rpc4 9" "net_sends n = None # ss"
    and "net_recvs n = ex_answer4 9 2 (op_ok 24 @ op_ok 10 @ w4 4 @ [1, 2, 3, 4]) # evs"
  shows "\<exists>acts. nfs4_root_fh (s, n) = Some (Ok \<lparr>fh4_data = [1, 2, 3, 4]\<rparr>, s\<lparr>n4_rpc := ex_rpc4 10\<rparr>,
    n\<lparr>net_sends := ss, net_log := net_log n @ acts, net_recvs := evs\<rparr>)"
proof -
  let ?r = "begin_ops [OP_PUTROOTFH, OP_GETFH] (rd_decode decode_NfsFh4)"
  have "builds (c_then c_putrootfh c_getfh)" by (intro builds)
  moreover have "\<exists>c. c_then c_putrootfh c_getfh new_Compound = Ok c \<and> length (c_ops c) \<le> 2 ^ 10"
    by (simp add: c_putrootfh_def c_getfh_def c_eval)
  moreover have "length (op_ok 24 @ op_ok 10 @ w4 4 @ [1, 2, 3, 4]) \<le> 2 ^ 9" by (simp add: op_ok_def)
  moreover have "?r (op_ok 24 @ op_ok 10 @ w4 4 @ [1, 2, 3, 4]) = Ok (\<lparr>fh4_data = [1, 2, 3, 4]\<rparr>, [])"
    using rd_decode_rt [OF wire_rt_NfsFh4 [of "\<lparr>fh4_data = [1, 2, 3, 4]\<rparr>"], of "w4 4 @ [1, 2, 3, 4]" "[]"]
    by (simp add: nfs4_ops encode_NfsFh4_def c_eval)
  ultimately show ?thesis
    unfolding nfs4_root_fh_def using ex_compound4 [where r = ?r, OF assms] by force
qed

lemma ex_mount_v4: "\<exists>b n'. mount_v4 ex_lookup None 7 (0, 0, 0) ex_url4 Cred_None 5 ex_net4
    = Some (Ok (b, [1, 2, 3, 4]), n')"
proof -
  let ?n1 = "ex_net4\<lparr>net_opens := [], net_log := [Opened (ex_addr 2049) Tcp]\<rparr>"
  let ?s = "\<lparr>n4_rpc = ex_rpc4 7, n4_minor = 0, n4_clientid = 0, n4_owner = nfs4_unique_owner 7 0,
      n4_open_seqid = 0, n4_lock_counter = 0, n4_sessionid = None, n4_seq_id = 0\<rparr>"
  have "connect 7 (ex_addr 2049) Tcp Cred_None 5 ex_net4 = Some (Ok (ex_rpc4 7), ?n1)"
    using connect_fresh [of ex_net4 "[]"] by (simp add: ex_net4_def ex_rpc4_def fresh_client_def)
  moreover obtain a1 where "setclientid 7 0 0 (?s, ?n1) = Some (Ok (), ?s\<lparr>n4_rpc := ex_rpc4 9, n4_clientid := 5\<rparr>,
      ?n1\<lparr>net_sends := [None], net_log := net_log ?n1 @ a1,
        net_recvs := [ex_answer4 9 2 (op_ok 24 @ op_ok 10 @ w4 4 @ [1, 2, 3, 4])]\<rparr>)"
      (is "_ = Some (_, ?s2, ?n2)")
    using ex_setclientid [of ?s ?n1] by (auto simp: ex_net4_def)
  ultimately have c: "connect_v4 None 7 (0, 0, 0) (V4 0x0A000001) 2049 Cred_None 5 ex_url4 ex_net4
      = Some (Ok ?s2, ?n2)"
    by (simp add: connect_v4_def nfs4_connect_minor_def nfs4_from_client_def op_bind_def op_map_err_def
        ex_url4_def default_NfsUrl_def ex_addr_def)
  obtain a2 where "nfs4_root_fh (?s2, ?n2) = Some (Ok \<lparr>fh4_data = [1, 2, 3, 4]\<rparr>, ?s2\<lparr>n4_rpc := ex_rpc4 10\<rparr>,
      ?n2\<lparr>net_sends := [], net_log := net_log ?n2 @ a2, net_recvs := []\<rparr>)"
    using ex_root_fh [of ?s2 ?n2] by auto
  moreover have "split_components (u_path ex_url4) = []"
    by (simp add: ex_url4_def split_components_def)
  ultimately show ?thesis
    using c by (simp add: mount_v4_def op_bind_def op_lift_def op_map_err_def resolve_ip_def ex_lookup_def ok_or_def
        ex_addr_def ex_url4_def default_NfsUrl_def unwrap_or_def NFS_PORT_def)
qed


text \<open>
  An NFSv4.0 mount never succeeds against a server that follows RFC 7530. When the
  server answers \<open>SETCLIENTID\<close> with success, whatever the rest of the answer, the mount ends
  with the error \<open>Truncated\<close>: the reply is read as the length of an opaque, and its status 0
  is an opaque of no bytes.
\<close>

theorem mount_v4_unreadable:
  assumes "lookup (u_server url) (unwrap_or (u_nfsport url) 2049) = Ok (a # as)" "\<not> u_tls url" "u_minorversion url = 0"
    and "connect pid \<lparr>sa_ip = sa_ip a, sa_port = unwrap_or (u_nfsport url) 2049\<rparr> Tcp cr t n = Some (Ok rpc, n1)"
    and "c_setclientid (boot_verifier t1) (nfs4_unique_owner pid t2) new_Compound = Ok c" "c_finish 0 c = Ok args"
    and "rpc_exchange 100003 4 1 (encode_Raw args) (rpc, n1) = Some (Ok (w4 0 @ tail), rpc', n2)"
  shows "mount_v4 lookup tls pid (t0, t1, t2) url cr t n = Some (Err (NE_Proto (PE_Xdr (Truncated 4 0))), n2)"
proof -
  let ?s = "\<lparr>n4_rpc = rpc, n4_minor = 0, n4_clientid = 0, n4_owner = nfs4_unique_owner pid t0,
      n4_open_seqid = 0, n4_lock_counter = 0, n4_sessionid = None, n4_seq_id = 0\<rparr>"
  have "nfs4_run c (?s, n1) = Some (Err (PE_Xdr (Truncated 4 0)), ?s\<lparr>n4_rpc := rpc'\<rparr>, n2)"
    using run_status_ok [of ?s, OF _ assms(6)] assms(7) by simp
  from n4_compound_failed [where b = "c_setclientid (boot_verifier t1) (nfs4_unique_owner pid t2)"
      and r = rd_setclientid, OF assms(5) this]
  have "setclientid pid t1 t2 (?s, n1) = Some (Err (PE_Xdr (Truncated 4 0)), ?s\<lparr>n4_rpc := rpc'\<rparr>, n2)"
    by (simp add: setclientid_def op_bind_def)
  with assms(2-4) have "connect_v4 tls pid (t0, t1, t2) (sa_ip a) (unwrap_or (u_nfsport url) 2049) cr t url n
      = Some (Err (NE_Proto (PE_Xdr (Truncated 4 0))), n2)"
    by (simp add: connect_v4_def nfs4_connect_minor_def nfs4_from_client_def op_bind_def op_map_err_def
        from_ProtoError_def)
  with assms(1) show ?thesis
    by (simp add: mount_v4_def op_bind_def op_lift_def resolve_ip_def ok_or_def NFS_PORT_def)
qed

theorem mount_v4_unreadable_example:
  "\<exists>n'. mount_v4 ex_lookup None 7 (0, 0, 0) ex_url4 Cred_None 5
      \<lparr>net_opens = [None], net_sends = [None],
       net_recvs = [Recv_Data (answer_to (ex_rpc4 7) (w4 0 @ w4 0 @ w4 1 @ op_ok 35 @ be_bytes 8 (5 :: u64) @ replicate 8 9))],
       net_clock = [], net_log = []\<rparr> = Some (Err (NE_Proto (PE_Xdr (Truncated 4 0))), n')"
proof -
  let ?tail = "w4 0 @ w4 1 @ op_ok 35 @ be_bytes 8 (5 :: u64) @ replicate 8 9"
  let ?n = "\<lparr>net_opens = [None], net_sends = [None], net_recvs = [Recv_Data (answer_to (ex_rpc4 7) (w4 0 @ ?tail))],
       net_clock = [], net_log = []\<rparr>"
  let ?n1 = "?n\<lparr>net_opens := [], net_log := [Opened (ex_addr 2049) Tcp]\<rparr>"
  let ?b = "c_setclientid (boot_verifier 0) (nfs4_unique_owner 7 0)"
  have "builds ?b" unfolding c_setclientid_def by (intro builds xdr_enc; simp)
  moreover have "\<exists>c. ?b new_Compound = Ok c \<and> length (c_ops c) \<le> 2 ^ 10"
    by (simp add: c_setclientid_def c_eval ex_owner boot_verifier_def)
  ultimately obtain c where c: "?b new_Compound = Ok c" "4 dvd length (c_ops c)" "length (c_ops c) \<le> 2 ^ 10"
    using builds_new by blast
  let ?args = "w4 0 @ w4 0 @ w4 (c_nops c) @ c_ops c"
  have e: "xdr_encoder (encode_Raw ?args)" "encode_Raw ?args [] = Ok ?args" "length ?args \<le> 2 ^ 20"
    using c by (auto intro: xdr_encoder_Raw simp: encode_Raw_def put_slice_def)
  have idle: "client_ok (ex_rpc4 7)" "pending (ex_rpc4 7) = []" "reassembler (ex_rpc4 7) = new_reassembler"
    "cred (ex_rpc4 7) = Cred_None" using ex_rpc4_sel(1) [of 7, unfolded idle_def] by simp_all
  have "length (w4 0 @ ?tail) \<le> 2 ^ 20" by (simp add: op_ok_def)
  from exchange_next [OF idle e this, of ?n1 "[]" "[]" 100003 4 1] obtain n2 where x:
    "rpc_exchange 100003 4 1 (encode_Raw ?args) (ex_rpc4 7, ?n1) = Some (Ok (w4 0 @ ?tail), ex_rpc4 8, n2)" by auto
  have o: "connect 7 \<lparr>sa_ip = sa_ip (ex_addr 2049), sa_port = unwrap_or (u_nfsport ex_url4) 2049\<rparr> Tcp Cred_None 5 ?n
      = Some (Ok (ex_rpc4 7), ?n1)"
    using connect_fresh [of ?n "[]"]
    by (simp add: ex_rpc4_def fresh_client_def ex_addr_def ex_url4_def default_NfsUrl_def unwrap_or_def)
  have l: "ex_lookup (u_server ex_url4) (unwrap_or (u_nfsport ex_url4) 2049) = Ok [ex_addr 2049]" "\<not> u_tls ex_url4"
    "u_minorversion ex_url4 = 0"
    by (simp_all add: ex_lookup_def ex_url4_def default_NfsUrl_def unwrap_or_def)
  have "c_finish 0 c = Ok ?args" using c(1) by (simp add: c_finish_eq)
  from mount_v4_unreadable [where lookup = ex_lookup and tail = ?tail, OF l o c(1) this x] show ?thesis by blast
qed

end
