(* ===== verification/VFS_Progress.thy ===== *)
theory VFS_Progress
  imports VFS_Path
begin

text \<open>
  Progress of the public context (\<open>nfs-client/src/context.rs\<close>): when the backend returns from
  each of its operations, every call of the public interface returns, the loops over path
  components, links and pieces of a transfer included.
\<close>

subsection \<open>Operations that return\<close>

definition returns :: "('s, 'e, 'a) op \<Rightarrow> bool" where
  "returns m \<longleftrightarrow> (\<forall>s. m s \<noteq> None)"

named_theorems returns_intro

lemma returns_lift [returns_intro]: "returns (op_lift r)"
  by (simp add: returns_def op_lift_def)

lemma returns_bind [returns_intro]: "returns m \<Longrightarrow> (\<And>x. returns (f x)) \<Longrightarrow> returns (op_bind m f)"
  by (auto simp: returns_def op_bind_def split: option.splits result.splits)

lemma returns_ignore [returns_intro]: "returns m \<Longrightarrow> returns (op_ignore m)"
  by (auto simp: returns_def op_ignore_def split: option.splits result.splits)

lemma returns_void [returns_intro]: "returns m \<Longrightarrow> returns (op_void m)"
  unfolding op_void_def by (intro returns_intro)

lemma returns_if [returns_intro]: "returns m \<Longrightarrow> returns m' \<Longrightarrow> returns (if c then m else m')"
  by simp

lemma returns_pair [returns_intro]: "(\<And>a b. returns (f a b)) \<Longrightarrow> returns (case p of (a, b) \<Rightarrow> f a b)"
  by (cases p) simp

lemma returnsE: "returns m \<Longrightarrow> (\<And>r s'. m s = Some (r, s') \<Longrightarrow> P) \<Longrightarrow> P"
  unfolding returns_def by fast

text \<open>A transfer followed by the close that runs whatever its result is.\<close>

lemma returns_then [returns_intro]:
  assumes "returns m" "\<And>r. returns (f r)"
  shows "returns (\<lambda>s. case m s of None \<Rightarrow> None
    | Some (r, s') \<Rightarrow> if r = Panic then Some (Panic, s') else f r s')"
  using assms by (auto simp: returns_def split: option.splits prod.splits)

definition total_backend :: "'s Backend \<Rightarrow> bool" where
  "total_backend be \<longleftrightarrow>
     (\<forall>fh. returns (b_getattr be fh)) \<and> (\<forall>fh name. returns (b_lookup be fh name)) \<and>
     (\<forall>fh name opts. returns (b_open be fh name opts)) \<and> (\<forall>f. returns (b_close be f)) \<and>
     (\<forall>f off cnt. returns (b_pread be f off cnt)) \<and> (\<forall>f off data. returns (b_pwrite be f off data)) \<and>
     (\<forall>f. returns (b_commit be f)) \<and> (\<forall>fh name md. returns (b_mkdir be fh name md)) \<and>
     (\<forall>fh name. returns (b_rmdir be fh name)) \<and> (\<forall>fh name. returns (b_remove be fh name)) \<and>
     (\<forall>a n b m. returns (b_rename be a n b m)) \<and> (\<forall>fh n t. returns (b_symlink be fh n t)) \<and>
     (\<forall>fh. returns (b_readlink be fh)) \<and> (\<forall>fh d n. returns (b_link be fh d n)) \<and>
     (\<forall>fh sa. returns (b_setattr be fh sa)) \<and> (\<forall>fh. returns (b_readdir be fh)) \<and>
     (\<forall>fh. returns (b_statvfs be fh)) \<and> (\<forall>fh m. returns (b_access be fh m)) \<and>
     (\<forall>f off len e. returns (b_lock be f off len e)) \<and> (\<forall>f t. returns (b_unlock be f t)) \<and>
     (\<forall>f off len e. returns (b_test_lock be f off len e))"

lemma total_backendD [returns_intro]:
  assumes "total_backend be"
  shows "returns (b_getattr be fh)" "returns (b_lookup be fh name)" "returns (b_open be fh name opts)"
    "returns (b_close be f)" "returns (b_pread be f off cnt)" "returns (b_pwrite be f off data)"
    "returns (b_commit be f)" "returns (b_mkdir be fh name md)" "returns (b_rmdir be fh name)"
    "returns (b_remove be fh name)" "returns (b_rename be fh name fh2 name2)"
    "returns (b_symlink be fh name name2)" "returns (b_readlink be fh)" "returns (b_link be fh fh2 name)"
    "returns (b_setattr be fh sa)" "returns (b_readdir be fh)" "returns (b_statvfs be fh)"
    "returns (b_access be fh md)" "returns (b_lock be f off len e)" "returns (b_unlock be f t)"
    "returns (b_test_lock be f off len e)"
  using assms by (simp_all add: total_backend_def)

subsection \<open>The loops\<close>

lemma resolve_loop_returns:
  assumes be: "total_backend (cx_backend cx)"
  shows "resolve_loop cx follow cur comps depth s \<noteq> None"
proof (induction cur comps depth s rule: resolve_loop_induct [where cx = cx and follow = follow])
  case (step cur comps depth s)
  show ?case
  proof (cases comps)
    case (Cons name rest)
    show ?thesis
    proof (cases "name = ''.''")
      case True
      with step(1) Cons show ?thesis by (simp add: resolve_loop_step(2))
    next
      case False
      show ?thesis
      proof (rule returnsE [OF total_backendD(2) [OF be], of cur name s])
        fix r s'
        assume l: "b_lookup (cx_backend cx) cur name s = Some (r, s')"
        show ?thesis
        proof (cases r)
          case (Ok x)
          obtain fh attr where x: "x = (fh, attr)" by (cases x)
          note l' = l [unfolded Ok x]
          note e = resolve_loop_step(6) [OF False l', of follow rest depth]
          show ?thesis
          proof (cases "follows follow attr rest \<and> depth + 1 \<le> MAX_SYMLINK_DEPTH")
            case True
            show ?thesis
            proof (rule returnsE [OF total_backendD(13) [OF be], of fh s'])
              fix q s''
              assume q: "b_readlink (cx_backend cx) fh s' = Some (q, s'')"
              with True e step(3) [OF Cons False l', of _ s''] Cons show ?thesis
                by (cases q) (auto simp: follows_def op_bind_def)
            qed
          next
            case nf: False
            with e step(2) [OF Cons False l'] Cons show ?thesis by (auto simp: follows_def)
          qed
        qed (use l False Cons in \<open>simp_all add: resolve_loop_step(4,5)\<close>)
      qed
    qed
  qed (simp add: resolve_loop_step(1))
qed

lemma pread_loop_returns: "total_backend be \<Longrightarrow> pread_loop be f chunk out pos left s \<noteq> None"
proof (induction be f chunk out pos left s rule: pread_loop.induct)
  case (1 be f chunk out pos left s)
  show ?case
  proof (cases "left = 0")
    case False
    show ?thesis
    proof (rule returnsE [OF total_backendD(5) [OF "1.prems"], of f pos "ucast (min left chunk)" s])
      fix r s'
      assume "b_pread be f pos (ucast (min left chunk)) s = Some (r, s')"
      with False "1.IH" [OF False _ refl _ refl] "1.prems" show ?thesis
        by (cases r) (auto simp: pread_loop.simps [of be f chunk out pos left s] Let_def)
    qed
  qed (simp add: pread_loop.simps)
qed

lemma pwrite_loop_returns: "total_backend be \<Longrightarrow> returns (pwrite_loop be f pieces written pos)"
proof (induction pieces arbitrary: written pos)
  case Nil
  then show ?case by (simp add: returns_def)
next
  case (Cons piece pieces)
  then have "returns (op_bind (b_pwrite be f pos piece) (\<lambda>n.
       let written' = written + ucast n; pos' = pos + ucast n in
       if unat n < length piece then op_lift (Ok written')
       else pwrite_loop be f pieces written' pos'))"
    unfolding Let_def by (intro returns_intro)
  then show ?case by (simp add: returns_def)
qed

lemma loops_return [returns_intro]:
  assumes "total_backend (cx_backend cx)"
  shows "returns (resolve cx path follow)" "returns (resolve_parent cx path)"
    "returns (cx_pread cx f off cnt)" "returns (cx_pwrite cx f off data)"
proof -
  show r: "returns (resolve cx path follow)" for path follow
    using resolve_loop_returns [OF assms] by (simp add: returns_def resolve_def)
  show "returns (resolve_parent cx path)"
    unfolding resolve_parent_def Let_def by (intro returns_intro r)
  show "returns (cx_pread cx f off cnt)"
    using pread_loop_returns [OF assms] by (simp add: returns_def cx_pread_def)
  show "returns (cx_pwrite cx f off data)"
    using pwrite_loop_returns [OF assms] by (simp add: returns_def cx_pwrite_def Let_def)
qed

lemma names_return [returns_intro]:
  assumes "total_backend (cx_backend cx)"
  shows "returns (cx_stat cx path)" "returns (cx_lstat cx path)" "returns (cx_access cx path)"
    "returns (cx_open cx path flags)" "returns (cx_create cx path)" "returns (cx_close cx f)"
    "returns (cx_readdir cx path)" "returns (cx_mkdir cx path)" "returns (cx_rmdir cx path)"
    "returns (cx_unlink cx path)" "returns (cx_rename cx path path2)" "returns (cx_symlink cx path path2)"
    "returns (cx_readlink cx path)" "returns (cx_link cx path path2)" "returns (cx_chmod cx path m)"
    "returns (cx_chown cx path u g)" "returns (cx_truncate cx path sz)" "returns (cx_statvfs cx path)"
  unfolding cx_stat_def cx_lstat_def cx_access_def cx_open_def cx_create_def cx_close_def cx_readdir_def
    cx_mkdir_def cx_rmdir_def cx_unlink_def cx_rename_def cx_symlink_def cx_readlink_def cx_link_def
    cx_chmod_def cx_chown_def cx_truncate_def cx_statvfs_def Let_def
  by (intro returns_intro assms)+

lemma files_return [returns_intro]:
  assumes "total_backend (cx_backend cx)"
  shows "returns (cx_read_whole cx path)" "returns (cx_write_whole cx path data)"
    "returns (cx_fsync cx f)" "returns (cx_lock cx f off len e)" "returns (cx_unlock cx f t)"
    "returns (cx_test_lock cx f off len e)"
  unfolding cx_read_whole_def cx_write_whole_def cx_fsync_def cx_lock_def cx_unlock_def cx_test_lock_def
  by (intro returns_intro assms)+

text \<open>
  C14: every call of the public interface returns when the backend returns from each of
  its operations: resolving a path ends however the links point at each other, and a transfer
  ends however little the server moves at a time.
\<close>

theorem context_calls_return:
  assumes "total_backend (cx_backend cx)"
  shows "\<exists>r s'. api_call cx request s = Some (r, s')"
proof -
  have "returns (api_call cx request)"
    by (cases request; simp; intro returns_intro assms)
  then show ?thesis by (auto simp: returns_def)
qed

text \<open>A directory in which every name is a link to itself.\<close>

definition ex_loop_context :: "unit NfsContext" where
  "ex_loop_context = \<lparr>cx_backend = blank_backend\<lparr>
       b_lookup := (\<lambda>d name. op_lift (Ok (as_bytes name, ex_attr Symlink))),
       b_readlink := (\<lambda>fh. op_lift (Ok ''x/y''))\<rparr>, cx_root = [0]\<rparr>"

lemma ex_loop_total: "total_backend (cx_backend ex_loop_context)"
  by (simp add: total_backend_def ex_loop_context_def blank_backend_def returns_lift)

theorem context_calls_return_example:
  "\<exists>r s'. api_call ex_loop_context (Api_stat ''/a/b'') () = Some (r, s')"
  using context_calls_return [OF ex_loop_total] by blast

end
