(* ===== verification/Async_Context.thy ===== *)
theory Async_Context
  imports VFS_Mount VFS_Progress
begin

text \<open>
  The asynchronous handle \<open>AsyncNfs\<close> (\<open>nfs-client/src/async_context.rs\<close>): a context behind
  \<open>Arc<Mutex<..>>\<close>, shared by tasks. \<open>blocking\<close> runs a closure on the pool of blocking threads
  under the lock; the threads are interleaved in every order by the step relation
  \<open>async_run\<close>. A closure that panics poisons the mutex, and \<open>expect\<close> makes the task that
  waits for it panic; dropping the future of a task does not stop its closure.
\<close>

subsection \<open>The calls\<close>

datatype async_value =
    Val_Attr Attr | Val_Bytes bytes | Val_Entries "DirEntry list" | Val_StatVfs StatVfs
  | Val_Version u32 | Val_Unit

definition op_map :: "('a \<Rightarrow> 'b) \<Rightarrow> ('s, 'e, 'a) op \<Rightarrow> ('s, 'e, 'b) op" where
  "op_map f m = op_bind m (\<lambda>x. op_lift (Ok (f x)))"

type_synonym 's closure = "'s NfsContext \<Rightarrow> ('s, async_value) vfs_op"

definition async_stat :: "string \<Rightarrow> 's closure" where
  "async_stat path = (\<lambda>c. op_map Val_Attr (cx_stat c path))"

definition async_read_whole :: "string \<Rightarrow> 's closure" where
  "async_read_whole path = (\<lambda>c. op_map Val_Bytes (cx_read_whole c path))"

definition async_write_whole :: "string \<Rightarrow> bytes \<Rightarrow> 's closure" where
  "async_write_whole path data = (\<lambda>c. op_map (\<lambda>_. Val_Unit) (cx_write_whole c path data))"

definition async_readdir :: "string \<Rightarrow> 's closure" where
  "async_readdir path = (\<lambda>c. op_map Val_Entries (cx_readdir c path))"

definition async_mkdir :: "string \<Rightarrow> 's closure" where
  "async_mkdir path = (\<lambda>c. op_map (\<lambda>_. Val_Unit) (cx_mkdir c path))"

definition async_rmdir :: "string \<Rightarrow> 's closure" where
  "async_rmdir path = (\<lambda>c. op_map (\<lambda>_. Val_Unit) (cx_rmdir c path))"

definition async_unlink :: "string \<Rightarrow> 's closure" where
  "async_unlink path = (\<lambda>c. op_map (\<lambda>_. Val_Unit) (cx_unlink c path))"

definition async_rename :: "string \<Rightarrow> string \<Rightarrow> 's closure" where
  "async_rename src dst = (\<lambda>c. op_map (\<lambda>_. Val_Unit) (cx_rename c src dst))"

definition async_statvfs :: "string \<Rightarrow> 's closure" where
  "async_statvfs path = (\<lambda>c. op_map Val_StatVfs (cx_statvfs c path))"

definition async_version :: "'s closure" where
  "async_version = (\<lambda>c. op_lift (Ok (Val_Version (cx_version c))))"

datatype async_call =
    As_stat string | As_read_whole string | As_write_whole string bytes | As_readdir string
  | As_mkdir string | As_rmdir string | As_unlink string | As_rename string string
  | As_statvfs string | As_version

fun closure_of :: "async_call \<Rightarrow> 's closure" where
  "closure_of (As_stat path) = async_stat path"
| "closure_of (As_read_whole path) = async_read_whole path"
| "closure_of (As_write_whole path data) = async_write_whole path data"
| "closure_of (As_readdir path) = async_readdir path"
| "closure_of (As_mkdir path) = async_mkdir path"
| "closure_of (As_rmdir path) = async_rmdir path"
| "closure_of (As_unlink path) = async_unlink path"
| "closure_of (As_rename src dst) = async_rename src dst"
| "closure_of (As_statvfs path) = async_statvfs path"
| "closure_of As_version = async_version"

subsection \<open>Tasks and the mutex\<close>

datatype mutex = Free | Held nat | Poisoned

datatype task =
    Waiting async_call
  | Running async_call
  | Done async_call "(async_value, NfsError) result"
  | Panicked async_call

record 's AsyncNfs =
  an_ctx :: 's
  an_mutex :: mutex
  an_tasks :: "task list"

definition new_AsyncNfs :: "'s \<Rightarrow> 's AsyncNfs" where
  "new_AsyncNfs s = \<lparr>an_ctx = s, an_mutex = Free, an_tasks = []\<rparr>"

text \<open>\<open>AsyncNfs::mount_url\<close>; a panic in the mount would reach the \<open>expect\<close>.\<close>

definition async_mount_url ::
  "resolver \<Rightarrow> rustls option \<Rightarrow> u32 \<Rightarrow> u64 \<Rightarrow> clock3 \<Rightarrow> string \<Rightarrow> (net, NfsError, Mounted) op" where
  "async_mount_url lookup tls pid nanos clock url = cx_mount_url lookup tls pid nanos clock url"

text \<open>The three things that happen to a task: it is spawned, it takes the lock, it runs.\<close>

definition task_spawn :: "async_call \<Rightarrow> 's AsyncNfs \<Rightarrow> 's AsyncNfs" where
  "task_spawn req a = a\<lparr>an_tasks := an_tasks a @ [Waiting req]\<rparr>"

definition task_lock :: "nat \<Rightarrow> 's AsyncNfs \<Rightarrow> 's AsyncNfs option" where
  "task_lock i a =
     (if i < length (an_tasks a) then
        (case (an_tasks a ! i, an_mutex a) of
           (Waiting req, Free) \<Rightarrow> Some (a\<lparr>an_mutex := Held i, an_tasks := (an_tasks a)[i := Running req]\<rparr>)
         | (Waiting req, Poisoned) \<Rightarrow> Some (a\<lparr>an_tasks := (an_tasks a)[i := Panicked req]\<rparr>)
         | _ \<Rightarrow> None)
      else None)"

definition task_run :: "'s NfsContext \<Rightarrow> nat \<Rightarrow> 's AsyncNfs \<Rightarrow> 's AsyncNfs option" where
  "task_run cx i a =
     (if i < length (an_tasks a) then
        (case an_tasks a ! i of
           Running req \<Rightarrow>
             (case closure_of req cx (an_ctx a) of
                None \<Rightarrow> None
              | Some (Panic, s') \<Rightarrow>
                  Some (a\<lparr>an_ctx := s', an_mutex := Poisoned, an_tasks := (an_tasks a)[i := Panicked req]\<rparr>)
              | Some (r, s') \<Rightarrow>
                  Some (a\<lparr>an_ctx := s', an_mutex := Free, an_tasks := (an_tasks a)[i := Done req r]\<rparr>))
         | _ \<Rightarrow> None)
      else None)"

inductive async_run :: "'s NfsContext \<Rightarrow> 's AsyncNfs \<Rightarrow> 's AsyncNfs \<Rightarrow> bool" for cx where
  start: "async_run cx a a"
| spawn: "async_run cx a b \<Longrightarrow> async_run cx a (task_spawn req b)"
| lock: "async_run cx a b \<Longrightarrow> task_lock i b = Some c \<Longrightarrow> async_run cx a c"
| run: "async_run cx a b \<Longrightarrow> task_run cx i b = Some c \<Longrightarrow> async_run cx a c"

subsection \<open>Mutual exclusion\<close>

definition exclusive :: "'s AsyncNfs \<Rightarrow> bool" where
  "exclusive a \<longleftrightarrow> (\<forall>i < length (an_tasks a). (\<exists>req. an_tasks a ! i = Running req) \<longleftrightarrow> an_mutex a = Held i) \<and>
     (\<forall>i. an_mutex a = Held i \<longrightarrow> i < length (an_tasks a))"

definition finished :: "async_call \<Rightarrow> (async_value, NfsError) result \<Rightarrow> task" where
  "finished req r = (if r = Panic then Panicked req else Done req r)"

lemma finished_neq [simp]:
  "finished req r \<noteq> Waiting q" "finished req r \<noteq> Running q"
  "finished req r = Done q r' \<longleftrightarrow> req = q \<and> r = r' \<and> r \<noteq> Panic"
  by (auto simp: finished_def)

lemma task_lock_cases:
  assumes "task_lock i a = Some b"
  obtains req where "i < length (an_tasks a)" "an_tasks a ! i = Waiting req" "an_mutex a = Free"
      "b = a\<lparr>an_mutex := Held i, an_tasks := (an_tasks a)[i := Running req]\<rparr>"
  | req where "i < length (an_tasks a)" "an_tasks a ! i = Waiting req" "an_mutex a = Poisoned"
      "b = a\<lparr>an_tasks := (an_tasks a)[i := Panicked req]\<rparr>"
  using assms by (auto simp: task_lock_def split: if_splits task.splits mutex.splits)

lemma task_run_cases:
  assumes "task_run cx i a = Some b"
  obtains req r s' where "i < length (an_tasks a)" "an_tasks a ! i = Running req"
      "closure_of req cx (an_ctx a) = Some (r, s')"
      "b = a\<lparr>an_ctx := s', an_mutex := if r = Panic then Poisoned else Free,
        an_tasks := (an_tasks a)[i := finished req r]\<rparr>"
  using assms by (auto simp: task_run_def finished_def split: if_splits task.splits option.splits result.splits)

lemma async_run_exclusive: "async_run cx a b \<Longrightarrow> exclusive a \<Longrightarrow> exclusive b"
proof (induction rule: async_run.induct)
  case (spawn a b req)
  then show ?case by (auto simp: exclusive_def task_spawn_def nth_append less_Suc_eq)
next
  case (lock a b i c)
  from lock.hyps(2) show ?case
    by (rule task_lock_cases) (use lock.IH lock.prems in \<open>auto simp: exclusive_def nth_list_update\<close>)
next
  case (run a b i c)
  from run.hyps(2) show ?case
  proof (rule task_run_cases)
    fix req r s'
    assume c: "i < length (an_tasks b)" "an_tasks b ! i = Running req"
      "c = b\<lparr>an_ctx := s', an_mutex := if r = Panic then Poisoned else Free,
        an_tasks := (an_tasks b)[i := finished req r]\<rparr>"
    with run.IH run.prems have "an_mutex b = Held i" by (auto simp: exclusive_def)
    with c run.IH run.prems show ?thesis by (auto simp: exclusive_def nth_list_update)
  qed
qed

subsection \<open>Serial histories\<close>

text \<open>
  The specification: the calls run one after the other. A history lists the tasks with their
  calls and results; \<open>serial\<close> says that it is the history of a sequential run.
\<close>

inductive serial :: "'s NfsContext \<Rightarrow> 's \<Rightarrow> (nat \<times> async_call \<times> (async_value, NfsError) result) list \<Rightarrow> 's \<Rightarrow> bool"
  for cx and s where
  none: "serial cx s [] s"
| one: "serial cx s h s1 \<Longrightarrow> closure_of req cx s1 = Some (r, s2) \<Longrightarrow> serial cx s (h @ [(i, req, r)]) s2"

text \<open>The history that the tasks of a state show.\<close>

definition records :: "(nat \<times> async_call \<times> (async_value, NfsError) result) list \<Rightarrow> task list \<Rightarrow> bool" where
  "records h ts \<longleftrightarrow> distinct (map fst h) \<and>
     (\<forall>i req r. (i, req, r) \<in> set h \<longrightarrow> i < length ts \<and> ts ! i = finished req r) \<and>
     (\<forall>i req r. i < length ts \<and> ts ! i = Done req r \<longrightarrow> (i, req, r) \<in> set h)"

lemma recordsI:
  assumes "distinct (map fst h)" "\<And>i req r. (i, req, r) \<in> set h \<Longrightarrow> i < length ts"
    and "\<And>i req r. (i, req, r) \<in> set h \<Longrightarrow> ts ! i = finished req r"
    and "\<And>i req r. i < length ts \<Longrightarrow> ts ! i = Done req r \<Longrightarrow> (i, req, r) \<in> set h"
  shows "records h ts"
  using assms unfolding records_def by blast

lemma recordsD:
  assumes "records h ts"
  shows "distinct (map fst h)" "(i, req, r) \<in> set h \<Longrightarrow> i < length ts"
    and "(i, req, r) \<in> set h \<Longrightarrow> ts ! i = finished req r"
    and "i < length ts \<Longrightarrow> ts ! i = Done req r \<Longrightarrow> (i, req, r) \<in> set h"
  using assms unfolding records_def by blast+

lemma records_append:
  assumes "records h ts"
  shows "records h (ts @ [Waiting req])"
proof (rule recordsI)
  fix i q r
  assume e: "(i, q, r) \<in> set h"
  from recordsD(2) [OF assms e] recordsD(3) [OF assms e]
  show "i < length (ts @ [Waiting req])" "(ts @ [Waiting req]) ! i = finished q r" by (simp_all add: nth_append)
next
  fix i q r
  assume i: "i < length (ts @ [Waiting req])" "(ts @ [Waiting req]) ! i = Done q r"
  then have "i < length ts" by (cases "i = length ts") simp_all
  with i recordsD(4) [OF assms, of i q r] show "(i, q, r) \<in> set h" by (simp add: nth_append)
qed (rule recordsD(1) [OF assms])

lemma records_fresh: "records h ts \<Longrightarrow> ts ! i = Waiting req \<or> ts ! i = Running req \<Longrightarrow> (i, q, r) \<notin> set h"
  using recordsD(3) finished_neq(1,2) by metis

lemma records_other:
  assumes "records h ts" "ts ! i = Waiting req" "t = Running req \<or> t = Panicked req"
  shows "records h (ts[i := t])"
proof (rule recordsI)
  fix j q r
  assume e: "(j, q, r) \<in> set h"
  with records_fresh [OF assms(1)] assms(2) have "j \<noteq> i" by blast
  with recordsD(2) [OF assms(1) e] recordsD(3) [OF assms(1) e]
  show "j < length (ts[i := t])" "ts[i := t] ! j = finished q r" by simp_all
next
  fix j q r
  assume j: "j < length (ts[i := t])" "ts[i := t] ! j = Done q r"
  with assms(3) have "j \<noteq> i" by auto
  with j recordsD(4) [OF assms(1), of j q r] show "(j, q, r) \<in> set h" by simp
qed (rule recordsD(1) [OF assms(1)])

lemma records_new:
  assumes "records h ts" "i < length ts" "ts ! i = Running req"
  shows "records (h @ [(i, req, r)]) (ts[i := finished req r])"
proof (rule recordsI)
  show "distinct (map fst (h @ [(i, req, r)]))"
    using recordsD(1) [OF assms(1)] records_fresh [OF assms(1)] assms(3) by force
next
  fix j q r'
  assume e: "(j, q, r') \<in> set (h @ [(i, req, r)])"
  show "j < length (ts[i := finished req r])" "ts[i := finished req r] ! j = finished q r'"
  proof (atomize (full), cases "j = i")
    case True
    with e records_fresh [OF assms(1), of i req] assms(3) have "q = req" "r' = r" by auto
    with True assms(2) show "j < length (ts[i := finished req r]) \<and> ts[i := finished req r] ! j = finished q r'" by simp
  next
    case False
    with e have e: "(j, q, r') \<in> set h" by simp
    with False recordsD(2) [OF assms(1) e] recordsD(3) [OF assms(1) e]
    show "j < length (ts[i := finished req r]) \<and> ts[i := finished req r] ! j = finished q r'" by simp
  qed
next
  fix j q r'
  assume j: "j < length (ts[i := finished req r])" "ts[i := finished req r] ! j = Done q r'"
  show "(j, q, r') \<in> set (h @ [(i, req, r)])"
  proof (cases "j = i")
    case False
    with j recordsD(4) [OF assms(1), of j q r'] show ?thesis by simp
  qed (use j in simp)
qed

lemma async_run_serial:
  "async_run cx a b \<Longrightarrow> a = new_AsyncNfs s0 \<Longrightarrow> \<exists>h. serial cx s0 h (an_ctx b) \<and> records h (an_tasks b)"
proof (induction rule: async_run.induct)
  case (start a)
  then have "serial cx s0 [] (an_ctx a)" "records [] (an_tasks a)"
    by (simp_all add: new_AsyncNfs_def serial.none records_def)
  then show ?case by blast
next
  case (spawn a b req)
  then obtain h where "serial cx s0 h (an_ctx b)" "records h (an_tasks b)" by blast
  with records_append show ?case unfolding task_spawn_def by (intro exI [of _ h]) simp
next
  case (lock a b i c)
  then obtain h where h: "serial cx s0 h (an_ctx b)" "records h (an_tasks b)" by blast
  from lock.hyps(2) show ?case
  proof (rule task_lock_cases)
    fix req
    assume w: "an_tasks b ! i = Waiting req"
      and c: "c = b\<lparr>an_mutex := Held i, an_tasks := (an_tasks b)[i := Running req]\<rparr>"
    from c h(1) records_other [OF h(2) w, of "Running req"] show ?thesis by auto
  next
    fix req
    assume w: "an_tasks b ! i = Waiting req" and c: "c = b\<lparr>an_tasks := (an_tasks b)[i := Panicked req]\<rparr>"
    from c h(1) records_other [OF h(2) w, of "Panicked req"] show ?thesis by auto
  qed
next
  case (run a b i c)
  then obtain h where h: "serial cx s0 h (an_ctx b)" "records h (an_tasks b)" by blast
  from run.hyps(2) show ?case
  proof (rule task_run_cases)
    fix req r s'
    assume b: "i < length (an_tasks b)" "an_tasks b ! i = Running req" "closure_of req cx (an_ctx b) = Some (r, s')"
      and c: "c = b\<lparr>an_ctx := s', an_mutex := if r = Panic then Poisoned else Free,
        an_tasks := (an_tasks b)[i := finished req r]\<rparr>"
    from serial.one [OF h(1) b(3), of i] records_new [OF h(2) b(1,2), of r] c show ?thesis by auto
  qed
qed

lemma exclusive_new: "exclusive (new_AsyncNfs s)"
  by (simp add: exclusive_def new_AsyncNfs_def)

lemma exclusive_one:
  "exclusive a \<Longrightarrow> i < length (an_tasks a) \<Longrightarrow> j < length (an_tasks a) \<Longrightarrow> an_tasks a ! i = Running p \<Longrightarrow>
    an_tasks a ! j = Running q \<Longrightarrow> i = j"
  unfolding exclusive_def by (metis mutex.inject)


subsection \<open>No task panics\<close>

lemma op_map_safe [op_safe]: "op_safe I m \<Longrightarrow> op_safe I (op_map f m)"
  unfolding op_map_def by (intro op_safe) simp_all

definition unpoisoned :: "('s \<Rightarrow> bool) \<Rightarrow> 's AsyncNfs \<Rightarrow> bool" where
  "unpoisoned I a \<longleftrightarrow> I (an_ctx a) \<and> an_mutex a \<noteq> Poisoned \<and> (\<forall>req. Panicked req \<notin> set (an_tasks a))"

lemma not_in_update: "x \<notin> set xs \<Longrightarrow> x \<noteq> y \<Longrightarrow> x \<notin> set (xs[i := y])"
  using set_update_subset_insert by fastforce

context vfs_backend
begin

lemma closure_safe: "op_safe inv (closure_of req (cx root))"
  by (cases req; simp add: async_stat_def async_read_whole_def async_write_whole_def async_readdir_def
      async_mkdir_def async_rmdir_def async_unlink_def async_rename_def async_statvfs_def async_version_def;
      intro op_safe path_ctx_safe whole_ctx_safe; simp)

lemma async_run_safe: "async_run (cx root) a b \<Longrightarrow> unpoisoned inv a \<Longrightarrow> unpoisoned inv b"
proof (induction rule: async_run.induct)
  case (lock a b i c)
  from lock.hyps(2) show ?case
    by (rule task_lock_cases) (use lock.IH [OF lock.prems] in \<open>simp_all add: unpoisoned_def not_in_update\<close>)
next
  case (run a b i c)
  from run.hyps(2) show ?case
  proof (rule task_run_cases)
    fix req r s'
    assume c: "closure_of req (cx root) (an_ctx b) = Some (r, s')"
      "c = b\<lparr>an_ctx := s', an_mutex := if r = Panic then Poisoned else Free,
        an_tasks := (an_tasks b)[i := finished req r]\<rparr>"
    note b = run.IH [OF run.prems]
    with op_safeD [OF closure_safe _ c(1)] have "inv s'" "r \<noteq> Panic" by (auto simp: unpoisoned_def)
    with c(2) b show ?thesis by (simp add: unpoisoned_def not_in_update finished_def)
  qed
qed (auto simp: task_spawn_def unpoisoned_def)

end

lemma unpoisoned_new: "I s \<Longrightarrow> unpoisoned I (new_AsyncNfs s)"
  by (simp add: unpoisoned_def new_AsyncNfs_def)

text \<open>
  C13: the \<open>expect\<close>s of the asynchronous handle never fire. After a mount of either
  version no schedule of tasks, whatever they call and whatever the servers answer, poisons
  the mutex or makes a task panic.
\<close>

theorem async_tasks_never_panic:
  "(mount_v3 lookup pid nanos url cr t n = Some (Ok (b, root), n') \<and>
      async_run (v3_context pid root) (new_AsyncNfs (b, n')) a \<longrightarrow>
      an_mutex a \<noteq> Poisoned \<and> (\<forall>req. Panicked req \<notin> set (an_tasks a))) \<and>
   (mount_v4 lookup tls pid clock url cr t n = Some (Ok (b4, root), n') \<and>
      async_run (v4_context root) (new_AsyncNfs (b4, n')) a4 \<longrightarrow>
      an_mutex a4 \<noteq> Poisoned \<and> (\<forall>req. Panicked req \<notin> set (an_tasks a4)))"
proof (intro conjI impI; elim conjE)
  assume "mount_v3 lookup pid nanos url cr t n = Some (Ok (b, root), n')"
    and r: "async_run (v3_context pid root) (new_AsyncNfs (b, n')) a"
  then have "unpoisoned v3_inv a"
    by (intro v3.async_run_safe [OF r [unfolded v3_context_def]] unpoisoned_new mount_v3_inv)
  then show "an_mutex a \<noteq> Poisoned" "\<forall>req. Panicked req \<notin> set (an_tasks a)" by (simp_all add: unpoisoned_def)
next
  assume "mount_v4 lookup tls pid clock url cr t n = Some (Ok (b4, root), n')"
    and r: "async_run (v4_context root) (new_AsyncNfs (b4, n')) a4"
  then have "unpoisoned v4_inv a4"
    by (intro v4.async_run_safe [OF r [unfolded v4_context_def]] unpoisoned_new mount_v4_inv)
  then show "an_mutex a4 \<noteq> Poisoned" "\<forall>req. Panicked req \<notin> set (an_tasks a4)" by (simp_all add: unpoisoned_def)
qed

subsection \<open>Progress\<close>

lemma returns_map [returns_intro]: "returns m \<Longrightarrow> returns (op_map f m)"
  unfolding op_map_def by (intro returns_intro)

lemma closure_returns:
  assumes "total_backend (cx_backend cx)"
  shows "returns (closure_of req cx)"
  by (cases req; simp add: async_stat_def async_read_whole_def async_write_whole_def async_readdir_def
      async_mkdir_def async_rmdir_def async_unlink_def async_rename_def async_statvfs_def async_version_def;
      intro returns_intro assms)

lemma async_run_trans: "async_run cx a b \<Longrightarrow> async_run cx b c \<Longrightarrow> async_run cx a c"
  by (rotate_tac, induction rule: async_run.induct) (auto intro: async_run.intros)

lemma running_finishes:
  assumes "total_backend (cx_backend cx)" "i < length (an_tasks a)" "an_tasks a ! i = Running req"
  shows "\<exists>b r. task_run cx i a = Some b \<and> an_tasks b = (an_tasks a)[i := finished req r] \<and>
    an_mutex b \<in> {Free, Poisoned}"
proof -
  obtain r s' where "closure_of req cx (an_ctx a) = Some (r, s')"
    by (rule returnsE [OF closure_returns [OF assms(1)]])
  with assms(2,3) show ?thesis by (cases r) (auto simp: task_run_def finished_def intro!: exI [of _ r])
qed

lemma waiting_finishes:
  assumes "total_backend (cx_backend cx)" "i < length (an_tasks a)" "an_tasks a ! i = Waiting req" "an_mutex a \<in> {Free, Poisoned}"
  shows "\<exists>b r. async_run cx a b \<and> an_tasks b ! i = finished req r"
proof (cases "an_mutex a = Free")
  case True
  let ?b = "a\<lparr>an_mutex := Held i, an_tasks := (an_tasks a)[i := Running req]\<rparr>"
  have "task_lock i a = Some ?b" using True assms(2,3) by (simp add: task_lock_def)
  then have l: "async_run cx a ?b" by (rule async_run.lock [OF async_run.start])
  obtain c r where "task_run cx i ?b = Some c" "an_tasks c = (an_tasks ?b)[i := finished req r]"
    using running_finishes [of cx i ?b req] assms(1,2) by auto
  with async_run.run [OF l] assms(2) show ?thesis by force
next
  case False
  then have "task_lock i a = Some (a\<lparr>an_tasks := (an_tasks a)[i := Panicked req]\<rparr>)"
    using assms by (simp add: task_lock_def)
  from async_run.lock [OF async_run.start this] assms(2) show ?thesis
    by (intro exI [of _ "a\<lparr>an_tasks := (an_tasks a)[i := Panicked req]\<rparr>"] exI [of _ Panic]) (simp add: finished_def)
qed


subsection \<open>Examples\<close>

definition ex_async :: "unit AsyncNfs" where
  "ex_async = \<lparr>an_ctx = (), an_mutex = Held 0,
     an_tasks = [Running As_version, Done (As_mkdir ''/'') (Err (InvalidPath ''/''))]\<rparr>"

lemma ex_async_run: "async_run ex_context (new_AsyncNfs ()) ex_async"
proof -
  let ?a = "task_spawn (As_mkdir ''/'') (task_spawn As_version (new_AsyncNfs ()))"
  let ?b = "?a\<lparr>an_mutex := Held 1, an_tasks := [Waiting As_version, Running (As_mkdir ''/'')]\<rparr>"
  let ?c = "?a\<lparr>an_tasks := [Waiting As_version, Done (As_mkdir ''/'') (Err (InvalidPath ''/''))]\<rparr>"
  have "async_run ex_context (new_AsyncNfs ()) ?a" by (intro async_run.intros)
  moreover have "task_lock 1 ?a = Some ?b" by (simp add: task_lock_def task_spawn_def new_AsyncNfs_def)
  ultimately have "async_run ex_context (new_AsyncNfs ()) ?b" by (rule async_run.lock)
  moreover have "split_components ''/'' = []" by (simp add: split_components_def)
  then have "task_run ex_context 1 ?b = Some ?c"
    by (simp add: task_run_def async_mkdir_def op_map_def cx_mkdir_def resolve_parent_def op_bind_def op_lift_def
        task_spawn_def new_AsyncNfs_def)
  ultimately have "async_run ex_context (new_AsyncNfs ()) ?c" by (rule async_run.run)
  moreover have "task_lock 0 ?c = Some ex_async"
    by (simp add: task_lock_def task_spawn_def new_AsyncNfs_def ex_async_def)
  ultimately show ?thesis by (rule async_run.lock)
qed



theorem async_tasks_never_panic_example:
  "\<exists>b n'. mount_v3 ex_lookup 7 99 ex_mount_url Cred_None 5 ex_mount_net = Some (Ok (b, [1, 2, 3, 4]), n') \<and>
    an_mutex (task_spawn (As_stat ''/a'') (new_AsyncNfs (b, n'))) \<noteq> Poisoned"
proof -
  obtain b n' where m: "mount_v3 ex_lookup 7 99 ex_mount_url Cred_None 5 ex_mount_net = Some (Ok (b, [1, 2, 3, 4]), n')"
    using ex_mount_v3 by blast
  have "async_run (v3_context 7 [1, 2, 3, 4]) (new_AsyncNfs (b, n')) (task_spawn (As_stat ''/a'') (new_AsyncNfs (b, n')))"
    by (intro async_run.intros)
  with m async_tasks_never_panic [of ex_lookup 7 99 ex_mount_url Cred_None 5 ex_mount_net b "[1, 2, 3, 4]" n'] show ?thesis
    by blast
qed

end
