(* ===== verification/RPC_Async.thy ===== *)
theory RPC_Async
  imports RPC_Client
begin

text \<open>
  The asynchronous RPC client (\<open>nfs-rpc/src/client_async.rs\<close>): the same exchange over tokio
  sockets. The timer of \<open>tokio::time::timeout\<close> runs over a whole exchange and can fire at
  every point where it waits: in the script of the network that is a \<open>Deadline\<close> or a
  \<open>WouldBlock\<close>, which tokio never hands to the program but waits out. Opening a connection
  is not under the timer.

  On a network without timeouts and interruptions the client is proved equal to the
  synchronous one, so what is proved of that one carries over.
\<close>

subsection \<open>Definitions\<close>

record AsyncRpcClient =
  ac_addr :: SocketAddr
  ac_protocol :: Protocol
  ac_cred :: Credentials
  ac_timeout :: nat
  ac_socket :: Socket
  ac_reassembler :: RecordReassembler
  ac_pending :: "bytes list"
  ac_next_xid :: u32

type_synonym 'a async_op = "(AsyncRpcClient \<times> net, RpcError, 'a) op"

definition ASYNC_MAX_ATTEMPTS :: nat where "ASYNC_MAX_ATTEMPTS = 3"

definition async_open_socket :: "SocketAddr \<Rightarrow> Protocol \<Rightarrow> (net, RpcError, Socket) op" where
  "async_open_socket a p n =
     (case net_opens n of
        [] \<Rightarrow> None
      | Some kind # os \<Rightarrow> Some (Err (Io kind), n\<lparr>net_opens := os\<rparr>)
      | None # os \<Rightarrow> Some (Ok (case p of Tcp \<Rightarrow> Sock_Tcp | Udp \<Rightarrow> Sock_Udp),
          n\<lparr>net_opens := os, net_log := net_log n @ [Opened a p]\<rparr>))"

definition async_seed_xid :: "u32 \<Rightarrow> net \<Rightarrow> u32 \<times> net" where
  "async_seed_xid pid n =
     (case net_clock n of
        [] \<Rightarrow> (0 XOR pid, n)
      | nanos # ts \<Rightarrow> (nanos XOR pid, n\<lparr>net_clock := ts\<rparr>))"

definition async_connect ::
  "u32 \<Rightarrow> SocketAddr \<Rightarrow> Protocol \<Rightarrow> Credentials \<Rightarrow> nat \<Rightarrow> (net, RpcError, AsyncRpcClient) op" where
  "async_connect pid a p cr call_timeout =
     op_bind (async_open_socket a p) (\<lambda>sock n.
       let (seed, n') = async_seed_xid pid n in
       Some (Ok \<lparr>ac_addr = a, ac_protocol = p, ac_cred = cr, ac_timeout = call_timeout, ac_socket = sock,
         ac_reassembler = new_reassembler, ac_pending = [], ac_next_xid = seed\<rparr>, n'))"

definition async_set_credentials :: "Credentials \<Rightarrow> AsyncRpcClient \<Rightarrow> AsyncRpcClient" where
  "async_set_credentials cr c = c\<lparr>ac_cred := cr\<rparr>"

definition async_is_retryable :: "RpcError \<Rightarrow> bool" where
  "async_is_retryable err = (case err of Io _ \<Rightarrow> True | ConnectionClosed \<Rightarrow> True | Timeout \<Rightarrow> True | _ \<Rightarrow> False)"

definition async_reconnect :: "unit async_op" where
  "async_reconnect = (\<lambda>(c, n).
     case async_open_socket (ac_addr c) (ac_protocol c) n of
       None \<Rightarrow> None
     | Some (Err e, n') \<Rightarrow> Some (Err e, c, n')
     | Some (Panic, n') \<Rightarrow> Some (Panic, c, n')
     | Some (Ok sock, n') \<Rightarrow>
         Some (Ok (), c\<lparr>ac_socket := sock, ac_reassembler := new_reassembler, ac_pending := []\<rparr>, n'))"

definition async_build_call ::
  "u32 \<Rightarrow> u32 \<Rightarrow> u32 \<Rightarrow> encoding \<Rightarrow> AsyncRpcClient \<Rightarrow> (u32 \<times> bytes, RpcError) result \<times> AsyncRpcClient" where
  "async_build_call prog vers proc args c =
     (let xid = ac_next_xid c; c' = c\<lparr>ac_next_xid := ac_next_xid c + 1\<rparr> in
      (and_then (encode_call xid prog vers proc (ac_cred c') []) (\<lambda>message.
       and_then (map_err Xdr (args message)) (\<lambda>message. Ok (xid, message))), c'))"

definition async_transmit :: "bytes \<Rightarrow> unit async_op" where
  "async_transmit data = (\<lambda>(c, n).
     (case net_sends n of
        [] \<Rightarrow> None
      | None # ss \<Rightarrow> Some (Ok (), c, n\<lparr>net_sends := ss, net_log := net_log n @ [Sent data]\<rparr>)
      | Some kind # ss \<Rightarrow> Some (Err (if kind = WouldBlock then Timeout else Io kind), c,
          n\<lparr>net_sends := ss, net_log := net_log n @ [Send_Failed data]\<rparr>)))"

definition async_send :: "bytes \<Rightarrow> unit async_op" where
  "async_send message = (\<lambda>(c, n).
     if ac_socket c = Sock_Udp then async_transmit message (c, n)
     else op_bind (op_lift (frame message)) async_transmit (c, n))"

fun async_recv_loop ::
  "AsyncRpcClient \<Rightarrow> recv_event list \<Rightarrow> ((bytes, RpcError) result \<times> AsyncRpcClient \<times> recv_event list) option"
where
  "async_recv_loop c [] = None"
| "async_recv_loop c (Deadline # evs) = Some (Err Timeout, c, evs)"
| "async_recv_loop c (Recv_Err kind # evs) =
     Some (Err (if kind = WouldBlock then Timeout else Io kind), c, evs)"
| "async_recv_loop c (Recv_Data buf # evs) =
     (if ac_socket c = Sock_Udp then Some (Ok buf, c, evs)
      else if buf = [] then Some (Err ConnectionClosed, c, evs)
      else
        let (recs, res, r') = drain (push buf (ac_reassembler c));
            c' = c\<lparr>ac_reassembler := r', ac_pending := ac_pending c @ recs\<rparr>
        in (case res of
              Err e \<Rightarrow> Some (Err e, c', evs)
            | Panic \<Rightarrow> Some (Panic, c', evs)
            | Ok _ \<Rightarrow>
                (case ac_pending c' of
                   message # rest \<Rightarrow> Some (Ok message, c'\<lparr>ac_pending := rest\<rparr>, evs)
                 | [] \<Rightarrow> async_recv_loop c' evs)))"

definition async_recv_message ::
  "AsyncRpcClient \<Rightarrow> recv_event list \<Rightarrow> ((bytes, RpcError) result \<times> AsyncRpcClient \<times> recv_event list) option"
where
  "async_recv_message c evs =
     (case ac_pending c of
        message # rest \<Rightarrow> Some (Ok message, c\<lparr>ac_pending := rest\<rparr>, evs)
      | [] \<Rightarrow> async_recv_loop c evs)"

lemma async_recv_loop_shrinks:
  "async_recv_loop c evs = Some (res, c', evs') \<Longrightarrow> length evs' < length evs"
  by (induction c evs rule: async_recv_loop.induct)
    (fastforce simp: Let_def split: if_splits prod.splits result.splits list.splits)+

lemma async_recv_message_shrinks:
  "async_recv_message c evs = Some (Ok m, c', evs') \<Longrightarrow>
    length evs' < length evs \<or> length evs' = length evs \<and> length (ac_pending c') < length (ac_pending c)"
  by (auto simp: async_recv_message_def dest: async_recv_loop_shrinks split: list.splits)

text \<open>The loop of \<open>exchange\<close>, after the message has been sent.\<close>

function async_await ::
  "'a decoder \<Rightarrow> u32 \<Rightarrow> AsyncRpcClient \<Rightarrow> recv_event list \<Rightarrow>
    (('a, RpcError) result \<times> AsyncRpcClient \<times> recv_event list) option" where
  "async_await dec xid c evs =
     (case async_recv_message c evs of
        None \<Rightarrow> None
      | Some (Err e, c', evs') \<Rightarrow> Some (Err e, c', evs')
      | Some (Panic, c', evs') \<Rightarrow> Some (Panic, c', evs')
      | Some (Ok reply, c', evs') \<Rightarrow>
          (case parse_reply reply of
             Err e \<Rightarrow> Some (Err e, c', evs')
           | Panic \<Rightarrow> Some (Panic, c', evs')
           | Ok (reply_xid, res) \<Rightarrow>
               if reply_xid \<noteq> xid then async_await dec xid c' evs'
               else Some (and_then res (\<lambda>body. map_err Xdr (map_ok fst (dec body))), c', evs')))"
  by pat_completeness auto
termination
  by (relation "measures [\<lambda>(dec, xid, c, evs). length evs, \<lambda>(dec, xid, c, evs). length (ac_pending c)]")
    (auto dest!: async_recv_message_shrinks)

declare async_await.simps [simp del]

definition async_exchange :: "'a decoder \<Rightarrow> u32 \<Rightarrow> bytes \<Rightarrow> 'a async_op" where
  "async_exchange dec xid message =
     op_bind (async_send message) (\<lambda>_ (c, n).
       case async_await dec xid c (net_recvs n) of
         None \<Rightarrow> None
       | Some (res, c', evs') \<Rightarrow> Some (res, c', n\<lparr>net_recvs := evs'\<rparr>))"

function async_call_loop :: "nat \<Rightarrow> 'a decoder \<Rightarrow> u32 \<Rightarrow> bytes \<Rightarrow> 'a async_op" where
  "async_call_loop attempt dec xid message s =
     (case async_exchange dec xid message s of
        None \<Rightarrow> None
      | Some (Ok v, s') \<Rightarrow> Some (Ok v, s')
      | Some (Panic, s') \<Rightarrow> Some (Panic, s')
      | Some (Err err, s') \<Rightarrow>
          if attempt + 1 < ASYNC_MAX_ATTEMPTS \<and> async_is_retryable err then
            (if ac_protocol (fst s') = Tcp
             then op_bind async_reconnect (\<lambda>_. async_call_loop (attempt + 1) dec xid message) s'
             else async_call_loop (attempt + 1) dec xid message s')
          else Some (Err err, s'))"
  by pat_completeness auto
termination
  by (relation "measure (\<lambda>(attempt, dec, xid, message, s). ASYNC_MAX_ATTEMPTS - attempt)") auto

declare async_call_loop.simps [simp del]

definition async_call :: "u32 \<Rightarrow> u32 \<Rightarrow> u32 \<Rightarrow> encoding \<Rightarrow> 'a decoder \<Rightarrow> 'a async_op" where
  "async_call prog vers proc args dec = (\<lambda>(c, n).
     let (built, c') = async_build_call prog vers proc args c in
     op_bind (op_lift built) (\<lambda>(xid, message). async_call_loop 0 dec xid message) (c', n))"

definition async_null :: "u32 \<Rightarrow> u32 \<Rightarrow> unit async_op" where
  "async_null prog vers = async_call prog vers NULL_PROC (encode_unit ()) decode_unit"

subsection \<open>The synchronous client of the same state\<close>

definition to_sync :: "AsyncRpcClient \<Rightarrow> RpcClient" where
  "to_sync c = \<lparr>addr = ac_addr c, protocol = ac_protocol c, cred = ac_cred c, timeout = ac_timeout c,
     socket = ac_socket c, reassembler = ac_reassembler c, pending = ac_pending c,
     next_xid = ac_next_xid c, auto_reconnect = True\<rparr>"

lemma to_sync_sel [simp]:
  "addr (to_sync c) = ac_addr c" "protocol (to_sync c) = ac_protocol c" "cred (to_sync c) = ac_cred c"
  "timeout (to_sync c) = ac_timeout c" "socket (to_sync c) = ac_socket c"
  "reassembler (to_sync c) = ac_reassembler c" "pending (to_sync c) = ac_pending c"
  "next_xid (to_sync c) = ac_next_xid c" "auto_reconnect (to_sync c)"
  by (simp_all add: to_sync_def)

lemma to_sync_update [simp]:
  "(to_sync c)\<lparr>pending := p\<rparr> = to_sync (c\<lparr>ac_pending := p\<rparr>)"
  "(to_sync c)\<lparr>reassembler := r, pending := p\<rparr> = to_sync (c\<lparr>ac_reassembler := r, ac_pending := p\<rparr>)"
  "(to_sync c)\<lparr>socket := s, reassembler := r, pending := p\<rparr>
    = to_sync (c\<lparr>ac_socket := s, ac_reassembler := r, ac_pending := p\<rparr>)"
  "(to_sync c)\<lparr>next_xid := x\<rparr> = to_sync (c\<lparr>ac_next_xid := x\<rparr>)"
  by (simp_all add: to_sync_def)

text \<open>A network that neither times out nor interrupts a system call.\<close>

definition plain_kind :: "ErrorKind \<Rightarrow> bool" where
  "plain_kind kind \<longleftrightarrow> kind \<noteq> WouldBlock \<and> kind \<noteq> TimedOut \<and> kind \<noteq> Interrupted"

definition plain_recv :: "recv_event \<Rightarrow> bool" where
  "plain_recv ev = (case ev of Deadline \<Rightarrow> False | Recv_Err kind \<Rightarrow> plain_kind kind | Recv_Data _ \<Rightarrow> True)"

definition plain :: "net \<Rightarrow> bool" where
  "plain n \<longleftrightarrow> list_all plain_recv (net_recvs n) \<and> Some WouldBlock \<notin> set (net_sends n)"

definition sync_result :: "('r \<times> AsyncRpcClient \<times> 'n) option \<Rightarrow> ('r \<times> RpcClient \<times> 'n) option" where
  "sync_result = map_option (\<lambda>(r, c, n). (r, to_sync c, n))"

lemma sync_result_simps [simp]:
  "sync_result None = None" "sync_result (Some (r, c, n)) = Some (r, to_sync c, n)"
  by (simp_all add: sync_result_def)

text \<open>No message and no stream of bytes is reported as a timeout.\<close>

lemma next_record_errors: "fst (next_record r) = Err e \<Longrightarrow> e = RecordTooLarge"
proof (induction r rule: next_record.induct)
  case (1 r)
  then show ?case
    by (subst (asm) (2) next_record.simps)
      (auto simp: next_step_def Let_def split: option.splits if_splits prod.splits)
qed

lemma drain_errors: "fst (snd (drain r)) = Err e \<Longrightarrow> e = RecordTooLarge"
proof (induction r rule: drain.induct)
  case (1 r)
  obtain res r' where n: "next_record r = (res, r')" by (cases "next_record r")
  show ?case
  proof (cases res)
    case (Ok opt)
    with n "1.prems" show ?thesis
      by (cases opt) (auto simp: drain.simps [of r] intro: "1.IH" [OF n [symmetric] Ok] split: prod.splits)
  next
    case (Err d)
    with n next_record_errors [of r d] "1.prems" show ?thesis by (simp add: drain.simps [of r])
  qed (use n "1.prems" in \<open>simp add: drain.simps [of r]\<close>)
qed

lemma rpc_bind_no_timeout:
  "(\<And>x rest. k x rest \<noteq> Err Timeout) \<Longrightarrow> rpc_bind dec buf k \<noteq> Err Timeout"
  by (auto simp: rpc_bind_def rpc_dec_def)

lemma parse_reply_no_timeout: "parse_reply body \<noteq> Err Timeout"
  unfolding parse_reply_def by (intro rpc_bind_no_timeout conjI impI | simp)+

lemma parse_reply_result_no_timeout: "parse_reply body = Ok (xid, r) \<Longrightarrow> r \<noteq> Err Timeout"
  by (auto simp: parse_reply_def rpc_bind_def split: if_splits)

text \<open>Step by step, on such a network both clients do the same.\<close>

definition same_kind :: "AsyncRpcClient \<Rightarrow> AsyncRpcClient \<Rightarrow> bool" where
  "same_kind c c' \<longleftrightarrow> ac_socket c' = ac_socket c \<and> ac_protocol c' = ac_protocol c"

lemma recv_loop_async:
  assumes "list_all plain_recv evs" "ac_socket c \<noteq> Sock_Stream"
  shows "recv_loop (to_sync c) evs = sync_result (async_recv_loop c evs) \<and>
    (\<forall>r c' evs'. async_recv_loop c evs = Some (r, c', evs') \<longrightarrow>
      r \<noteq> Err Timeout \<and> list_all plain_recv evs' \<and> same_kind c c')"
  using assms
proof (induction evs arbitrary: c)
  case (Cons ev evs)
  show ?case
  proof (cases ev)
    case (Recv_Data buf)
    obtain recs res r where d: "drain (push buf (ac_reassembler c)) = (recs, res, r)"
      by (cases "drain (push buf (ac_reassembler c))")
    let ?c = "c\<lparr>ac_reassembler := r, ac_pending := ac_pending c @ recs\<rparr>"
    have e: "res \<noteq> Err Timeout" using drain_errors [of "push buf (ac_reassembler c)" Timeout] d by auto
    have IH: "recv_loop (to_sync ?c) evs = sync_result (async_recv_loop ?c evs)"
      "async_recv_loop ?c evs = Some (q, c', evs') \<Longrightarrow>
        q \<noteq> Err Timeout \<and> list_all plain_recv evs' \<and> same_kind ?c c'" for q c' evs'
      using Cons.IH [of ?c] Cons.prems by auto
    show ?thesis
    proof (cases "ac_socket c = Sock_Udp \<or> buf = []")
      case True
      with Cons.prems Recv_Data show ?thesis
        by (cases "ac_socket c") (auto simp: same_kind_def)
    next
      case False
      then have s: "ac_socket c = Sock_Tcp" using Cons.prems by (cases "ac_socket c") auto
      show ?thesis
      proof (cases "is_ok res \<and> ac_pending c @ recs = []")
        case True
        with False s d have "async_recv_loop c (ev # evs) = async_recv_loop ?c evs"
          "recv_loop (to_sync c) (ev # evs) = recv_loop (to_sync ?c) evs"
          by (cases res; simp add: Recv_Data)+
        with IH show ?thesis by (simp add: same_kind_def)
      next
        case nd: False
        with False s d e Cons.prems show ?thesis
          by (cases res; cases "ac_pending c @ recs") (auto simp: Recv_Data same_kind_def)
      qed
    qed
  qed (use Cons.prems in \<open>auto simp: plain_recv_def plain_kind_def is_timeout_def same_kind_def\<close>)
qed simp

lemma recv_message_async:
  assumes "list_all plain_recv evs" "ac_socket c \<noteq> Sock_Stream"
  shows "recv_message (to_sync c) evs = sync_result (async_recv_message c evs) \<and>
    (\<forall>r c' evs'. async_recv_message c evs = Some (r, c', evs') \<longrightarrow>
      r \<noteq> Err Timeout \<and> list_all plain_recv evs' \<and> same_kind c c')"
  using recv_loop_async [OF assms] assms
  by (cases "ac_pending c") (auto simp: recv_message_def async_recv_message_def same_kind_def)

lemma await_async:
  assumes "list_all plain_recv evs" "ac_socket c \<noteq> Sock_Stream"
  shows "await_reply dec xid (to_sync c) evs = sync_result (async_await dec xid c evs) \<and>
    (\<forall>r c' evs'. async_await dec xid c evs = Some (r, c', evs') \<longrightarrow>
      r \<noteq> Err Timeout \<and> list_all plain_recv evs' \<and> same_kind c c')"
  using assms
proof (induction dec xid c evs rule: async_await.induct)
  case (1 dec xid c evs)
  note m = recv_message_async [OF "1.prems"]
  show ?case
  proof (cases "async_recv_message c evs")
    case None
    with m show ?thesis by (simp add: await_reply.simps [of dec xid] async_await.simps [of dec xid])
  next
    case (Some out)
    obtain r c1 evs1 where out: "out = (r, c1, evs1)" by (cases out)
    with m Some have r: "recv_message (to_sync c) evs = Some (r, to_sync c1, evs1)" "r \<noteq> Err Timeout"
      "list_all plain_recv evs1" "same_kind c c1" by auto
    note Some = Some [unfolded out]
    show ?thesis
    proof (cases r)
      case (Ok reply)
      show ?thesis
      proof (cases "parse_reply reply")
        case pr: (Ok x)
        obtain xid' res where x: "x = (xid', res)" by (cases x)
        show ?thesis
        proof (cases "xid' = xid")
          case True
          with Some Ok pr x r parse_reply_result_no_timeout [of reply xid' res] show ?thesis
            by (auto simp: await_reply.simps [of dec xid] async_await.simps [of dec xid])
        next
          case False
          have "ac_socket c1 \<noteq> Sock_Stream" using r(4) "1.prems"(2) by (simp add: same_kind_def)
          note IH = "1.IH" [OF Some refl Ok refl pr x [symmetric] False r(3) this]
          from Some Ok pr x False r have
            "async_await dec xid c evs = async_await dec xid c1 evs1"
            "await_reply dec xid (to_sync c) evs = await_reply dec xid (to_sync c1) evs1"
            by (simp_all add: await_reply.simps [of dec xid "to_sync c"] async_await.simps [of dec xid c])
          with IH r(4) show ?thesis by (simp add: same_kind_def)
        qed
      qed (use Some Ok r parse_reply_no_timeout [of reply] in
          \<open>auto simp: await_reply.simps [of dec xid] async_await.simps [of dec xid]\<close>)
    qed (use Some r in \<open>auto simp: await_reply.simps [of dec xid] async_await.simps [of dec xid]\<close>)
  qed
qed

text \<open>\<open>follows m m'\<close>: on a plain network \<open>m'\<close> does what \<open>m\<close> does, and keeps the network plain.\<close>

definition agrees :: "'a rpc_op \<Rightarrow> 'a async_op \<Rightarrow> bool" where
  "agrees m m' \<longleftrightarrow> (\<forall>c n. plain n \<and> ac_socket c \<noteq> Sock_Stream \<longrightarrow>
     m (to_sync c, n) = sync_result (m' (c, n)) \<and>
     (\<forall>r c' n'. m' (c, n) = Some (r, c', n') \<longrightarrow>
        plain n' \<and> ac_socket c' \<noteq> Sock_Stream \<and> ac_protocol c' = ac_protocol c))"

lemma agreesD:
  assumes "agrees m m'" "plain n" "ac_socket c \<noteq> Sock_Stream"
  shows "m (to_sync c, n) = sync_result (m' (c, n))"
    and "m' (c, n) = Some (r, c', n') \<Longrightarrow> plain n' \<and> ac_socket c' \<noteq> Sock_Stream \<and> ac_protocol c' = ac_protocol c"
  using assms unfolding agrees_def by blast+

lemma agreesI:
  assumes "\<And>c n. plain n \<Longrightarrow> ac_socket c \<noteq> Sock_Stream \<Longrightarrow> m (to_sync c, n) = sync_result (m' (c, n))"
    and "\<And>c n r c' n'. plain n \<Longrightarrow> ac_socket c \<noteq> Sock_Stream \<Longrightarrow> m' (c, n) = Some (r, c', n') \<Longrightarrow>
      plain n' \<and> ac_socket c' \<noteq> Sock_Stream \<and> ac_protocol c' = ac_protocol c"
  shows "agrees m m'"
  using assms unfolding agrees_def by blast

lemma agrees_lift: "agrees (op_lift r) (op_lift r)"
  by (simp add: agrees_def op_lift_def)

lemma agrees_bind:
  assumes "agrees m m'" "\<And>x. agrees (f x) (f' x)"
  shows "agrees (op_bind m f) (op_bind m' f')"
proof -
  have "op_bind m f (to_sync c, n) = sync_result (op_bind m' f' (c, n)) \<and>
      (\<forall>r c' n'. op_bind m' f' (c, n) = Some (r, c', n') \<longrightarrow>
        plain n' \<and> ac_socket c' \<noteq> Sock_Stream \<and> ac_protocol c' = ac_protocol c)"
    if p: "plain n" "ac_socket c \<noteq> Sock_Stream" for c n
  proof (cases "m' (c, n)")
    case None
    with agreesD(1) [OF assms(1) p] show ?thesis by (simp add: op_bind_def)
  next
    case (Some out)
    obtain r1 c1 n1 where out: "out = (r1, c1, n1)" by (cases out)
    with agreesD [OF assms(1) p] Some have m: "m (to_sync c, n) = Some (r1, to_sync c1, n1)"
      "plain n1" "ac_socket c1 \<noteq> Sock_Stream" "ac_protocol c1 = ac_protocol c" by auto
    show ?thesis
    proof (cases r1)
      case (Ok x)
      with agreesD [OF assms(2) [of x] m(2,3)] m Some out show ?thesis
        by (simp add: op_bind_def)
    qed (use m Some out in \<open>simp_all add: op_bind_def\<close>)
  qed
  then show ?thesis unfolding agrees_def by blast
qed

lemma agrees_transmit: "agrees (transmit data) (async_transmit data)"
  unfolding agrees_def
  by (auto simp: transmit_def async_transmit_def plain_def split: list.splits option.splits)

lemma agrees_send: "agrees (send message) (async_send message)"
proof (rule agreesI)
  fix c :: AsyncRpcClient and n :: net
  assume p: "plain n" "ac_socket c \<noteq> Sock_Stream"
  note f = agrees_bind [OF agrees_lift [of "frame message"] agrees_transmit]
  show "send message (to_sync c, n) = sync_result (async_send message (c, n))"
    using agreesD(1) [OF f p] agreesD(1) [OF agrees_transmit p, of message] p(2)
    by (cases "ac_socket c") (simp_all add: send_def async_send_def)
  fix r c' n'
  assume s: "async_send message (c, n) = Some (r, c', n')"
  show "plain n' \<and> ac_socket c' \<noteq> Sock_Stream \<and> ac_protocol c' = ac_protocol c"
  proof (cases "ac_socket c = Sock_Udp")
    case True
    with s have "async_transmit message (c, n) = Some (r, c', n')" by (simp add: async_send_def)
    then show ?thesis by (rule agreesD(2) [OF agrees_transmit p])
  next
    case False
    with s have "op_bind (op_lift (frame message)) async_transmit (c, n) = Some (r, c', n')"
      by (simp add: async_send_def)
    then show ?thesis by (rule agreesD(2) [OF f p])
  qed
qed

lemma agrees_await:
  "agrees (\<lambda>(c, n). case await_reply dec xid c (net_recvs n) of
        None \<Rightarrow> None | Some (res, c', evs') \<Rightarrow> Some (res, c', n\<lparr>net_recvs := evs'\<rparr>))
     (\<lambda>(c, n). case async_await dec xid c (net_recvs n) of
        None \<Rightarrow> None | Some (res, c', evs') \<Rightarrow> Some (res, c', n\<lparr>net_recvs := evs'\<rparr>))"
proof (rule agreesI, unfold prod.case)
  fix c :: AsyncRpcClient and n :: net
  assume p: "plain n" "ac_socket c \<noteq> Sock_Stream"
  note a = await_async [of "net_recvs n" c dec xid, OF p(1) [unfolded plain_def, THEN conjunct1] p(2)]
  show "(case await_reply dec xid (to_sync c) (net_recvs n) of
        None \<Rightarrow> None | Some (res, c', evs') \<Rightarrow> Some (res, c', n\<lparr>net_recvs := evs'\<rparr>)) =
      sync_result (case async_await dec xid c (net_recvs n) of
        None \<Rightarrow> None | Some (res, c', evs') \<Rightarrow> Some (res, c', n\<lparr>net_recvs := evs'\<rparr>))"
    using a by (cases "async_await dec xid c (net_recvs n)") auto
  fix r c' n'
  assume "(case async_await dec xid c (net_recvs n) of
        None \<Rightarrow> None | Some (res, c', evs') \<Rightarrow> Some (res, c', n\<lparr>net_recvs := evs'\<rparr>)) = Some (r, c', n')"
  then obtain evs' where "async_await dec xid c (net_recvs n) = Some (r, c', evs')" "n' = n\<lparr>net_recvs := evs'\<rparr>"
    by (auto split: option.splits)
  with a p show "plain n' \<and> ac_socket c' \<noteq> Sock_Stream \<and> ac_protocol c' = ac_protocol c"
    by (auto simp: plain_def same_kind_def)
qed

lemma agrees_exchange: "agrees (attempt_call dec xid message) (async_exchange dec xid message)"
  unfolding attempt_call_def async_exchange_def by (intro agrees_bind agrees_send agrees_await)

lemma agrees_reconnect: "agrees reconnect async_reconnect"
proof (rule agreesI)
  fix c :: AsyncRpcClient and n :: net
  show "reconnect (to_sync c, n) = sync_result (async_reconnect (c, n))"
    by (cases "net_opens n"; cases "hd (net_opens n)")
      (simp_all add: reconnect_def async_reconnect_def open_socket_def async_open_socket_def)
  fix r c' n'
  assume "plain n" "ac_socket c \<noteq> Sock_Stream" "async_reconnect (c, n) = Some (r, c', n')"
  then show "plain n' \<and> ac_socket c' \<noteq> Sock_Stream \<and> ac_protocol c' = ac_protocol c"
    by (cases "net_opens n"; cases "hd (net_opens n)"; cases "ac_protocol c")
      (auto simp: async_reconnect_def async_open_socket_def plain_def)
qed

text \<open>No exchange on a plain network ends in a timeout, so both clients decide alike to retry.\<close>

lemma exchange_no_timeout:
  assumes "plain n" "ac_socket c \<noteq> Sock_Stream" "async_exchange dec xid message (c, n) = Some (r, s')"
  shows "r \<noteq> Err Timeout"
proof -
  have t: "async_send message (c, n) = Some (r1, s1) \<Longrightarrow> r1 \<noteq> Err Timeout" for r1 s1
    using assms(1) by (auto simp: async_send_def async_transmit_def op_bind_eq op_lift_def frame_def
        plain_def split: if_splits list.splits option.splits)
  show ?thesis
  proof
    assume r: "r = Err Timeout"
    with assms(3) t obtain c1 n1 where s: "async_send message (c, n) = Some (Ok (), c1, n1)"
      "async_await dec xid c1 (net_recvs n1) \<noteq> None" and
      w: "fst (the (async_await dec xid c1 (net_recvs n1))) = Err Timeout"
      unfolding async_exchange_def op_bind_eq by (auto split: option.splits)
    from agreesD(2) [OF agrees_send assms(1,2) s(1)] have "list_all plain_recv (net_recvs n1)" "ac_socket c1 \<noteq> Sock_Stream"
      by (auto simp: plain_def)
    from await_async [OF this, of dec xid] s(2) w show False by auto
  qed
qed

lemma retry_agrees: "err \<noteq> Timeout \<Longrightarrow> is_retryable (to_sync c) err = async_is_retryable err"
  by (cases err) (simp_all add: is_retryable_def async_is_retryable_def)

lemma agrees_call_loop: "agrees (call_loop attempt dec xid message) (async_call_loop attempt dec xid message)"
proof (induction "MAX_ATTEMPTS - attempt" arbitrary: attempt rule: less_induct)
  case less
  let ?go = "\<lambda>c1. if ac_protocol c1 = Tcp
      then op_bind async_reconnect (\<lambda>_. async_call_loop (attempt + 1) dec xid message)
      else async_call_loop (attempt + 1) dec xid message"
  let ?sgo = "\<lambda>c1. if ac_protocol c1 = Tcp
      then op_bind reconnect (\<lambda>_. call_loop (attempt + 1) dec xid message)
      else call_loop (attempt + 1) dec xid message"
  have go: "agrees (?sgo c1) (?go c1)" if "attempt + 1 < MAX_ATTEMPTS" for c1
    using that less.hyps [of "attempt + 1"] by (auto intro: agrees_bind agrees_reconnect)
  have m: "ASYNC_MAX_ATTEMPTS = MAX_ATTEMPTS" by (simp add: ASYNC_MAX_ATTEMPTS_def MAX_ATTEMPTS_def)
  have "call_loop attempt dec xid message (to_sync c, n) = sync_result (async_call_loop attempt dec xid message (c, n)) \<and>
      (\<forall>r c' n'. async_call_loop attempt dec xid message (c, n) = Some (r, c', n') \<longrightarrow>
        plain n' \<and> ac_socket c' \<noteq> Sock_Stream \<and> ac_protocol c' = ac_protocol c)"
    if p: "plain n" "ac_socket c \<noteq> Sock_Stream" for c n
  proof (cases "async_exchange dec xid message (c, n)")
    case None
    with agreesD(1) [OF agrees_exchange p, of dec xid message] show ?thesis
      by (simp add: call_loop.simps [of attempt] async_call_loop.simps [of attempt])
  next
    case (Some out)
    obtain r1 c1 n1 where out: "out = (r1, c1, n1)" by (cases out)
    note x = Some [unfolded out]
    from agreesD [OF agrees_exchange p, of dec xid message] x have m1:
      "attempt_call dec xid message (to_sync c, n) = Some (r1, to_sync c1, n1)"
      "plain n1" "ac_socket c1 \<noteq> Sock_Stream" "ac_protocol c1 = ac_protocol c" by auto
    show ?thesis
    proof (cases "\<exists>err. r1 = Err err \<and> attempt + 1 < MAX_ATTEMPTS \<and> async_is_retryable err")
      case True
      then obtain err where e: "r1 = Err err" "attempt + 1 < MAX_ATTEMPTS" "async_is_retryable err" by blast
      then have "is_retryable (to_sync c1) err" using retry_agrees exchange_no_timeout [OF p x] by auto
      with e m1 x have l: "call_loop attempt dec xid message (to_sync c, n) = ?sgo c1 (to_sync c1, n1)"
        "async_call_loop attempt dec xid message (c, n) = ?go c1 (c1, n1)"
        by (simp_all add: call_loop.simps [of attempt] async_call_loop.simps [of attempt] m)
      show ?thesis
        unfolding l m1(4) [symmetric]
        by (intro conjI allI impI agreesD(1) [OF go [OF e(2)] m1(2,3)])
          (drule agreesD(2) [OF go [OF e(2)] m1(2,3)], blast)+
    next
      case False
      then have "async_call_loop attempt dec xid message (c, n) = Some (r1, c1, n1)"
        using x by (cases r1) (auto simp: async_call_loop.simps [of attempt] m)
      moreover have "call_loop attempt dec xid message (to_sync c, n) = Some (r1, to_sync c1, n1)"
        using m1 False exchange_no_timeout [OF p x] retry_agrees
        by (cases r1) (auto simp: call_loop.simps [of attempt])
      ultimately show ?thesis using m1 by simp
    qed
  qed
  then show ?case unfolding agrees_def by blast
qed

text \<open>
  C5: on a network without timeouts and interruptions an asynchronous call is the
  synchronous call of a client in the same state: the same result, the same bytes sent, the same
  connections opened and the same state afterwards.
\<close>

theorem async_call_is_sync_call:
  assumes "list_all plain_recv (net_recvs n)" "Some WouldBlock \<notin> set (net_sends n)" "ac_socket c \<noteq> Sock_Stream"
  shows "call prog vers proc args dec (to_sync c, n) =
    map_option (\<lambda>(r, c', n'). (r, to_sync c', n')) (async_call prog vers proc args dec (c, n))"
proof -
  have p: "plain n" using assms by (simp add: plain_def)
  obtain built c1 where b: "async_build_call prog vers proc args c = (built, c1)"
    by (cases "async_build_call prog vers proc args c")
  then have sb: "build_call prog vers proc args (to_sync c) = (built, to_sync c1)" and c1: "ac_socket c1 = ac_socket c"
    by (auto simp: build_call_def async_build_call_def Let_def)
  have "agrees (op_bind (op_lift built) (\<lambda>(xid, message). call_loop 0 dec xid message))
      (op_bind (op_lift built) (\<lambda>(xid, message). async_call_loop 0 dec xid message))"
    by (intro agrees_bind agrees_lift) (auto split: prod.splits intro: agrees_call_loop)
  from agreesD(1) [OF this p, of c1] c1 assms(3) b sb show ?thesis
    by (simp add: call_def async_call_def sync_result_def)
qed

theorem async_call_is_sync_call_example:
  "call 100003 3 1 (encode_u32 5) decode_u32 (ex_client Tcp, ex_net) =
    map_option (\<lambda>(r, c', n'). (r, to_sync c', n')) (async_call 100003 3 1 (encode_u32 5) decode_u32
      (\<lparr>ac_addr = \<lparr>sa_ip = V4 0x7F000001, sa_port = 2049\<rparr>, ac_protocol = Tcp, ac_cred = Cred_None,
        ac_timeout = DEFAULT_TIMEOUT, ac_socket = Sock_Tcp, ac_reassembler = new_reassembler, ac_pending = [],
        ac_next_xid = 0xFFFFFFFF\<rparr>, ex_net))"
proof -
  let ?c = "\<lparr>ac_addr = \<lparr>sa_ip = V4 0x7F000001, sa_port = 2049\<rparr>, ac_protocol = Tcp, ac_cred = Cred_None,
        ac_timeout = DEFAULT_TIMEOUT, ac_socket = Sock_Tcp, ac_reassembler = new_reassembler, ac_pending = [],
        ac_next_xid = 0xFFFFFFFF\<rparr>"
  have "list_all plain_recv (net_recvs ex_net)" "Some WouldBlock \<notin> set (net_sends ex_net)" "ac_socket ?c \<noteq> Sock_Stream"
    by (simp_all add: ex_net_def list_all_iff plain_recv_def)
  from async_call_is_sync_call [OF this, of 100003 3 1 "encode_u32 5" decode_u32] show ?thesis
    by (simp add: to_sync_def ex_client_def)
qed

end
