(* ===== verification/Error_Text.thy ===== *)
theory Error_Text
  imports VFS_Base
begin

text \<open>
  The texts of errors, as the \<open>error\<close> attributes of \<open>nfs-xdr\<close>, \<open>nfs-rpc\<close>, \<open>nfs-proto\<close> and \<open>nfs-client/src/error.rs\<close>
  give them: the \<open>Display\<close> of every variant, in the bytes of UTF-8. The text of an error of the operating
  system is an argument.
\<close>

subsection \<open>Definitions\<close>

definition show_i32 :: "i32 \<Rightarrow> string" where
  "show_i32 i = (if i <s 0 then CHR ''-'' # show_nat (nat (- sint i)) else show_nat (unat i))"

fun display_XdrError :: "XdrError \<Rightarrow> string" where
  "display_XdrError (Truncated want got) =
     ''entrada truncada: se necesitaban '' @ show_nat want @ '' bytes pero quedaban '' @ show_nat got"
| "display_XdrError (LimitExceeded len limit) =
     ''longitud '' @ show_nat len @ '' supera el l'' @ [CHR 0xC3, CHR 0xAD] @ ''mite '' @ show_nat limit"
| "display_XdrError (LengthOverflow n) = ''longitud '' @ show_nat n @ '' no representable en u32''"
| "display_XdrError (InvalidBool w) =
     ''bool XDR inv'' @ [CHR 0xC3, CHR 0xA1] @ ''lido: '' @ show_nat (unat w)"
| "display_XdrError (InvalidEnum i) =
     ''discriminante de enum inv'' @ [CHR 0xC3, CHR 0xA1] @ ''lido: '' @ show_i32 i"
| "display_XdrError (InvalidUnion w) =
     ''discriminante de union inv'' @ [CHR 0xC3, CHR 0xA1] @ ''lido: '' @ show_nat (unat w)"
| "display_XdrError InvalidUtf8 = ''cadena XDR no es UTF-8 v'' @ [CHR 0xC3, CHR 0xA1] @ ''lido''"
| "display_XdrError (TrailingData n) =
     ''sobran '' @ show_nat n @ '' bytes tras la decodificaci'' @ [CHR 0xC3, CHR 0xB3] @ ''n''"

fun display_RpcError :: "(ErrorKind \<Rightarrow> string) \<Rightarrow> RpcError \<Rightarrow> string" where
  "display_RpcError show_io (Io e) = ''E/S: '' @ show_io e"
| "display_RpcError show_io (Xdr e) = ''XDR: '' @ display_XdrError e"
| "display_RpcError show_io Timeout = ''timeout esperando la respuesta RPC''"
| "display_RpcError show_io ConnectionClosed =
     ''la conexi'' @ [CHR 0xC3, CHR 0xB3] @ ''n se cerr'' @ [CHR 0xC3, CHR 0xB3]"
| "display_RpcError show_io RecordTooLarge = ''registro RPC demasiado grande''"
| "display_RpcError show_io MalformedReply = ''respuesta RPC inesperada o malformada''"
| "display_RpcError show_io (RpcMismatch low high) =
     ''RPC_MISMATCH: el servidor soporta versiones RPC '' @ show_nat (unat low) @ ''..='' @ show_nat (unat high)"
| "display_RpcError show_io (AuthError w) =
     ''error de autenticaci'' @ [CHR 0xC3, CHR 0xB3] @ ''n RPC (auth_stat='' @ show_nat (unat w) @ '')''"
| "display_RpcError show_io ProgUnavail = ''programa RPC no disponible en el servidor''"
| "display_RpcError show_io (ProgMismatch low high) =
     ''PROG_MISMATCH: el servidor soporta versiones '' @ show_nat (unat low) @ ''..='' @ show_nat (unat high)"
| "display_RpcError show_io ProcUnavail = ''procedimiento RPC no disponible''"
| "display_RpcError show_io GarbageArgs = ''el servidor no pudo decodificar los argumentos (GARBAGE_ARGS)''"
| "display_RpcError show_io SystemErr = ''error interno del servidor RPC (SYSTEM_ERR)''"
| "display_RpcError show_io (UnknownAcceptStat w) = ''accept_stat desconocido: '' @ show_nat (unat w)"

fun display_ProtoError :: "(ErrorKind \<Rightarrow> string) \<Rightarrow> ProtoError \<Rightarrow> string" where
  "display_ProtoError show_io (PE_Rpc e) = ''RPC: '' @ display_RpcError show_io e"
| "display_ProtoError show_io (PE_Xdr e) = ''XDR: '' @ display_XdrError e"
| "display_ProtoError show_io (PE_Io e) = ''E/S: '' @ show_io e"
| "display_ProtoError show_io (Unresolvable server) =
     ''no se pudo resolver el servidor '' @ [CHR 0xC2, CHR 0xAB] @ server @ [CHR 0xC2, CHR 0xBB]"
| "display_ProtoError show_io (PortNotRegistered prog vers) =
     ''el servicio (prog='' @ show_nat (unat prog) @ '', vers='' @ show_nat (unat vers)
     @ '') no est'' @ [CHR 0xC3, CHR 0xA1] @ '' registrado en el portmapper''"
| "display_ProtoError show_io (PE_Mount w) =
     ''MOUNT fall'' @ [CHR 0xC3, CHR 0xB3] @ '' con mountstat3='' @ show_nat (unat w)"
| "display_ProtoError show_io (PE_Nfs3 w) =
     ''NFSv3 fall'' @ [CHR 0xC3, CHR 0xB3] @ '' con nfsstat3='' @ show_nat (unat w)"
| "display_ProtoError show_io (PE_Nfs4 w) =
     ''NFSv4 fall'' @ [CHR 0xC3, CHR 0xB3] @ '' con nfsstat4='' @ show_nat (unat w)"
| "display_ProtoError show_io (PE_Nlm w) =
     ''NLM fall'' @ [CHR 0xC3, CHR 0xB3] @ '' con nlm4_stat='' @ show_nat (unat w)"
| "display_ProtoError show_io (PE_Rquota w) =
     ''RQUOTA fall'' @ [CHR 0xC3, CHR 0xB3] @ '' con status='' @ show_nat (unat w)"
| "display_ProtoError show_io (PE_Protocol what) = ''protocolo: '' @ what"

fun display_NfsError :: "(ErrorKind \<Rightarrow> string) \<Rightarrow> NfsError \<Rightarrow> string" where
  "display_NfsError show_io NotFound = ''no existe el fichero o directorio''"
| "display_NfsError show_io NotADirectory = ''no es un directorio''"
| "display_NfsError show_io IsADirectory = ''es un directorio''"
| "display_NfsError show_io AlreadyExists = ''ya existe''"
| "display_NfsError show_io PermissionDenied = ''permiso denegado''"
| "display_NfsError show_io NotEmpty =
     ''el directorio no est'' @ [CHR 0xC3, CHR 0xA1] @ '' vac'' @ [CHR 0xC3, CHR 0xAD] @ ''o''"
| "display_NfsError show_io NameTooLong = ''nombre demasiado largo''"
| "display_NfsError show_io NoSpace = ''sin espacio en el dispositivo''"
| "display_NfsError show_io ReadOnly = ''sistema de ficheros de solo lectura''"
| "display_NfsError show_io Stale = ''file handle obsoleto''"
| "display_NfsError show_io InvalidArgument = ''argumento inv'' @ [CHR 0xC3, CHR 0xA1] @ ''lido''"
| "display_NfsError show_io TooManySymlinks =
     ''demasiados enlaces simb'' @ [CHR 0xC3, CHR 0xB3] @ ''licos al resolver la ruta''"
| "display_NfsError show_io Locked = ''recurso bloqueado por otro cliente''"
| "display_NfsError show_io (InvalidPath path) = ''ruta inv'' @ [CHR 0xC3, CHR 0xA1] @ ''lida: '' @ path"
| "display_NfsError show_io (InvalidUrl url) = ''URL inv'' @ [CHR 0xC3, CHR 0xA1] @ ''lida: '' @ url"
| "display_NfsError show_io (NE_Io e) = ''E/S: '' @ show_io e"
| "display_NfsError show_io (NE_Proto e) = ''protocolo: '' @ display_ProtoError show_io e"

subsection \<open>Texts without a zero byte\<close>

text \<open>The strings an error carries from elsewhere.\<close>

fun proto_strings :: "ProtoError \<Rightarrow> string list" where
  "proto_strings (Unresolvable server) = [server]"
| "proto_strings (PE_Protocol what) = [what]"
| "proto_strings _ = []"

fun error_strings :: "NfsError \<Rightarrow> string list" where
  "error_strings (InvalidPath path) = [path]"
| "error_strings (InvalidUrl url) = [url]"
| "error_strings (NE_Proto e) = proto_strings e"
| "error_strings _ = []"

lemma show_nat_zero [simp]: "CHR 0x00 \<notin> set (show_nat n)"
proof (induction n rule: show_nat.induct)
  case (1 n)
  have digit: "CHR 0x00 \<noteq> char_of (48 + d)" if "d < 10" for d :: nat
  proof
    assume "CHR 0x00 = char_of (48 + d)"
    then have "of_char CHR 0x00 = (of_char (char_of (48 + d) :: char) :: nat)" by simp
    with that show False by simp
  qed
  show ?case
    using "1.IH" digit [of n] digit [of "n mod 10"] by (subst show_nat.simps) auto
qed

lemma display_XdrError_zero [simp]: "CHR 0x00 \<notin> set (display_XdrError e)"
  by (cases e) (auto simp: show_i32_def)

lemma display_zero:
  assumes "\<And>k. CHR 0x00 \<notin> set (show_io k)"
  shows "CHR 0x00 \<notin> set (display_RpcError show_io r)"
    and "\<forall>s \<in> set (proto_strings p). CHR 0x00 \<notin> set s \<Longrightarrow> CHR 0x00 \<notin> set (display_ProtoError show_io p)"
    and "\<forall>s \<in> set (error_strings e). CHR 0x00 \<notin> set s \<Longrightarrow> CHR 0x00 \<notin> set (display_NfsError show_io e)"
proof -
  show rpc: "CHR 0x00 \<notin> set (display_RpcError show_io r)" for r
    using assms by (cases r) auto
  show proto: "CHR 0x00 \<notin> set (display_ProtoError show_io p)"
    if "\<forall>s \<in> set (proto_strings p). CHR 0x00 \<notin> set s" for p
    using assms rpc that by (cases p) auto
  show "CHR 0x00 \<notin> set (display_NfsError show_io e)" if "\<forall>s \<in> set (error_strings e). CHR 0x00 \<notin> set s"
    using assms proto that by (cases e) auto
qed

lemma display_NfsError_ne: "display_NfsError show_io e \<noteq> []"
  by (cases e) auto

end
