(* ===== verification/C_API.thy ===== *)
theory C_API
  imports VFS_Mount Error_Text
begin

text \<open>
  The C interface (\<open>nfs-capi/src/lib.rs\<close>). The memory that crosses the boundary is explicit: the
  live handles, strings and byte buffers by address, with 0 for \<open>NULL\<close>. A pointer the caller
  passes in is its address; a C string passed in is \<open>None\<close> for \<open>NULL\<close> or its bytes before
  the \<open>NUL\<close>. Using an address that is not live is undefined behaviour, an error value here.
  \<open>catch_unwind\<close> turns a panic into the error result of the function.

  The library \<open>serde_json\<close> (the text of a JSON value) and the text of an error of the operating system
  are arguments; the other errors have the texts of \<open>Error_Text\<close>.
\<close>

subsection \<open>State\<close>

record NfsHandle =
  ch_ctx :: Mounted
  ch_last_error :: string

record capi =
  ca_handles :: "nat \<rightharpoonup> NfsHandle"
  ca_strings :: "nat \<rightharpoonup> string"
  ca_buffers :: "nat \<rightharpoonup> bytes"
  ca_next :: nat
  ca_net :: net

datatype c_fault = Undefined_Behaviour

type_synonym 'a c_op = "(capi, c_fault, 'a) op"

datatype json = J_Null | J_Nat nat | J_Int int | J_Str string | J_Arr "json list" | J_Obj "(string \<times> json) list"

record c_env =
  ce_lookup :: resolver
  ce_tls :: "rustls option"
  ce_pid :: u32
  ce_nanos :: u64
  ce_clock :: clock3
  ce_show_io :: "ErrorKind \<Rightarrow> string"
  ce_json_text :: "json \<Rightarrow> string"

definition NULL :: nat where "NULL = 0"

text \<open>The address of an allocation of no bytes.\<close>

definition EMPTY :: nat where "EMPTY = 1"

definition CString_new :: "string \<Rightarrow> string option" where
  "CString_new s = (if CHR 0x00 \<in> set s then None else Some s)"

definition set_error :: "string \<Rightarrow> NfsHandle \<Rightarrow> NfsHandle" where
  "set_error msg h = h\<lparr>ch_last_error := (case CString_new msg of Some s \<Rightarrow> s | None \<Rightarrow> [])\<rparr>"

definition as_handle :: "nat \<Rightarrow> 'a \<Rightarrow> (NfsHandle \<Rightarrow> 'a c_op) \<Rightarrow> 'a c_op" where
  "as_handle p dflt f s =
     (if p = NULL then Some (Ok dflt, s)
      else case ca_handles s p of None \<Rightarrow> Some (Err Undefined_Behaviour, s) | Some h \<Rightarrow> f h s)"

definition as_str :: "bytes option \<Rightarrow> string option" where
  "as_str p = (case p of None \<Rightarrow> None
     | Some cstr \<Rightarrow> (case from_utf8 cstr of Ok s \<Rightarrow> Some s | _ \<Rightarrow> None))"

subsection \<open>Calls of the context\<close>

datatype capi_call =
    Cc_stat string | Cc_readdir string | Cc_read string | Cc_write string bytes
  | Cc_mkdir string | Cc_rmdir string | Cc_unlink string | Cc_rename string string | Cc_access string

datatype capi_value = Cv_Attr Attr | Cv_Entries "DirEntry list" | Cv_Bytes bytes | Cv_Bool bool | Cv_Unit

definition value_of :: "('a \<Rightarrow> capi_value) \<Rightarrow> ('s, 'a) vfs_op \<Rightarrow> ('s, capi_value) vfs_op" where
  "value_of f m = op_bind m (\<lambda>x. op_lift (Ok (f x)))"

fun capi_run :: "capi_call \<Rightarrow> 's NfsContext \<Rightarrow> ('s, capi_value) vfs_op" where
  "capi_run (Cc_stat path) cx = value_of Cv_Attr (cx_stat cx path)"
| "capi_run (Cc_readdir path) cx = value_of Cv_Entries (cx_readdir cx path)"
| "capi_run (Cc_read path) cx = value_of Cv_Bytes (cx_read_whole cx path)"
| "capi_run (Cc_write path data) cx = value_of (\<lambda>_. Cv_Unit) (cx_write_whole cx path data)"
| "capi_run (Cc_mkdir path) cx = value_of (\<lambda>_. Cv_Unit) (cx_mkdir cx path)"
| "capi_run (Cc_rmdir path) cx = value_of (\<lambda>_. Cv_Unit) (cx_rmdir cx path)"
| "capi_run (Cc_unlink path) cx = value_of (\<lambda>_. Cv_Unit) (cx_unlink cx path)"
| "capi_run (Cc_rename src dst) cx = value_of (\<lambda>_. Cv_Unit) (cx_rename cx src dst)"
| "capi_run (Cc_access path) cx = value_of Cv_Bool (cx_access cx path)"

fun run_mounted ::
  "u32 \<Rightarrow> capi_call \<Rightarrow> Mounted \<Rightarrow> net \<Rightarrow> ((capi_value, NfsError) result \<times> Mounted \<times> net) option" where
  "run_mounted pid req (Mounted_V3 b root) n =
     map_option (\<lambda>(r, b', n'). (r, Mounted_V3 b' root, n')) (capi_run req (v3_context pid root) (b, n))"
| "run_mounted pid req (Mounted_V4 b root) n =
     map_option (\<lambda>(r, b', n'). (r, Mounted_V4 b' root, n')) (capi_run req (v4_context root) (b, n))"

text \<open>
  The common body: \<open>catch_unwind\<close> around the conversion of the arguments and the call, then
  the error text or the result.
\<close>

definition panic_in :: "string \<Rightarrow> string" where
  "panic_in what = ''p'' @ [CHR 0xC3, CHR 0xA1] @ ''nico en '' @ what"

definition put_handle :: "nat \<Rightarrow> NfsHandle \<Rightarrow> capi \<Rightarrow> capi" where
  "put_handle p h s = s\<lparr>ca_handles := (ca_handles s)(p \<mapsto> h)\<rparr>"

definition guard_call ::
  "c_env \<Rightarrow> string \<Rightarrow> nat \<Rightarrow> (capi_call, string) result \<Rightarrow> 'a \<Rightarrow> (capi_value \<Rightarrow> 'a c_op) \<Rightarrow> NfsHandle \<Rightarrow> 'a c_op" where
  "guard_call env what p args bad ok h s =
     (case args of
        Err msg \<Rightarrow> Some (Ok bad, put_handle p (set_error msg h) s)
      | Panic \<Rightarrow> Some (Ok bad, put_handle p (set_error (panic_in what) h) s)
      | Ok req \<Rightarrow>
          (case run_mounted (ce_pid env) req (ch_ctx h) (ca_net s) of
             None \<Rightarrow> None
           | Some (r, ctx', n') \<Rightarrow>
               let h' = h\<lparr>ch_ctx := ctx'\<rparr>; s' = s\<lparr>ca_net := n'\<rparr> in
               (case r of
                  Ok v \<Rightarrow> ok v (put_handle p h' s')
                | Err e \<Rightarrow> Some (Ok bad, put_handle p (set_error (display_NfsError (ce_show_io env) e) h') s')
                | Panic \<Rightarrow> Some (Ok bad, put_handle p (set_error (panic_in what) h') s'))))"

definition bad_path :: "string \<Rightarrow> string" where
  "bad_path what = ''ruta'' @ what @ '' inv'' @ [CHR 0xC3, CHR 0xA1] @ ''lida''"

definition path_arg :: "string \<Rightarrow> bytes option \<Rightarrow> (string, string) result" where
  "path_arg what p = ok_or (as_str p) (bad_path what)"

definition new_string :: "string \<Rightarrow> nat c_op" where
  "new_string text s =
     (case CString_new text of
        None \<Rightarrow> Some (Ok NULL, s)
      | Some str \<Rightarrow> Some (Ok (ca_next s),
          s\<lparr>ca_strings := (ca_strings s)(ca_next s \<mapsto> str), ca_next := ca_next s + 1\<rparr>))"

definition into_json_ptr :: "c_env \<Rightarrow> json \<Rightarrow> nat c_op" where
  "into_json_ptr env value = new_string (ce_json_text env value)"

subsection \<open>Mounting\<close>

definition nfs_rs_mount :: "c_env \<Rightarrow> bytes option \<Rightarrow> nat c_op" where
  "nfs_rs_mount env url s =
     (case as_str url of
        None \<Rightarrow> Some (Ok NULL, s)
      | Some u \<Rightarrow>
          (case cx_mount_url (ce_lookup env) (ce_tls env) (ce_pid env) (ce_nanos env) (ce_clock env) u (ca_net s) of
             None \<Rightarrow> None
           | Some (Ok ctx, n') \<Rightarrow> Some (Ok (ca_next s),
               s\<lparr>ca_handles := (ca_handles s)(ca_next s \<mapsto> \<lparr>ch_ctx = ctx, ch_last_error = []\<rparr>),
                 ca_next := ca_next s + 1, ca_net := n'\<rparr>)
           | Some (_, n') \<Rightarrow> Some (Ok NULL, s\<lparr>ca_net := n'\<rparr>)))"

definition nfs_rs_unmount :: "nat \<Rightarrow> unit c_op" where
  "nfs_rs_unmount p = as_handle p () (\<lambda>h s. Some (Ok (), s\<lparr>ca_handles := (ca_handles s)(p := None)\<rparr>))"

text \<open>The text that the returned pointer shows; \<open>None\<close> for \<open>NULL\<close>.\<close>

definition nfs_rs_last_error :: "nat \<Rightarrow> string option c_op" where
  "nfs_rs_last_error p = as_handle p None (\<lambda>h s. Some (Ok (Some (ch_last_error h)), s))"

subsection \<open>Metadata and directories\<close>

fun debug_FileType :: "FileType \<Rightarrow> string" where
  "debug_FileType Regular = ''Regular''"
| "debug_FileType Directory = ''Directory''"
| "debug_FileType Symlink = ''Symlink''"
| "debug_FileType Block = ''Block''"
| "debug_FileType CharDev = ''Char''"
| "debug_FileType SocketFile = ''Socket''"
| "debug_FileType FifoFile = ''Fifo''"
| "debug_FileType Unknown = ''Unknown''"

definition attr_json :: "Attr \<Rightarrow> json" where
  "attr_json a = J_Obj
     [(''type'', J_Str (debug_FileType (at_file_type a))), (''mode'', J_Nat (unat (at_mode a))),
      (''nlink'', J_Nat (unat (at_nlink a))), (''uid'', J_Nat (unat (at_uid a))),
      (''gid'', J_Nat (unat (at_gid a))), (''size'', J_Nat (unat (at_size a))),
      (''fileid'', J_Nat (unat (at_fileid a))), (''mtime'', J_Int (sint (ts_secs (at_mtime a)))),
      (''atime'', J_Int (sint (ts_secs (at_atime a)))), (''ctime'', J_Int (sint (ts_secs (at_ctime a))))]"

definition entry_json :: "DirEntry \<Rightarrow> json" where
  "entry_json e = J_Obj
     [(''name'', J_Str (de_name e)), (''fileid'', J_Nat (unat (de_fileid e))),
      (''type'', case de_attr e of None \<Rightarrow> J_Null | Some a \<Rightarrow> J_Str (debug_FileType (at_file_type a))),
      (''size'', case de_attr e of None \<Rightarrow> J_Null | Some a \<Rightarrow> J_Nat (unat (at_size a)))]"

definition nfs_rs_stat :: "c_env \<Rightarrow> nat \<Rightarrow> bytes option \<Rightarrow> nat c_op" where
  "nfs_rs_stat env p path = as_handle p NULL
     (guard_call env ''nfs_rs_stat'' p (map_ok Cc_stat (path_arg [] path)) NULL (\<lambda>v.
        case v of Cv_Attr a \<Rightarrow> into_json_ptr env (attr_json a) | _ \<Rightarrow> op_lift (Ok NULL)))"

definition nfs_rs_readdir :: "c_env \<Rightarrow> nat \<Rightarrow> bytes option \<Rightarrow> nat c_op" where
  "nfs_rs_readdir env p path = as_handle p NULL
     (guard_call env ''nfs_rs_readdir'' p (map_ok Cc_readdir (path_arg [] path)) NULL (\<lambda>v.
        case v of Cv_Entries es \<Rightarrow> into_json_ptr env (J_Arr (map entry_json es)) | _ \<Rightarrow> op_lift (Ok NULL)))"

subsection \<open>Reading and writing\<close>

text \<open>The result: the code and what was written to \<open>*out_buf\<close> and \<open>*out_len\<close>, if anything.\<close>

definition new_buffer :: "bytes \<Rightarrow> (int \<times> (nat \<times> nat) option) c_op" where
  "new_buffer data s =
     (if data = [] then Some (Ok (0, Some (EMPTY, 0)), s)
      else Some (Ok (0, Some (ca_next s, length data)),
        s\<lparr>ca_buffers := (ca_buffers s)(ca_next s \<mapsto> data), ca_next := ca_next s + 1\<rparr>))"

definition nfs_rs_read ::
  "c_env \<Rightarrow> nat \<Rightarrow> bytes option \<Rightarrow> nat \<Rightarrow> nat \<Rightarrow> (int \<times> (nat \<times> nat) option) c_op" where
  "nfs_rs_read env p path out_buf out_len = as_handle p (-1, None) (\<lambda>h.
     if out_buf = NULL \<or> out_len = NULL
     then (\<lambda>s. Some (Ok (-1, None), put_handle p (set_error ''punteros de salida nulos'' h) s))
     else guard_call env ''nfs_rs_read'' p (map_ok Cc_read (path_arg [] path)) (-1, None) (\<lambda>v.
       case v of Cv_Bytes data \<Rightarrow> new_buffer data | _ \<Rightarrow> op_lift (Ok (0, None))) h)"

definition int_call :: "c_env \<Rightarrow> string \<Rightarrow> nat \<Rightarrow> (capi_call, string) result \<Rightarrow> int c_op" where
  "int_call env what p args = as_handle p (-1) (guard_call env what p args (-1) (\<lambda>_. op_lift (Ok 0)))"

text \<open>
  \<open>data\<close> is the memory that may be read from the pointer on; \<open>None\<close> for \<open>NULL\<close>. A slice of more
  than that is undefined behaviour.
\<close>

definition from_raw_parts :: "bytes option \<Rightarrow> nat \<Rightarrow> bytes option" where
  "from_raw_parts data len =
     (case data of
        None \<Rightarrow> Some []
      | Some m \<Rightarrow> if len = 0 then Some [] else if len \<le> length m then Some (take len m) else None)"

definition nfs_rs_write :: "c_env \<Rightarrow> nat \<Rightarrow> bytes option \<Rightarrow> bytes option \<Rightarrow> nat \<Rightarrow> int c_op" where
  "nfs_rs_write env p path data len = as_handle p (-1) (\<lambda>h s.
     case from_raw_parts data len of
       None \<Rightarrow> Some (Err Undefined_Behaviour, s)
     | Some parts \<Rightarrow>
         int_call env ''nfs_rs_write'' p (map_ok (\<lambda>path. Cc_write path parts) (path_arg [] path)) s)"

subsection \<open>Names\<close>

definition nfs_rs_mkdir :: "c_env \<Rightarrow> nat \<Rightarrow> bytes option \<Rightarrow> int c_op" where
  "nfs_rs_mkdir env p path = int_call env ''nfs_rs_mkdir'' p (map_ok Cc_mkdir (path_arg [] path))"

definition nfs_rs_rmdir :: "c_env \<Rightarrow> nat \<Rightarrow> bytes option \<Rightarrow> int c_op" where
  "nfs_rs_rmdir env p path = int_call env ''nfs_rs_rmdir'' p (map_ok Cc_rmdir (path_arg [] path))"

definition nfs_rs_unlink :: "c_env \<Rightarrow> nat \<Rightarrow> bytes option \<Rightarrow> int c_op" where
  "nfs_rs_unlink env p path = int_call env ''nfs_rs_unlink'' p (map_ok Cc_unlink (path_arg [] path))"

definition nfs_rs_rename :: "c_env \<Rightarrow> nat \<Rightarrow> bytes option \<Rightarrow> bytes option \<Rightarrow> int c_op" where
  "nfs_rs_rename env p src dst = int_call env ''nfs_rs_rename'' p
     (and_then (path_arg '' origen'' src) (\<lambda>src. map_ok (Cc_rename src) (path_arg '' destino'' dst)))"

definition nfs_rs_access :: "c_env \<Rightarrow> nat \<Rightarrow> bytes option \<Rightarrow> int c_op" where
  "nfs_rs_access env p path = as_handle p (-1)
     (guard_call env ''nfs_rs_access'' p (map_ok Cc_access (path_arg [] path)) (-1) (\<lambda>v.
        op_lift (Ok (if v = Cv_Bool True then 1 else 0))))"

subsection \<open>Releasing memory\<close>

definition nfs_rs_free_string :: "nat \<Rightarrow> unit c_op" where
  "nfs_rs_free_string p s =
     (if p = NULL then Some (Ok (), s)
      else case ca_strings s p of
        None \<Rightarrow> Some (Err Undefined_Behaviour, s)
      | Some _ \<Rightarrow> Some (Ok (), s\<lparr>ca_strings := (ca_strings s)(p := None)\<rparr>))"

text \<open>The allocator is given the length, which must be that of the allocation.\<close>

definition nfs_rs_free_bytes :: "nat \<Rightarrow> nat \<Rightarrow> unit c_op" where
  "nfs_rs_free_bytes buf len s =
     (if buf = NULL \<or> len = 0 then Some (Ok (), s)
      else case ca_buffers s buf of
        None \<Rightarrow> Some (Err Undefined_Behaviour, s)
      | Some data \<Rightarrow>
          if length data = len then Some (Ok (), s\<lparr>ca_buffers := (ca_buffers s)(buf := None)\<rparr>)
          else Some (Err Undefined_Behaviour, s))"

text \<open>The version of the package (\<open>Cargo.toml\<close>), a string that is never freed.\<close>

definition nfs_rs_version :: string where
  "nfs_rs_version = ''0.0.1''"

subsection \<open>The calls of a C program\<close>

datatype c_call =
    C_mount "bytes option" | C_unmount nat | C_last_error nat
  | C_stat nat "bytes option" | C_readdir nat "bytes option"
  | C_read nat "bytes option" nat nat | C_write nat "bytes option" "bytes option" nat
  | C_mkdir nat "bytes option" | C_rmdir nat "bytes option" | C_unlink nat "bytes option"
  | C_rename nat "bytes option" "bytes option" | C_access nat "bytes option"
  | C_free_string nat | C_free_bytes nat nat

datatype c_value =
    Ret_Void | Ret_Ptr nat | Ret_Text "string option" | Ret_Int int | Ret_Read int "(nat \<times> nat) option"

definition c_ret :: "('a \<Rightarrow> c_value) \<Rightarrow> 'a c_op \<Rightarrow> c_value c_op" where
  "c_ret f m s = map_option (\<lambda>(r, s'). (map_ok f r, s')) (m s)"

fun c_exec :: "c_env \<Rightarrow> c_call \<Rightarrow> c_value c_op" where
  "c_exec env (C_mount url) = c_ret Ret_Ptr (nfs_rs_mount env url)"
| "c_exec env (C_unmount p) = c_ret (\<lambda>_. Ret_Void) (nfs_rs_unmount p)"
| "c_exec env (C_last_error p) = c_ret Ret_Text (nfs_rs_last_error p)"
| "c_exec env (C_stat p path) = c_ret Ret_Ptr (nfs_rs_stat env p path)"
| "c_exec env (C_readdir p path) = c_ret Ret_Ptr (nfs_rs_readdir env p path)"
| "c_exec env (C_read p path ob ol) = c_ret (\<lambda>(c, out). Ret_Read c out) (nfs_rs_read env p path ob ol)"
| "c_exec env (C_write p path data len) = c_ret Ret_Int (nfs_rs_write env p path data len)"
| "c_exec env (C_mkdir p path) = c_ret Ret_Int (nfs_rs_mkdir env p path)"
| "c_exec env (C_rmdir p path) = c_ret Ret_Int (nfs_rs_rmdir env p path)"
| "c_exec env (C_unlink p path) = c_ret Ret_Int (nfs_rs_unlink env p path)"
| "c_exec env (C_rename p src dst) = c_ret Ret_Int (nfs_rs_rename env p src dst)"
| "c_exec env (C_access p path) = c_ret Ret_Int (nfs_rs_access env p path)"
| "c_exec env (C_free_string p) = c_ret (\<lambda>_. Ret_Void) (nfs_rs_free_string p)"
| "c_exec env (C_free_bytes p len) = c_ret (\<lambda>_. Ret_Void) (nfs_rs_free_bytes p len)"

text \<open>
  What the comments ask of the caller: a handle is \<open>NULL\<close> or live, what is freed is \<open>NULL\<close> or
  live and freed with its own length, and \<open>data\<close> holds \<open>len\<close> bytes.
\<close>

definition handle_arg :: "capi \<Rightarrow> nat \<Rightarrow> bool" where
  "handle_arg s p \<longleftrightarrow> p = NULL \<or> ca_handles s p \<noteq> None"

fun c_legal :: "capi \<Rightarrow> c_call \<Rightarrow> bool" where
  "c_legal s (C_mount url) \<longleftrightarrow> True"
| "c_legal s (C_unmount p) \<longleftrightarrow> handle_arg s p"
| "c_legal s (C_last_error p) \<longleftrightarrow> handle_arg s p"
| "c_legal s (C_stat p path) \<longleftrightarrow> handle_arg s p"
| "c_legal s (C_readdir p path) \<longleftrightarrow> handle_arg s p"
| "c_legal s (C_read p path ob ol) \<longleftrightarrow> handle_arg s p"
| "c_legal s (C_write p path data len) \<longleftrightarrow> handle_arg s p \<and> from_raw_parts data len \<noteq> None"
| "c_legal s (C_mkdir p path) \<longleftrightarrow> handle_arg s p"
| "c_legal s (C_rmdir p path) \<longleftrightarrow> handle_arg s p"
| "c_legal s (C_unlink p path) \<longleftrightarrow> handle_arg s p"
| "c_legal s (C_rename p src dst) \<longleftrightarrow> handle_arg s p"
| "c_legal s (C_access p path) \<longleftrightarrow> handle_arg s p"
| "c_legal s (C_free_string p) \<longleftrightarrow> p = NULL \<or> ca_strings s p \<noteq> None"
| "c_legal s (C_free_bytes p len) \<longleftrightarrow> p = NULL \<or> len = 0 \<or> map_option length (ca_buffers s p) = Some len"

text \<open>A run of a C program that keeps to it.\<close>

inductive c_run :: "c_env \<Rightarrow> capi \<Rightarrow> (c_call \<times> c_value) list \<Rightarrow> capi \<Rightarrow> bool" for env where
  c_run_nil: "c_run env s [] s"
| c_run_call: "c_run env s log s1 \<Longrightarrow> c_legal s1 req \<Longrightarrow> c_exec env req s1 = Some (Ok v, s2)
    \<Longrightarrow> c_run env s (log @ [(req, v)]) s2"

text \<open>No call has been made yet.\<close>

definition capi_start :: "net \<Rightarrow> capi" where
  "capi_start n = \<lparr>ca_handles = Map.empty, ca_strings = Map.empty, ca_buffers = Map.empty,
                   ca_next = 2, ca_net = n\<rparr>"

definition live :: "capi \<Rightarrow> nat set" where
  "live s = dom (ca_handles s) \<union> dom (ca_strings s) \<union> dom (ca_buffers s)"

text \<open>Addresses are fresh, no address is used for two things, and buffers are not empty.\<close>

definition capi_ok :: "capi \<Rightarrow> bool" where
  "capi_ok s \<longleftrightarrow> 2 \<le> ca_next s \<and> live s \<subseteq> {2..<ca_next s} \<and>
     dom (ca_handles s) \<inter> dom (ca_strings s) = {} \<and> dom (ca_handles s) \<inter> dom (ca_buffers s) = {} \<and>
     dom (ca_strings s) \<inter> dom (ca_buffers s) = {} \<and> [] \<notin> ran (ca_buffers s)"

fun own_step :: "c_call \<times> c_value \<Rightarrow> nat set \<Rightarrow> nat set" where
  "own_step (C_mount url, Ret_Ptr p) X = X \<union> ({p} - {NULL})"
| "own_step (C_stat h path, Ret_Ptr p) X = X \<union> ({p} - {NULL})"
| "own_step (C_readdir h path, Ret_Ptr p) X = X \<union> ({p} - {NULL})"
| "own_step (C_read h path ob ol, Ret_Read c (Some (p, len))) X = (if len = 0 then X else insert p X)"
| "own_step (C_unmount p, _) X = X - {p}"
| "own_step (C_free_string p, _) X = X - {p}"
| "own_step (C_free_bytes p len, _) X = (if len = 0 then X else X - {p})"
| "own_step _ X = X"

text \<open>What a call hands over, if anything.\<close>

fun handed :: "c_value \<Rightarrow> nat set" where
  "handed (Ret_Ptr p) = {p} - {NULL}"
| "handed (Ret_Read c (Some (p, len))) = (if len = 0 then {} else {p})"
| "handed _ = {}"

subsection \<open>Lemmas\<close>

lemma capi_start_ok: "capi_ok (capi_start n)"
  by (simp add: capi_ok_def capi_start_def live_def)

lemma live_put_handle [simp]:
  "p \<in> dom (ca_handles s) \<Longrightarrow> live (put_handle p h s) = live s"
  by (auto simp: live_def put_handle_def)

lemma capi_ok_put_handle [intro]:
  "capi_ok s \<Longrightarrow> p \<in> dom (ca_handles s) \<Longrightarrow> capi_ok (put_handle p h s)"
  unfolding capi_ok_def by (simp add: insert_absorb) (auto simp: put_handle_def)

lemma capi_ok_net [simp]: "capi_ok (s\<lparr>ca_net := n\<rparr>) = capi_ok s" "live (s\<lparr>ca_net := n\<rparr>) = live s"
  by (simp_all add: capi_ok_def live_def)

text \<open>
  A call is \<open>accounted\<close> when it returns normally, keeps the invariant, and the live addresses
  after it are those before it, plus the fresh ones that it hands over.
\<close>

definition accounted :: "('a \<Rightarrow> nat set) \<Rightarrow> capi \<Rightarrow> 'a c_op \<Rightarrow> bool" where
  "accounted out s m \<longleftrightarrow> (\<forall>r s'. m s = Some (r, s') \<longrightarrow>
     (\<exists>v. r = Ok v \<and> capi_ok s' \<and> live s' = live s \<union> out v \<and> live s \<inter> out v = {}))"

lemma accounted_lift: "capi_ok s \<Longrightarrow> out v = {} \<Longrightarrow> accounted out s (op_lift (Ok v))"
  by (simp add: accounted_def op_lift_def)

lemma accounted_as_handle:
  "capi_ok s \<Longrightarrow> handle_arg s p \<Longrightarrow> out dflt = {} \<Longrightarrow>
   (\<And>h. ca_handles s p = Some h \<Longrightarrow> accounted out s (f h)) \<Longrightarrow> accounted out s (as_handle p dflt f)"
  by (auto simp: accounted_def as_handle_def handle_arg_def split: option.splits)

lemma accounted_guard_call:
  assumes "capi_ok s" "ca_handles s p = Some h" "out bad = {}"
    and "\<And>v s1. capi_ok s1 \<Longrightarrow> accounted out s1 (ok v)"
  shows "accounted out s (guard_call env what p args bad ok h)"
proof -
  have p: "p \<in> dom (ca_handles s)"
    using assms(2) by blast
  have put: "capi_ok (put_handle p g (s\<lparr>ca_net := n\<rparr>))" "live (put_handle p g (s\<lparr>ca_net := n\<rparr>)) = live s"
    "capi_ok (put_handle p g s)" for g n
    using p assms(1) by (auto intro!: capi_ok_put_handle)
  have ok: "accounted out s (\<lambda>_. ok v (put_handle p g (s\<lparr>ca_net := n\<rparr>)))" for v g n
    using assms(4)[OF put(1), of g n v] put(2)[of g n] unfolding accounted_def by simp
  show ?thesis
  proof (cases args)
    case (Ok req)
    show ?thesis
      unfolding accounted_def
    proof (intro allI impI)
      fix r s' assume run: "guard_call env what p args bad ok h s = Some (r, s')"
      then obtain x ctx' n where x: "run_mounted (ce_pid env) req (ch_ctx h) (ca_net s) = Some (x, ctx', n)"
        unfolding guard_call_def Ok by (cases "run_mounted (ce_pid env) req (ch_ctx h) (ca_net s)") auto
      show "\<exists>v. r = result.Ok v \<and> capi_ok s' \<and> live s' = live s \<union> out v \<and> live s \<inter> out v = {}"
      proof (cases x)
        case (Ok v)
        then show ?thesis
          using run x \<open>args = _\<close> ok[of v "h\<lparr>ch_ctx := ctx'\<rparr>" n]
          unfolding guard_call_def accounted_def by simp
      qed (use run x Ok put assms(3) in \<open>auto simp: guard_call_def\<close>)
    qed
  qed (use put p assms(3) in \<open>simp_all add: accounted_def guard_call_def\<close>)
qed

lemma accounted_new_string:
  assumes "capi_ok s"
  shows "accounted (\<lambda>p. {p} - {NULL}) s (new_string text)"
  using assms
  by (auto simp: accounted_def new_string_def capi_ok_def live_def NULL_def split: option.splits)

lemma accounted_new_buffer:
  assumes "capi_ok s"
  shows "accounted (\<lambda>(c, out). handed (Ret_Read c out)) s (new_buffer data)"
  using assms by (auto simp: accounted_def new_buffer_def capi_ok_def live_def ran_def)

lemma accounted_cong: "accounted out s m \<Longrightarrow> (\<And>v. out v = out' v) \<Longrightarrow> accounted out' s m"
  by (simp add: accounted_def)

abbreviation ptr_out :: "nat \<Rightarrow> nat set" where
  "ptr_out \<equiv> \<lambda>p. {p} - {NULL}"

abbreviation no_out :: "'a \<Rightarrow> nat set" where
  "no_out \<equiv> \<lambda>_. {}"

lemma accounted_mount:
  assumes "capi_ok s"
  shows "accounted ptr_out s (nfs_rs_mount env url)"
  using assms
  by (auto simp: accounted_def nfs_rs_mount_def capi_ok_def live_def NULL_def
      split: option.splits result.splits)

lemma accounted_last_error:
  "capi_ok s \<Longrightarrow> handle_arg s p \<Longrightarrow> accounted no_out s (nfs_rs_last_error p)"
  unfolding nfs_rs_last_error_def by (rule accounted_as_handle) (simp_all add: accounted_def)

lemma accounted_stat:
  "capi_ok s \<Longrightarrow> handle_arg s p \<Longrightarrow> accounted ptr_out s (nfs_rs_stat env p path)"
  unfolding nfs_rs_stat_def into_json_ptr_def
  by (rule accounted_as_handle accounted_guard_call | assumption | simp)+
    (simp add: accounted_new_string accounted_lift split: capi_value.split)

lemma accounted_readdir:
  "capi_ok s \<Longrightarrow> handle_arg s p \<Longrightarrow> accounted ptr_out s (nfs_rs_readdir env p path)"
  unfolding nfs_rs_readdir_def into_json_ptr_def
  by (rule accounted_as_handle accounted_guard_call | assumption | simp)+
    (simp add: accounted_new_string accounted_lift split: capi_value.split)

lemma accounted_read:
  assumes "capi_ok s" "handle_arg s p"
  shows "accounted (\<lambda>(c, out). handed (Ret_Read c out)) s (nfs_rs_read env p path ob ol)"
  unfolding nfs_rs_read_def
proof (rule accounted_as_handle[OF assms])
  fix h assume h: "ca_handles s p = Some h"
  show "accounted (\<lambda>(c, out). handed (Ret_Read c out)) s
    (if ob = NULL \<or> ol = NULL
     then (\<lambda>s. Some (Ok (-1, None), put_handle p (set_error ''punteros de salida nulos'' h) s))
     else guard_call env ''nfs_rs_read'' p (map_ok Cc_read (path_arg [] path)) (-1, None) (\<lambda>v.
       case v of Cv_Bytes data \<Rightarrow> new_buffer data | _ \<Rightarrow> op_lift (Ok (0, None))) h)"
  proof (cases "ob = NULL \<or> ol = NULL")
    case True
    then show ?thesis
      using assms(1) h by (auto simp: accounted_def domI)
  next
    case False
    have "accounted (\<lambda>(c, out). handed (Ret_Read c out)) s1
      (case v of Cv_Bytes data \<Rightarrow> new_buffer data | _ \<Rightarrow> op_lift (Ok (0, None)))"
      if "capi_ok s1" for v s1
      using that by (auto simp: accounted_new_buffer intro!: accounted_lift split: capi_value.split)
    then show ?thesis
      using False by (simp add: accounted_guard_call[OF assms(1) h])
  qed
qed simp

lemma accounted_int_call:
  "capi_ok s \<Longrightarrow> handle_arg s p \<Longrightarrow> accounted no_out s (int_call env what p args)"
  unfolding int_call_def
  by (rule accounted_as_handle accounted_guard_call | assumption | simp add: accounted_lift)+

lemma accounted_write:
  "capi_ok s \<Longrightarrow> handle_arg s p \<Longrightarrow> from_raw_parts data len \<noteq> None \<Longrightarrow>
   accounted no_out s (nfs_rs_write env p path data len)"
  unfolding nfs_rs_write_def
  by (rule accounted_as_handle) (auto simp: accounted_int_call)

lemma accounted_access:
  "capi_ok s \<Longrightarrow> handle_arg s p \<Longrightarrow> accounted no_out s (nfs_rs_access env p path)"
  unfolding nfs_rs_access_def
  by (rule accounted_as_handle accounted_guard_call | assumption | simp add: accounted_lift)+

lemmas accounted_ops = accounted_mount accounted_last_error accounted_stat accounted_readdir
  accounted_read accounted_int_call accounted_write accounted_access

text \<open>One call of a program that keeps to the rules.\<close>

definition call_ok :: "c_env \<Rightarrow> c_call \<Rightarrow> capi \<Rightarrow> bool" where
  "call_ok env req s \<longleftrightarrow> (\<forall>r s'. c_exec env req s = Some (r, s') \<longrightarrow>
     (\<exists>v. r = Ok v \<and> capi_ok s' \<and> live s' = own_step (req, v) (live s) \<and> live s \<inter> handed v = {}))"

lemma call_ok_accounted:
  assumes "accounted out s m" and "c_exec env req = c_ret f m"
    and "\<And>v. own_step (req, f v) (live s) = live s \<union> out v" and "\<And>v. handed (f v) \<subseteq> out v"
  shows "call_ok env req s"
  using assms(1,4) unfolding call_ok_def assms(2) c_ret_def accounted_def
  by (fastforce simp: assms(3))

lemma call_ok_freed:
  assumes "capi_ok s" "c_exec env req s = Some (Ok Ret_Void, s')"
    and "capi_ok s'" "live s' = own_step (req, Ret_Void) (live s)"
  shows "call_ok env req s"
  using assms by (simp add: call_ok_def)

lemma capi_ok_drop:
  assumes "capi_ok s"
  shows "capi_ok (s\<lparr>ca_handles := (ca_handles s)(p := None)\<rparr>)"
    and "capi_ok (s\<lparr>ca_strings := (ca_strings s)(p := None)\<rparr>)"
    and "capi_ok (s\<lparr>ca_buffers := (ca_buffers s)(p := None)\<rparr>)"
  using assms by (auto simp: capi_ok_def live_def ran_def)

lemma live_drop:
  assumes "capi_ok s"
  shows "ca_handles s p = Some x \<Longrightarrow> live (s\<lparr>ca_handles := (ca_handles s)(p := None)\<rparr>) = live s - {p}"
    and "ca_strings s p = Some y \<Longrightarrow> live (s\<lparr>ca_strings := (ca_strings s)(p := None)\<rparr>) = live s - {p}"
    and "ca_buffers s p = Some z \<Longrightarrow> live (s\<lparr>ca_buffers := (ca_buffers s)(p := None)\<rparr>) = live s - {p}"
  using assms unfolding capi_ok_def live_def by auto

lemma NULL_not_live: "capi_ok s \<Longrightarrow> NULL \<notin> live s"
  by (auto simp: capi_ok_def NULL_def)

lemma call_ok_free_string:
  assumes "capi_ok s" "c_legal s (C_free_string p)"
  shows "call_ok env (C_free_string p) s"
proof (cases "p = NULL")
  case True
  then show ?thesis
    using assms(1) NULL_not_live[OF assms(1)]
    by (intro call_ok_freed[of _ _ _ s]) (auto simp: c_ret_def nfs_rs_free_string_def)
next
  case False
  then obtain x where x: "ca_strings s p = Some x"
    using assms(2) by auto
  then show ?thesis
    using False assms(1) capi_ok_drop[OF assms(1)] live_drop(2)[OF assms(1) x]
    by (intro call_ok_freed) (auto simp: c_ret_def nfs_rs_free_string_def)
qed

lemma call_ok_free_bytes:
  assumes "capi_ok s" "c_legal s (C_free_bytes p len)"
  shows "call_ok env (C_free_bytes p len) s"
proof (cases "p = NULL \<or> len = 0")
  case True
  then show ?thesis
    using assms(1) NULL_not_live[OF assms(1)]
    by (intro call_ok_freed[of _ _ _ s]) (auto simp: c_ret_def nfs_rs_free_bytes_def)
next
  case False
  then obtain x where x: "ca_buffers s p = Some x" "length x = len"
    using assms(2) by auto
  then show ?thesis
    using False assms(1) capi_ok_drop[OF assms(1)] live_drop(3)[OF assms(1) x(1)]
    by (intro call_ok_freed) (auto simp: c_ret_def nfs_rs_free_bytes_def)
qed

lemma call_ok_unmount:
  assumes "capi_ok s" "c_legal s (C_unmount p)"
  shows "call_ok env (C_unmount p) s"
proof (cases "p = NULL")
  case True
  then show ?thesis
    using assms(1) NULL_not_live[OF assms(1)]
    by (intro call_ok_freed[of _ _ _ s]) (auto simp: c_ret_def nfs_rs_unmount_def as_handle_def)
next
  case False
  then obtain x where x: "ca_handles s p = Some x"
    using assms(2) by (auto simp: handle_arg_def)
  then show ?thesis
    using False assms(1) capi_ok_drop[OF assms(1)] live_drop(1)[OF assms(1) x]
    by (intro call_ok_freed) (auto simp: c_ret_def nfs_rs_unmount_def as_handle_def)
qed

lemma legal_call_ok:
  assumes "capi_ok s" "c_legal s req"
  shows "call_ok env req s"
proof (cases req)
  case (C_read p path ob ol)
  have "own_step (C_read p path ob ol, case v of (c, out) \<Rightarrow> Ret_Read c out) (live s) =
      live s \<union> (case v of (c, out) \<Rightarrow> handed (Ret_Read c out))" for v
    by (cases v, cases "snd v") (auto split: if_splits)
  then show ?thesis
    unfolding C_read using assms C_read
    by (intro call_ok_accounted[OF accounted_read]) (auto split: prod.splits)
next
  case (C_unmount p) then show ?thesis using assms call_ok_unmount by blast
next
  case (C_free_string p) then show ?thesis using assms call_ok_free_string by blast
next
  case (C_free_bytes p len) then show ?thesis using assms call_ok_free_bytes by blast
next
  case (C_mount url)
  show ?thesis unfolding C_mount
    using assms by (intro call_ok_accounted[OF accounted_mount]) auto
next
  case (C_last_error p)
  show ?thesis unfolding C_last_error
    using assms C_last_error by (intro call_ok_accounted[OF accounted_last_error]) auto
next
  case (C_stat p path)
  show ?thesis unfolding C_stat
    using assms C_stat by (intro call_ok_accounted[OF accounted_stat]) auto
next
  case (C_readdir p path)
  show ?thesis unfolding C_readdir
    using assms C_readdir by (intro call_ok_accounted[OF accounted_readdir]) auto
next
  case (C_write p path data len)
  show ?thesis unfolding C_write
    using assms C_write by (intro call_ok_accounted[OF accounted_write]) auto
next
  case (C_access p path)
  show ?thesis unfolding C_access
    using assms C_access by (intro call_ok_accounted[OF accounted_access]) auto
qed (use assms in \<open>auto simp: nfs_rs_mkdir_def nfs_rs_rmdir_def nfs_rs_unlink_def nfs_rs_rename_def
    intro!: call_ok_accounted[OF accounted_int_call]\<close>)

definition owned :: "(c_call \<times> c_value) list \<Rightarrow> nat set" where
  "owned log = fold own_step log {}"

lemma c_run_memory:
  "c_run env s log s' \<Longrightarrow> s = capi_start n \<Longrightarrow> capi_ok s' \<and> live s' = owned log"
proof (induction rule: c_run.induct)
  case (c_run_nil s)
  then show ?case
    by (simp add: capi_start_ok owned_def) (simp add: live_def capi_start_def)
next
  case (c_run_call s log s1 req v s2)
  then have "call_ok env req s1"
    by (intro legal_call_ok) simp_all
  then show ?case
    using c_run_call by (auto simp: call_ok_def owned_def)
qed


lemma value_of_Ok: "value_of f m s = Some (Ok v, s') \<Longrightarrow> \<exists>x. v = f x \<and> m s = Some (Ok x, s')"
  by (auto simp: value_of_def op_bind_eq op_lift_def split: option.splits prod.splits result.splits)

lemma run_read_bytes:
  "run_mounted pid (Cc_read path) ctx n = Some (Ok v, ctx', n') \<Longrightarrow> \<exists>data. v = Cv_Bytes data"
  by (cases ctx) (auto dest: value_of_Ok)

text \<open>The text kept for an error is all of its text, unless a string in it has a zero byte.\<close>

lemma last_error_text:
  assumes "\<And>k. CHR 0x00 \<notin> set (ce_show_io env k)" "\<forall>s \<in> set (error_strings e). CHR 0x00 \<notin> set s"
  shows "ch_last_error (set_error (display_NfsError (ce_show_io env) e) h) = display_NfsError (ce_show_io env) e"
  using display_zero(3) [OF assms] by (simp add: set_error_def CString_new_def)

text \<open>
  C9: reading a file through the C interface. When the context reads the file, the code is 0, the
  buffer handed over holds exactly its bytes, and giving it back with the length that was
  written to \<open>*out_len\<close> releases it and nothing else, the empty file included. When the context
  fails or panics, the code is -1, nothing is written, no memory is held, and
  \<open>nfs_rs_last_error\<close> shows the text of the error.
\<close>

theorem capi_read_result:
  assumes "capi_ok s" "ca_handles s p = Some h" "ob \<noteq> NULL" "ol \<noteq> NULL" "as_str path = Some name"
    and "run_mounted (ce_pid env) (Cc_read name) (ch_ctx h) (ca_net s) = Some (r, ctx', n')"
  shows "case r of
      Ok v \<Rightarrow> \<exists>data buf s1 s2. v = Cv_Bytes data \<and>
        nfs_rs_read env p path ob ol s = Some (Ok (0, Some (buf, length data)), s1) \<and>
        (data = [] \<or> ca_buffers s1 buf = Some data) \<and>
        nfs_rs_free_bytes buf (length data) s1 = Some (Ok (), s2) \<and>
        ca_buffers s2 = ca_buffers s \<and> ca_strings s2 = ca_strings s
    | Err e \<Rightarrow> \<exists>s1. nfs_rs_read env p path ob ol s = Some (Ok (-1, None), s1) \<and> live s1 = live s \<and>
        nfs_rs_last_error p s1 = Some (Ok (Some (ch_last_error (set_error (display_NfsError (ce_show_io env) e) h))), s1)
    | Panic \<Rightarrow> \<exists>s1. nfs_rs_read env p path ob ol s = Some (Ok (-1, None), s1) \<and> live s1 = live s \<and>
        nfs_rs_last_error p s1 = Some (Ok (Some (panic_in ''nfs_rs_read'')), s1)"
proof -
  have p: "p \<noteq> NULL"
    using NULL_not_live[OF assms(1)] assms(2) by (auto simp: live_def)
  have fresh: "ca_buffers s (ca_next s) = None" "ca_next s \<noteq> NULL"
    using assms(1) by (auto simp: capi_ok_def live_def NULL_def)
  show ?thesis
  proof (cases r)
    case (Ok v)
    then obtain data where v: "v = Cv_Bytes data"
      using run_read_bytes assms(6) by blast
    show ?thesis
      unfolding Ok v using assms(2-6) p fresh Ok v
      by (cases "data = []")
        (auto simp: nfs_rs_read_def as_handle_def guard_call_def path_arg_def ok_or_def new_buffer_def
          nfs_rs_free_bytes_def put_handle_def fun_upd_idem)
  next
    case (Err e)
    then show ?thesis
      using assms(2-6) p
      by (auto simp: nfs_rs_read_def nfs_rs_last_error_def as_handle_def guard_call_def path_arg_def ok_or_def
          put_handle_def live_def set_error_def)
  next
    case Panic
    moreover have "CHR 0x00 \<notin> set (panic_in ''nfs_rs_read'')"
      by (simp add: panic_in_def)
    ultimately show ?thesis
      using assms(2-6) p
      by (auto simp: nfs_rs_read_def nfs_rs_last_error_def as_handle_def guard_call_def path_arg_def ok_or_def
          put_handle_def live_def set_error_def CString_new_def)
  qed
qed

subsection \<open>Examples\<close>

definition ex_env :: c_env where
  "ex_env = \<lparr>ce_lookup = ex_lookup, ce_tls = None, ce_pid = 7, ce_nanos = 99, ce_clock = (0, 0, 0),
     ce_show_io = (\<lambda>_. ''os error''), ce_json_text = (\<lambda>_. ''{}'')\<rparr>"

text \<open>A mounted NFSv3 context whose server answers the first request with \<open>NFS3ERR_STALE\<close>.\<close>

definition ex_capi :: capi where
  "ex_capi = (capi_start (ex_served (ex_client Udp) (w4 70)))
     \<lparr>ca_handles := [2 \<mapsto> \<lparr>ch_ctx = Mounted_V3 ex_v3 [1, 2, 3, 4], ch_last_error = []\<rparr>], ca_next := 3\<rparr>"

lemma ex_capi_ok: "capi_ok ex_capi"
  by (auto simp: ex_capi_def capi_ok_def capi_start_def live_def)

lemma ex_stat_stale:
  "\<exists>s'. cx_stat (v3_context 7 [1, 2, 3, 4]) ''/'' (ex_v3, ex_served (ex_client Udp) (w4 70)) = Some (Err Stale, s')"
proof -
  have e: "\<exists>ab. encode_NfsFh3 (mk_fh [1, 2, 3, 4]) [] = Ok ab \<and> length ab \<le> 2 ^ 20"
    by (simp add: mk_fh_def encode_NfsFh3_def enc_eval encode_access_def)
  then obtain s1 where "rpc_exchange 100003 3 1 (encode_NfsFh3 (mk_fh [1, 2, 3, 4]))
      (ex_client Udp, ex_served (ex_client Udp) (w4 70)) = Some (Ok (w4 70 @ []), s1)"
    using ex_exchange[OF xdr_NfsFh3(2), where body = "w4 70" and prog = 100003 and vers = 3 and proc = 1
        and p = Udp] by fastforce
  from nfs3_call_fail[OF this] have "nfs3_getattr (mk_fh [1, 2, 3, 4])
      (ex_client Udp, ex_served (ex_client Udp) (w4 70)) = Some (Err (PE_Nfs3 70), s1)"
    by (simp add: nfs3_getattr_def nfs3_procs)
  moreover have "resolve (v3_context 7 [1, 2, 3, 4]) ''/'' True s = Some (Ok [1, 2, 3, 4], s)" for s
    by (simp add: resolve_def split_components_def resolve_loop.simps v3_context_def op_lift_def)
  ultimately show ?thesis
    by (cases s1) (simp add: cx_stat_def op_bind_def v3_context_def v3_backend_sel v3_getattr_def on_nfs_def ex_v3_def
        from_ProtoError_def from_nfsstat3_def nfs3_errors)
qed


theorem capi_read_result_example:
  "\<exists>s1. nfs_rs_read ex_env 2 (Some [47]) 8 16 ex_capi = Some (Ok (-1, None), s1) \<and>
     nfs_rs_last_error 2 s1 = Some (Ok (Some ''file handle obsoleto''), s1)"
proof -
  obtain b n where "cx_stat (v3_context 7 [1, 2, 3, 4]) ''/'' (ex_v3, ex_served (ex_client Udp) (w4 70))
      = Some (Err Stale, b, n)"
    using ex_stat_stale by force
  then have run: "run_mounted (ce_pid ex_env) (Cc_read ''/'') (ch_ctx \<lparr>ch_ctx = Mounted_V3 ex_v3 [1, 2, 3, 4], ch_last_error = []\<rparr>)
      (ca_net ex_capi) = Some (Err Stale, Mounted_V3 b [1, 2, 3, 4], n)"
    by (simp add: ex_env_def ex_capi_def capi_start_def value_of_def cx_read_whole_def op_bind_def)
  have path: "as_str (Some [47]) = Some ''/''"
    by (simp add: as_str_def from_utf8_def) code_simp
  have handle: "ca_handles ex_capi 2 = Some \<lparr>ch_ctx = Mounted_V3 ex_v3 [1, 2, 3, 4], ch_last_error = []\<rparr>"
    by (simp add: ex_capi_def)
  have out: "8 \<noteq> NULL" "16 \<noteq> NULL"
    by (simp_all add: NULL_def)
  have "ch_last_error (set_error (display_NfsError (ce_show_io ex_env) Stale) h) = ''file handle obsoleto''" for h
    by (simp add: set_error_def CString_new_def ex_env_def)
  then show ?thesis
    using capi_read_result[OF ex_capi_ok handle out path run] by auto
qed

end
