(* ===== verification/C_API_Panics.thy ===== *)
theory C_API_Panics
  imports C_API
begin

text \<open>
  The C interface over the mounted contexts: the invariants of the two backends hold behind
  every live handle after every call, so the operations of a handle do not panic. The
  interface of the backends (locale \<open>vfs_backend\<close>) gives it for both versions.
\<close>

context vfs_backend
begin

lemma capi_run_safe: "op_safe inv (capi_run req (cx root))"
  by (cases req; simp add: value_of_def; intro op_safe_bind op_safe_lift path_ctx_safe open_ctx_safe close_ctx_safe
      pread_ctx_safe pwrite_ctx_safe lock_ctx_safe whole_ctx_safe; simp)

end

text \<open>The invariant of the backend behind a handle.\<close>

fun mounted_ok :: "Mounted \<Rightarrow> net \<Rightarrow> bool" where
  "mounted_ok (Mounted_V3 b root) n = v3_inv (b, n)"
| "mounted_ok (Mounted_V4 b root) n = v4_inv (b, n)"

lemma mounted_ok_net: "mounted_ok m n \<Longrightarrow> mounted_ok m n'"
  by (cases m) (simp_all add: v3_inv_def v4_inv_def)

lemma run_mounted_safe:
  assumes "mounted_ok ctx n" "run_mounted pid req ctx n = Some (r, ctx', n')"
  shows "mounted_ok ctx' n' \<and> r \<noteq> Panic"
proof (cases ctx)
  case (Mounted_V3 b root)
  with assms op_safeD[OF v3.capi_run_safe[of req pid root], of "(b, n)"] show ?thesis
    by (auto simp: v3_context_def)
next
  case (Mounted_V4 b root)
  with assms op_safeD[OF v4.capi_run_safe[of req root], of "(b, n)"] show ?thesis
    by (auto simp: v4_context_def)
qed

lemma mount_parsed_ok:
  assumes "mount_parsed lookup tls pid nanos clock url n = Some (Ok ctx, n')"
  shows "mounted_ok ctx n'"
proof (cases "u_version url = 4")
  case True
  with assms obtain b root where m:
    "mount_v4 lookup tls pid clock url (unix (u_uid url) (u_gid url)) (unat (u_timeo url)) n = Some (Ok (b, root), n')"
    "ctx = Mounted_V4 b root"
    by (auto simp: mount_parsed_def Let_def op_bind_eq op_lift_def)
  from mount_v4_inv[OF m(1)] m(2) show ?thesis by simp
next
  case False
  with assms obtain b root where m:
    "mount_v3 lookup pid nanos url (unix (u_uid url) (u_gid url)) (unat (u_timeo url)) n = Some (Ok (b, root), n')"
    "ctx = Mounted_V3 b root"
    by (auto simp: mount_parsed_def Let_def op_bind_eq op_lift_def)
  from mount_v3_inv[OF m(1)] m(2) show ?thesis by simp
qed

lemma cx_mount_url_ok:
  "cx_mount_url lookup tls pid nanos clock url n = Some (Ok ctx, n') \<Longrightarrow> mounted_ok ctx n'"
  by (auto simp: cx_mount_url_def op_bind_eq[of "op_lift _"] op_lift_def dest: mount_parsed_ok)

definition handles_ok :: "capi \<Rightarrow> bool" where
  "handles_ok s \<longleftrightarrow> (\<forall>p h. ca_handles s p = Some h \<longrightarrow> mounted_ok (ch_ctx h) (ca_net s))"

text \<open>Calls that keep the contexts of all handles intact.\<close>

definition keeps_handles :: "'a c_op \<Rightarrow> bool" where
  "keeps_handles m \<longleftrightarrow> (\<forall>s r s'. handles_ok s \<longrightarrow> m s = Some (r, s') \<longrightarrow> handles_ok s')"

named_theorems keeps \<open>calls that keep the contexts behind the handles intact\<close>

lemma handles_ok_put: "handles_ok s \<Longrightarrow> mounted_ok (ch_ctx h) n \<Longrightarrow> handles_ok (put_handle p h (s\<lparr>ca_net := n\<rparr>))"
  by (auto simp: handles_ok_def put_handle_def dest: mounted_ok_net split: if_splits)

lemma handles_ok_put_same: "handles_ok s \<Longrightarrow> ca_handles s p = Some h \<Longrightarrow> ch_ctx h' = ch_ctx h \<Longrightarrow> handles_ok (put_handle p h' s)"
  by (auto simp: handles_ok_def put_handle_def split: if_splits)

lemma set_error_ctx [simp]: "ch_ctx (set_error msg h) = ch_ctx h"
  by (simp add: set_error_def)

lemma keeps_lift [keeps]: "keeps_handles (op_lift r)"
  by (simp add: keeps_handles_def op_lift_def)

lemma keeps_new_string [keeps]: "keeps_handles (new_string text)" "keeps_handles (into_json_ptr env j)"
  by (auto simp: keeps_handles_def into_json_ptr_def new_string_def handles_ok_def split: option.splits)

lemma keeps_new_buffer [keeps]: "keeps_handles (new_buffer data)"
  by (auto simp: keeps_handles_def new_buffer_def handles_ok_def split: if_splits)

lemma keeps_as_handle:
  "(\<And>h s r s'. handles_ok s \<Longrightarrow> ca_handles s p = Some h \<Longrightarrow> f h s = Some (r, s') \<Longrightarrow> handles_ok s') \<Longrightarrow>
   keeps_handles (as_handle p dflt f)"
  by (auto simp: keeps_handles_def as_handle_def split: if_splits option.splits)

lemma guard_call_keeps:
  assumes "\<And>v. keeps_handles (ok v)" "handles_ok s" "ca_handles s p = Some h"
    and "guard_call env what p args bad ok h s = Some (r, s')"
  shows "handles_ok s'"
proof (cases args)
  case (Ok req)
  with assms(4) obtain x ctx' n' where x: "run_mounted (ce_pid env) req (ch_ctx h) (ca_net s) = Some (x, ctx', n')"
    by (cases "run_mounted (ce_pid env) req (ch_ctx h) (ca_net s)") (auto simp: guard_call_def)
  have "mounted_ok ctx' n'"
    using run_mounted_safe[OF _ x] assms(2,3) by (simp add: handles_ok_def)
  then have put: "handles_ok (put_handle p g (s\<lparr>ca_net := n'\<rparr>))" if "ch_ctx g = ctx'" for g
    using handles_ok_put[OF assms(2)] that by simp
  have ok: "handles_ok s'" if "ok v (put_handle p g (s\<lparr>ca_net := n'\<rparr>)) = Some (r, s')" "ch_ctx g = ctx'" for v g
    using assms(1)[of v, unfolded keeps_handles_def, rule_format, OF put[OF that(2)] that(1)] .
  show ?thesis
    using assms(4) Ok x put ok by (cases x) (auto simp: guard_call_def Let_def)
qed (use assms(4) handles_ok_put_same[OF assms(2,3)] in \<open>auto simp: guard_call_def\<close>)

lemma keeps_calls [keeps]:
  "keeps_handles (nfs_rs_stat env p path)" "keeps_handles (nfs_rs_readdir env p path)"
  "keeps_handles (nfs_rs_access env p path)" "keeps_handles (int_call env what p args)"
  unfolding nfs_rs_stat_def nfs_rs_readdir_def nfs_rs_access_def int_call_def
  by (rule keeps_as_handle, erule guard_call_keeps[rotated], assumption, assumption,
      auto intro: keeps split: capi_value.split)+

lemma keeps_read [keeps]: "keeps_handles (nfs_rs_read env p path ob ol)"
  unfolding nfs_rs_read_def
proof (rule keeps_as_handle)
  fix h s r s'
  assume h: "handles_ok s" "ca_handles s p = Some h"
    and run: "(if ob = NULL \<or> ol = NULL
      then (\<lambda>s. Some (Ok (-1, None), put_handle p (set_error ''punteros de salida nulos'' h) s))
      else guard_call env ''nfs_rs_read'' p (map_ok Cc_read (path_arg [] path)) (-1, None) (\<lambda>v.
        case v of Cv_Bytes data \<Rightarrow> new_buffer data | _ \<Rightarrow> op_lift (Ok (0, None))) h) s = Some (r, s')"
  have "keeps_handles (case v of Cv_Bytes data \<Rightarrow> new_buffer data | _ \<Rightarrow> op_lift (Ok (0, None)))" for v
    by (auto intro: keeps split: capi_value.split)
  from guard_call_keeps[OF this h] handles_ok_put_same[OF h] run show "handles_ok s'"
    by (auto split: if_splits)
qed

lemma keeps_write [keeps]: "keeps_handles (nfs_rs_write env p path data len)"
  unfolding nfs_rs_write_def
  by (rule keeps_as_handle) (use keeps_calls(4) in \<open>auto simp: keeps_handles_def split: option.splits\<close>)

lemma keeps_mount [keeps]: "keeps_handles (nfs_rs_mount env url)"
  unfolding keeps_handles_def nfs_rs_mount_def
  by (auto simp: handles_ok_def split: option.splits result.splits if_splits dest: mounted_ok_net cx_mount_url_ok)

lemma keeps_release [keeps]:
  "keeps_handles (nfs_rs_unmount p)" "keeps_handles (nfs_rs_last_error p)" "keeps_handles (nfs_rs_free_string p)"
  "keeps_handles (nfs_rs_free_bytes p len)"
  by (auto simp: keeps_handles_def handles_ok_def nfs_rs_unmount_def nfs_rs_last_error_def as_handle_def
      nfs_rs_free_string_def nfs_rs_free_bytes_def split: if_splits option.splits)

lemma keeps_ret [keeps]: "keeps_handles m \<Longrightarrow> keeps_handles (c_ret f m)"
  by (auto simp: keeps_handles_def c_ret_def)

lemma c_exec_keeps: "keeps_handles (c_exec env req)"
  by (cases req) (auto simp: nfs_rs_mkdir_def nfs_rs_rmdir_def nfs_rs_unlink_def nfs_rs_rename_def intro!: keeps)

lemma c_run_keeps: "c_run env s log s' \<Longrightarrow> handles_ok s \<Longrightarrow> handles_ok s'"
  by (induction rule: c_run.induct) (use c_exec_keeps in \<open>auto simp: keeps_handles_def\<close>)

text \<open>A context that a mount of either version has returned.\<close>

inductive mounted :: "Mounted \<Rightarrow> bool" where
  by_v3: "mount_v3 lookup pid nanos url cr t n = Some (Ok (b, root), n') \<Longrightarrow> mounted (Mounted_V3 b root)"
| by_v4: "mount_v4 lookup tls pid clock url cr t n = Some (Ok (b, root), n') \<Longrightarrow> mounted (Mounted_V4 b root)"

lemma mounted_is_ok: "mounted m \<Longrightarrow> mounted_ok m n"
  by (induction rule: mounted.induct) (auto intro: mounted_ok_net dest: mount_v3_inv mount_v4_inv
      simp: v3_inv_def v4_inv_def)

end
