(* ===== verification/XDR_Expand.thy ===== *)
theory XDR_Expand
  imports NFS3_Types
begin

text \<open>
  The derive macros themselves (\<open>nfs-xdr-derive/src/lib.rs\<close>), as the compiler they are: the
  syntax tree of a declaration (\<open>DeriveInput\<close>) with its attributes, the reading of the attributes,
  and the generated code as a syntax of its own (\<open>enc_body\<close>, \<open>dec_body\<close>). The meaning of the
  generated code is given by the combinators of \<open>XDR_Derive\<close>, over the implementations of the
  traits for the types of the fields.

  Errors of the macros are compile-time errors; the texts of the messages are names here. The
  syntax tree is that of the parser \<open>syn\<close>: an attribute that is not of the form
  \<open>#[path(meta, ...)]\<close> has no list of metas, and the value of a meta is an integer literal or
  something else.
\<close>

subsection \<open>Syntax of declarations\<close>

datatype meta_lit = Lit_Int int | Lit_Other

record meta =
  mt_path :: string
  mt_value :: "meta_lit option"

record Attribute =
  ab_path :: string
  ab_metas :: "meta list option"

datatype ty = Ty string | Ty_Option ty

record field =
  fd_attrs :: "Attribute list"
  fd_ty :: ty

datatype fields = Fields_Named "(string \<times> field) list" | Fields_Unnamed "field list" | Fields_Unit

record variant =
  vr_attrs :: "Attribute list"
  vr_ident :: string
  vr_fields :: fields
  vr_discriminant :: "i32 option"

datatype data = Data_Struct fields | Data_Enum "variant list" | Data_Union

record DeriveInput =
  di_attrs :: "Attribute list"
  di_ident :: string
  di_data :: data

datatype macro_error =
    Unknown_Container | Unknown_Field | Unknown_Variant | Bad_Syntax | Bad_Integer
  | Enum_Kind | Rust_Union | Not_Unit | No_Discriminant | No_Case

type_synonym 'a expansion = "('a, macro_error) result"

subsection \<open>Options of the container, the fields and the variants\<close>

text \<open>\<open>Attribute::parse_nested_meta\<close>, with the captured variable of the closure as its state.\<close>

fun parse_nested_meta :: "(meta \<Rightarrow> 's \<Rightarrow> 's expansion) \<Rightarrow> meta list \<Rightarrow> 's \<Rightarrow> 's expansion" where
  "parse_nested_meta f [] s = Ok s"
| "parse_nested_meta f (m # ms) s = and_then (f m s) (parse_nested_meta f ms)"

fun each_xdr_attr :: "(meta \<Rightarrow> 's \<Rightarrow> 's expansion) \<Rightarrow> Attribute list \<Rightarrow> 's \<Rightarrow> 's expansion" where
  "each_xdr_attr f [] s = Ok s"
| "each_xdr_attr f (a # attrs) s =
     (if ab_path a \<noteq> ''xdr'' then each_xdr_attr f attrs s
      else case ab_metas a of
        None \<Rightarrow> Err Bad_Syntax
      | Some ms \<Rightarrow> and_then (parse_nested_meta f ms s) (each_xdr_attr f attrs))"

record Container =
  ct_union :: bool
  ct_enum32 :: bool

text \<open>A flag that is given a value leaves the value unread, which is an error of the parser.\<close>

definition flag :: "meta \<Rightarrow> 's \<Rightarrow> 's expansion" where
  "flag m s = (if mt_value m = None then Ok s else Err Bad_Syntax)"

definition parse_container :: "Attribute list \<Rightarrow> Container expansion" where
  "parse_container attrs = each_xdr_attr (\<lambda>m c.
     if mt_path m = ''union'' then flag m (c\<lparr>ct_union := True\<rparr>)
     else if mt_path m = ''enum32'' then flag m (c\<lparr>ct_enum32 := True\<rparr>)
     else Err Unknown_Container) attrs \<lparr>ct_union = False, ct_enum32 = False\<rparr>"

definition int_value :: "meta \<Rightarrow> int \<Rightarrow> int \<Rightarrow> int expansion" where
  "int_value m lo hi =
     (case mt_value m of
        Some (Lit_Int n) \<Rightarrow> if lo \<le> n \<and> n \<le> hi then Ok n else Err Bad_Integer
      | _ \<Rightarrow> Err Bad_Syntax)"

definition parse_field_limit :: "Attribute list \<Rightarrow> u64 option expansion" where
  "parse_field_limit attrs = each_xdr_attr (\<lambda>m limit.
     if mt_path m = ''limit'' then map_ok (\<lambda>n. Some (word_of_int n)) (int_value m 0 (2 ^ 64 - 1))
     else Err Unknown_Field) attrs None"

definition parse_variant_case :: "Attribute list \<Rightarrow> i64 option expansion" where
  "parse_variant_case attrs = each_xdr_attr (\<lambda>m c.
     if mt_path m = ''case'' then map_ok (\<lambda>n. Some (word_of_int n)) (int_value m (- (2 ^ 63)) (2 ^ 63 - 1))
     else Err Unknown_Variant) attrs None"

subsection \<open>Generated code\<close>

text \<open>A field is named or numbered; in a match arm the same names are bound to the fields.\<close>

datatype member = Named string | Index nat

datatype enc_stmt = Encode member ty | Encode_Limited member ty nat

datatype dec_expr = Decode ty | Decode_Limited ty nat

text \<open>\<open>Self { ... }\<close> or \<open>Self::Variant { ... }\<close>.\<close>

datatype cons = Construct "string option" "(member \<times> dec_expr) list"

datatype enc_body =
    Enc_Struct "enc_stmt list"
  | Enc_Enum32 "(string \<times> i32) list"
  | Enc_Union "(string \<times> i32 \<times> enc_stmt list) list"

datatype dec_body =
    Dec_Struct cons
  | Dec_Enum32 "(string \<times> i32) list"
  | Dec_Union "(i32 \<times> cons) list"

definition usize_lit :: "u64 \<Rightarrow> nat" where
  "usize_lit n = unat n"

definition i32_lit :: "i64 \<Rightarrow> i32" where
  "i32_lit n = ucast n"

definition gen_decode_value :: "ty \<Rightarrow> u64 option \<Rightarrow> dec_expr" where
  "gen_decode_value t limit =
     (case limit of None \<Rightarrow> Decode t | Some n \<Rightarrow> Decode_Limited t (usize_lit n))"

definition gen_encode_access :: "member \<Rightarrow> ty \<Rightarrow> u64 option \<Rightarrow> enc_stmt" where
  "gen_encode_access access t limit =
     (case limit of None \<Rightarrow> Encode access t | Some n \<Rightarrow> Encode_Limited access t (usize_lit n))"

text \<open>\<open>collect\<close> into a \<open>Result\<close>: the first error.\<close>

fun collect :: "('a, 'e) result list \<Rightarrow> ('a list, 'e) result" where
  "collect [] = Ok []"
| "collect (r # rs) = and_then r (\<lambda>x. map_ok (Cons x) (collect rs))"

fun members :: "fields \<Rightarrow> (member \<times> field) list" where
  "members (Fields_Named fs) = map (\<lambda>(n, f). (Named n, f)) fs"
| "members (Fields_Unnamed fs) = map (\<lambda>(i, f). (Index i, f)) (enumerate 0 fs)"
| "members Fields_Unit = []"

definition construct :: "string option \<Rightarrow> fields \<Rightarrow> cons expansion" where
  "construct path fs = map_ok (Construct path)
     (collect (map (\<lambda>(m, f). map_ok (\<lambda>limit. (m, gen_decode_value (fd_ty f) limit)) (parse_field_limit (fd_attrs f)))
       (members fs)))"

definition gen_struct_encode :: "fields \<Rightarrow> enc_stmt list expansion" where
  "gen_struct_encode fs =
     collect (map (\<lambda>(m, f). map_ok (gen_encode_access m (fd_ty f)) (parse_field_limit (fd_attrs f))) (members fs))"

definition gen_enum32_arms :: "variant list \<Rightarrow> (string \<times> i32) list expansion" where
  "gen_enum32_arms variants = collect (map (\<lambda>v.
     if vr_fields v \<noteq> Fields_Unit then Err Not_Unit
     else map_ok (\<lambda>d. (vr_ident v, d)) (ok_or (vr_discriminant v) No_Discriminant)) variants)"

definition gen_enum32_encode :: "variant list \<Rightarrow> enc_body expansion" where
  "gen_enum32_encode variants = map_ok Enc_Enum32 (gen_enum32_arms variants)"

definition gen_enum32_decode :: "variant list \<Rightarrow> dec_body expansion" where
  "gen_enum32_decode variants = map_ok Dec_Enum32 (gen_enum32_arms variants)"

definition variant_case :: "variant \<Rightarrow> i32 expansion" where
  "variant_case v =
     and_then (parse_variant_case (vr_attrs v)) (\<lambda>c. map_ok i32_lit (ok_or c No_Case))"

definition gen_union_encode :: "variant list \<Rightarrow> enc_body expansion" where
  "gen_union_encode variants = map_ok Enc_Union (collect (map (\<lambda>v.
     and_then (variant_case v) (\<lambda>c.
     map_ok (\<lambda>encs. (vr_ident v, c, encs)) (gen_struct_encode (vr_fields v)))) variants))"

definition gen_union_decode :: "variant list \<Rightarrow> dec_body expansion" where
  "gen_union_decode variants = map_ok Dec_Union (collect (map (\<lambda>v.
     and_then (variant_case v) (\<lambda>c.
     map_ok (\<lambda>k. (c, k)) (construct (Some (vr_ident v)) (vr_fields v)))) variants))"

definition expand_encode :: "DeriveInput \<Rightarrow> enc_body expansion" where
  "expand_encode input =
     (case di_data input of
        Data_Struct fs \<Rightarrow> map_ok Enc_Struct (gen_struct_encode fs)
      | Data_Enum variants \<Rightarrow> and_then (parse_container (di_attrs input)) (\<lambda>c.
          if ct_union c then gen_union_encode variants
          else if ct_enum32 c then gen_enum32_encode variants
          else Err Enum_Kind)
      | Data_Union \<Rightarrow> Err Rust_Union)"

definition expand_decode :: "DeriveInput \<Rightarrow> dec_body expansion" where
  "expand_decode input =
     (case di_data input of
        Data_Struct fs \<Rightarrow> map_ok Dec_Struct (construct None fs)
      | Data_Enum variants \<Rightarrow> and_then (parse_container (di_attrs input)) (\<lambda>c.
          if ct_union c then gen_union_decode variants
          else if ct_enum32 c then gen_enum32_decode variants
          else Err Enum_Kind)
      | Data_Union \<Rightarrow> Err Rust_Union)"

subsection \<open>Meaning of the generated code\<close>

text \<open>Values: those of the types that are not derived, structures, variants and options.\<close>

datatype 'p xval =
    Prim 'p
  | Struct "(member \<times> 'p xval) list"
  | Variant string "(member \<times> 'p xval) list"
  | Opt "'p xval option"

text \<open>
  The implementations of \<open>XdrEncode\<close>, \<open>XdrDecode\<close> and, for the types that have it, \<open>XdrLen\<close> for a
  type, with the values that the type has.
\<close>

record 'p impl =
  im_enc :: "'p xval encoder"
  im_dec :: "'p xval decoder"
  im_len :: "('p xval \<Rightarrow> nat) option"
  im_ok :: "'p xval \<Rightarrow> bool"

type_synonym 'p impls = "string \<rightharpoonup> 'p impl"

fun opt_enc :: "'p xval encoder \<Rightarrow> 'p xval encoder" where
  "opt_enc enc (Opt v) = encode_Option enc v"
| "opt_enc enc _ = (\<lambda>buf. Panic)"

definition option_impl :: "'p impl \<Rightarrow> 'p impl" where
  "option_impl im = \<lparr>im_enc = opt_enc (im_enc im),
     im_dec = dec_bind (decode_Option (im_dec im)) (\<lambda>v. dec_return (Opt v)), im_len = None,
     im_ok = (\<lambda>v. case v of Opt None \<Rightarrow> True | Opt (Some w) \<Rightarrow> im_ok im w | _ \<Rightarrow> False)\<rparr>"

fun impl_of :: "'p impls \<Rightarrow> ty \<Rightarrow> 'p impl option" where
  "impl_of env (Ty n) = env n"
| "impl_of env (Ty_Option t) = map_option option_impl (impl_of env t)"

text \<open>Code that names a type without the traits it needs does not compile and has no meaning.\<close>

fun run_enc_stmt :: "'p impls \<Rightarrow> (member \<times> 'p xval) list \<Rightarrow> enc_stmt \<Rightarrow> encoding" where
  "run_enc_stmt env vals (Encode m t) =
     (case (impl_of env t, map_of vals m) of (Some im, Some v) \<Rightarrow> im_enc im v | _ \<Rightarrow> (\<lambda>buf. Panic))"
| "run_enc_stmt env vals (Encode_Limited m t n) =
     (case (impl_of env t, map_of vals m) of
        (Some im, Some v) \<Rightarrow>
          (case im_len im of Some len \<Rightarrow> encode_access (im_enc im) len (Some n) v | None \<Rightarrow> (\<lambda>buf. Panic))
      | _ \<Rightarrow> (\<lambda>buf. Panic))"

fun run_enc :: "'p impls \<Rightarrow> enc_body \<Rightarrow> 'p xval encoder" where
  "run_enc env (Enc_Struct stmts) (Struct vals) = struct_encode (map (run_enc_stmt env vals) stmts)"
| "run_enc env (Enc_Enum32 arms) (Variant n []) = enum32_encode arms n"
| "run_enc env (Enc_Union arms) (Variant n vals) =
     (case map_of arms n of
        Some (c, stmts) \<Rightarrow> union_encode c (map (run_enc_stmt env vals) stmts)
      | None \<Rightarrow> (\<lambda>buf. Panic))"
| "run_enc env _ _ = (\<lambda>buf. Panic)"

fun run_dec_expr :: "'p impls \<Rightarrow> dec_expr \<Rightarrow> 'p xval decoder" where
  "run_dec_expr env (Decode t) = (case impl_of env t of Some im \<Rightarrow> im_dec im | None \<Rightarrow> (\<lambda>buf. Panic))"
| "run_dec_expr env (Decode_Limited t n) =
     (case impl_of env t of
        Some im \<Rightarrow>
          (case im_len im of Some len \<Rightarrow> decode_value (im_dec im) len (Some n) | None \<Rightarrow> (\<lambda>buf. Panic))
      | None \<Rightarrow> (\<lambda>buf. Panic))"

fun run_inits :: "'p impls \<Rightarrow> (member \<times> dec_expr) list \<Rightarrow> (member \<times> 'p xval) list decoder" where
  "run_inits env [] = dec_return []"
| "run_inits env ((m, e) # inits) =
     dec_bind (run_dec_expr env e) (\<lambda>v. dec_bind (run_inits env inits) (\<lambda>vs. dec_return ((m, v) # vs)))"

fun run_cons :: "'p impls \<Rightarrow> cons \<Rightarrow> 'p xval decoder" where
  "run_cons env (Construct path inits) = dec_bind (run_inits env inits) (\<lambda>vals.
     dec_return (case path of None \<Rightarrow> Struct vals | Some n \<Rightarrow> Variant n vals))"

fun run_dec :: "'p impls \<Rightarrow> dec_body \<Rightarrow> 'p xval decoder" where
  "run_dec env (Dec_Struct k) = run_cons env k"
| "run_dec env (Dec_Enum32 arms) = dec_bind (enum32_decode arms) (\<lambda>n. dec_return (Variant n []))"
| "run_dec env (Dec_Union arms) = union_decode (map (\<lambda>(c, k). (c, run_cons env k)) arms)"

subsection \<open>Declarations that compile\<close>

text \<open>The values of a declared type.\<close>

definition ty_ok :: "'p impls \<Rightarrow> ty \<Rightarrow> 'p xval \<Rightarrow> bool" where
  "ty_ok env t v = (case impl_of env t of Some im \<Rightarrow> im_ok im v | None \<Rightarrow> False)"

definition vals_ok :: "'p impls \<Rightarrow> fields \<Rightarrow> (member \<times> 'p xval) list \<Rightarrow> bool" where
  "vals_ok env fs vals = list_all2 (\<lambda>(m, f) (m', v). m = m' \<and> ty_ok env (fd_ty f) v) (members fs) vals"

fun decl_ok :: "'p impls \<Rightarrow> data \<Rightarrow> 'p xval \<Rightarrow> bool" where
  "decl_ok env (Data_Struct fs) (Struct vals) = vals_ok env fs vals"
| "decl_ok env (Data_Enum variants) (Variant n vals) =
     list_ex (\<lambda>v. vr_ident v = n \<and> vals_ok env (vr_fields v) vals) variants"
| "decl_ok env _ _ = False"

text \<open>
  What the Rust compiler checks of the declaration and of the generated code: names are distinct, the
  types of the fields have the traits, a limit only on a type with a length, and the
  discriminants of an enum of unit variants are distinct.
\<close>

definition field_checks :: "'p impls \<Rightarrow> field \<Rightarrow> bool" where
  "field_checks env f =
     (case impl_of env (fd_ty f) of
        None \<Rightarrow> False
      | Some im \<Rightarrow> parse_field_limit (fd_attrs f) = Ok None \<or> im_len im \<noteq> None)"

definition fields_check :: "'p impls \<Rightarrow> fields \<Rightarrow> bool" where
  "fields_check env fs \<longleftrightarrow> distinct (map fst (members fs)) \<and> list_all (field_checks env) (map snd (members fs))"

fun rustc_accepts :: "'p impls \<Rightarrow> data \<Rightarrow> bool" where
  "rustc_accepts env (Data_Struct fs) \<longleftrightarrow> fields_check env fs"
| "rustc_accepts env (Data_Enum variants) \<longleftrightarrow> distinct (map vr_ident variants) \<and>
     list_all (fields_check env) (map vr_fields variants) \<and>
     distinct (filter (\<lambda>d. d \<noteq> None) (map vr_discriminant variants))"
| "rustc_accepts env Data_Union \<longleftrightarrow> True"

text \<open>What neither the macros nor the compiler check: the cases of a union are distinct.\<close>

definition cases_distinct :: "data \<Rightarrow> bool" where
  "cases_distinct d =
     (case d of Data_Enum variants \<Rightarrow> distinct (filter is_ok (map variant_case variants)) | _ \<Rightarrow> True)"

text \<open>
  Both macros applied to a declaration, and to the declarations of a crate, each of which may use
  the types before it.
\<close>

definition derive_impl :: "'p impls \<Rightarrow> DeriveInput \<Rightarrow> 'p impls expansion" where
  "derive_impl env d =
     and_then (expand_encode d) (\<lambda>ce. and_then (expand_decode d) (\<lambda>cd.
       Ok (env(di_ident d \<mapsto> \<lparr>im_enc = run_enc env ce, im_dec = run_dec env cd, im_len = None,
         im_ok = decl_ok env (di_data d)\<rparr>))))"

fun derive_all :: "'p impls \<Rightarrow> DeriveInput list \<Rightarrow> 'p impls option" where
  "derive_all env [] = Some env"
| "derive_all env (d # ds) =
     (if rustc_accepts env (di_data d) then
        (case derive_impl env d of Ok env' \<Rightarrow> derive_all env' ds | _ \<Rightarrow> None)
      else None)"

subsection \<open>The contract of an implementation\<close>

locale xdr_impl = xdr_decoder dec
  for dec :: "'a decoder" +
  fixes enc :: "'a encoder" and ok :: "'a \<Rightarrow> bool"
  assumes encodes: "ok v \<Longrightarrow> xdr_encoder (enc v)"
    and returns_value: "ok v \<Longrightarrow> wire_rt (enc v) dec v"
    and returns_typed: "dec buf = Ok (v, rest) \<Longrightarrow> ok v"
begin

lemma limited:
  "ok v \<Longrightarrow> xdr_encoder (encode_access enc l limit v)"
  "ok v \<Longrightarrow> wire_rt (encode_access enc l limit v) (decode_value dec l limit) v"
  "xdr_decoder (decode_value dec l limit)"
  "decode_value dec l limit buf = Ok (v, rest) \<Longrightarrow> ok v"
proof -
  show "xdr_encoder (encode_access enc l limit v)" if "ok v"
    using encodes[OF that] unfolding encode_access_def Let_def by (cases limit) (auto intro!: xdr_enc)
  show "wire_rt (encode_access enc l limit v) (decode_value dec l limit) v" if "ok v"
    by (rule wire_rt_value[of enc, OF returns_value[OF that]])
  show "xdr_decoder (decode_value dec l limit)"
    by (rule xdr_decoder_value) (rule xdr_decoder_axioms)
  show "ok v" if "decode_value dec l limit buf = Ok (v, rest)"
    using that returns_typed
    by (cases limit) (auto simp: decode_value_def dec_bind_eq dec_return_def dec_fail_def Let_def split: if_splits)
qed

end

definition impl_good :: "'p impl \<Rightarrow> bool" where
  "impl_good im \<longleftrightarrow> xdr_impl (im_dec im) (im_enc im) (im_ok im)"

definition env_good :: "'p impls \<Rightarrow> bool" where
  "env_good env \<longleftrightarrow> (\<forall>n im. env n = Some im \<longrightarrow> impl_good im)"

lemma impl_goodI:
  assumes "xdr_decoder (im_dec im)"
    and "\<And>v. im_ok im v \<Longrightarrow> xdr_encoder (im_enc im v) \<and> wire_rt (im_enc im v) (im_dec im) v"
    and "\<And>buf v rest. im_dec im buf = Ok (v, rest) \<Longrightarrow> im_ok im v"
  shows "impl_good im"
  unfolding impl_good_def using assms by (simp add: xdr_impl_def xdr_impl_axioms_def)

lemma impl_goodD:
  assumes "impl_good im"
  shows "xdr_decoder (im_dec im)" "im_ok im v \<Longrightarrow> xdr_encoder (im_enc im v)"
    "im_ok im v \<Longrightarrow> wire_rt (im_enc im v) (im_dec im) v" "im_dec im buf = Ok (v, rest) \<Longrightarrow> im_ok im v"
  using assms unfolding impl_good_def
  by (auto dest: xdr_impl.axioms(1) xdr_impl.encodes xdr_impl.returns_value xdr_impl.returns_typed)

lemma option_impl_good:
  assumes "impl_good im"
  shows "impl_good (option_impl im)"
proof (rule impl_goodI)
  show "xdr_decoder (im_dec (option_impl im))"
    unfolding option_impl_def using impl_goodD(1)[OF assms] by (auto intro!: xdr_dec)
  fix v assume "im_ok (option_impl im) v"
  then consider "v = Opt None" | w where "v = Opt (Some w)" "im_ok im w"
    by (auto simp: option_impl_def split: xval.splits option.splits)
  then show "xdr_encoder (im_enc (option_impl im) v) \<and> wire_rt (im_enc (option_impl im) v) (im_dec (option_impl im)) v"
  proof cases
    case 1
    then show ?thesis
      by (auto simp: option_impl_def encode_Option_eq decode_Option_def wire_rt_def dec_bind_def dec_return_def
          intro!: xdr_enc)
  next
    case 2
    note w = impl_goodD(2,3)[OF assms 2(2)]
    have "wire_rt (enc_seq (encode_u32 1) (im_enc im w)) (decode_Option (im_dec im)) (Some w)"
      unfolding decode_Option_def by (rule wire_rt_seq[OF wire_rt_words(1) w(1)]) (simp add: wire_rt_map[OF w(2)])
    then show ?thesis
      using w(1) 2(1) by (auto simp: option_impl_def encode_Option_eq wire_rt_def dec_bind_def dec_return_def intro!: xdr_enc)
  qed
next
  fix buf v rest assume "im_dec (option_impl im) buf = Ok (v, rest)"
  then show "im_ok (option_impl im) v"
    using impl_goodD(4)[OF assms]
    by (auto simp: option_impl_def decode_Option_def dec_bind_eq dec_return_def dec_fail_def split: if_splits)
qed

lemma impl_of_good: "env_good env \<Longrightarrow> impl_of env t = Some im \<Longrightarrow> impl_good im"
  by (induction t arbitrary: im) (auto simp: env_good_def option_impl_good)

subsection \<open>The generated code for the fields\<close>

lemma collect_Ok: "collect (map f xs) = Ok ys \<longleftrightarrow> list_all2 (\<lambda>x y. f x = Ok y) xs ys"
  by (induction xs arbitrary: ys) (auto simp: list_all2_Cons1)

definition field_code :: "'p impls \<Rightarrow> field \<Rightarrow> u64 option \<Rightarrow> 'p impl \<Rightarrow> bool" where
  "field_code env f limit im \<longleftrightarrow> parse_field_limit (fd_attrs f) = Ok limit \<and>
     impl_of env (fd_ty f) = Some im \<and> impl_good im \<and> (limit = None \<or> im_len im \<noteq> None)"

lemma field_codeI:
  assumes "env_good env" "field_checks env f" "parse_field_limit (fd_attrs f) = Ok limit"
  obtains im where "field_code env f limit im"
proof -
  obtain im where "impl_of env (fd_ty f) = Some im" "limit = None \<or> im_len im \<noteq> None"
    using assms(2,3) by (auto simp: field_checks_def split: option.splits)
  then show thesis
    using that assms(3) impl_of_good[OF assms(1)] by (simp add: field_code_def)
qed

lemma run_field_dec:
  assumes "field_code env f limit im"
  shows "run_dec_expr env (gen_decode_value (fd_ty f) limit) =
    decode_value (im_dec im) (the (im_len im)) (map_option unat limit)"
  using assms by (cases limit)
    (auto simp: field_code_def gen_decode_value_def decode_value_def[where limit = None] usize_lit_def)

lemma run_field_enc:
  assumes "field_code env f limit im" "map_of vals m = Some v"
  shows "run_enc_stmt env vals (gen_encode_access m (fd_ty f) limit) =
    encode_access (im_enc im) (the (im_len im)) (map_option unat limit) v"
  using assms by (cases limit)
    (auto simp: field_code_def gen_encode_access_def encode_access_def[where limit = None] usize_lit_def)

lemma field_code_limited:
  assumes "field_code env f limit im"
  shows "im_ok im v \<Longrightarrow> xdr_encoder (encode_access (im_enc im) l k v)"
    "im_ok im v \<Longrightarrow> wire_rt (encode_access (im_enc im) l k v) (decode_value (im_dec im) l k) v"
    "xdr_decoder (decode_value (im_dec im) l k)"
    "decode_value (im_dec im) l k buf = Ok (v, rest) \<Longrightarrow> im_ok im v"
    "ty_ok env (fd_ty f) v = im_ok im v"
  using assms xdr_impl.limited[of "im_dec im" "im_enc im" "im_ok im"]
  by (auto simp: field_code_def impl_good_def ty_ok_def)

text \<open>The statements and initialisers generated for a list of fields.\<close>

definition enc_of :: "member \<times> field \<Rightarrow> enc_stmt expansion" where
  "enc_of = (\<lambda>(m, f). map_ok (gen_encode_access m (fd_ty f)) (parse_field_limit (fd_attrs f)))"

definition dec_of :: "member \<times> field \<Rightarrow> (member \<times> dec_expr) expansion" where
  "dec_of = (\<lambda>(m, f). map_ok (\<lambda>limit. (m, gen_decode_value (fd_ty f) limit)) (parse_field_limit (fd_attrs f)))"

abbreviation typed_field :: "'p impls \<Rightarrow> member \<times> field \<Rightarrow> member \<times> 'p xval \<Rightarrow> bool" where
  "typed_field env \<equiv> \<lambda>(m, f) (m', v). m = m' \<and> ty_ok env (fd_ty f) v"

lemma fields_roundtrip:
  assumes "env_good env" "list_all (field_checks env) (map snd ms)"
    and "list_all2 (\<lambda>x y. enc_of x = Ok y) ms stmts" "list_all2 (\<lambda>x y. dec_of x = Ok y) ms inits"
    and "list_all2 (typed_field env) ms vs" "\<And>m v. (m, v) \<in> set vs \<Longrightarrow> map_of vals m = Some v"
  shows "xdr_encoder (struct_encode (map (run_enc_stmt env vals) stmts)) \<and>
    wire_rt (struct_encode (map (run_enc_stmt env vals) stmts)) (run_inits env inits) vs"
  using assms(2-6)
proof (induction ms arbitrary: stmts inits vs)
  case Nil
  then show ?case
    by (auto intro: xdr_enc xdr_rt)
next
  case (Cons mf ms)
  obtain m f where mf: "mf = (m, f)" by (cases mf)
  from Cons.prems mf obtain limit where l: "parse_field_limit (fd_attrs f) = Ok limit"
    by (auto simp: list_all2_Cons1 enc_of_def)
  from Cons.prems mf l obtain stmts' inits' v vs' where split:
    "stmts = gen_encode_access m (fd_ty f) limit # stmts'" "inits = (m, gen_decode_value (fd_ty f) limit) # inits'"
    "vs = (m, v) # vs'" "ty_ok env (fd_ty f) v" "list_all2 (\<lambda>x y. enc_of x = Ok y) ms stmts'"
    "list_all2 (\<lambda>x y. dec_of x = Ok y) ms inits'" "list_all2 (typed_field env) ms vs'"
    by (auto simp: list_all2_Cons1 enc_of_def dec_of_def)
  have "field_checks env f"
    using Cons.prems(1) mf by simp
  from field_codeI[OF assms(1) this l] obtain im where im: "field_code env f limit im" .
  have v: "map_of vals m = Some v" "im_ok im v"
    using Cons.prems(5) split(3,4) field_code_limited(5)[OF im] by auto
  note run = run_field_dec[OF im] run_field_enc[OF im v(1)]
  have IH: "xdr_encoder (struct_encode (map (run_enc_stmt env vals) stmts'))"
    "wire_rt (struct_encode (map (run_enc_stmt env vals) stmts')) (run_inits env inits') vs'"
    using Cons.IH[OF _ split(5-7)] Cons.prems(1,5) split(3) by auto
  have "wire_rt (struct_encode (map (run_enc_stmt env vals) stmts'))
      (dec_bind (run_inits env inits') (\<lambda>vs. dec_return ((m, v) # vs))) vs"
    unfolding split(3) by (rule wire_rt_map[OF IH(2) refl])
  with IH(1) field_code_limited(1,2)[OF im v(2)] show ?case
    by (auto simp: split(1,2) run intro!: xdr_encoder_seq wire_rt_seq)
qed

lemma fields_decoded:
  assumes "env_good env" "list_all (field_checks env) (map snd ms)"
    and "list_all2 (\<lambda>x y. dec_of x = Ok y) ms inits"
  shows "xdr_decoder (run_inits env inits) \<and>
    (\<forall>buf vs rest. run_inits env inits buf = Ok (vs, rest) \<longrightarrow> list_all2 (typed_field env) ms vs)"
  using assms(2-3)
proof (induction ms arbitrary: inits)
  case Nil
  then show ?case
    by (simp add: xdr_decoder_return) (simp add: dec_return_def)
next
  case (Cons mf ms)
  obtain m f where mf: "mf = (m, f)" by (cases mf)
  from Cons.prems mf obtain limit inits' where l: "parse_field_limit (fd_attrs f) = Ok limit"
    "inits = (m, gen_decode_value (fd_ty f) limit) # inits'" "list_all2 (\<lambda>x y. dec_of x = Ok y) ms inits'"
    by (auto simp: list_all2_Cons1 dec_of_def)
  have "field_checks env f"
    using Cons.prems(1) mf by simp
  from field_codeI[OF assms(1) this l(1)] obtain im where im: "field_code env f limit im" .
  have IH: "xdr_decoder (run_inits env inits')"
    "\<And>buf vs rest. run_inits env inits' buf = Ok (vs, rest) \<Longrightarrow> list_all2 (typed_field env) ms vs"
    using Cons.IH[OF _ l(3)] Cons.prems(1) by auto
  show ?case
    unfolding l(2) mf using IH field_code_limited(3-5)[OF im]
    by (auto simp: run_field_dec[OF im] dec_bind_eq dec_return_def[of "_ # _"] intro!: xdr_decoder_bind xdr_decoder_return)
qed

lemma gen_struct_encode_Ok:
  "gen_struct_encode fs = Ok stmts \<longleftrightarrow> list_all2 (\<lambda>x y. enc_of x = Ok y) (members fs) stmts"
  by (simp add: gen_struct_encode_def enc_of_def collect_Ok)

lemma construct_Ok:
  "construct path fs = Ok k \<longleftrightarrow>
    (\<exists>inits. k = Construct path inits \<and> list_all2 (\<lambda>x y. dec_of x = Ok y) (members fs) inits)"
  by (auto simp: construct_def dec_of_def collect_Ok)

lemma vals_ok_lookup:
  assumes "fields_check env fs" "vals_ok env fs vals" "(m, v) \<in> set vals"
  shows "map_of vals m = Some v"
proof -
  have "map fst vals = map fst (members fs)"
    using assms(2) unfolding vals_ok_def
    by (induction rule: list_all2_induct) auto
  then show ?thesis
    using assms(1,3) by (simp add: fields_check_def)
qed

lemma construct_roundtrip:
  assumes "env_good env" "fields_check env fs" "gen_struct_encode fs = Ok stmts" "construct path fs = Ok k"
    and "vals_ok env fs vals"
  shows "xdr_encoder (struct_encode (map (run_enc_stmt env vals) stmts)) \<and>
    wire_rt (struct_encode (map (run_enc_stmt env vals) stmts)) (run_cons env k)
      (case path of None \<Rightarrow> Struct vals | Some n \<Rightarrow> Variant n vals)"
proof -
  obtain inits where k: "k = Construct path inits" "list_all2 (\<lambda>x y. dec_of x = Ok y) (members fs) inits"
    using assms(4) by (auto simp: construct_Ok)
  have "xdr_encoder (struct_encode (map (run_enc_stmt env vals) stmts)) \<and>
    wire_rt (struct_encode (map (run_enc_stmt env vals) stmts)) (run_inits env inits) vals"
    using assms(1-3,5) k(2) vals_ok_lookup[OF assms(2,5)]
    by (intro fields_roundtrip) (auto simp: gen_struct_encode_Ok fields_check_def vals_ok_def)
  then show ?thesis
    by (auto simp: k(1) intro: wire_rt_map)
qed

lemma construct_decoded:
  assumes "env_good env" "fields_check env fs" "construct path fs = Ok k"
  shows "xdr_decoder (run_cons env k)"
    and "run_cons env k buf = Ok (v, rest) \<Longrightarrow>
      \<exists>vals. v = (case path of None \<Rightarrow> Struct vals | Some n \<Rightarrow> Variant n vals) \<and> vals_ok env fs vals"
proof -
  obtain inits where k: "k = Construct path inits" "list_all2 (\<lambda>x y. dec_of x = Ok y) (members fs) inits"
    using assms(3) by (auto simp: construct_Ok)
  note f = fields_decoded[OF assms(1) _ k(2)]
  show "xdr_decoder (run_cons env k)"
    using f assms(2) by (auto simp: k(1) fields_check_def intro!: xdr_dec)
  show "\<exists>vals. v = (case path of None \<Rightarrow> Struct vals | Some n \<Rightarrow> Variant n vals) \<and> vals_ok env fs vals"
    if "run_cons env k buf = Ok (v, rest)"
    using that f assms(2) by (auto simp: k(1) fields_check_def vals_ok_def dec_bind_eq dec_return_def)
qed

subsection \<open>The generated code for structures and enums\<close>

abbreviation derived :: "'p impls \<Rightarrow> data \<Rightarrow> enc_body \<Rightarrow> dec_body \<Rightarrow> 'p impl" where
  "derived env d ce cd \<equiv>
     \<lparr>im_enc = run_enc env ce, im_dec = run_dec env cd, im_len = None, im_ok = decl_ok env d\<rparr>"

lemma derived_goodI:
  assumes "xdr_decoder (run_dec env cd)"
    and "\<And>v. decl_ok env d v \<Longrightarrow> xdr_encoder (run_enc env ce v) \<and> wire_rt (run_enc env ce v) (run_dec env cd) v"
    and "\<And>buf v rest. run_dec env cd buf = Ok (v, rest) \<Longrightarrow> decl_ok env d v"
  shows "impl_good (derived env d ce cd)"
  by (rule impl_goodI) (use assms in simp_all)

lemma struct_good:
  assumes "env_good env" "fields_check env fs" "gen_struct_encode fs = Ok stmts" "construct None fs = Ok k"
  shows "impl_good (derived env (Data_Struct fs) (Enc_Struct stmts) (Dec_Struct k))"
proof (rule derived_goodI)
  show "xdr_decoder (run_dec env (Dec_Struct k))"
    using construct_decoded(1)[OF assms(1,2,4)] by simp
  show "decl_ok env (Data_Struct fs) v" if "run_dec env (Dec_Struct k) buf = Ok (v, rest)" for buf v rest
    using that construct_decoded(2)[OF assms(1,2,4)] by fastforce
  show "xdr_encoder (run_enc env (Enc_Struct stmts) v) \<and>
    wire_rt (run_enc env (Enc_Struct stmts) v) (run_dec env (Dec_Struct k)) v" if "decl_ok env (Data_Struct fs) v" for v
    using that construct_roundtrip[OF assms] by (cases v) auto
qed

text \<open>The arms of an enum of unit variants.\<close>

lemma enum32_arms_Ok:
  assumes "gen_enum32_arms variants = Ok arms"
  shows "map fst arms = map vr_ident variants" "map (Some \<circ> snd) arms = map vr_discriminant variants"
    "\<forall>v\<in>set variants. vr_fields v = Fields_Unit"
proof -
  have "list_all2 (\<lambda>v arm. vr_fields v = Fields_Unit \<and> fst arm = vr_ident v \<and> vr_discriminant v = Some (snd arm))
      variants arms"
    using assms unfolding gen_enum32_arms_def collect_Ok
    by (rule list_all2_mono) (auto simp: ok_or_def split: if_splits option.splits)
  then have "map fst arms = map vr_ident variants \<and> map (Some \<circ> snd) arms = map vr_discriminant variants \<and>
      (\<forall>v\<in>set variants. vr_fields v = Fields_Unit)"
    by (induction rule: list_all2_induct) auto
  then show "map fst arms = map vr_ident variants" "map (Some \<circ> snd) arms = map vr_discriminant variants"
    "\<forall>v\<in>set variants. vr_fields v = Fields_Unit" by blast+
qed

lemma enum32_decode_mem: "enum32_decode arms buf = Ok (n, rest) \<Longrightarrow> n \<in> fst ` set arms"
proof -
  assume "enum32_decode arms buf = Ok (n, rest)"
  then obtain d mid where d: "(case map_of (map (\<lambda>(v, c). (c, v)) arms) d of
      Some v \<Rightarrow> dec_return v | None \<Rightarrow> dec_fail (InvalidEnum d)) mid = Ok (n, rest)"
    by (auto simp: enum32_decode_def dec_bind_eq)
  then have "map_of (map (\<lambda>(v, c). (c, v)) arms) d = Some n"
    by (cases "map_of (map (\<lambda>(v, c). (c, v)) arms) d") (simp_all add: dec_return_def dec_fail_def)
  from map_of_SomeD[OF this] show "n \<in> fst ` set arms"
    by force
qed

lemma union_decode_arm:
  assumes "union_decode arms buf = Ok (v, rest)"
  obtains c dec mid where "(c, dec) \<in> set arms" "dec mid = Ok (v, rest)"
proof -
  from assms obtain d mid where d: "(case map_of arms d of Some dec \<Rightarrow> dec | None \<Rightarrow> dec_fail (InvalidUnion d)) mid
      = Ok (v, rest)"
    by (auto simp: union_decode_def dec_bind_eq)
  then obtain dec where "map_of arms d = Some dec" "dec mid = Ok (v, rest)"
    by (cases "map_of arms d") (simp_all add: dec_fail_def)
  with that show thesis
    by (blast dest: map_of_SomeD)
qed

lemma enum32_good:
  assumes "rustc_accepts env (Data_Enum variants)" "gen_enum32_arms variants = Ok arms"
  shows "impl_good (derived env (Data_Enum variants) (Enc_Enum32 arms) (Dec_Enum32 arms))"
proof (rule derived_goodI)
  note arms = enum32_arms_Ok[OF assms(2)]
  have unit: "vals_ok env (vr_fields w) vals \<longleftrightarrow> vals = []" if "w \<in> set variants" for w vals
    using arms(3) that by (simp add: vals_ok_def)
  have ok: "decl_ok env (Data_Enum variants) v \<longleftrightarrow> (\<exists>n. v = Variant n [] \<and> n \<in> fst ` set arms)" for v
    using arg_cong[OF arms(1), of set] unit by (cases v) (auto simp: list_ex_iff image_iff)
  have "filter (\<lambda>d. d \<noteq> None) (map vr_discriminant variants) = map Some (map snd arms)"
    unfolding arms(2)[symmetric] by simp
  then have "distinct (map Some (map snd arms))" and dist2: "distinct (map fst arms)"
    using assms(1) arms(1) by (simp_all del: map_map)
  then have dist: "distinct (map snd arms)" "distinct (map fst arms)"
    by (simp_all only: distinct_map)
  show "xdr_decoder (run_dec env (Dec_Enum32 arms))"
    by (auto intro!: xdr_dec)
  show "decl_ok env (Data_Enum variants) v" if "run_dec env (Dec_Enum32 arms) buf = Ok (v, rest)" for buf v rest
    using that unfolding ok by (auto simp: dec_bind_eq dec_return_def dest: enum32_decode_mem)
  show "xdr_encoder (run_enc env (Enc_Enum32 arms) v) \<and>
    wire_rt (run_enc env (Enc_Enum32 arms) v) (run_dec env (Dec_Enum32 arms)) v"
    if "decl_ok env (Data_Enum variants) v" for v
  proof -
    from that obtain n d where nd: "v = Variant n []" "(n, d) \<in> set arms"
      unfolding ok by auto
    note n = nd(1) map_of_is_SomeI[OF dist(2) nd(2)]
    have enc: "enum32_encode arms n = encode_i32 d"
      using n(2) by (auto simp: enum32_encode_def)
    have "wire_rt (encode_i32 d) (enum32_decode arms) n"
      using enum32_roundtrip[OF dist(1) n(2)] by (auto simp: wire_rt_def)
    then show ?thesis
      unfolding n(1) using enc by (auto intro: xdr_enc wire_rt_map)
  qed
qed

text \<open>The arms of a union.\<close>

lemma union_arms_Ok:
  assumes "gen_union_encode variants = Ok ce" "gen_union_decode variants = Ok cd"
  obtains earms darms where "ce = Enc_Union earms" "cd = Dec_Union darms"
    "length earms = length variants" "length darms = length variants"
    "\<And>i. i < length variants \<Longrightarrow> \<exists>c stmts k. variant_case (variants ! i) = Ok c \<and>
      gen_struct_encode (vr_fields (variants ! i)) = Ok stmts \<and>
      construct (Some (vr_ident (variants ! i))) (vr_fields (variants ! i)) = Ok k \<and>
      earms ! i = (vr_ident (variants ! i), c, stmts) \<and> darms ! i = (c, k)"
proof -
  obtain earms where e: "ce = Enc_Union earms"
    "list_all2 (\<lambda>v arm. \<exists>c stmts. variant_case v = Ok c \<and> gen_struct_encode (vr_fields v) = Ok stmts \<and>
      arm = (vr_ident v, c, stmts)) variants earms"
    using assms(1) unfolding gen_union_encode_def by (auto simp: collect_Ok elim: list_all2_mono)
  obtain darms where d: "cd = Dec_Union darms"
    "list_all2 (\<lambda>v arm. \<exists>c k. variant_case v = Ok c \<and> construct (Some (vr_ident v)) (vr_fields v) = Ok k \<and>
      arm = (c, k)) variants darms"
    using assms(2) unfolding gen_union_decode_def by (auto simp: collect_Ok elim: list_all2_mono)
  show thesis
    by (rule that[OF e(1) d(1)])
      (use e(2) d(2) in \<open>fastforce simp: list_all2_conv_all_nth\<close>)+
qed

lemma union_good:
  assumes "env_good env" "rustc_accepts env (Data_Enum variants)" "cases_distinct (Data_Enum variants)"
    and "gen_union_encode variants = Ok ce" "gen_union_decode variants = Ok cd"
  shows "impl_good (derived env (Data_Enum variants) ce cd)"
proof -
  obtain earms darms where arms: "ce = Enc_Union earms" "cd = Dec_Union darms"
    "length earms = length variants" "length darms = length variants"
    and arm: "\<And>i. i < length variants \<Longrightarrow> \<exists>c stmts k. variant_case (variants ! i) = Ok c \<and>
      gen_struct_encode (vr_fields (variants ! i)) = Ok stmts \<and>
      construct (Some (vr_ident (variants ! i))) (vr_fields (variants ! i)) = Ok k \<and>
      earms ! i = (vr_ident (variants ! i), c, stmts) \<and> darms ! i = (c, k)"
    using union_arms_Ok[OF assms(4,5)] by blast
  have "map fst earms = map vr_ident variants" "map (Ok \<circ> fst) darms = map variant_case variants"
    by (rule nth_equalityI; use arms arm in fastforce)+
  then have cases: "filter is_ok (map variant_case variants) = map Ok (map fst darms)"
    by (simp add: filter_map comp_def flip: \<open>map (Ok \<circ> fst) darms = _\<close>)
  have dist: "distinct (map fst earms)"
    using assms(2) \<open>map fst earms = _\<close> by simp
  have "distinct (map Ok (map fst darms) :: (i32, macro_error) result list)"
    using assms(3) unfolding cases_distinct_def data.case cases .
  then have dist2: "distinct (map fst (map (\<lambda>(c, k). (c, run_cons env k)) darms))"
    by (simp only: distinct_map[of Ok]) (simp add: comp_def case_prod_beta)
  have check: "fields_check env (vr_fields (variants ! i))" if "i < length variants" for i
    using assms(2) that by (simp add: list_all_length)
  show ?thesis
  proof (rule derived_goodI)
    have "xdr_decoder (run_cons env k)" if ck: "(c, k) \<in> set darms" for c k
    proof -
      obtain i where i: "i < length variants" "darms ! i = (c, k)"
        using ck arms(4) by (metis in_set_conv_nth)
      with arm[OF i(1)] construct_decoded(1)[OF assms(1) check[OF i(1)]] show ?thesis by auto
    qed
    then show "xdr_decoder (run_dec env cd)"
      unfolding arms(2) by (auto intro!: xdr_decoder_union simp: list_all_iff)
  next
    fix buf v rest assume "run_dec env cd buf = Ok (v, rest)"
    then obtain c k mid where k: "(c, k) \<in> set darms" "run_cons env k mid = Ok (v, rest)"
      unfolding arms(2) run_dec.simps by (elim union_decode_arm) auto
    then obtain i where i: "i < length variants" "darms ! i = (c, k)"
      using arms(4) by (metis in_set_conv_nth)
    with arm[OF i(1)] have "construct (Some (vr_ident (variants ! i))) (vr_fields (variants ! i)) = Ok k"
      by auto
    from construct_decoded(2)[OF assms(1) check[OF i(1)] this k(2)]
    show "decl_ok env (Data_Enum variants) v"
      using i(1) by (auto simp: list_ex_length)
  next
    fix v assume "decl_ok env (Data_Enum variants) v"
    then obtain i vals where i: "i < length variants" "v = Variant (vr_ident (variants ! i)) vals"
      "vals_ok env (vr_fields (variants ! i)) vals"
      by (cases v) (auto simp: list_ex_length)
    from arm[OF i(1)] obtain c stmts k where a: "gen_struct_encode (vr_fields (variants ! i)) = Ok stmts"
      "construct (Some (vr_ident (variants ! i))) (vr_fields (variants ! i)) = Ok k"
      "(vr_ident (variants ! i), c, stmts) \<in> set earms" "(c, k) \<in> set darms"
      using i(1) arms(3,4) by (metis nth_mem)
    have "map_of earms (vr_ident (variants ! i)) = Some (c, stmts)"
      using dist a(3) by simp
    moreover have "map_of (map (\<lambda>(c, k). (c, run_cons env k)) darms) c = Some (run_cons env k)"
      by (rule map_of_is_SomeI[OF dist2]) (use a(4) in force)
    moreover note construct_roundtrip[OF assms(1) check[OF i(1)] a(1,2) i(3)]
    ultimately show "xdr_encoder (run_enc env ce v) \<and> wire_rt (run_enc env ce v) (run_dec env cd) v"
      unfolding arms(1,2) i(2) by (auto intro: xdr_encoder_union wire_rt_union)
  qed
qed

subsection \<open>Whole crates\<close>

lemma derive_impl_good:
  assumes "env_good env" "rustc_accepts env (di_data d)" "cases_distinct (di_data d)"
    and "derive_impl env d = Ok env'"
  shows "env_good env'"
proof -
  obtain ce cd where c: "expand_encode d = Ok ce" "expand_decode d = Ok cd"
    "env' = env(di_ident d \<mapsto> derived env (di_data d) ce cd)"
    using assms(4) by (auto simp: derive_impl_def)
  have "impl_good (derived env (di_data d) ce cd)"
  proof (cases "di_data d")
    case (Data_Struct fs)
    then show ?thesis
      using c(1,2) assms(1,2) by (auto simp: expand_encode_def expand_decode_def intro: struct_good)
  next
    case (Data_Enum variants)
    then obtain ct where "parse_container (di_attrs d) = Ok ct"
      using c(1) by (auto simp: expand_encode_def)
    with Data_Enum show ?thesis
      using c(1,2) assms(1-3) union_good[OF assms(1), of variants ce cd] enum32_good[of env variants]
      by (auto simp: expand_encode_def expand_decode_def gen_enum32_encode_def gen_enum32_decode_def split: if_splits)
  next
    case Data_Union
    then show ?thesis
      using c(1) by (simp add: expand_encode_def)
  qed
  with assms(1) c(3) show ?thesis
    by (auto simp: env_good_def)
qed

lemma derive_all_good:
  "env_good env \<Longrightarrow> list_all (\<lambda>d. cases_distinct (di_data d)) ds \<Longrightarrow> derive_all env ds = Some env' \<Longrightarrow> env_good env'"
  by (induction ds arbitrary: env) (auto split: if_splits result.splits dest: derive_impl_good)

subsection \<open>The types of the codec\<close>

datatype prim =
    P_i32 i32 | P_u32 u32 | P_i64 i64 | P_u64 u64 | P_bool bool | P_String string | P_Bytes bytes

text \<open>An implementation of the traits for a type whose values are those of one constructor.\<close>

fun prim_enc :: "('a \<Rightarrow> encoding) \<Rightarrow> ('q \<Rightarrow> 'a option) \<Rightarrow> 'q xval encoder" where
  "prim_enc enc unwrap (Prim q) = (case unwrap q of Some x \<Rightarrow> enc x | None \<Rightarrow> (\<lambda>buf. Panic))"
| "prim_enc enc unwrap _ = (\<lambda>buf. Panic)"

fun prim_ok :: "('a \<Rightarrow> bool) \<Rightarrow> ('q \<Rightarrow> 'a option) \<Rightarrow> 'q xval \<Rightarrow> bool" where
  "prim_ok ok unwrap (Prim q) = (case unwrap q of Some x \<Rightarrow> ok x | None \<Rightarrow> False)"
| "prim_ok ok unwrap _ = False"

definition prim_impl ::
  "'a encoder \<Rightarrow> 'a decoder \<Rightarrow> ('q xval \<Rightarrow> nat) option \<Rightarrow> ('a \<Rightarrow> bool) \<Rightarrow> ('a \<Rightarrow> 'q) \<Rightarrow> ('q \<Rightarrow> 'a option) \<Rightarrow> 'q impl" where
  "prim_impl enc dec len ok wrap unwrap =
     \<lparr>im_enc = prim_enc enc unwrap, im_dec = dec_bind dec (\<lambda>x. dec_return (Prim (wrap x))), im_len = len,
      im_ok = prim_ok ok unwrap\<rparr>"

lemma prim_impl_good:
  assumes "xdr_impl dec enc ok" "\<And>x. unwrap (wrap x) = Some x" "\<And>q x. unwrap q = Some x \<Longrightarrow> q = wrap x"
  shows "impl_good (prim_impl enc dec len ok wrap unwrap)"
proof (rule impl_goodI)
  show "xdr_decoder (im_dec (prim_impl enc dec len ok wrap unwrap))"
    using xdr_impl.axioms(1)[OF assms(1)] by (auto simp: prim_impl_def intro!: xdr_dec)
  show "im_ok (prim_impl enc dec len ok wrap unwrap) v"
    if "im_dec (prim_impl enc dec len ok wrap unwrap) buf = Ok (v, rest)" for buf v rest
    using that xdr_impl.returns_typed[OF assms(1)] by (auto simp: prim_impl_def dec_bind_eq dec_return_def assms(2))
  fix v assume "im_ok (prim_impl enc dec len ok wrap unwrap) v"
  then obtain q x where v: "v = Prim q" "unwrap q = Some x" "ok x"
    by (cases v) (auto simp: prim_impl_def split: option.splits)
  note x = xdr_impl.encodes[OF assms(1) v(3)] xdr_impl.returns_value[OF assms(1) v(3)]
  have "Prim (wrap x) = v"
    using assms(3)[OF v(2)] v(1) by simp
  from wire_rt_map[where f = "\<lambda>x. Prim (wrap x)", OF x(2) this] x(1)
  show "xdr_encoder (im_enc (prim_impl enc dec len ok wrap unwrap) v) \<and>
    wire_rt (im_enc (prim_impl enc dec len ok wrap unwrap) v) (im_dec (prim_impl enc dec len ok wrap unwrap)) v"
    by (simp add: prim_impl_def v(1,2))
qed

lemma xdr_implI:
  assumes "xdr_decoder dec" "\<And>v. xdr_encoder (enc v)" "\<And>v. ok v \<Longrightarrow> wire_rt (enc v) dec v"
    and "\<And>buf v rest. dec buf = Ok (v, rest) \<Longrightarrow> ok v"
  shows "xdr_impl dec enc ok"
  using assms by (simp add: xdr_impl_def xdr_impl_axioms_def)

lemma decode_String_valid: "decode_String buf = Ok (s, rest) \<Longrightarrow> valid_string s"
  by (auto simp: decode_String_def dec_bind_eq dest: from_utf8_Ok)

interpretation i32_impl: xdr_impl decode_i32 encode_i32 "\<lambda>_. True"
  by (rule xdr_implI) (rule xdr_dec xdr_enc xdr_rt TrueI)+

interpretation u32_impl: xdr_impl decode_u32 encode_u32 "\<lambda>_. True"
  by (rule xdr_implI) (rule xdr_dec xdr_enc xdr_rt TrueI)+

interpretation i64_impl: xdr_impl decode_i64 encode_i64 "\<lambda>_. True"
  by (rule xdr_implI) (rule xdr_dec xdr_enc xdr_rt TrueI)+

interpretation u64_impl: xdr_impl decode_u64 encode_u64 "\<lambda>_. True"
  by (rule xdr_implI) (rule xdr_dec xdr_enc xdr_rt TrueI)+

interpretation bool_impl: xdr_impl decode_bool encode_bool "\<lambda>_. True"
  by (rule xdr_implI) (rule xdr_dec xdr_enc xdr_rt TrueI)+

interpretation Bytes_impl: xdr_impl decode_Bytes encode_Bytes "\<lambda>_. True"
  by (rule xdr_implI) (rule xdr_dec xdr_enc xdr_rt TrueI)+

interpretation String_impl: xdr_impl decode_String encode_String valid_string
  by (rule xdr_implI) (rule xdr_dec xdr_enc | erule xdr_rt decode_String_valid)+

fun un_i32 :: "prim \<Rightarrow> i32 option" where "un_i32 (P_i32 x) = Some x" | "un_i32 _ = None"
fun un_u32 :: "prim \<Rightarrow> u32 option" where "un_u32 (P_u32 x) = Some x" | "un_u32 _ = None"
fun un_i64 :: "prim \<Rightarrow> i64 option" where "un_i64 (P_i64 x) = Some x" | "un_i64 _ = None"
fun un_u64 :: "prim \<Rightarrow> u64 option" where "un_u64 (P_u64 x) = Some x" | "un_u64 _ = None"
fun un_bool :: "prim \<Rightarrow> bool option" where "un_bool (P_bool x) = Some x" | "un_bool _ = None"
fun un_Bytes :: "prim \<Rightarrow> bytes option" where "un_Bytes (P_Bytes x) = Some x" | "un_Bytes _ = None"
fun un_String :: "prim \<Rightarrow> string option" where "un_String (P_String x) = Some x" | "un_String _ = None"

text \<open>\<open>XdrLen\<close>: the length of a string or of bytes.\<close>

fun xdr_len :: "prim xval \<Rightarrow> nat" where
  "xdr_len (Prim (P_String s)) = length s"
| "xdr_len (Prim (P_Bytes b)) = length b"
| "xdr_len _ = 0"

definition std_impls :: "prim impls" where
  "std_impls =
     [''i32'' \<mapsto> prim_impl encode_i32 decode_i32 None (\<lambda>_. True) P_i32 un_i32,
      ''u32'' \<mapsto> prim_impl encode_u32 decode_u32 None (\<lambda>_. True) P_u32 un_u32,
      ''i64'' \<mapsto> prim_impl encode_i64 decode_i64 None (\<lambda>_. True) P_i64 un_i64,
      ''u64'' \<mapsto> prim_impl encode_u64 decode_u64 None (\<lambda>_. True) P_u64 un_u64,
      ''bool'' \<mapsto> prim_impl encode_bool decode_bool None (\<lambda>_. True) P_bool un_bool,
      ''String'' \<mapsto> prim_impl encode_String decode_String (Some xdr_len) valid_string P_String un_String,
      ''Bytes'' \<mapsto> prim_impl encode_Bytes decode_Bytes (Some xdr_len) (\<lambda>_. True) P_Bytes un_Bytes]"

lemma un_prims:
  "un_i32 q = Some i \<Longrightarrow> q = P_i32 i" "un_u32 q = Some i \<Longrightarrow> q = P_u32 i" "un_i64 q = Some j \<Longrightarrow> q = P_i64 j"
  "un_u64 q = Some j \<Longrightarrow> q = P_u64 j" "un_bool q = Some c \<Longrightarrow> q = P_bool c"
  "un_String q = Some s \<Longrightarrow> q = P_String s" "un_Bytes q = Some bs \<Longrightarrow> q = P_Bytes bs"
  by (cases q; simp)+

lemma env_good_upd: "env_good env \<Longrightarrow> impl_good im \<Longrightarrow> env_good (env(n \<mapsto> im))"
  by (simp add: env_good_def)

lemma std_impls_good: "env_good std_impls"
  unfolding std_impls_def
  by (intro env_good_upd prim_impl_good i32_impl.xdr_impl_axioms u32_impl.xdr_impl_axioms
      i64_impl.xdr_impl_axioms u64_impl.xdr_impl_axioms bool_impl.xdr_impl_axioms
      String_impl.xdr_impl_axioms Bytes_impl.xdr_impl_axioms)
    (simp_all add: un_prims, simp add: env_good_def)



subsection \<open>The two macros agree\<close>

definition same_error :: "('a, 'e) result \<Rightarrow> ('b, 'e) result \<Rightarrow> bool" where
  "same_error r q \<longleftrightarrow> (case (r, q) of (Ok _, Ok _) \<Rightarrow> True | (Err d, Err e) \<Rightarrow> d = e | (Panic, Panic) \<Rightarrow> True | _ \<Rightarrow> False)"

lemma same_error_map [simp]:
  "same_error (map_ok f r) q = same_error r q" "same_error r (map_ok g q) = same_error r q" "same_error r r"
  by (cases r; cases q; simp add: same_error_def)+

lemma same_error_Err [simp]: "same_error (Err d) (Err e) \<longleftrightarrow> d = e"
  by (simp add: same_error_def)

lemma same_error_and_then:
  "(\<And>x. r = Ok x \<Longrightarrow> same_error (f x) (g x)) \<Longrightarrow> same_error (and_then r f) (and_then r g)"
  by (cases r) (simp_all add: same_error_def)

lemma same_error_collect:
  "(\<And>x. x \<in> set xs \<Longrightarrow> same_error (f x) (g x)) \<Longrightarrow> same_error (collect (map f xs)) (collect (map g xs))"
proof (induction xs)
  case (Cons x xs)
  then have "same_error (f x) (g x)" "same_error (collect (map f xs)) (collect (map g xs))" by simp_all
  then show ?case
    by (cases "f x"; cases "g x"; cases "collect (map f xs)"; cases "collect (map g xs)") (auto simp: same_error_def)
qed (simp add: same_error_def)

lemma fields_agree: "same_error (gen_struct_encode fs) (construct path fs)"
  unfolding gen_struct_encode_def construct_def same_error_map by (rule same_error_collect) auto

lemma attrs_no_panic:
  assumes "\<And>m s. f m s \<noteq> Panic"
  shows "each_xdr_attr f attrs s \<noteq> Panic"
proof -
  have "parse_nested_meta f ms s \<noteq> Panic" for ms s
    by (induction ms arbitrary: s) (use assms in auto)
  then show ?thesis
    by (induction attrs arbitrary: s) (auto split: option.splits)
qed

lemma parsers_no_panic:
  "parse_container attrs \<noteq> Panic" "parse_field_limit attrs \<noteq> Panic" "parse_variant_case attrs \<noteq> Panic"
  unfolding parse_container_def parse_field_limit_def parse_variant_case_def
  by (rule attrs_no_panic;
      auto simp: flag_def int_value_def split: option.splits meta_lit.splits if_splits)+

lemma collect_no_panic: "(\<And>x. x \<in> set xs \<Longrightarrow> f x \<noteq> Panic) \<Longrightarrow> collect (map f xs) \<noteq> Panic"
  by (induction xs) auto

lemma expand_encode_no_panic: "expand_encode d \<noteq> Panic"
proof -
  have s: "gen_struct_encode fs \<noteq> Panic" for fs
    unfolding gen_struct_encode_def by (rule collect_no_panic) (auto simp: parsers_no_panic)
  have c: "variant_case v \<noteq> Panic" for v
    by (auto simp: variant_case_def parsers_no_panic ok_or_def split: option.splits)
  have "gen_union_encode vs \<noteq> Panic" for vs
    unfolding gen_union_encode_def map_ok_eq_iff by (rule collect_no_panic) (simp add: s c)
  moreover have "gen_enum32_encode vs \<noteq> Panic" for vs
    unfolding gen_enum32_encode_def gen_enum32_arms_def map_ok_eq_iff
    by (rule collect_no_panic) (auto simp: ok_or_def split: option.splits)
  ultimately show ?thesis
    by (auto simp: expand_encode_def s parsers_no_panic split: data.splits if_splits)
qed

text \<open>
  \<open>XdrEncode\<close> and \<open>XdrDecode\<close> accept the same declarations: for every input both macros
  generate code, or both stop with the same error; they do not panic.
\<close>

theorem macros_agree:
  "(\<exists>ce cd. expand_encode d = Ok ce \<and> expand_decode d = Ok cd) \<or>
   (\<exists>e. expand_encode d = Err e \<and> expand_decode d = Err e)"
proof -
  have "same_error (gen_union_encode vs) (gen_union_decode vs)" for vs
    unfolding gen_union_encode_def gen_union_decode_def same_error_map
    by (intro same_error_collect same_error_and_then) (simp add: fields_agree)
  then have "same_error (expand_encode d) (expand_decode d)"
    unfolding expand_encode_def expand_decode_def
    by (auto simp: fields_agree gen_enum32_encode_def gen_enum32_decode_def intro!: same_error_and_then split: data.split)
  then show ?thesis
    using expand_encode_no_panic[of d]
    by (cases "expand_encode d"; cases "expand_decode d") (auto simp: same_error_def)
qed

subsection \<open>Declarations of the sources\<close>

definition bare :: "ty \<Rightarrow> field" where
  "bare t = \<lparr>fd_attrs = [], fd_ty = t\<rparr>"

definition xdr_attr :: "string \<Rightarrow> meta_lit option \<Rightarrow> Attribute" where
  "xdr_attr name v = \<lparr>ab_path = ''xdr'', ab_metas = Some [\<lparr>mt_path = name, mt_value = v\<rparr>]\<rparr>"

definition other_attr :: "string \<Rightarrow> Attribute" where
  "other_attr name = \<lparr>ab_path = name, ab_metas = None\<rparr>"

definition case_variant :: "int \<Rightarrow> string \<Rightarrow> fields \<Rightarrow> variant" where
  "case_variant n name fs =
     \<lparr>vr_attrs = [xdr_attr ''case'' (Some (Lit_Int n))], vr_ident = name, vr_fields = fs, vr_discriminant = None\<rparr>"

definition decl_Nfstime3 :: DeriveInput where
  "decl_Nfstime3 = \<lparr>di_attrs = [other_attr ''derive''], di_ident = ''Nfstime3'',
     di_data = Data_Struct (Fields_Named [(''seconds'', bare (Ty ''u32'')), (''nseconds'', bare (Ty ''u32''))])\<rparr>"

definition decl_NfsFh3 :: DeriveInput where
  "decl_NfsFh3 = \<lparr>di_attrs = [other_attr ''derive''], di_ident = ''NfsFh3'',
     di_data = Data_Struct (Fields_Named
       [(''data'', \<lparr>fd_attrs = [xdr_attr ''limit'' (Some (Lit_Int 64))], fd_ty = Ty ''Bytes''\<rparr>)])\<rparr>"

definition decl_SetTime :: DeriveInput where
  "decl_SetTime = \<lparr>di_attrs = [other_attr ''derive'', xdr_attr ''union'' None], di_ident = ''SetTime'',
     di_data = Data_Enum
       [case_variant 0 ''DontChange'' Fields_Unit\<lparr>vr_attrs := [other_attr ''default'', xdr_attr ''case'' (Some (Lit_Int 0))]\<rparr>,
        case_variant 1 ''ToServerTime'' Fields_Unit,
        case_variant 2 ''ToClientTime'' (Fields_Unnamed [bare (Ty ''Nfstime3'')])]\<rparr>"

definition decl_Sattr3 :: DeriveInput where
  "decl_Sattr3 = \<lparr>di_attrs = [other_attr ''derive''], di_ident = ''Sattr3'',
     di_data = Data_Struct (Fields_Named
       [(''mode'', bare (Ty_Option (Ty ''u32''))), (''uid'', bare (Ty_Option (Ty ''u32''))),
        (''gid'', bare (Ty_Option (Ty ''u32''))), (''size'', bare (Ty_Option (Ty ''u64''))),
        (''atime'', bare (Ty ''SetTime'')), (''mtime'', bare (Ty ''SetTime''))])\<rparr>"

definition nfs3_decls :: "DeriveInput list" where
  "nfs3_decls = [decl_Nfstime3, decl_NfsFh3, decl_SetTime, decl_Sattr3]"

lemmas decl_defs = nfs3_decls_def decl_Nfstime3_def decl_NfsFh3_def decl_SetTime_def decl_Sattr3_def bare_def
  xdr_attr_def other_attr_def case_variant_def

lemmas expand_defs = expand_encode_def expand_decode_def gen_struct_encode_def construct_def gen_union_encode_def
  gen_union_decode_def gen_enum32_encode_def gen_enum32_decode_def gen_enum32_arms_def variant_case_def
  parse_container_def parse_field_limit_def parse_variant_case_def flag_def int_value_def gen_encode_access_def
  gen_decode_value_def usize_lit_def i32_lit_def ok_or_def

lemma expand_nfs3:
  "expand_encode decl_Nfstime3 = Ok (Enc_Struct [Encode (Named ''seconds'') (Ty ''u32''), Encode (Named ''nseconds'') (Ty ''u32'')])"
  "expand_decode decl_Nfstime3 = Ok (Dec_Struct (Construct None
     [(Named ''seconds'', Decode (Ty ''u32'')), (Named ''nseconds'', Decode (Ty ''u32''))]))"
  "expand_encode decl_Sattr3 = Ok (Enc_Struct [Encode (Named ''mode'') (Ty_Option (Ty ''u32'')),
     Encode (Named ''uid'') (Ty_Option (Ty ''u32'')), Encode (Named ''gid'') (Ty_Option (Ty ''u32'')),
     Encode (Named ''size'') (Ty_Option (Ty ''u64'')), Encode (Named ''atime'') (Ty ''SetTime''),
     Encode (Named ''mtime'') (Ty ''SetTime'')])"
  "expand_decode decl_Sattr3 = Ok (Dec_Struct (Construct None [(Named ''mode'', Decode (Ty_Option (Ty ''u32''))),
     (Named ''uid'', Decode (Ty_Option (Ty ''u32''))), (Named ''gid'', Decode (Ty_Option (Ty ''u32''))),
     (Named ''size'', Decode (Ty_Option (Ty ''u64''))), (Named ''atime'', Decode (Ty ''SetTime'')),
     (Named ''mtime'', Decode (Ty ''SetTime''))]))"
  "expand_encode decl_SetTime = Ok (Enc_Union [(''DontChange'', 0, []), (''ToServerTime'', 1, []),
     (''ToClientTime'', 2, [Encode (Index 0) (Ty ''Nfstime3'')])])"
  "expand_decode decl_SetTime = Ok (Dec_Union [(0, Construct (Some ''DontChange'') []),
     (1, Construct (Some ''ToServerTime'') []),
     (2, Construct (Some ''ToClientTime'') [(Index 0, Decode (Ty ''Nfstime3''))])])"
  "expand_encode decl_NfsFh3 = Ok (Enc_Struct [Encode_Limited (Named ''data'') (Ty ''Bytes'') 64])"
  "expand_decode decl_NfsFh3 = Ok (Dec_Struct (Construct None [(Named ''data'', Decode_Limited (Ty ''Bytes'') 64)]))"
  by (simp_all add: decl_defs expand_defs)

text \<open>An implementation is the codec \<open>enc\<close>, \<open>dec\<close> of the values \<open>val v\<close>.\<close>

definition implements :: "'p impl \<Rightarrow> 'a encoder \<Rightarrow> 'a decoder \<Rightarrow> ('a \<Rightarrow> 'p xval) \<Rightarrow> bool" where
  "implements im enc dec val \<longleftrightarrow>
     (\<forall>v. im_enc im (val v) = enc v) \<and> im_dec im = dec_bind dec (\<lambda>v. dec_return (val v))"

definition val_Nfstime3 :: "Nfstime3 \<Rightarrow> prim xval" where
  "val_Nfstime3 t = Struct [(Named ''seconds'', Prim (P_u32 (nt_seconds t))), (Named ''nseconds'', Prim (P_u32 (nt_nseconds t)))]"

definition val_NfsFh3 :: "NfsFh3 \<Rightarrow> prim xval" where
  "val_NfsFh3 fh = Struct [(Named ''data'', Prim (P_Bytes (fh_data fh)))]"

fun val_SetTime :: "SetTime \<Rightarrow> prim xval" where
  "val_SetTime DontChange = Variant ''DontChange'' []"
| "val_SetTime ToServerTime = Variant ''ToServerTime'' []"
| "val_SetTime (ToClientTime t) = Variant ''ToClientTime'' [(Index 0, val_Nfstime3 t)]"

definition val_Sattr3 :: "Sattr3 \<Rightarrow> prim xval" where
  "val_Sattr3 s = Struct
     [(Named ''mode'', Opt (map_option (\<lambda>x. Prim (P_u32 x)) (sa3_mode s))),
      (Named ''uid'', Opt (map_option (\<lambda>x. Prim (P_u32 x)) (sa3_uid s))),
      (Named ''gid'', Opt (map_option (\<lambda>x. Prim (P_u32 x)) (sa3_gid s))),
      (Named ''size'', Opt (map_option (\<lambda>x. Prim (P_u64 x)) (sa3_size s))),
      (Named ''atime'', val_SetTime (sa3_atime s)), (Named ''mtime'', val_SetTime (sa3_mtime s))]"

lemma dec_monad:
  "dec_bind (dec_return x) k = k x" "dec_bind (dec_fail e) k = dec_fail e"
  "dec_bind (dec_bind d k) l = dec_bind d (\<lambda>x. dec_bind (k x) l)"
  "dec_bind (if c then d else d') k = (if c then dec_bind d k else dec_bind d' k)"
  by (auto simp: dec_bind_def dec_return_def dec_fail_def fun_eq_iff case_prod_unfold and_then_assoc)

lemma implements_prim:
  "(\<And>x. unwrap (wrap x) = Some x) \<Longrightarrow>
   implements (prim_impl enc dec len ok wrap unwrap) enc dec (\<lambda>x. Prim (wrap x))"
  by (simp add: implements_def prim_impl_def)

lemma implements_option:
  assumes "implements im enc dec val"
  shows "implements (option_impl im) (encode_Option enc) (decode_Option dec) (\<lambda>v. Opt (map_option val v))"
proof -
  have "encode_Option (im_enc im) (map_option val v) = encode_Option enc v" for v
    using assms by (cases v) (simp_all add: implements_def encode_Option_eq)
  moreover have "decode_Option (dec_bind dec (\<lambda>v. dec_return (val v))) =
      dec_bind (decode_Option dec) (\<lambda>v. dec_return (map_option val v))"
    by (simp add: decode_Option_def dec_monad cong: if_cong)
  ultimately show ?thesis
    using assms by (simp add: implements_def option_impl_def dec_monad)
qed

lemma derive_step:
  assumes "rustc_accepts env (di_data d)" "expand_encode d = Ok ce" "expand_decode d = Ok cd"
  shows "derive_all env (d # ds) = derive_all (env(di_ident d \<mapsto> derived env (di_data d) ce cd)) ds"
  using assms by (simp add: derive_impl_def)

lemma std_lookup:
  "std_impls ''u32'' = Some (prim_impl encode_u32 decode_u32 None (\<lambda>_. True) P_u32 un_u32)"
  "std_impls ''u64'' = Some (prim_impl encode_u64 decode_u64 None (\<lambda>_. True) P_u64 un_u64)"
  "std_impls ''Bytes'' = Some (prim_impl encode_Bytes decode_Bytes (Some xdr_len) (\<lambda>_. True) P_Bytes un_Bytes)"
  by (simp_all add: std_impls_def)

lemma implements_Nfstime3:
  assumes "env ''u32'' = std_impls ''u32''" "expand_encode decl_Nfstime3 = Ok ce" "expand_decode decl_Nfstime3 = Ok cd"
  shows "implements (derived env (di_data decl_Nfstime3) ce cd) encode_Nfstime3 decode_Nfstime3 val_Nfstime3"
  using assms(2,3) unfolding expand_nfs3
  by (auto simp: implements_def val_Nfstime3_def assms(1) std_lookup prim_impl_def encode_Nfstime3_def
      decode_Nfstime3_def dec_monad)

lemma implements_NfsFh3:
  assumes "env ''Bytes'' = std_impls ''Bytes''" "expand_encode decl_NfsFh3 = Ok ce" "expand_decode decl_NfsFh3 = Ok cd"
  shows "implements (derived env (di_data decl_NfsFh3) ce cd) encode_NfsFh3 decode_NfsFh3 val_NfsFh3"
proof -
  have "encode_access (prim_enc encode_Bytes un_Bytes) xdr_len (Some 64) (Prim (P_Bytes b)) =
      encode_access encode_Bytes length (Some 64) b" for b
    by (simp add: encode_access_def Let_def)
  moreover have "decode_value (dec_bind decode_Bytes (\<lambda>x. dec_return (Prim (P_Bytes x)))) xdr_len (Some 64) =
      dec_bind (decode_value decode_Bytes length (Some 64)) (\<lambda>x. dec_return (Prim (P_Bytes x)))"
    by (simp add: decode_value_def dec_monad Let_def cong: if_cong)
  ultimately show ?thesis
    using assms(2,3) unfolding expand_nfs3
    by (auto simp: implements_def val_NfsFh3_def assms(1) std_lookup prim_impl_def encode_NfsFh3_def
        decode_NfsFh3_def dec_monad)
qed

lemma implements_SetTime:
  assumes "env ''Nfstime3'' = Some im" "implements im encode_Nfstime3 decode_Nfstime3 val_Nfstime3"
    and "expand_encode decl_SetTime = Ok ce" "expand_decode decl_SetTime = Ok cd"
  shows "implements (derived env (di_data decl_SetTime) ce cd) encode_SetTime decode_SetTime val_SetTime"
proof -
  have "run_enc env ce (val_SetTime v) = encode_SetTime v" for v
    using assms unfolding expand_nfs3 by (cases v) (auto simp: implements_def)
  moreover have "run_dec env cd = dec_bind decode_SetTime (\<lambda>v. dec_return (val_SetTime v))"
  proof -
    have "cd = Dec_Union [(0, Construct (Some ''DontChange'') []), (1, Construct (Some ''ToServerTime'') []),
        (2, Construct (Some ''ToClientTime'') [(Index 0, Decode (Ty ''Nfstime3''))])]"
      using assms(4) unfolding expand_nfs3 by simp
    then show ?thesis
      using assms(1,2) by (auto simp: implements_def decode_SetTime_def union_decode_def dec_monad
          intro!: arg_cong[where f = "dec_bind decode_i32"])
  qed
  ultimately show ?thesis
    by (simp add: implements_def)
qed

lemma implements_Sattr3:
  assumes "env ''u32'' = std_impls ''u32''" "env ''u64'' = std_impls ''u64''" "env ''SetTime'' = Some im"
    and "implements im encode_SetTime decode_SetTime val_SetTime"
    and "expand_encode decl_Sattr3 = Ok ce" "expand_decode decl_Sattr3 = Ok cd"
  shows "implements (derived env (di_data decl_Sattr3) ce cd) encode_Sattr3 decode_Sattr3 val_Sattr3"
proof -
  have u: "implements (option_impl (prim_impl encode_u32 decode_u32 None (\<lambda>_. True) P_u32 un_u32))
      (encode_Option encode_u32) (decode_Option decode_u32) (\<lambda>v. Opt (map_option (\<lambda>x. Prim (P_u32 x)) v))"
    "implements (option_impl (prim_impl encode_u64 decode_u64 None (\<lambda>_. True) P_u64 un_u64))
      (encode_Option encode_u64) (decode_Option decode_u64) (\<lambda>v. Opt (map_option (\<lambda>x. Prim (P_u64 x)) v))"
    by (intro implements_option implements_prim; simp)+
  show ?thesis
    using assms(3-6) u unfolding expand_nfs3 implements_def
    by (auto simp: assms(1,2) std_lookup val_Sattr3_def encode_Sattr3_def decode_Sattr3_def dec_monad)
qed

lemma nfs3_derived:
  "\<exists>env sattr fh. derive_all std_impls nfs3_decls = Some env \<and>
     env ''Sattr3'' = Some sattr \<and> implements sattr encode_Sattr3 decode_Sattr3 val_Sattr3 \<and>
     env ''NfsFh3'' = Some fh \<and> implements fh encode_NfsFh3 decode_NfsFh3 val_NfsFh3"
proof -
  obtain ce1 cd1 ce2 cd2 ce3 cd3 ce4 cd4 where c: "expand_encode decl_Nfstime3 = Ok ce1" "expand_decode decl_Nfstime3 = Ok cd1"
    "expand_encode decl_NfsFh3 = Ok ce2" "expand_decode decl_NfsFh3 = Ok cd2" "expand_encode decl_SetTime = Ok ce3"
    "expand_decode decl_SetTime = Ok cd3" "expand_encode decl_Sattr3 = Ok ce4" "expand_decode decl_Sattr3 = Ok cd4"
    by (simp add: expand_nfs3)
  define e1 where "e1 = std_impls(''Nfstime3'' \<mapsto> derived std_impls (di_data decl_Nfstime3) ce1 cd1)"
  define e2 where "e2 = e1(''NfsFh3'' \<mapsto> derived e1 (di_data decl_NfsFh3) ce2 cd2)"
  define e3 where "e3 = e2(''SetTime'' \<mapsto> derived e2 (di_data decl_SetTime) ce3 cd3)"
  define e4 where "e4 = e3(''Sattr3'' \<mapsto> derived e3 (di_data decl_Sattr3) ce4 cd4)"
  have look: "e1 ''Bytes'' = std_impls ''Bytes''" "e2 ''Nfstime3'' = Some (derived std_impls (di_data decl_Nfstime3) ce1 cd1)"
    "e3 ''u32'' = std_impls ''u32''" "e3 ''u64'' = std_impls ''u64''" "e1 ''u32'' = std_impls ''u32''" "e2 ''u32'' = std_impls ''u32''"
    "e3 ''SetTime'' = Some (derived e2 (di_data decl_SetTime) ce3 cd3)"
    "e4 ''Sattr3'' = Some (derived e3 (di_data decl_Sattr3) ce4 cd4)" "e4 ''NfsFh3'' = Some (derived e1 (di_data decl_NfsFh3) ce2 cd2)"
    by (simp_all add: e1_def e2_def e3_def e4_def)
  have r: "rustc_accepts std_impls (di_data decl_Nfstime3)" "rustc_accepts e1 (di_data decl_NfsFh3)"
    "rustc_accepts e2 (di_data decl_SetTime)" "rustc_accepts e3 (di_data decl_Sattr3)"
    by (simp_all add: decl_defs fields_check_def field_checks_def std_lookup look prim_impl_def parse_field_limit_def)
  have "derive_all std_impls nfs3_decls = Some e4"
    unfolding nfs3_decls_def derive_step[OF r(1) c(1,2)]
    using derive_step[OF r(2) c(3,4)] derive_step[OF r(3) c(5,6)] derive_step[OF r(4) c(7,8)]
    by (simp add: e1_def e2_def e3_def e4_def decl_defs del: derive_all.simps(2))
  moreover have "implements (derived e3 (di_data decl_Sattr3) ce4 cd4) encode_Sattr3 decode_Sattr3 val_Sattr3"
    by (intro implements_Sattr3[where env = e3, OF look(3,4,7) _ c(7,8)] implements_SetTime[where env = e2, OF look(2) _ c(5,6)]
        implements_Nfstime3[where env = std_impls, OF refl c(1,2)])
  moreover have "implements (derived e1 (di_data decl_NfsFh3) ce2 cd2) encode_NfsFh3 decode_NfsFh3 val_NfsFh3"
    by (rule implements_NfsFh3[where env = e1, OF look(1) c(3,4)])
  ultimately show ?thesis
    using look(8,9) by blast
qed


lemma nfs3_cases: "list_all (\<lambda>d. cases_distinct (di_data d)) nfs3_decls"
  by (simp add: decl_defs expand_defs cases_distinct_def)

lemma ex_handle:
  obtains env im where "derive_all std_impls nfs3_decls = Some env" "env ''NfsFh3'' = Some im"
    "im_enc im (val_NfsFh3 \<lparr>fh_data = [1, 2, 3, 4]\<rparr>) [] = Ok [0, 0, 0, 4, 1, 2, 3, 4]"
    "im_dec im [0, 0, 0, 4, 1, 2, 3, 4] = Ok (val_NfsFh3 \<lparr>fh_data = [1, 2, 3, 4]\<rparr>, [])"
proof -
  obtain env im where e: "derive_all std_impls nfs3_decls = Some env" "env ''NfsFh3'' = Some im"
    "implements im encode_NfsFh3 decode_NfsFh3 val_NfsFh3"
    using nfs3_derived by blast
  have enc: "encode_NfsFh3 \<lparr>fh_data = [1, 2, 3, 4]\<rparr> [] = Ok [0, 0, 0, 4, 1, 2, 3, 4]"
    by (simp add: encode_NfsFh3_def encode_access_def enc_seq_def enc_done_def encode_Bytes_def encode_opaque_eq
        usize_max_def u32_max_def padding_def) code_simp
  moreover have "decode_NfsFh3 ([0, 0, 0, 4, 1, 2, 3, 4] @ []) = Ok (\<lparr>fh_data = [1, 2, 3, 4]\<rparr>, [])"
    using wire_rt_NfsFh3 enc unfolding wire_rt_def by blast
  ultimately show thesis
    using that[OF e(1,2)] e(3) by (simp add: implements_def dec_bind_def dec_return_def)
qed



text \<open>
  The cases of a union are not compared, and a case is cut to 32 bits: a union with the cases 0 and
  4294967296 is accepted, and its second variant is sent as the first.
\<close>

definition decl_twice :: DeriveInput where
  "decl_twice = \<lparr>di_attrs = [xdr_attr ''union'' None], di_ident = ''Twice'',
     di_data = Data_Enum [case_variant 0 ''A'' Fields_Unit, case_variant 4294967296 ''B'' Fields_Unit]\<rparr>"

lemma duplicate_case_lost:
  "\<exists>env im. derive_all std_impls [decl_twice] = Some env \<and> env ''Twice'' = Some im \<and>
     im_enc im (Variant ''B'' []) [] = Ok [0, 0, 0, 0] \<and> im_dec im [0, 0, 0, 0] = Ok (Variant ''A'' [], [])"
proof -
  have "expand_encode decl_twice = Ok (Enc_Union [(''A'', 0, []), (''B'', 0, [])])"
    "expand_decode decl_twice = Ok (Dec_Union [(0, Construct (Some ''A'') []), (0, Construct (Some ''B'') [])])"
    by (simp_all add: decl_twice_def decl_defs expand_defs)
  moreover have "rustc_accepts std_impls (di_data decl_twice)"
    by (simp add: decl_twice_def decl_defs fields_check_def)
  moreover have w: "be_bytes 4 (0 :: u32) = [0, 0, 0, 0]"
    by code_simp
  moreover have "decode_i32 [0, 0, 0, 0] = Ok (0, [])"
    using decode_words_be(2)[of 0 "[]"] w by simp
  moreover have "di_ident decl_twice = ''Twice''"
    by (simp add: decl_twice_def)
  ultimately show ?thesis
    by (simp add: derive_impl_def dec_monad union_encode_def union_decode_def enc_seq_def enc_done_def dec_bind_def
        dec_return_def)
qed

end
