(* ===== verification/Spec2Isabelle.thy ===== *)
theory Spec2Isabelle
  imports NFS3_Server Services_Server NFS4_Wire Backend_Listing VFS_Exchange VFS_Whole VFS_Mount Async_Context RPC_Async C_API_Panics XDR_Expand
begin

text \<open>
  A verification of \<open>libnfs-rs\<close>, an NFS client in Rust: NFS versions 3, 4.0 and 4.1 over ONC RPC,
  on TCP, UDP and TLS, with a file-system interface, an asynchronous interface and a C interface.

  \<^bold>\<open>The parts and how they interact.\<close> From the wire up: the XDR codec (crate \<open>nfs-xdr\<close>) with its
  derive macros (\<open>nfs-xdr-derive\<close>); record marking, RPC messages and the RPC clients
  (\<open>nfs-rpc\<close>); the remote procedures of the portmapper, the mount daemon, the lock and status
  managers, the quota daemon, NFSv3 and NFSv4 (\<open>nfs-proto\<close>); the two backends behind one interface,
  the path resolution and transfers above them, URLs and mounts (\<open>nfs-client\<close>); the handle shared
  by asynchronous tasks; and the functions exported to C (\<open>nfs-capi\<close>). Each layer calls the one below
  it; the only state that is shared between callers is the context behind the mutex of the
  asynchronous handle and the memory that crosses the C boundary.

  \<^bold>\<open>Conventions.\<close> Integers are words of their width, \<open>usize\<close> is \<open>nat\<close>, a buffer is the list of its bytes,
  a Rust string the list of its UTF-8 bytes. A fallible function returns \<open>Ok\<close>, \<open>Err\<close> or \<open>Panic\<close>;
  a stateful one is an \<open>op\<close>, from a state to an outcome and a state, with \<open>None\<close> for a
  function that still waits when the script of the operating system has run out. That script (\<open>net\<close>)
  holds the answers of the socket calls, and what the program does to the network is logged in it;
  theorems quantify over all scripts.

  \<^bold>\<open>Theories, by source file.\<close>
  \<^item> \<open>NFS_Prelude\<close>: machine types, outcomes, operations on a state with their safety and
    construction rules (collections \<open>op_safe\<close>), conversations of operations, big-endian bytes.
  \<^item> \<open>XDR_Codec\<close> (\<open>nfs-xdr/src/codec.rs\<close>, \<open>impls.rs\<close>, \<open>error.rs\<close>): every encoder and decoder. Locales
    \<open>xdr_decoder\<close>, \<open>xdr_encoder\<close>, \<open>xdr_codec\<close> state the contract (no panic, a suffix is left,
    an answer does not depend on what follows, alignment, round trip), collections \<open>xdr_dec\<close>,
    \<open>xdr_enc\<close>, \<open>xdr_rt\<close> prove it of all types.
  \<^item> \<open>XDR_Derive\<close>, \<open>XDR_Expand\<close> (\<open>nfs-xdr-derive/src/lib.rs\<close>): the generated code as combinators, and the
    macros as a compiler from declarations to that code. Derived codecs round trip, are type safe,
    the two macros agree, and the generated code of declarations of \<open>nfs3.rs\<close> is the codec that
    models them.
  \<^item> \<open>RPC_Record\<close> (\<open>record.rs\<close>): framing and the reassembler; delivery of exactly the records sent,
    independence of how the stream is cut, bounded memory.
  \<^item> \<open>RPC_Message\<close> (\<open>message.rs\<close>, \<open>auth.rs\<close>): call header, credentials, reply parser, against a
    server's reading of the call and its writing of every reply.
  \<^item> \<open>RPC_Client\<close> (\<open>client.rs\<close>), \<open>RPC_Async\<close> (\<open>client_async.rs\<close>), \<open>RPC_TLS\<close> (\<open>client_tls.rs\<close>): calls,
    matching of replies, retries and reconnection, the TLS probe. A call returns the reply that
    carries its transaction id, sends at most three times the same bytes, and ends; the asynchronous
    client computes the same on a network without timeouts and interruptions.
  \<^item> \<open>Proto_Base\<close>, \<open>Portmap\<close>, \<open>Mount\<close>, \<open>NLM\<close>, \<open>Rquota\<close>, \<open>Connect\<close> (\<open>nfs-proto\<close>): the shape of a remote
    procedure, the small protocols, and the flow that finds the server.
  \<^item> \<open>Proto_Server\<close>: the other end of a call. A server splits a message into the call header and the arguments
    of the procedure that the header names; the locale \<open>rpc_service\<close> takes procedures that make one call
    each, in a form the server can read, and gives that every message transmitted is read as the request made.
    \<open>Services_Server\<close> interprets it on the small protocols, \<open>NFS3_Server\<close> on NFSv3.
  \<^item> \<open>NFS3_Types\<close>, \<open>NFS3\<close>, \<open>NFS3_Server\<close> (\<open>nfs3.rs\<close>): all types with codecs, the procedures, and a
    server's reading of every message they transmit.
  \<^item> \<open>NFS4_Types\<close>, \<open>NFS4\<close>, \<open>NFS4_Server\<close>, \<open>NFS4_Wire\<close> (\<open>nfs4.rs\<close>): bitmaps, attributes, COMPOUND requests and
    results, the retry loop, open and lock state; a server's reading of every builder of a request, and
    of every message of every procedure, which may be several COMPOUNDs with repetitions.
  \<^item> \<open>VFS_Base\<close> (\<open>error.rs\<close>, \<open>attr.rs\<close>, \<open>backend.rs\<close>): the vocabulary and the interface of a backend, with
    its promise as the locale \<open>vfs_backend\<close>; \<open>Backend_V3\<close>, \<open>Backend_V4\<close> interpret it. \<open>Backend_Listing\<close>
    has the paging loop of \<open>readdir\<close> as the locale \<open>paged_listing\<close>, interpreted on both backends: a listing is
    the whole directory however it is paged. \<open>Error_Text\<close> has the texts of all errors of the four crates.
  \<^item> \<open>VFS_Url\<close> (\<open>url.rs\<close>), \<open>VFS_Context\<close>, \<open>VFS_Mount\<close> (\<open>context.rs\<close>): URLs, the context and the mounts.
    \<open>VFS_Path\<close> refines path resolution to a walk in a tree, \<open>VFS_Transfer\<close> gives reading and
    writing in pieces, \<open>VFS_Whole\<close> that a whole file written is read back, over the specification
    \<open>file_server\<close> of a server of files, \<open>VFS_Progress\<close> that calls return when the backend does. \<open>VFS_Exchange\<close> gives reading and writing over
    NFSv3 from the answers that actually came, as \<open>Backend_Listing\<close> does for directories: a \<open>conversation\<close>
    (\<open>NFS_Prelude\<close>) lists the calls made with their answers, and a property says what answers of a server of a
    file make of the result, with no assumption on the network.
  \<^item> \<open>Async_Context\<close> (\<open>async_context.rs\<close>): tasks, mutex and poisoning as a step relation; results are those
    of some serial order, no task is stuck, none panics after a mount.
  \<^item> \<open>C_API\<close>, \<open>C_API_Panics\<close> (\<open>nfs-capi/src/lib.rs\<close>): the exported functions over an explicit memory;
    no undefined behaviour and exact ownership for a program that keeps to the rules. The
    property below joins it to the mounts and the backends.

  \<^bold>\<open>Bounds.\<close> The loop over an XDR list (\<open>decode_rounds\<close>, \<open>rd_rounds\<close>) is given as many rounds as
    there are bytes, and every round takes four, so the bound is never met. Loops that read the network
    consume its script, path resolution is bounded by the 40 links of the source together with the
    length of the path, transfers by the bytes left; all are total functions. A COMPOUND is sent
    at most six times, a call at most three.

  \<^bold>\<open>Arguments of the model.\<close> The name service, the rustls library, the process id, the clocks, and for
    the C interface the texts of operating-system errors and of JSON values (\<open>serde_json\<close>) are parameters.

  \<^bold>\<open>Not modelled.\<close> The length of pauses and of timeouts (a deadline is an event of the script); the parser
    \<open>syn\<close> and generic parameters of derived declarations; the accessor \<open>rpc_mut\<close>, which hands
    out the inner client; the re-exports of the \<open>lib.rs\<close> files, the examples, tests and fuzz targets; the
    documentation texts.
\<close>

text \<open>
  C10: no call of the C interface ends in a panic of the library below it. From handles that were
  mounted over either version and any transport (none at the start of a program), after any
  sequence of calls of the interface, whatever the servers answer, the next operation on
  any live handle returns a result or an error: the branch that reports a caught panic is never
  taken.
\<close>

theorem capi_context_never_panics:
  assumes "\<forall>q g. ca_handles s0 q = Some g \<longrightarrow> mounted (ch_ctx g)" "c_run env s0 log s"
    and "ca_handles s p = Some h" "run_mounted pid req (ch_ctx h) (ca_net s) = Some (r, ctx', n')"
  shows "r \<noteq> Panic"
proof -
  have "handles_ok s0"
    using assms(1) by (auto simp: handles_ok_def intro: mounted_is_ok)
  from c_run_keeps[OF assms(2) this] assms(3) have "mounted_ok (ch_ctx h) (ca_net s)"
    by (simp add: handles_ok_def)
  from run_mounted_safe[OF this assms(4)] show ?thesis by blast
qed

theorem capi_context_never_panics_example:
  "\<exists>h s r ctx' n'. ca_handles s 2 = Some h \<and> c_run ex_env s [] s \<and>
     run_mounted 7 (Cc_mkdir ''/'') (ch_ctx h) (ca_net s) = Some (r, ctx', n') \<and> r \<noteq> Panic"
proof -
  obtain b n where m: "mount_v3 ex_lookup 7 99 ex_mount_url Cred_None 5 ex_mount_net = Some (Ok (b, [1, 2, 3, 4]), n)"
    using ex_mount_v3 by blast
  let ?h = "\<lparr>ch_ctx = Mounted_V3 b [1, 2, 3, 4], ch_last_error = []\<rparr>"
  let ?s = "(capi_start n)\<lparr>ca_handles := [2 \<mapsto> ?h], ca_next := 3\<rparr>"
  have h: "\<forall>q g. ca_handles ?s q = Some g \<longrightarrow> mounted (ch_ctx g)" "ca_handles ?s 2 = Some ?h"
    using by_v3[OF m] by auto
  have "split_components ''/'' = []"
    by (simp add: split_components_def)
  then have "run_mounted 7 (Cc_mkdir ''/'') (ch_ctx ?h) (ca_net ?s)
      = Some (Err (InvalidPath ''/''), Mounted_V3 b [1, 2, 3, 4], ca_net ?s)"
    by (simp add: value_of_def cx_mkdir_def resolve_parent_def op_bind_def op_lift_def)
  from h(2) c_run_nil this capi_context_never_panics[OF h(1) c_run_nil h(2) this] show ?thesis
    by blast
qed

end
